(* ===== verification/Prelude.thy ===== *)
theory Prelude
  imports Main "HOL-Library.Word"
begin

text \<open>
  Shared vocabulary of the development: Go errors as a datatype and Go's \<open>(value, error)\<close>
  results as sums, Go maps as partial functions with an explicit iteration order (Go leaves the
  order of \<open>range\<close> over a map unspecified, so every definition that iterates over a map takes
  the visited keys as an argument), and the generic lemmas on lists and maps that the component
  theories use. \<open>order_simps\<close> collects the rewrite rules about iteration orders,
  \<open>eval_simps\<close> the equations that evaluate the model on a concrete input, and
  \<open>frame_simps\<close> the facts that an operation leaves a part of the state alone.
\<close>

named_theorems order_simps
named_theorems eval_simps
named_theorems frame_simps

subsection \<open>Errors and results\<close>

text \<open>\<open>ErrNil\<close> is the distinguished \<open>redis.ErrNil\<close>; every other \<open>error\<close> value
  is its message.\<close>

datatype go_error = ErrNil | GoErr string

type_synonym 'a result = "go_error + 'a"

definition ok_result :: "'a result \<Rightarrow> bool" where
  "ok_result r \<longleftrightarrow> (case r of Inl _ \<Rightarrow> False | Inr _ \<Rightarrow> True)"

lemma ok_result_simps [simp]: "ok_result (Inr x)" "\<not> ok_result (Inl e)"
  by (simp_all add: ok_result_def)

lemma ok_result_iff: "ok_result r \<longleftrightarrow> (\<exists>x. r = Inr x)"
  by (cases r) simp_all

text \<open>\<open>err.Error()\<close>\<close>

definition error_text :: "go_error \<Rightarrow> string" where
  "error_text err = (case err of ErrNil \<Rightarrow> ''redigo: nil returned'' | GoErr t \<Rightarrow> t)"

text \<open>\<open>_, err := f()\<close>: the caller keeps the error only.\<close>

definition drop_value :: "'a result \<Rightarrow> go_error option" where
  "drop_value r = (case r of Inl e \<Rightarrow> Some e | Inr _ \<Rightarrow> None)"

lemma drop_value_simps [simp]: "drop_value (Inr x) = None" "drop_value (Inl e) = Some e"
  by (simp_all add: drop_value_def)

lemma drop_value_None_iff: "drop_value r = None \<longleftrightarrow> ok_result r"
  by (cases r) simp_all

text \<open>\<open>v, _ := f()\<close>: the caller keeps the value, which is the zero value \<open>z\<close> on an error.\<close>

definition value_or :: "'a \<Rightarrow> 'a result \<Rightarrow> 'a" where
  "value_or z r = (case r of Inl _ \<Rightarrow> z | Inr x \<Rightarrow> x)"

lemma value_or_simps [simp]: "value_or z (Inr x) = x" "value_or z (Inl e) = z"
  by (simp_all add: value_or_def)

subsection \<open>Iterating over a Go map\<close>

text \<open>\<open>map_order m ks\<close>: \<open>ks\<close> is one order in which \<open>range m\<close> may visit the keys of \<open>m\<close>.\<close>

definition map_order :: "('k \<Rightarrow> 'v option) \<Rightarrow> 'k list \<Rightarrow> bool" where
  "map_order m ks \<longleftrightarrow> distinct ks \<and> set ks = dom m"

lemma map_order_empty [simp]: "map_order Map.empty ks \<longleftrightarrow> ks = []"
  by (auto simp: map_order_def)

lemma map_order_mem [order_simps]: "map_order m ks \<Longrightarrow> k \<in> set ks \<longleftrightarrow> (\<exists>v. m k = Some v)"
  by (auto simp: map_order_def)

lemma map_order_distinct [order_simps]: "map_order m ks \<Longrightarrow> distinct ks"
  by (simp add: map_order_def)

lemma map_order_single [simp]: "map_order [k \<mapsto> v] [k]"
  by (simp add: map_order_def)

lemma map_order_exists: "finite (dom m) \<Longrightarrow> \<exists>ks. map_order m ks"
  by (metis finite_distinct_list map_order_def)

lemma map_order_length: "map_order m ks \<Longrightarrow> length ks = card (dom m)"
  by (metis distinct_card map_order_def)

text \<open>The values met on the way.\<close>

definition range_values :: "('k \<Rightarrow> 'v option) \<Rightarrow> 'k list \<Rightarrow> 'v list" where
  "range_values m ks = List.map_filter m ks"

lemma range_values_simps [simp]:
  "range_values m [] = []"
  "range_values m (k # ks) = (case m k of None \<Rightarrow> range_values m ks | Some v \<Rightarrow> v # range_values m ks)"
  by (simp_all add: range_values_def List.map_filter_simps split: option.splits)

lemma set_range_values: "set (range_values m ks) = {v. \<exists>k\<in>set ks. m k = Some v}"
  by (induction ks) (auto split: option.splits)

lemma set_range_values_order [order_simps]: "map_order m ks \<Longrightarrow> set (range_values m ks) = ran m"
  by (auto simp: set_range_values map_order_def ran_def dom_def)

subsection \<open>Lists\<close>

lemma distinct_remove_nth: "distinct xs \<Longrightarrow> distinct (take i xs @ drop (Suc i) xs)"
  by (auto simp: distinct_append dest: set_take_disj_set_drop_if_distinct[of xs i "Suc i"])

lemma set_remove_nth: "distinct xs \<Longrightarrow> i < length xs \<Longrightarrow>
  set (take i xs @ drop (Suc i) xs) = set xs - {xs ! i}"
proof -
  assume d: "distinct xs" and i: "i < length xs"
  have "xs = take i xs @ xs ! i # drop (Suc i) xs" using i by (simp add: id_take_nth_drop)
  with d show ?thesis
    by (metis (no_types, lifting) Un_insert_right Diff_insert_absorb distinct.simps(2)
        distinct_append list.simps(15) set_append disjoint_insert(1) UnE)
qed

lemma length_remove_nth: "i < length xs \<Longrightarrow> length (take i xs @ drop (Suc i) xs) = length xs - 1"
  by simp

lemma drop_last: "xs \<noteq> [] \<Longrightarrow> drop (length xs - 1) xs = [last xs]"
  by (metis append_butlast_last_id append_eq_conv_conj length_butlast)

lemma take_append_take: "take n (take n xs @ ys) = take n xs" if "n \<le> length xs"
  using that by simp

lemma fold_invariant: "(\<And>x s. x \<in> set xs \<Longrightarrow> P s \<Longrightarrow> P (f x s)) \<Longrightarrow> P s \<Longrightarrow> P (fold f xs s)"
  by (induction xs arbitrary: s) auto

lemma fold_unchanged: "(\<And>x s. x \<in> set xs \<Longrightarrow> g (f x s) = g s) \<Longrightarrow> g (fold f xs s) = g s"
  by (induction xs arbitrary: s) auto

end
