(* ===== verification/Go_Strings.thy ===== *)
theory Go_Strings
  imports Prelude "HOL-Library.Char_ord"
begin

text \<open>
  The functions of Go's packages \<open>strings\<close> and \<open>strconv\<close> that the repository calls, on byte
  strings. Go strings and byte slices are byte sequences; both are \<open>string\<close> here, as an
  Isabelle \<open>char\<close> is a byte. \<open>FormatInt\<close> and \<open>ParseInt\<close> are Go's base-10 conversions with the
  64-bit range check; \<open>Split\<close>, \<open>SplitN\<close> and \<open>Join\<close> are for a one-byte separator, which is how
  the code uses them.
\<close>

subsection \<open>Bytes\<close>

definition byte_val :: "char \<Rightarrow> nat" where
  "byte_val c = of_char c"

definition byte_chr :: "nat \<Rightarrow> char" where
  "byte_chr n = char_of n"

lemma byte_val_less [simp]: "byte_val c < 256"
  by (simp add: byte_val_def)

lemma byte_val_chr [simp]: "byte_val (byte_chr n) = n mod 256"
  by (simp add: byte_val_def byte_chr_def)

lemma byte_chr_val [simp]: "byte_chr (byte_val c) = c"
  by (simp add: byte_val_def byte_chr_def)

lemma byte_chr_eq_iff: "n < 256 \<Longrightarrow> byte_chr n = c \<longleftrightarrow> n = byte_val c"
  by (metis byte_chr_val byte_val_chr mod_less)

lemma byte_val_inject [simp]: "byte_val c = byte_val d \<longleftrightarrow> c = d"
  by (metis byte_chr_val)

subsection \<open>Decimal numbers (strconv)\<close>

definition is_digit :: "char \<Rightarrow> bool" where
  "is_digit c \<longleftrightarrow> 48 \<le> byte_val c \<and> byte_val c \<le> 57"

definition digit_chr :: "nat \<Rightarrow> char" where
  "digit_chr d = byte_chr (48 + d)"

definition digit_num :: "char \<Rightarrow> nat" where
  "digit_num c = byte_val c - 48"

lemma digit_num_chr [simp]: "d < 10 \<Longrightarrow> digit_num (digit_chr d) = d"
  by (simp add: digit_num_def digit_chr_def)

lemma is_digit_chr [simp]: "d < 10 \<Longrightarrow> is_digit (digit_chr d)"
  by (simp add: is_digit_def digit_chr_def)

fun format_nat :: "nat \<Rightarrow> string" where
  "format_nat n = (if n < 10 then [digit_chr n] else format_nat (n div 10) @ [digit_chr (n mod 10)])"

declare format_nat.simps [simp del]

lemma format_nat_nonempty [simp]: "format_nat n \<noteq> []"
  by (subst format_nat.simps) simp

lemma format_nat_digits: "list_all is_digit (format_nat n)"
proof (induction n rule: format_nat.induct)
  case (1 n)
  then show ?case by (cases "n < 10") (simp_all add: format_nat.simps[of n])
qed

text \<open>\<open>strconv.FormatInt(n, 10)\<close>, also \<open>strconv.Itoa\<close> and the verb \<open>%d\<close>.\<close>

definition FormatInt :: "int \<Rightarrow> string" where
  "FormatInt i = (if i < 0 then CHR ''-'' # format_nat (nat (- i)) else format_nat (nat i))"

definition digits_num :: "string \<Rightarrow> nat" where
  "digits_num ds = foldl (\<lambda>a c. 10 * a + digit_num c) 0 ds"

definition int64_range :: "int \<Rightarrow> bool" where
  "int64_range i \<longleftrightarrow> - (2 ^ 63) \<le> i \<and> i < 2 ^ 63"

text \<open>Arithmetic on \<open>int64\<close> values, which wraps.\<close>

definition wrap64 :: "int \<Rightarrow> int" where
  "wrap64 i = (i + 2 ^ 63) mod 2 ^ 64 - 2 ^ 63"

text \<open>\<open>strconv.ParseInt(s, 10, 64)\<close>, also \<open>strconv.Atoi\<close>: an optional sign and one or more
  digits, in range; \<open>None\<close> is a syntax or range error.\<close>

definition ParseInt :: "string \<Rightarrow> int option" where
  "ParseInt s =
    (let (neg, ds) = (case s of
         [] \<Rightarrow> (False, [])
       | c # cs \<Rightarrow> if c = CHR ''-'' then (True, cs) else if c = CHR ''+'' then (False, cs) else (False, s))
     in if ds = [] \<or> \<not> list_all is_digit ds then None
        else let i = (if neg then - int (digits_num ds) else int (digits_num ds))
             in if int64_range i then Some i else None)"

lemma digits_num_append: "digits_num (ds @ [c]) = 10 * digits_num ds + digit_num c"
  by (simp add: digits_num_def)

lemma digits_num_format [simp]: "digits_num (format_nat n) = n"
proof (induction n rule: format_nat.induct)
  case (1 n)
  show ?case
  proof (cases "n < 10")
    case True
    then show ?thesis by (simp add: format_nat.simps[of n] digits_num_def)
  next
    case False
    then show ?thesis
      using 1 by (simp add: format_nat.simps[of n] digits_num_append)
  qed
qed

lemma format_nat_hd: "format_nat n = c # cs \<Longrightarrow> is_digit c"
  using format_nat_digits[of n] by simp

lemma not_digit_sign: "\<not> is_digit (CHR ''-'')" "\<not> is_digit (CHR ''+'')"
  by (simp_all add: is_digit_def byte_val_def)

lemma ParseInt_FormatInt: "int64_range i \<Longrightarrow> ParseInt (FormatInt i) = Some i"
proof -
  assume r: "int64_range i"
  show ?thesis
  proof (cases "i < 0")
    case True
    then show ?thesis using r format_nat_digits[of "nat (- i)"]
      by (simp add: ParseInt_def FormatInt_def)
  next
    case False
    obtain c cs where f: "format_nat (nat i) = c # cs" by (cases "format_nat (nat i)") auto
    then have "c \<noteq> CHR ''-''" "c \<noteq> CHR ''+''" using format_nat_hd not_digit_sign by metis+
    then show ?thesis using r False f format_nat_digits[of "nat i"] digits_num_format[of "nat i"]
      by (simp add: ParseInt_def FormatInt_def)
  qed
qed

lemma ParseInt_range: "ParseInt s = Some i \<Longrightarrow> int64_range i"
  by (auto simp: ParseInt_def Let_def split: prod.splits if_splits)

lemma format_nat_inj: "format_nat m = format_nat n \<Longrightarrow> m = n"
  by (metis digits_num_format)

lemma FormatInt_inj: "FormatInt i = FormatInt j \<Longrightarrow> i = j"
proof (cases "i < 0"; cases "j < 0")
  assume "FormatInt i = FormatInt j" "i < 0" "j < 0"
  then show "i = j" using format_nat_inj[of "nat (- i)" "nat (- j)"] by (simp add: FormatInt_def)
next
  assume *: "FormatInt i = FormatInt j" "i < 0" "\<not> j < 0"
  then show "i = j" using format_nat_hd[of "nat j" "CHR ''-''"] not_digit_sign
    by (metis FormatInt_def)
next
  assume *: "FormatInt i = FormatInt j" "\<not> i < 0" "j < 0"
  then show "i = j" using format_nat_hd[of "nat i" "CHR ''-''"] not_digit_sign
    by (metis FormatInt_def)
next
  assume "FormatInt i = FormatInt j" "\<not> i < 0" "\<not> j < 0"
  then show "i = j" using format_nat_inj[of "nat i" "nat j"] by (simp add: FormatInt_def)
qed

subsection \<open>strings\<close>

text \<open>\<open>strings.Split(s, sep)\<close> for a one-byte \<open>sep\<close>: always at least one piece.\<close>

fun Split :: "char \<Rightarrow> string \<Rightarrow> string list" where
  "Split sep [] = [[]]"
| "Split sep (c # cs) =
    (if c = sep then [] # Split sep cs
     else (case Split sep cs of p # ps \<Rightarrow> (c # p) # ps | [] \<Rightarrow> [[c]]))"

fun Join :: "string list \<Rightarrow> string \<Rightarrow> string" where
  "Join [] sep = []"
| "Join [s] sep = s"
| "Join (s # t # ss) sep = s @ sep @ Join (t # ss) sep"

lemma Split_nonempty [simp]: "Split sep s \<noteq> []"
  by (induction s) (auto split: list.splits)

lemma Join_Cons: "ps \<noteq> [] \<Longrightarrow> Join (p # ps) sep = p @ sep @ Join ps sep"
  by (cases ps) auto

lemma Join_Cons_char: "Join ((c # p) # ps) sep = c # Join (p # ps) sep"
  by (cases ps) auto

lemma Join_Split: "Join (Split sep s) [sep] = s"
proof (induction s)
  case Nil
  then show ?case by simp
next
  case (Cons c cs)
  obtain p ps where p: "Split sep cs = p # ps" by (cases "Split sep cs") auto
  then have "Join (p # ps) [sep] = cs" using Cons by simp
  then show ?case using p by (auto simp: Join_Cons Join_Cons_char)
qed

lemma Split_no_sep: "sep \<notin> set s \<Longrightarrow> Split sep s = [s]"
  by (induction s) auto

lemma Split_append_sep: "sep \<notin> set p \<Longrightarrow> Split sep (p @ sep # s) = p # Split sep s"
  by (induction p) auto

lemma Split_pieces: "p \<in> set (Split sep s) \<Longrightarrow> sep \<notin> set p"
proof (induction s arbitrary: p)
  case Nil
  then show ?case by simp
next
  case (Cons c cs)
  then show ?case by (cases "Split sep cs") (auto split: if_splits)
qed

text \<open>\<open>strings.SplitN\<close> for a positive \<open>n\<close>: at most \<open>n\<close> pieces, the last one the rest.\<close>

fun SplitN :: "char \<Rightarrow> nat \<Rightarrow> string \<Rightarrow> string list" where
  "SplitN sep 0 s = []"
| "SplitN sep (Suc 0) s = [s]"
| "SplitN sep (Suc (Suc n)) s =
    (case dropWhile (\<lambda>c. c \<noteq> sep) s of
       [] \<Rightarrow> [s]
     | _ # rest \<Rightarrow> takeWhile (\<lambda>c. c \<noteq> sep) s # SplitN sep (Suc n) rest)"

lemma SplitN_no_sep: "sep \<notin> set s \<Longrightarrow> SplitN sep (Suc n) s = [s]"
proof -
  assume "sep \<notin> set s"
  then have "dropWhile (\<lambda>c. c \<noteq> sep) s = []" by (auto simp: dropWhile_eq_Nil_conv)
  then show ?thesis by (cases n) (simp_all only: SplitN.simps list.case)
qed

lemma SplitN_append_sep:
  "sep \<notin> set p \<Longrightarrow> SplitN sep (Suc (Suc n)) (p @ sep # s) = p # SplitN sep (Suc n) s"
proof -
  assume "sep \<notin> set p"
  then have "dropWhile (\<lambda>c. c \<noteq> sep) (p @ sep # s) = sep # s" "takeWhile (\<lambda>c. c \<noteq> sep) (p @ sep # s) = p"
    by (induction p) auto
  then show ?thesis by simp
qed

definition HasPrefix :: "string \<Rightarrow> string \<Rightarrow> bool" where
  "HasPrefix s p \<longleftrightarrow> take (length p) s = p"

lemma HasPrefix_append [simp]: "HasPrefix (p @ s) p"
  by (simp add: HasPrefix_def)

definition TrimPrefix :: "string \<Rightarrow> string \<Rightarrow> string" where
  "TrimPrefix s p = (if HasPrefix s p then drop (length p) s else s)"

fun Contains :: "string \<Rightarrow> string \<Rightarrow> bool" where
  "Contains [] p = (p = [])"
| "Contains (c # cs) p = (HasPrefix (c # cs) p \<or> Contains cs p)"

text \<open>\<open>strings.Fields\<close> on ASCII white space.\<close>

definition is_space :: "char \<Rightarrow> bool" where
  "is_space c \<longleftrightarrow> byte_val c \<in> {9, 10, 11, 12, 13, 32}"

fun fields_acc :: "string \<Rightarrow> string \<Rightarrow> string list" where
  "fields_acc w [] = (if w = [] then [] else [rev w])"
| "fields_acc w (c # cs) =
    (if is_space c then (if w = [] then fields_acc [] cs else rev w # fields_acc [] cs)
     else fields_acc (c # w) cs)"

definition Fields :: "string \<Rightarrow> string list" where
  "Fields s = fields_acc [] s"

text \<open>The verb \<open>%x\<close> of \<open>fmt\<close> and \<open>hex.EncodeToString\<close> on a byte string.\<close>

definition hex_digit :: "nat \<Rightarrow> char" where
  "hex_digit n = (if n < 10 then byte_chr (48 + n) else byte_chr (87 + n))"

definition EncodeToString :: "string \<Rightarrow> string" where
  "EncodeToString s = concat (map (\<lambda>c. [hex_digit (byte_val c div 16), hex_digit (byte_val c mod 16)]) s)"

lemma length_EncodeToString: "length (EncodeToString s) = 2 * length s"
  by (induction s) (simp_all add: EncodeToString_def)

text \<open>\<open>n, _ := strconv.Atoi(s)\<close>: 0 on a syntax error, the nearest bound on a range error.\<close>

definition Atoi_value :: "string \<Rightarrow> int" where
  "Atoi_value s =
    (let (neg, ds) = (case s of
         [] \<Rightarrow> (False, [])
       | c # cs \<Rightarrow> if c = CHR ''-'' then (True, cs) else if c = CHR ''+'' then (False, cs) else (False, s))
     in if ds = [] \<or> \<not> list_all is_digit ds then 0
        else if neg then max (- (2 ^ 63)) (- int (digits_num ds)) else min (2 ^ 63 - 1) (int (digits_num ds)))"

lemma Atoi_value_ParseInt: "ParseInt s = Some i \<Longrightarrow> Atoi_value s = i"
  by (auto simp: ParseInt_def Atoi_value_def Let_def int64_range_def split: prod.splits if_splits)

text \<open>One operand of \<open>fmt.Sscanf(s, "%v...", &n)\<close> for an \<open>int64\<close> (Go 1.3): blanks, a sign, then
  decimal digits, or octal ones after a leading \<open>0\<close>, or hexadecimal ones after \<open>0x\<close>. The result is
  the value and the rest of the text.\<close>

definition digit_value :: "char \<Rightarrow> nat" where
  "digit_value c =
    (let n = byte_val c in
     if 48 \<le> n \<and> n \<le> 57 then n - 48 else if 97 \<le> n \<and> n \<le> 102 then n - 87
     else if 65 \<le> n \<and> n \<le> 70 then n - 55 else 99)"

definition scan_digits :: "nat \<Rightarrow> string \<Rightarrow> string \<times> string" where
  "scan_digits base s = (takeWhile (\<lambda>c. digit_value c < base) s, dropWhile (\<lambda>c. digit_value c < base) s)"

definition scan_int :: "string \<Rightarrow> (int \<times> string) option" where
  "scan_int s0 =
    (let s = dropWhile (\<lambda>c. c = CHR '' '' \<or> byte_val c = 9) s0;
         (neg, s1) = (case s of [] \<Rightarrow> (False, [])
           | c # cs \<Rightarrow> if c = CHR ''-'' then (True, cs) else if c = CHR ''+'' then (False, cs) else (False, s));
         (base, lead, s2) = (case s1 of
             c # x # cs \<Rightarrow> if c \<noteq> CHR ''0'' then (10, [], s1)
               else if x = CHR ''x'' \<or> x = CHR ''X'' then (16, [], cs) else (8, [c], x # cs)
           | _ \<Rightarrow> (10, [], s1));
         (ds, rest) = scan_digits base s2;
         v = foldl (\<lambda>a c. base * a + digit_value c) 0 ds
     in if lead @ ds = [] then None
        else let i = (if neg then - int v else int v)
             in if int64_range i then Some (i, rest) else None)"

text \<open>\<open>fmt.Sscanf(s, "%v_%v_%v", &a, &b, &c)\<close>; text after the third number is ignored.\<close>

definition scan_field3 :: "string \<Rightarrow> (int \<times> int \<times> int) option" where
  "scan_field3 s =
    (case scan_int s of
       Some (a, c1 # s1) \<Rightarrow>
         if c1 \<noteq> CHR ''_'' then None
         else (case scan_int s1 of
            Some (b, c2 # s2) \<Rightarrow>
              if c2 \<noteq> CHR ''_'' then None
              else (case scan_int s2 of Some (c, _) \<Rightarrow> Some (a, b, c) | None \<Rightarrow> None)
          | _ \<Rightarrow> None)
     | _ \<Rightarrow> None)"

text \<open>\<open>fmt.Sprintf("%v_%v_%v", a, b, c)\<close>.\<close>

definition format_field3 :: "int \<Rightarrow> int \<Rightarrow> int \<Rightarrow> string" where
  "format_field3 a b c = FormatInt a @ ''_'' @ FormatInt b @ ''_'' @ FormatInt c"

lemma digit_value_digit: "is_digit c \<Longrightarrow> digit_value c = digit_num c \<and> digit_num c < 10"
  by (auto simp: is_digit_def digit_value_def digit_num_def)

lemma scan_digits_format:
  assumes "list_all is_digit ds" "r = [] \<or> (\<exists>t. r = CHR ''_'' # t)"
  shows "scan_digits 10 (ds @ r) = (ds, r)"
proof -
  have "\<And>c. c \<in> set ds \<Longrightarrow> digit_value c < 10" using assms(1) digit_value_digit by (auto simp: list_all_iff)
  moreover have "\<not> digit_value (CHR ''_'') < 10" by (simp add: digit_value_def byte_val_def)
  ultimately show ?thesis using assms(2) by (auto simp: scan_digits_def)
qed

lemma foldl_digit_value: "list_all is_digit ds \<Longrightarrow>
  foldl (\<lambda>a c. 10 * a + digit_value c) n ds = foldl (\<lambda>a c. 10 * a + digit_num c) n ds"
  by (induction ds arbitrary: n) (auto simp: digit_value_digit)

lemma format_nat_first: "format_nat n = c # d # cs \<Longrightarrow> c \<noteq> CHR ''0''"
proof (induction n arbitrary: d cs rule: format_nat.induct)
  case (1 n)
  then have n: "\<not> n < 10" "format_nat n = format_nat (n div 10) @ [digit_chr (n mod 10)]"
    by (auto simp: format_nat.simps[of n] split: if_splits)
  obtain ds where ds: "format_nat (n div 10) = c # ds" using n 1(2) by (cases "format_nat (n div 10)") auto
  show ?case
  proof (cases ds)
    case Nil
    then have "n div 10 < 10" using ds
      by (cases "n div 10 < 10") (auto simp: format_nat.simps[of "n div 10"])
    then have "c = digit_chr (n div 10)" "0 < n div 10" using ds n(1)
      by (auto simp: format_nat.simps[of "n div 10"])
    moreover have "digit_num (CHR ''0'') = 0" by (simp add: digit_num_def byte_val_def)
    ultimately show ?thesis using \<open>n div 10 < 10\<close> by (metis digit_num_chr less_irrefl)
  next
    case Cons
    then show ?thesis using "1.IH" ds n(1) by blast
  qed
qed

lemma scan_int_format_nat:
  assumes "int64_range (int n)" "r = [] \<or> (\<exists>t. r = CHR ''_'' # t)"
  shows "scan_int (format_nat n @ r) = Some (int n, r)"
proof -
  obtain c cs where f: "format_nat n = c # cs" by (cases "format_nat n") auto
  have d: "list_all is_digit (c # cs)" using format_nat_digits[of n] f by simp
  then have c: "c \<noteq> CHR '' ''" "byte_val c \<noteq> 9" "c \<noteq> CHR ''-''" "c \<noteq> CHR ''+''"
    by (auto simp: is_digit_def byte_val_def)
  have v: "foldl (\<lambda>a c. 10 * a + digit_value c) 0 (c # cs) = n"
    using foldl_digit_value[OF d, of 0] digits_num_format[of n] f by (simp add: digits_num_def)
  have sd: "scan_digits 10 (c # cs @ r) = (c # cs, r)" using scan_digits_format[OF d assms(2)] by simp
  show ?thesis
  proof (cases "c = CHR ''0''")
    case True
    then have "cs = []" using f format_nat_first by (cases cs) auto
    moreover have "n = 0" using v True \<open>cs = []\<close> by (simp add: digit_value_def byte_val_def)
    moreover have "scan_digits 8 [] = ([], [])" "\<And>t. scan_digits 8 (CHR ''_'' # t) = ([], CHR ''_'' # t)"
      by (simp_all add: scan_digits_def digit_value_def byte_val_def)
    ultimately show ?thesis using True f assms sd v c
      by (auto simp: scan_int_def Let_def)
  next
    case False
    then show ?thesis using f c sd v assms(1) by (auto simp: scan_int_def Let_def split: list.splits)
  qed
qed

text \<open>What the producer writes is what the consumer scans, for non-negative numbers.\<close>

lemma scan_format_field3:
  assumes "0 \<le> a" "0 \<le> b" "0 \<le> c" "int64_range a" "int64_range b" "int64_range c"
  shows "scan_field3 (format_field3 a b c) = Some (a, b, c)"
  using assms scan_int_format_nat[of "nat a" "CHR ''_'' # format_nat (nat b) @ CHR ''_'' # format_nat (nat c)"]
    scan_int_format_nat[of "nat b" "CHR ''_'' # format_nat (nat c)"] scan_int_format_nat[of "nat c" "[]"]
  by (simp add: scan_field3_def format_field3_def FormatInt_def)

text \<open>\<open>int64(float64(n))\<close>: rounding to 53 significant bits, ties to even.\<close>

fun bit_length :: "nat \<Rightarrow> nat" where
  "bit_length n = (if n = 0 then 0 else Suc (bit_length (n div 2)))"

declare bit_length.simps [simp del]

definition round_float64 :: "nat \<Rightarrow> nat" where
  "round_float64 n =
    (if n < 2 ^ 53 then n
     else let k = bit_length n - 53; q = n div 2 ^ k; r = n mod 2 ^ k; h = 2 ^ (k - 1)
          in if h < r \<or> (r = h \<and> odd q) then (q + 1) * 2 ^ k else q * 2 ^ k)"

definition via_float64 :: "int \<Rightarrow> int" where
  "via_float64 i = (if i < 0 then - int (round_float64 (nat (- i))) else int (round_float64 (nat i)))"

lemma via_float64_exact: "\<bar>i\<bar> < 2 ^ 53 \<Longrightarrow> via_float64 i = i"
  by (auto simp: via_float64_def round_float64_def nat_less_iff)

end
