(* ===== verification/Json.thy ===== *)
theory Json
  imports Go_Strings
begin

text \<open>
  The part of Go's \<open>encoding/json\<close> the repository uses: JSON values, the compact text that
  \<open>Marshal\<close> writes, the parser behind \<open>Unmarshal\<close>, and the decoding of a value into a struct
  by its field tags. Numbers keep their literal text, as Go decodes the literal into the field's
  type. Strings are byte strings; the printer copies bytes from 128 up, so the model is exact for
  strings that are valid UTF-8 and free of U+2028 and U+2029 (Go rewrites the others). A decoder
  returns the struct it filled and whether the \<open>error\<close> was nil: on a type mismatch Go goes on with
  the other fields and reports the mismatch at the end, so a failed decode can leave a struct that
  is filled in part. The parser's fuel is the length of the text plus one: every recursive call of
  the parser has consumed a character, and \<open>parse_print\<close> is the round trip for that fuel.
\<close>

datatype json =
  JNull | JBool bool | JNum string | JStr string | JArr "json list" | JObj "(string \<times> json) list"

subsection \<open>Text of a value (Marshal)\<close>

text \<open>String escapes of the encoder: quotes, backslashes, control characters, and the three
  characters it makes safe for HTML.\<close>

definition hex4 :: "nat \<Rightarrow> string" where
  "hex4 n = [hex_digit (n div 4096 mod 16), hex_digit (n div 256 mod 16),
             hex_digit (n div 16 mod 16), hex_digit (n mod 16)]"

definition esc_char :: "char \<Rightarrow> string" where
  "esc_char c =
    (if c = CHR 0x22 then [CHR 0x5C, CHR 0x22]
     else if c = CHR 0x5C then [CHR 0x5C, CHR 0x5C]
     else if c = CHR 0x0A then [CHR 0x5C, CHR ''n'']
     else if c = CHR 0x0D then [CHR 0x5C, CHR ''r'']
     else if byte_val c < 32 \<or> c = CHR ''<'' \<or> c = CHR ''>'' \<or> c = CHR ''&''
          then [CHR 0x5C, CHR ''u''] @ hex4 (byte_val c)
     else [c])"

definition str_text :: "string \<Rightarrow> string" where
  "str_text s = [CHR 0x22] @ concat (map esc_char s) @ [CHR 0x22]"

fun json_text :: "json \<Rightarrow> string"
  and elems_text :: "json list \<Rightarrow> string"
  and members_text :: "(string \<times> json) list \<Rightarrow> string" where
  "json_text JNull = ''null''"
| "json_text (JBool b) = (if b then ''true'' else ''false'')"
| "json_text (JNum n) = n"
| "json_text (JStr s) = str_text s"
| "json_text (JArr js) = [CHR ''['' ] @ elems_text js @ [CHR '']'']"
| "json_text (JObj ms) = [CHR ''{'' ] @ members_text ms @ [CHR ''}'']"
| "elems_text [] = []"
| "elems_text [j] = json_text j"
| "elems_text (j # k # js) = json_text j @ [CHR '',''] @ elems_text (k # js)"
| "members_text [] = []"
| "members_text [(n, j)] = str_text n @ [CHR '':''] @ json_text j"
| "members_text ((n, j) # m # ms) =
     str_text n @ [CHR '':''] @ json_text j @ [CHR '',''] @ members_text (m # ms)"

subsection \<open>Parser (Unmarshal)\<close>

fun skip_ws :: "string \<Rightarrow> string" where
  "skip_ws [] = []"
| "skip_ws (c # cs) = (if byte_val c \<in> {9, 10, 13, 32} then skip_ws cs else c # cs)"

definition hex_val :: "char \<Rightarrow> nat option" where
  "hex_val c =
    (let n = byte_val c in
     if 48 \<le> n \<and> n \<le> 57 then Some (n - 48)
     else if 97 \<le> n \<and> n \<le> 102 then Some (n - 87)
     else if 65 \<le> n \<and> n \<le> 70 then Some (n - 55)
     else None)"

definition hex4_val :: "char \<Rightarrow> char \<Rightarrow> char \<Rightarrow> char \<Rightarrow> nat option" where
  "hex4_val a b c d =
    (case (hex_val a, hex_val b, hex_val c, hex_val d) of
       (Some x, Some y, Some z, Some w) \<Rightarrow> Some (4096 * x + 256 * y + 16 * z + w)
     | _ \<Rightarrow> None)"

text \<open>UTF-8 bytes of a code point.\<close>

definition utf8 :: "nat \<Rightarrow> string" where
  "utf8 u =
    (if u < 128 then [byte_chr u]
     else if u < 2048 then [byte_chr (192 + u div 64), byte_chr (128 + u mod 64)]
     else if u < 65536 then
       [byte_chr (224 + u div 4096), byte_chr (128 + u div 64 mod 64), byte_chr (128 + u mod 64)]
     else [byte_chr (240 + u div 262144), byte_chr (128 + u div 4096 mod 64),
           byte_chr (128 + u div 64 mod 64), byte_chr (128 + u mod 64)])"

definition simple_esc :: "char \<Rightarrow> char option" where
  "simple_esc c =
    (if c \<in> {CHR 0x22, CHR 0x5C, CHR ''/''} then Some c
     else if c = CHR ''b'' then Some (CHR 0x08)
     else if c = CHR ''f'' then Some (CHR 0x0C)
     else if c = CHR ''n'' then Some (CHR 0x0A)
     else if c = CHR ''r'' then Some (CHR 0x0D)
     else if c = CHR ''t'' then Some (CHR 0x09)
     else None)"

definition cons_str :: "string \<Rightarrow> (string \<times> string) option \<Rightarrow> (string \<times> string) option" where
  "cons_str p r = map_option (\<lambda>(s, rest). (p @ s, rest)) r"

lemma cons_str_Some [simp]: "cons_str p (Some (s, rest)) = Some (p @ s, rest)"
  by (simp add: cons_str_def)

text \<open>The rest of a string after its opening quote. A high surrogate escape pairs with the low
  surrogate escape after it; a lone surrogate is U+FFFD.\<close>

fun parse_str :: "string \<Rightarrow> (string \<times> string) option" where
  "parse_str [] = None"
| "parse_str (c # cs) =
    (if c = CHR 0x22 then Some ([], cs)
     else if byte_val c < 32 then None
     else if c \<noteq> CHR 0x5C then cons_str [c] (parse_str cs)
     else (case cs of
         [] \<Rightarrow> None
       | e # rest \<Rightarrow>
          (if e \<noteq> CHR ''u'' then
             (case simple_esc e of None \<Rightarrow> None | Some d \<Rightarrow> cons_str [d] (parse_str rest))
           else (case rest of
               h1 # h2 # h3 # h4 # r \<Rightarrow>
                 (case hex4_val h1 h2 h3 h4 of
                    None \<Rightarrow> None
                  | Some u \<Rightarrow>
                      if u < 55296 \<or> 57343 < u then cons_str (utf8 u) (parse_str r)
                      else (case r of
                          b # v # l1 # l2 # l3 # l4 # r' \<Rightarrow>
                            (if b = CHR 0x5C \<and> v = CHR ''u'' \<and> u < 56320 then
                               (case hex4_val l1 l2 l3 l4 of
                                  Some w \<Rightarrow>
                                    if 56320 \<le> w \<and> w \<le> 57343
                                    then cons_str (utf8 (65536 + (u - 55296) * 1024 + (w - 56320))) (parse_str r')
                                    else cons_str (utf8 65533) (parse_str r)
                                | None \<Rightarrow> None)
                             else cons_str (utf8 65533) (parse_str r))
                        | _ \<Rightarrow> cons_str (utf8 65533) (parse_str r)))
             | _ \<Rightarrow> None))))"

text \<open>Number literals: \<open>-?(0|[1-9][0-9]*)([.][0-9]+)?([eE][+-]?[0-9]+)?\<close>, as far as it goes.\<close>

definition span_digits :: "string \<Rightarrow> string \<times> string" where
  "span_digits s = (takeWhile is_digit s, dropWhile is_digit s)"

definition lit_int :: "string \<Rightarrow> (string \<times> string) option" where
  "lit_int s =
    (case s of [] \<Rightarrow> None
     | c # cs \<Rightarrow> if c = CHR ''0'' then Some ([c], cs)
                 else if is_digit c then Some (span_digits s) else None)"

definition lit_frac :: "string \<Rightarrow> (string \<times> string) option" where
  "lit_frac s =
    (case s of c # cs \<Rightarrow>
       if c = CHR ''.'' then
         (let (ds, r) = span_digits cs in if ds = [] then None else Some (c # ds, r))
       else Some ([], s)
     | [] \<Rightarrow> Some ([], s))"

definition lit_exp :: "string \<Rightarrow> (string \<times> string) option" where
  "lit_exp s =
    (case s of c # cs \<Rightarrow>
       if c = CHR ''e'' \<or> c = CHR ''E'' then
         (let (sg, cs') = (case cs of d # ds \<Rightarrow> if d = CHR ''+'' \<or> d = CHR ''-'' then ([d], ds) else ([], cs)
                           | [] \<Rightarrow> ([], cs));
              (ds, r) = span_digits cs'
          in if ds = [] then None else Some (c # sg @ ds, r))
       else Some ([], s)
     | [] \<Rightarrow> Some ([], s))"

definition parse_num :: "string \<Rightarrow> (string \<times> string) option" where
  "parse_num s =
    (let (sg, s0) = (case s of c # cs \<Rightarrow> if c = CHR ''-'' then ([c], cs) else ([], s) | [] \<Rightarrow> ([], s))
     in case lit_int s0 of None \<Rightarrow> None
     | Some (i, s1) \<Rightarrow> (case lit_frac s1 of None \<Rightarrow> None
        | Some (f, s2) \<Rightarrow> (case lit_exp s2 of None \<Rightarrow> None
           | Some (e, s3) \<Rightarrow> Some (sg @ i @ f @ e, s3))))"

text \<open>Values, array elements after \<open>[\<close> and object members after \<open>{\<close>. \<open>parse_elems\<close> and
  \<open>parse_members\<close> start at an element (no closing bracket is possible there).\<close>

fun parse_value :: "nat \<Rightarrow> string \<Rightarrow> (json \<times> string) option"
  and parse_elems :: "nat \<Rightarrow> string \<Rightarrow> (json list \<times> string) option"
  and parse_members :: "nat \<Rightarrow> string \<Rightarrow> ((string \<times> json) list \<times> string) option" where
  "parse_value 0 s = None"
| "parse_value (Suc n) s =
    (case skip_ws s of
       [] \<Rightarrow> None
     | c # cs \<Rightarrow>
       if c = CHR 0x22 then map_option (\<lambda>(t, r). (JStr t, r)) (parse_str cs)
       else if c = CHR ''['' then
         (case skip_ws cs of
            d # ds \<Rightarrow> if d = CHR '']'' then Some (JArr [], ds)
                      else map_option (\<lambda>(js, r). (JArr js, r)) (parse_elems n (d # ds))
          | [] \<Rightarrow> None)
       else if c = CHR ''{'' then
         (case skip_ws cs of
            d # ds \<Rightarrow> if d = CHR ''}'' then Some (JObj [], ds)
                      else map_option (\<lambda>(ms, r). (JObj ms, r)) (parse_members n (d # ds))
          | [] \<Rightarrow> None)
       else if HasPrefix (c # cs) ''null'' then Some (JNull, drop 4 (c # cs))
       else if HasPrefix (c # cs) ''true'' then Some (JBool True, drop 4 (c # cs))
       else if HasPrefix (c # cs) ''false'' then Some (JBool False, drop 5 (c # cs))
       else map_option (\<lambda>(l, r). (JNum l, r)) (parse_num (c # cs)))"
| "parse_elems 0 s = None"
| "parse_elems (Suc n) s =
    (case parse_value n s of
       None \<Rightarrow> None
     | Some (j, r) \<Rightarrow>
        (case skip_ws r of
           c # cs \<Rightarrow>
             if c = CHR '']'' then Some ([j], cs)
             else if c = CHR '','' then map_option (\<lambda>(js, r'). (j # js, r')) (parse_elems n cs)
             else None
         | [] \<Rightarrow> None))"
| "parse_members 0 s = None"
| "parse_members (Suc n) s =
    (case skip_ws s of
       q # t \<Rightarrow>
        if q \<noteq> CHR 0x22 then None
        else (case parse_str t of
           None \<Rightarrow> None
         | Some (k, r) \<Rightarrow>
            (case skip_ws r of
               c # cs \<Rightarrow>
                 if c \<noteq> CHR '':'' then None
                 else (case parse_value n cs of
                    None \<Rightarrow> None
                  | Some (j, r') \<Rightarrow>
                     (case skip_ws r' of
                        d # ds \<Rightarrow>
                          if d = CHR ''}'' then Some ([(k, j)], ds)
                          else if d = CHR '','' then
                            map_option (\<lambda>(ms, r''). ((k, j) # ms, r'')) (parse_members n ds)
                          else None
                      | [] \<Rightarrow> None))
             | [] \<Rightarrow> None))
     | [] \<Rightarrow> None)"

text \<open>The whole text: one value and white space only after it.\<close>

definition json_parse :: "string \<Rightarrow> json option" where
  "json_parse s =
    (case parse_value (Suc (length s)) s of
       Some (j, r) \<Rightarrow> if skip_ws r = [] then Some j else None
     | None \<Rightarrow> None)"

subsection \<open>Round trip\<close>

definition int_lit :: "string \<Rightarrow> bool" where
  "int_lit n \<longleftrightarrow> (\<exists>i. n = FormatInt i)"

fun wf_json :: "json \<Rightarrow> bool" where
  "wf_json (JNum n) = int_lit n"
| "wf_json (JArr js) = list_all wf_json js"
| "wf_json (JObj ms) = list_all (\<lambda>(k, j). wf_json j) ms"
| "wf_json _ = True"

lemma hex_val_digit [simp]: "n < 16 \<Longrightarrow> hex_val (hex_digit n) = Some n"
  by (auto simp: hex_val_def hex_digit_def Let_def)

lemma hex4_val_byte: "n < 128 \<Longrightarrow>
  hex4_val (hex_digit 0) (hex_digit 0) (hex_digit (n div 16)) (hex_digit (n mod 16)) = Some n"
  by (simp add: hex4_val_def)

lemma utf8_byte: "n < 128 \<Longrightarrow> utf8 n = [byte_chr n]"
  by (simp add: utf8_def)

lemma parse_str_plain: "c \<noteq> CHR 0x22 \<Longrightarrow> \<not> byte_val c < 32 \<Longrightarrow> c \<noteq> CHR 0x5C \<Longrightarrow>
  parse_str (c # t) = cons_str [c] (parse_str t)"
  by simp

lemma parse_str_simple: "simple_esc e = Some d \<Longrightarrow> e \<noteq> CHR ''u'' \<Longrightarrow>
  parse_str (CHR 0x5C # e # t) = cons_str [d] (parse_str t)"
  by (simp add: byte_val_def)

lemma parse_str_hex: "n < 128 \<Longrightarrow>
  parse_str (CHR 0x5C # CHR ''u'' # hex4 n @ t) = cons_str [byte_chr n] (parse_str t)"
  by (simp add: byte_val_def hex4_def hex4_val_byte utf8_byte)

declare parse_str.simps [simp del]

lemma parse_str_esc: "parse_str (esc_char c @ t) = cons_str [c] (parse_str t)"
proof -
  consider "c = CHR 0x22" | "c = CHR 0x5C" | "c = CHR 0x0A" | "c = CHR 0x0D"
    | (hex) "c \<notin> {CHR 0x22, CHR 0x5C, CHR 0x0A, CHR 0x0D}"
        "byte_val c < 32 \<or> c = CHR ''<'' \<or> c = CHR ''>'' \<or> c = CHR ''&''"
    | (plain) "c \<notin> {CHR 0x22, CHR 0x5C, CHR 0x0A, CHR 0x0D}"
        "\<not> (byte_val c < 32 \<or> c = CHR ''<'' \<or> c = CHR ''>'' \<or> c = CHR ''&'')"
    by blast
  then show ?thesis
  proof cases
    case hex
    then have "byte_val c < 128" by (auto simp: byte_val_def)
    then show ?thesis using hex parse_str_hex[of "byte_val c" t] by (auto simp: esc_char_def)
  next
    case plain
    then show ?thesis using parse_str_plain by (auto simp: esc_char_def)
  qed (simp_all add: esc_char_def parse_str_simple simple_esc_def)
qed

lemma parse_str_text: "parse_str (concat (map esc_char s) @ CHR 0x22 # rest) = Some (s, rest)"
  by (induction s) (simp_all add: parse_str_esc parse_str.simps(2))

text \<open>What may follow a value in printed text.\<close>

definition stops :: "string \<Rightarrow> bool" where
  "stops r \<longleftrightarrow> (case r of [] \<Rightarrow> True | c # _ \<Rightarrow> c = CHR '','' \<or> c = CHR '']'' \<or> c = CHR ''}'')"

lemma stops_simps [simp]: "stops []" "stops (CHR '','' # r)" "stops (CHR '']'' # r)" "stops (CHR ''}'' # r)"
  by (simp_all add: stops_def)

lemma stops_not_digit: "stops (c # r) \<Longrightarrow> \<not> is_digit c \<and> c \<noteq> CHR ''.'' \<and> c \<noteq> CHR ''e'' \<and> c \<noteq> CHR ''E''"
  by (auto simp: stops_def is_digit_def byte_val_def)

lemma span_digits_append:
  "list_all is_digit ds \<Longrightarrow> stops r \<Longrightarrow> span_digits (ds @ r) = (ds, r)"
  by (cases r) (auto simp: span_digits_def list_all_iff dest: stops_not_digit)

lemma digit_chr_0: "d < 10 \<Longrightarrow> digit_chr d = CHR ''0'' \<longleftrightarrow> d = 0"
proof -
  assume "d < 10"
  then have "digit_chr d = CHR ''0'' \<longleftrightarrow> 48 + d = byte_val (CHR ''0'')"
    by (simp add: digit_chr_def byte_chr_eq_iff)
  then show ?thesis by (simp add: byte_val_def)
qed

lemma format_nat_leading: "format_nat n = c # cs \<Longrightarrow> cs \<noteq> [] \<Longrightarrow> c \<noteq> CHR ''0''"
proof (induction n arbitrary: cs rule: format_nat.induct)
  case (1 n)
  show ?case
  proof (cases "n < 10")
    case True
    then show ?thesis using 1 by (simp add: format_nat.simps[of n])
  next
    case False
    then have n: "format_nat n = format_nat (n div 10) @ [digit_chr (n mod 10)]"
      by (simp add: format_nat.simps[of n])
    obtain ds where ds: "format_nat (n div 10) = c # ds"
      using n 1(2) by (cases "format_nat (n div 10)") auto
    show ?thesis
    proof (cases "ds = []")
      case True
      then have "n div 10 < 10" using ds
        by (metis append_eq_Cons_conv format_nat.simps format_nat_nonempty list.discI self_append_conv2
            append_is_Nil_conv)
      moreover have "n div 10 \<noteq> 0" using False by simp
      moreover have "c = digit_chr (n div 10)"
        using ds \<open>n div 10 < 10\<close> by (simp add: format_nat.simps[of "n div 10"])
      ultimately show ?thesis by (simp add: digit_chr_0)
    next
      case False
      then show ?thesis using "1.IH" ds \<open>\<not> n < 10\<close> by blast
    qed
  qed
qed

lemma lit_int_format: "stops r \<Longrightarrow> lit_int (format_nat n @ r) = Some (format_nat n, r)"
proof -
  assume r: "stops r"
  obtain c cs where f: "format_nat n = c # cs" by (cases "format_nat n") auto
  have d: "list_all is_digit (c # cs)" using format_nat_digits[of n] f by simp
  show ?thesis
  proof (cases "c = CHR ''0''")
    case True
    then have "cs = []" using format_nat_leading f by blast
    then show ?thesis using True f by (simp add: lit_int_def)
  next
    case False
    then show ?thesis using f d span_digits_append[OF d r] by (simp add: lit_int_def)
  qed
qed

lemma lit_frac_stops: "stops r \<Longrightarrow> lit_frac r = Some ([], r)"
  by (cases r) (auto simp: lit_frac_def dest: stops_not_digit)

lemma lit_exp_stops: "stops r \<Longrightarrow> lit_exp r = Some ([], r)"
  by (cases r) (auto simp: lit_exp_def dest: stops_not_digit)

lemma parse_num_FormatInt: "stops r \<Longrightarrow> parse_num (FormatInt i @ r) = Some (FormatInt i, r)"
proof -
  assume r: "stops r"
  show ?thesis
  proof (cases "i < 0")
    case True
    then show ?thesis using r
      by (simp add: FormatInt_def parse_num_def lit_int_format lit_frac_stops lit_exp_stops)
  next
    case False
    obtain c cs where f: "format_nat (nat i) = c # cs" by (cases "format_nat (nat i)") auto
    then have "c \<noteq> CHR ''-''" using format_nat_hd not_digit_sign by metis
    then show ?thesis using r False f lit_int_format[OF r, of "nat i"]
      by (simp add: FormatInt_def parse_num_def lit_frac_stops lit_exp_stops)
  qed
qed

lemma FormatInt_hd: "\<exists>c cs. FormatInt i = c # cs \<and> (c = CHR ''-'' \<or> is_digit c)"
proof (cases "i < 0")
  case False
  obtain c cs where "format_nat (nat i) = c # cs" by (cases "format_nat (nat i)") auto
  then show ?thesis using False format_nat_hd by (auto simp: FormatInt_def)
qed (simp add: FormatInt_def)

lemma parse_value_FormatInt:
  "stops r \<Longrightarrow> parse_value (Suc n) (FormatInt i @ r) = Some (JNum (FormatInt i), r)"
proof -
  assume r: "stops r"
  obtain c cs where f: "FormatInt i = c # cs" "c = CHR ''-'' \<or> is_digit c" using FormatInt_hd by blast
  then have "byte_val c \<notin> {9, 10, 13, 32}"
    "c \<notin> {CHR 0x22, CHR ''['', CHR ''{'', CHR ''n'', CHR ''t'', CHR ''f''}"
    by (auto simp: is_digit_def byte_val_def)
  then show ?thesis using f parse_num_FormatInt[OF r, of i] by (simp add: HasPrefix_def)
qed

lemma FormatInt_nonempty [simp]: "FormatInt i \<noteq> []"
  using FormatInt_hd[of i] by auto

declare byte_val_def [simp]
declare parse_value.simps(2) [simp del] parse_elems.simps(2) [simp del] parse_members.simps(2) [simp del]

lemma skip_ws_nonspace: "byte_val c \<notin> {9, 10, 13, 32} \<Longrightarrow> skip_ws (c # cs) = c # cs"
  by simp

lemma json_text_nonempty: "wf_json j \<Longrightarrow> json_text j \<noteq> []"
  by (cases j) (auto simp: str_text_def int_lit_def)

lemma json_text_hd: "wf_json j \<Longrightarrow> \<exists>c cs. json_text j = c # cs \<and> byte_val c \<notin> {9, 10, 13, 32} \<and> c \<noteq> CHR '']'' \<and> c \<noteq> CHR ''}''"
proof (cases j)
  case (JNum n)
  assume "wf_json j"
  then obtain i where "n = FormatInt i" using JNum by (auto simp: int_lit_def)
  then show ?thesis using JNum FormatInt_hd[of i] by (auto simp: is_digit_def)
qed (auto simp: str_text_def)

lemma elems_text_hd: "list_all wf_json js \<Longrightarrow> js \<noteq> [] \<Longrightarrow>
  \<exists>c cs. elems_text js = c # cs \<and> byte_val c \<notin> {9, 10, 13, 32} \<and> c \<noteq> CHR '']''"
proof -
  assume "list_all wf_json js" "js \<noteq> []"
  then obtain j ks where js: "js = j # ks" "wf_json j" by (cases js) auto
  then show ?thesis using json_text_hd[of j] by (cases ks) auto
qed

lemma members_text_hd: "ms \<noteq> [] \<Longrightarrow> \<exists>cs. members_text ms = CHR 0x22 # cs"
  by (cases ms rule: members_text.cases) (auto simp: str_text_def)

lemma members_text_Cons: "members_text ((k, j) # ms) =
  CHR 0x22 # concat (map esc_char k) @ CHR 0x22 # CHR '':'' # json_text j @
    (if ms = [] then [] else CHR '','' # members_text ms)"
  by (cases ms) (auto simp: str_text_def)

lemma elems_text_Cons: "elems_text (j # js) = json_text j @ (if js = [] then [] else CHR '','' # elems_text js)"
  by (cases js) auto

lemma parse_print_arr:
  assumes "\<And>n r. length (elems_text js) < n \<Longrightarrow> parse_elems n (elems_text js @ CHR '']'' # r) = Some (js, r)"
    and "list_all wf_json js" and "length (json_text (JArr js)) \<le> n"
  shows "parse_value n (json_text (JArr js) @ r) = Some (JArr js, r)"
proof -
  obtain m where n: "n = Suc m" "length (elems_text js) < m" using assms(3) by (cases n) auto
  show ?thesis
  proof (cases "js = []")
    case False
    then obtain c cs where "elems_text js = c # cs" "byte_val c \<notin> {9, 10, 13, 32}" "c \<noteq> CHR '']''"
      using elems_text_hd assms(2) by blast
    then show ?thesis using n assms(1)[of m r] by (simp add: parse_value.simps(2))
  qed (simp add: n parse_value.simps(2))
qed

lemma parse_print_obj:
  assumes "\<And>n r. length (members_text ms) < n \<Longrightarrow> parse_members n (members_text ms @ CHR ''}'' # r) = Some (ms, r)"
    and "length (json_text (JObj ms)) \<le> n"
  shows "parse_value n (json_text (JObj ms) @ r) = Some (JObj ms, r)"
proof -
  obtain m where n: "n = Suc m" "length (members_text ms) < m" using assms(2) by (cases n) auto
  show ?thesis
  proof (cases "ms = []")
    case False
    then obtain cs where "members_text ms = CHR 0x22 # cs" using members_text_hd by blast
    then show ?thesis using n assms(1)[of m r] by (simp add: parse_value.simps(2))
  qed (simp add: n parse_value.simps(2))
qed

lemma parse_print_elems:
  assumes "\<And>n r. length (json_text j) \<le> n \<Longrightarrow> stops r \<Longrightarrow> parse_value n (json_text j @ r) = Some (j, r)"
    and "js \<noteq> [] \<Longrightarrow> parse_elems (n - 1) (elems_text js @ CHR '']'' # r) = Some (js, r)"
    and "length (elems_text (j # js)) < n"
  shows "parse_elems n (elems_text (j # js) @ CHR '']'' # r) = Some (j # js, r)"
proof -
  obtain m where n: "n = Suc m" "length (json_text j) \<le> m" using assms(3) by (cases n) (auto simp: elems_text_Cons)
  show ?thesis using n assms(1)[of m] assms(2) by (cases "js = []") (auto simp: parse_elems.simps(2) elems_text_Cons)
qed

lemma parse_print_members:
  assumes "\<And>n r. length (json_text j) \<le> n \<Longrightarrow> stops r \<Longrightarrow> parse_value n (json_text j @ r) = Some (j, r)"
    and "ms \<noteq> [] \<Longrightarrow> parse_members (n - 1) (members_text ms @ CHR ''}'' # r) = Some (ms, r)"
    and "length (members_text ((k, j) # ms)) < n"
  shows "parse_members n (members_text ((k, j) # ms) @ CHR ''}'' # r) = Some ((k, j) # ms, r)"
proof -
  obtain m where n: "n = Suc m" "length (json_text j) \<le> m" using assms(3) by (cases n) (auto simp: members_text_Cons)
  show ?thesis using n assms(1)[of m] assms(2)
    by (cases "ms = []") (auto simp: parse_members.simps(2) members_text_Cons parse_str_text)
qed

lemma parse_print_const:
  "0 < n \<Longrightarrow> parse_value n (json_text JNull @ r) = Some (JNull, r)"
  "0 < n \<Longrightarrow> parse_value n (json_text (JBool b) @ r) = Some (JBool b, r)"
  by (cases n; simp add: parse_value.simps(2) HasPrefix_def)+

lemma parse_print_all:
  "wf_json j \<Longrightarrow> \<forall>n r. length (json_text j) \<le> n \<longrightarrow> stops r \<longrightarrow> parse_value n (json_text j @ r) = Some (j, r)"
  "list_all wf_json js \<Longrightarrow> js \<noteq> [] \<Longrightarrow> \<forall>n r. length (elems_text js) < n \<longrightarrow>
     parse_elems n (elems_text js @ CHR '']'' # r) = Some (js, r)"
  "list_all (\<lambda>(k, j). wf_json j) ms \<Longrightarrow> ms \<noteq> [] \<Longrightarrow> \<forall>n r. length (members_text ms) < n \<longrightarrow>
     parse_members n (members_text ms @ CHR ''}'' # r) = Some (ms, r)"
proof (induction j and js and ms rule: json_text_elems_text_members_text.induct)
  case 1
  then show ?case using parse_print_const(1) by simp
next
  case (2 b)
  then show ?case using parse_print_const(2)[of _ True] parse_print_const(2)[of _ False] by (cases b) simp_all
next
  case (3 n)
  then obtain i where i: "n = FormatInt i" by (auto simp: int_lit_def)
  show ?case
  proof (intro allI impI)
    fix m r assume "length (json_text (JNum n)) \<le> m" "stops r"
    moreover obtain k where "m = Suc k" using calculation(1) i by (cases m) auto
    ultimately show "parse_value m (json_text (JNum n) @ r) = Some (JNum n, r)"
      using i parse_value_FormatInt by simp
  qed
next
  case (4 s)
  then show ?case
    by (auto simp: str_text_def parse_value.simps(2) parse_str_text Suc_le_eq gr0_conv_Suc dest!: less_imp_Suc_add)
next
  case (5 js)
  then show ?case using parse_print_arr[of js] by (cases "js = []") (fastforce simp: parse_value.simps(2) dest!: Suc_le_D)+
next
  case (6 ms)
  then show ?case using parse_print_obj[of ms] by (cases "ms = []") (fastforce simp: parse_value.simps(2) dest!: Suc_le_D)+
next
  case (8 j)
  then show ?case using parse_print_elems[of j "[]"] by auto
next
  case (9 j k js)
  then show ?case using parse_print_elems[of j "k # js"] by auto
next
  case (11 n j)
  then show ?case using parse_print_members[of j "[]"] by auto
next
  case (12 n j m ms)
  then show ?case using parse_print_members[of j "m # ms"] by auto
qed simp_all

theorem json_parse_text: "wf_json j \<Longrightarrow> json_parse (json_text j) = Some j"
  using parse_print_all(1)[of j, rule_format, of "Suc (length (json_text j))" "[]"]
  by (simp add: json_parse_def)


declare byte_val_def [simp del]

subsection \<open>Decoding into structs\<close>

text \<open>A decoder stores a JSON value into its destination and says whether it fitted. \<open>null\<close>
  leaves a scalar as it is and sets a slice to nil.\<close>

type_synonym 'a decoder = "json \<Rightarrow> 'a \<Rightarrow> 'a \<times> bool"

definition dec_string :: "string decoder" where
  "dec_string j x = (case j of JStr s \<Rightarrow> (s, True) | JNull \<Rightarrow> (x, True) | _ \<Rightarrow> (x, False))"

definition dec_int64 :: "int decoder" where
  "dec_int64 j x =
    (case j of JNum n \<Rightarrow> (case ParseInt n of Some i \<Rightarrow> (i, True) | None \<Rightarrow> (x, False))
     | JNull \<Rightarrow> (x, True) | _ \<Rightarrow> (x, False))"

text \<open>A number without a sign that fits in 32 bits; another one is an error that leaves the field alone.\<close>

definition dec_uint32 :: "32 word decoder" where
  "dec_uint32 j x =
    (case j of
       JNum n \<Rightarrow> (if n = [] \<or> hd n = CHR ''-'' then (x, False)
          else case ParseInt n of
                 Some i \<Rightarrow> if i < 2 ^ 32 then (word_of_int i, True) else (x, False)
               | None \<Rightarrow> (x, False))
     | JNull \<Rightarrow> (x, True)
     | _ \<Rightarrow> (x, False))"

definition dec_bool :: "bool decoder" where
  "dec_bool j x = (case j of JBool b \<Rightarrow> (b, True) | JNull \<Rightarrow> (x, True) | _ \<Rightarrow> (x, False))"

text \<open>\<open>[]T\<close>: \<open>None\<close> is the nil slice; an element that does not fit stays zero.\<close>

definition dec_slice :: "'a decoder \<Rightarrow> 'a \<Rightarrow> 'a list option decoder" where
  "dec_slice d z j x =
    (case j of
       JArr js \<Rightarrow> (Some (map (\<lambda>k. fst (d k z)) js), list_all (\<lambda>k. snd (d k z)) js)
     | JNull \<Rightarrow> (None, True)
     | _ \<Rightarrow> (x, False))"

text \<open>Object keys match field names up to case (Go's \<open>EqualFold\<close> on the ASCII field names of
  this code: letters, and the two non-ASCII characters that fold to \<open>k\<close> and \<open>s\<close>).\<close>

fun fold_key :: "string \<Rightarrow> string" where
  "fold_key (a # b # c # cs) =
    (if byte_val a = 226 \<and> byte_val b = 132 \<and> byte_val c = 170 then CHR ''k'' # fold_key cs
     else if byte_val a = 197 \<and> byte_val b = 191 then CHR ''s'' # fold_key (c # cs)
     else (if 65 \<le> byte_val a \<and> byte_val a \<le> 90 then byte_chr (byte_val a + 32) else a) # fold_key (b # c # cs))"
| "fold_key [a, b] =
    (if byte_val a = 197 \<and> byte_val b = 191 then ''s''
     else (if 65 \<le> byte_val a \<and> byte_val a \<le> 90 then byte_chr (byte_val a + 32) else a) # fold_key [b])"
| "fold_key [a] = [if 65 \<le> byte_val a \<and> byte_val a \<le> 90 then byte_chr (byte_val a + 32) else a]"
| "fold_key [] = []"

type_synonym 'a fields = "(string \<times> 'a decoder) list"

text \<open>A field of a struct: its tag name, the decoder of its type and the selector and update of
  the record field.\<close>

definition field :: "string \<Rightarrow> ('a \<Rightarrow> 'f) \<Rightarrow> (('f \<Rightarrow> 'f) \<Rightarrow> 'a \<Rightarrow> 'a) \<Rightarrow> 'f decoder \<Rightarrow> string \<times> 'a decoder" where
  "field name sel upd d = (name, \<lambda>j x. let (v, ok) = d j (sel x) in (upd (\<lambda>_. v) x, ok))"

definition find_field :: "'a fields \<Rightarrow> string \<Rightarrow> 'a decoder option" where
  "find_field fs k =
    (case map_of fs k of
       Some d \<Rightarrow> Some d
     | None \<Rightarrow> map_option snd (find (\<lambda>(n, _). fold_key n = fold_key k) fs))"

fun dec_members :: "'a fields \<Rightarrow> (string \<times> json) list \<Rightarrow> 'a \<Rightarrow> 'a \<times> bool" where
  "dec_members fs [] x = (x, True)"
| "dec_members fs ((k, j) # ms) x =
    (case find_field fs k of
       None \<Rightarrow> dec_members fs ms x
     | Some d \<Rightarrow> (let (x', ok) = d j x; (x'', ok') = dec_members fs ms x' in (x'', ok \<and> ok')))"

definition dec_struct :: "'a fields \<Rightarrow> 'a decoder" where
  "dec_struct fs j x =
    (case j of JObj ms \<Rightarrow> dec_members fs ms x | JNull \<Rightarrow> (x, True) | _ \<Rightarrow> (x, False))"

text \<open>\<open>json.Unmarshal(data, &x)\<close>: a syntax error leaves \<open>x\<close> alone.\<close>

definition Unmarshal :: "'a decoder \<Rightarrow> string \<Rightarrow> 'a \<Rightarrow> 'a \<times> bool" where
  "Unmarshal d s x = (case json_parse s of None \<Rightarrow> (x, False) | Some j \<Rightarrow> d j x)"

lemma Unmarshal_text: "wf_json j \<Longrightarrow> Unmarshal d (json_text j) x = d j x"
  by (simp add: Unmarshal_def json_parse_text)

text \<open>Encoding: a member, left out when it has \<open>omitempty\<close> and its value is empty.\<close>

definition member :: "string \<Rightarrow> json \<Rightarrow> (string \<times> json) list" where
  "member n j = [(n, j)]"

definition omitempty :: "bool \<Rightarrow> string \<Rightarrow> json \<Rightarrow> (string \<times> json) list" where
  "omitempty e n j = (if e then [] else [(n, j)])"

definition jint :: "int \<Rightarrow> json" where
  "jint i = JNum (FormatInt i)"

definition jstrings :: "string list option \<Rightarrow> json" where
  "jstrings s = (case s of None \<Rightarrow> JNull | Some xs \<Rightarrow> JArr (map JStr xs))"

lemma wf_jint [simp]: "wf_json (jint i)"
  by (auto simp: jint_def int_lit_def)

lemma wf_jstrings [simp]: "wf_json (jstrings s)"
  by (cases s) (simp_all add: jstrings_def list_all_iff)

lemma dec_int64_jint [simp]: "int64_range i \<Longrightarrow> dec_int64 (jint i) x = (i, True)"
  by (simp add: dec_int64_def jint_def ParseInt_FormatInt)

lemma dec_string_JStr [simp]: "dec_string (JStr s) x = (s, True)"
  by (simp add: dec_string_def)

lemma dec_bool_JBool [simp]: "dec_bool (JBool b) x = (b, True)"
  by (simp add: dec_bool_def)

lemma dec_slice_jstrings [simp]: "dec_slice dec_string z (jstrings s) x = (s, True)"
  by (cases s) (simp_all add: dec_slice_def jstrings_def list_all_iff comp_def)

lemma dec_members_append:
  "dec_members fs (ms @ ns) x =
    (let (x', ok) = dec_members fs ms x; (x'', ok') = dec_members fs ns x' in (x'', ok \<and> ok'))"
  by (induction ms arbitrary: x) (auto simp: Let_def split: prod.splits option.splits)

end
