(* ===== verification/Storage.thy ===== *)
theory Storage
  imports Json
begin

text \<open>
  \<open>storage/storage.go\<close>: the messages and applications kept in storage, with their JSON forms, and
  the interface \<open>Storage\<close> as a record of its methods over the world \<open>'w\<close> outside the process (the
  Redis server and the clock). A method returns the world after the call and its result. The
  locales \<open>hash_storage\<close> and \<open>counter_storage\<close> say what the clients rely on: \<open>hview\<close> reads the field of
  a hash, \<open>cview\<close> a counter. A write that returns an error may have reached the server or not, as a
  reply can get lost; a read changes neither.
\<close>

record PushParams =
  pp_RegId :: "string list option"
  pp_UserId :: "string list option"
  pp_DevId :: "string list option"
  pp_Topic :: "string list option"
  pp_TopicOp :: string
  pp_Group :: "string list option"

record Notification =
  nt_Title :: string
  nt_Desc :: string
  nt_Type :: int
  nt_SoundUri :: string
  nt_Action :: int
  nt_IntentUri :: string
  nt_WebUri :: string
  nt_IconUri :: string

record Options =
  op_TTL :: int
  op_TTS :: int

record RawMessage =
  rm_AppSec :: string
  rm_Token :: string
  rm_MsgId :: int
  rm_AppId :: string
  rm_Pkg :: string
  rm_CTime :: int
  rm_Platform :: string
  rm_MsgType :: int
  rm_PushType :: int
  rm_PushParams :: PushParams
  rm_Content :: string
  rm_Notification :: Notification
  rm_Options :: Options
  rm_SendId :: string

record RawApp =
  ra_Pkg :: string
  ra_UserId :: string
  ra_Name :: string
  ra_Mobile :: string
  ra_Email :: string
  ra_Desc :: string
  ra_AppKey :: string
  ra_AppSec :: string

record AppStats =
  as_Date :: string
  as_PushApi :: int
  as_Send :: int
  as_Received :: int
  as_Click :: int

text \<open>The elements of a slice of strings, nil or not.\<close>

definition elems :: "string list option \<Rightarrow> string list" where
  "elems s = (case s of None \<Rightarrow> [] | Some xs \<Rightarrow> xs)"

lemma elems_simps [simp]: "elems None = []" "elems (Some xs) = xs"
  by (simp_all add: elems_def)

subsection \<open>JSON forms\<close>

definition zero_PushParams :: PushParams where
  "zero_PushParams = \<lparr>pp_RegId = None, pp_UserId = None, pp_DevId = None, pp_Topic = None,
     pp_TopicOp = [], pp_Group = None\<rparr>"

definition zero_Notification :: Notification where
  "zero_Notification = \<lparr>nt_Title = [], nt_Desc = [], nt_Type = 0, nt_SoundUri = [], nt_Action = 0,
     nt_IntentUri = [], nt_WebUri = [], nt_IconUri = []\<rparr>"

definition zero_RawMessage :: RawMessage where
  "zero_RawMessage = \<lparr>rm_AppSec = [], rm_Token = [], rm_MsgId = 0, rm_AppId = [], rm_Pkg = [],
     rm_CTime = 0, rm_Platform = [], rm_MsgType = 0, rm_PushType = 0,
     rm_PushParams = zero_PushParams, rm_Content = [], rm_Notification = zero_Notification,
     rm_Options = \<lparr>op_TTL = 0, op_TTS = 0\<rparr>, rm_SendId = []\<rparr>"

definition zero_RawApp :: RawApp where
  "zero_RawApp = \<lparr>ra_Pkg = [], ra_UserId = [], ra_Name = [], ra_Mobile = [], ra_Email = [],
     ra_Desc = [], ra_AppKey = [], ra_AppSec = []\<rparr>"

definition enc_PushParams :: "PushParams \<Rightarrow> json" where
  "enc_PushParams p = JObj
    (omitempty (elems (pp_RegId p) = []) ''regid'' (jstrings (pp_RegId p)) @
     omitempty (elems (pp_UserId p) = []) ''userid'' (jstrings (pp_UserId p)) @
     omitempty (elems (pp_DevId p) = []) ''devid'' (jstrings (pp_DevId p)) @
     omitempty (elems (pp_Topic p) = []) ''topic'' (jstrings (pp_Topic p)) @
     omitempty (pp_TopicOp p = []) ''topic_op'' (JStr (pp_TopicOp p)) @
     omitempty (elems (pp_Group p) = []) ''group'' (jstrings (pp_Group p)))"

definition enc_Notification :: "Notification \<Rightarrow> json" where
  "enc_Notification n = JObj
    (member ''title'' (JStr (nt_Title n)) @
     omitempty (nt_Desc n = []) ''desc'' (JStr (nt_Desc n)) @
     omitempty (nt_Type n = 0) ''type'' (jint (nt_Type n)) @
     omitempty (nt_SoundUri n = []) ''sound_uri'' (JStr (nt_SoundUri n)) @
     omitempty (nt_Action n = 0) ''action'' (jint (nt_Action n)) @
     omitempty (nt_IntentUri n = []) ''intent_uri'' (JStr (nt_IntentUri n)) @
     omitempty (nt_WebUri n = []) ''web_uri'' (JStr (nt_WebUri n)) @
     omitempty (nt_IconUri n = []) ''icon_uri'' (JStr (nt_IconUri n)))"

text \<open>\<open>omitempty\<close> on the struct \<open>notification\<close> has no effect: a struct is never empty.\<close>

definition enc_RawMessage :: "RawMessage \<Rightarrow> json" where
  "enc_RawMessage m = JObj
    (omitempty (rm_AppSec m = []) ''appsec'' (JStr (rm_AppSec m)) @
     omitempty (rm_Token m = []) ''token'' (JStr (rm_Token m)) @
     member ''msgid'' (jint (rm_MsgId m)) @
     member ''appid'' (JStr (rm_AppId m)) @
     member ''pkg'' (JStr (rm_Pkg m)) @
     member ''ctime'' (jint (rm_CTime m)) @
     omitempty (rm_Platform m = []) ''platform'' (JStr (rm_Platform m)) @
     member ''msg_type'' (jint (rm_MsgType m)) @
     member ''push_type'' (jint (rm_PushType m)) @
     member ''push_params'' (enc_PushParams (rm_PushParams m)) @
     omitempty (rm_Content m = []) ''content'' (JStr (rm_Content m)) @
     member ''notification'' (enc_Notification (rm_Notification m)) @
     member ''options'' (JObj
       (omitempty (op_TTL (rm_Options m) = 0) ''ttl'' (jint (op_TTL (rm_Options m))) @
        omitempty (op_TTS (rm_Options m) = 0) ''tts'' (jint (op_TTS (rm_Options m))))) @
     omitempty (rm_SendId m = []) ''sendid'' (JStr (rm_SendId m)))"

definition enc_RawApp :: "RawApp \<Rightarrow> json" where
  "enc_RawApp a = JObj
    (member ''pkg'' (JStr (ra_Pkg a)) @
     member ''userid'' (JStr (ra_UserId a)) @
     member ''name'' (JStr (ra_Name a)) @
     member ''mobile'' (JStr (ra_Mobile a)) @
     member ''email'' (JStr (ra_Email a)) @
     member ''desc'' (JStr (ra_Desc a)) @
     omitempty (ra_AppKey a = []) ''appkey'' (JStr (ra_AppKey a)) @
     omitempty (ra_AppSec a = []) ''appsec'' (JStr (ra_AppSec a)))"

definition strings_dec :: "string list option decoder" where
  "strings_dec = dec_slice dec_string []"

definition dec_PushParams :: "PushParams decoder" where
  "dec_PushParams = dec_struct
    [field ''regid'' pp_RegId pp_RegId_update strings_dec,
     field ''userid'' pp_UserId pp_UserId_update strings_dec,
     field ''devid'' pp_DevId pp_DevId_update strings_dec,
     field ''topic'' pp_Topic pp_Topic_update strings_dec,
     field ''topic_op'' pp_TopicOp pp_TopicOp_update dec_string,
     field ''group'' pp_Group pp_Group_update strings_dec]"

definition dec_Notification :: "Notification decoder" where
  "dec_Notification = dec_struct
    [field ''title'' nt_Title nt_Title_update dec_string,
     field ''desc'' nt_Desc nt_Desc_update dec_string,
     field ''type'' nt_Type nt_Type_update dec_int64,
     field ''sound_uri'' nt_SoundUri nt_SoundUri_update dec_string,
     field ''action'' nt_Action nt_Action_update dec_int64,
     field ''intent_uri'' nt_IntentUri nt_IntentUri_update dec_string,
     field ''web_uri'' nt_WebUri nt_WebUri_update dec_string,
     field ''icon_uri'' nt_IconUri nt_IconUri_update dec_string]"

definition dec_Options :: "Options decoder" where
  "dec_Options = dec_struct
    [field ''ttl'' op_TTL op_TTL_update dec_int64,
     field ''tts'' op_TTS op_TTS_update dec_int64]"

definition dec_RawMessage :: "RawMessage decoder" where
  "dec_RawMessage = dec_struct
    [field ''appsec'' rm_AppSec rm_AppSec_update dec_string,
     field ''token'' rm_Token rm_Token_update dec_string,
     field ''msgid'' rm_MsgId rm_MsgId_update dec_int64,
     field ''appid'' rm_AppId rm_AppId_update dec_string,
     field ''pkg'' rm_Pkg rm_Pkg_update dec_string,
     field ''ctime'' rm_CTime rm_CTime_update dec_int64,
     field ''platform'' rm_Platform rm_Platform_update dec_string,
     field ''msg_type'' rm_MsgType rm_MsgType_update dec_int64,
     field ''push_type'' rm_PushType rm_PushType_update dec_int64,
     field ''push_params'' rm_PushParams rm_PushParams_update dec_PushParams,
     field ''content'' rm_Content rm_Content_update dec_string,
     field ''notification'' rm_Notification rm_Notification_update dec_Notification,
     field ''options'' rm_Options rm_Options_update dec_Options,
     field ''sendid'' rm_SendId rm_SendId_update dec_string]"

definition dec_RawApp :: "RawApp decoder" where
  "dec_RawApp = dec_struct
    [field ''pkg'' ra_Pkg ra_Pkg_update dec_string,
     field ''userid'' ra_UserId ra_UserId_update dec_string,
     field ''name'' ra_Name ra_Name_update dec_string,
     field ''mobile'' ra_Mobile ra_Mobile_update dec_string,
     field ''email'' ra_Email ra_Email_update dec_string,
     field ''desc'' ra_Desc ra_Desc_update dec_string,
     field ''appkey'' ra_AppKey ra_AppKey_update dec_string,
     field ''appsec'' ra_AppSec ra_AppSec_update dec_string]"

subsection \<open>The interface\<close>

text \<open>\<open>error\<close>-only methods return \<open>go_error option\<close>. The scan of a set returns the next cursor and
  the members of this page. The two methods over \<open>time.Time\<close> take nanoseconds.\<close>

record 'w storage =
  GetOfflineMsgs :: "'w \<Rightarrow> string \<Rightarrow> string \<Rightarrow> int \<Rightarrow> int \<Rightarrow> 'w \<times> RawMessage list"
  GetRawMsg :: "'w \<Rightarrow> string \<Rightarrow> int \<Rightarrow> 'w \<times> RawMessage option"
  AddComet :: "'w \<Rightarrow> string \<Rightarrow> 'w \<times> go_error option"
  RemoveComet :: "'w \<Rightarrow> string \<Rightarrow> 'w \<times> go_error option"
  AddDevice :: "'w \<Rightarrow> string \<Rightarrow> string \<Rightarrow> 'w \<times> go_error option"
  RemoveDevice :: "'w \<Rightarrow> string \<Rightarrow> string \<Rightarrow> 'w \<times> go_error option"
  GetServerNames :: "'w \<Rightarrow> 'w \<times> string list result"
  GetDeviceIds :: "'w \<Rightarrow> string \<Rightarrow> 'w \<times> string list result"
  CheckDevice :: "'w \<Rightarrow> string \<Rightarrow> 'w \<times> string result"
  RefreshDevices :: "'w \<Rightarrow> string \<Rightarrow> int \<Rightarrow> 'w \<times> go_error option"
  InitDevices :: "'w \<Rightarrow> string \<Rightarrow> 'w \<times> go_error option"
  GetStatsServices :: "'w \<Rightarrow> 'w \<times> string list result"
  IncCmd :: "'w \<Rightarrow> string \<Rightarrow> 'w \<times> go_error option"
  GetStatsCmd :: "'w \<Rightarrow> string \<Rightarrow> 'w \<times> int result"
  IncCmdSuccess :: "'w \<Rightarrow> string \<Rightarrow> 'w \<times> go_error option"
  GetStatsCmdSuccess :: "'w \<Rightarrow> string \<Rightarrow> 'w \<times> int result"
  IncCmdTimeout :: "'w \<Rightarrow> string \<Rightarrow> 'w \<times> go_error option"
  GetStatsCmdTimeout :: "'w \<Rightarrow> string \<Rightarrow> 'w \<times> int result"
  IncCmdOffline :: "'w \<Rightarrow> string \<Rightarrow> 'w \<times> go_error option"
  GetStatsCmdOffline :: "'w \<Rightarrow> string \<Rightarrow> 'w \<times> int result"
  IncCmdInvalidService :: "'w \<Rightarrow> string \<Rightarrow> 'w \<times> go_error option"
  GetStatsCmdInvalidService :: "'w \<Rightarrow> string \<Rightarrow> 'w \<times> int result"
  IncCmdOtherError :: "'w \<Rightarrow> string \<Rightarrow> 'w \<times> go_error option"
  GetStatsCmdOtherError :: "'w \<Rightarrow> string \<Rightarrow> 'w \<times> int result"
  IncQueryOnlineDevices :: "'w \<Rightarrow> 'w \<times> go_error option"
  GetStatsQueryOnlineDevices :: "'w \<Rightarrow> 'w \<times> int result"
  IncQueryDeviceInfo :: "'w \<Rightarrow> 'w \<times> go_error option"
  GetStatsQueryDeviceInfo :: "'w \<Rightarrow> 'w \<times> int result"
  IncReplyTooLate :: "'w \<Rightarrow> 'w \<times> go_error option"
  GetStatsReplyTooLate :: "'w \<Rightarrow> 'w \<times> int result"
  ClearStats :: "'w \<Rightarrow> 'w \<times> go_error option"
  MsgStatsSend :: "'w \<Rightarrow> int \<Rightarrow> 'w \<times> go_error option"
  MsgStatsReceived :: "'w \<Rightarrow> int \<Rightarrow> 'w \<times> go_error option"
  MsgStatsClick :: "'w \<Rightarrow> int \<Rightarrow> 'w \<times> go_error option"
  GetMsgStats :: "'w \<Rightarrow> int \<Rightarrow> ('w \<times> (int \<times> int \<times> int) result) option"
  AppStatsPushApi :: "'w \<Rightarrow> string \<Rightarrow> 'w \<times> go_error option"
  AppStatsSend :: "'w \<Rightarrow> string \<Rightarrow> 'w \<times> go_error option"
  AppStatsReceived :: "'w \<Rightarrow> string \<Rightarrow> 'w \<times> go_error option"
  AppStatsClick :: "'w \<Rightarrow> string \<Rightarrow> 'w \<times> go_error option"
  GetAppStats :: "'w \<Rightarrow> string \<Rightarrow> int \<Rightarrow> int \<Rightarrow> 'w \<times> AppStats list result"
  GetSysStats :: "'w \<Rightarrow> int \<Rightarrow> int \<Rightarrow> 'w \<times> AppStats list result"
  HashGetAll :: "'w \<Rightarrow> string \<Rightarrow> 'w \<times> string list result"
  HashGet :: "'w \<Rightarrow> string \<Rightarrow> string \<Rightarrow> 'w \<times> string option result"
  HashSet :: "'w \<Rightarrow> string \<Rightarrow> string \<Rightarrow> string \<Rightarrow> 'w \<times> int result"
  HashExists :: "'w \<Rightarrow> string \<Rightarrow> string \<Rightarrow> 'w \<times> int result"
  HashSetNotExist :: "'w \<Rightarrow> string \<Rightarrow> string \<Rightarrow> string \<Rightarrow> 'w \<times> int result"
  HashDel :: "'w \<Rightarrow> string \<Rightarrow> string \<Rightarrow> 'w \<times> int result"
  HashIncrBy :: "'w \<Rightarrow> string \<Rightarrow> string \<Rightarrow> int \<Rightarrow> 'w \<times> int result"
  HashLen :: "'w \<Rightarrow> string \<Rightarrow> 'w \<times> int result"
  SetNotExist :: "'w \<Rightarrow> string \<Rightarrow> string \<Rightarrow> 'w \<times> int result"
  IncrBy :: "'w \<Rightarrow> string \<Rightarrow> int \<Rightarrow> 'w \<times> int result"
  SetAdd :: "'w \<Rightarrow> string \<Rightarrow> string \<Rightarrow> 'w \<times> int result"
  SetDel :: "'w \<Rightarrow> string \<Rightarrow> string \<Rightarrow> 'w \<times> int result"
  SetIsMember :: "'w \<Rightarrow> string \<Rightarrow> string \<Rightarrow> 'w \<times> int result"
  SetMembers :: "'w \<Rightarrow> string \<Rightarrow> 'w \<times> string list result"
  SetScan :: "'w \<Rightarrow> string \<Rightarrow> int \<Rightarrow> int \<Rightarrow> ('w \<times> (int \<times> string list) result) option"
  KeyExpire :: "'w \<Rightarrow> string \<Rightarrow> int \<Rightarrow> 'w \<times> int result"
  ListLen :: "'w \<Rightarrow> string \<Rightarrow> 'w \<times> int result"
  ListRange :: "'w \<Rightarrow> string \<Rightarrow> int \<Rightarrow> int \<Rightarrow> 'w \<times> string list result"

subsection \<open>What the clients rely on\<close>

text \<open>All hashes with one field changed.\<close>

definition hput :: "(string \<Rightarrow> string \<Rightarrow> string option) \<Rightarrow> string \<Rightarrow> string \<Rightarrow> string option
    \<Rightarrow> (string \<Rightarrow> string \<Rightarrow> string option)" where
  "hput f db k x = f(db := (f db)(k := x))"

lemma hput_apply [simp]: "hput f db k x db' k' = (if db' = db \<and> k' = k then x else f db' k')"
  by (simp add: hput_def)

lemma hput_same [simp]: "f db k = x \<Longrightarrow> hput f db k x = f"
  by (auto simp: hput_def)

text \<open>The flat reply of \<open>HGETALL\<close>: each field followed by its value.\<close>

definition flat_hash :: "(string \<Rightarrow> string option) \<Rightarrow> string list \<Rightarrow> string list" where
  "flat_hash m ks = concat (map (\<lambda>k. [k, the (m k)]) ks)"

lemma flat_hash_simps [simp]:
  "flat_hash m [] = []" "flat_hash m (k # ks) = k # the (m k) # flat_hash m ks"
  by (simp_all add: flat_hash_def)

locale hash_storage =
  fixes st :: "'w storage"
    and hview :: "'w \<Rightarrow> string \<Rightarrow> string \<Rightarrow> string option"
  assumes hash_get: "HashGet st w db k = (w', r) \<Longrightarrow>
      hview w' = hview w \<and> (\<forall>v. r = Inr v \<longrightarrow> v = hview w db k)"
    and hash_get_all: "HashGetAll st w db = (w', ra) \<Longrightarrow> hview w' = hview w \<and>
      (\<forall>vals. ra = Inr vals \<longrightarrow> (\<exists>ks. map_order (hview w db) ks \<and> vals = flat_hash (hview w db) ks))"
    and hash_set_ok: "HashSet st w db k v = (w', Inr n) \<Longrightarrow> hview w' = hput (hview w) db k (Some v)"
    and hash_set_err: "HashSet st w db k v = (w', Inl e) \<Longrightarrow>
      hview w' = hview w \<or> hview w' = hput (hview w) db k (Some v)"
    and hash_setnx_ok: "HashSetNotExist st w db k v = (w', Inr n) \<Longrightarrow>
      hview w' = (if hview w db k = None then hput (hview w) db k (Some v) else hview w)"
    and hash_setnx_err: "HashSetNotExist st w db k v = (w', Inl e) \<Longrightarrow>
      hview w' = hview w \<or> hview w' = hput (hview w) db k (Some v)"
    and hash_del_ok: "HashDel st w db k = (w', Inr n) \<Longrightarrow> hview w' = hput (hview w) db k None"
    and hash_del_err: "HashDel st w db k = (w', Inl e) \<Longrightarrow>
      hview w' = hview w \<or> hview w' = hput (hview w) db k None"
begin

lemma hash_set_cases: "HashSet st w db k v = (w', r) \<Longrightarrow>
  hview w' = hput (hview w) db k (Some v) \<or> (hview w' = hview w \<and> \<not> ok_result r)"
  by (cases r) (auto dest: hash_set_ok hash_set_err)

lemma hash_set_other: "HashSet st w db k v = (w', r) \<Longrightarrow> db' \<noteq> db \<or> k' \<noteq> k \<Longrightarrow>
  hview w' db' k' = hview w db' k'"
  by (drule hash_set_cases) auto

lemma hash_setnx_other: "HashSetNotExist st w db k v = (w', r) \<Longrightarrow> db' \<noteq> db \<or> k' \<noteq> k \<Longrightarrow>
  hview w' db' k' = hview w db' k'"
  by (cases r) (auto dest!: hash_setnx_ok hash_setnx_err split: if_splits)

lemma hash_del_other: "HashDel st w db k = (w', r) \<Longrightarrow> db' \<noteq> db \<or> k' \<noteq> k \<Longrightarrow>
  hview w' db' k' = hview w db' k'"
  by (cases r) (auto dest!: hash_del_ok hash_del_err)

text \<open>Read your writes, and delete means gone.\<close>

lemma hash_set_get: "HashSet st w db k v = (w1, Inr n) \<Longrightarrow> HashGet st w1 db k = (w2, Inr x) \<Longrightarrow> x = Some v"
  by (auto dest!: hash_set_ok hash_get)

lemma hash_del_get: "HashDel st w db k = (w1, Inr n) \<Longrightarrow> HashGet st w1 db k = (w2, Inr x) \<Longrightarrow> x = None"
  by (auto dest!: hash_del_ok hash_get)

end

locale counter_storage =
  fixes st :: "'w storage"
    and cview :: "'w \<Rightarrow> string \<Rightarrow> int option"
  assumes incr_by: "IncrBy st w k n = (w', Inr v) \<Longrightarrow>
      v = (case cview w k of None \<Rightarrow> 0 | Some c \<Rightarrow> c) + n \<and> cview w' = (cview w)(k \<mapsto> v)"
    and incr_by_err: "IncrBy st w k n = (w', Inl e) \<Longrightarrow>
      cview w' = cview w \<or> cview w' = (cview w)(k \<mapsto> (case cview w k of None \<Rightarrow> 0 | Some c \<Rightarrow> c) + n)"
begin

definition counter :: "'w \<Rightarrow> string \<Rightarrow> int" where
  "counter w k = (case cview w k of None \<Rightarrow> 0 | Some c \<Rightarrow> c)"

lemma incr_counter: "IncrBy st w k 1 = (w', Inr v) \<Longrightarrow> v = counter w k + 1 \<and> counter w' k = v"
  by (auto dest: incr_by simp: counter_def split: option.splits)

lemma incr_mono: "IncrBy st w k 1 = (w', r) \<Longrightarrow> counter w k \<le> counter w' k"
  by (cases r) (fastforce dest: incr_by incr_by_err simp: counter_def split: option.splits)+

end

text \<open>A storage whose hashes and sets register the servers and their devices.\<close>

locale device_registry = hash_storage st hview
  for st :: "'w storage" and hview :: "'w \<Rightarrow> string \<Rightarrow> string \<Rightarrow> string option" +
  fixes sview :: "'w \<Rightarrow> string set"
  assumes add_comet: "AddComet st w s = (w', None) \<Longrightarrow> sview w' = insert s (sview w) \<and> hview w' = hview w"
    and add_device: "AddDevice st w s d = (w', None) \<Longrightarrow>
      hview w' = hput (hview w) (''comet:'' @ s) d (Some []) \<and> sview w' = sview w"
    and remove_device: "RemoveDevice st w s d = (w', None) \<Longrightarrow>
      hview w' = hput (hview w) (''comet:'' @ s) d None \<and> sview w' = sview w"
    and check_device: "CheckDevice st w d = (w', r) \<Longrightarrow> hview w' = hview w \<and> sview w' = sview w \<and>
      (\<forall>name. r = Inr name \<longrightarrow>
         (name \<in> sview w \<and> hview w (''comet:'' @ name) d \<noteq> None) \<or>
         (name = [] \<and> (\<forall>s \<in> sview w. hview w (''comet:'' @ s) d = None)))"
begin

text \<open>A device that one server registered is found, whichever server looks.\<close>

lemma registered_found:
  assumes "AddDevice st w s d = (w1, None)" "s \<in> sview w" "CheckDevice st w1 d = (w2, Inr name)"
  shows "name \<in> sview w \<and> hview w1 (''comet:'' @ name) d \<noteq> None"
  using add_device[OF assms(1)] check_device[OF assms(3)] assms(2) by auto

end

end
