(* ===== verification/Redis_Storage.thy ===== *)
theory Redis_Storage
  imports Storage
begin

text \<open>
  \<open>storage/redis.go\<close>: \<open>RedisStorage\<close>, the implementation of \<open>Storage\<close>. The package redigo and the
  server behind it are not part of the repository: they are the record \<open>redigo\<close>, an argument of
  every method. \<open>conn_err\<close> is \<open>pool.Get()\<close> followed by \<open>conn.Err()\<close>, \<open>conn_do\<close> is \<open>conn.Do\<close>, and
  the remaining fields are redigo's conversions \<open>redis.Int\<close>, \<open>redis.Strings\<close> and so on, the wall clock
  in nanoseconds, and \<open>time.Time.Format("20060102")\<close>. The locale \<open>redis_service\<close> states the documented
  behaviour of the commands the storage relies on; under it \<open>RedisStorage\<close> meets the contracts
  \<open>hash_storage\<close> and \<open>counter_storage\<close>, which the clients' lemmas use.
\<close>

datatype redis_arg = AStr string | AInt int | ANil

datatype reply = RNil | RInt int | RBulk string | RArr "reply list" | RStatus string

record 'w redigo =
  conn_err :: "'w \<Rightarrow> 'w \<times> go_error option"
  conn_do :: "'w \<Rightarrow> string \<Rightarrow> redis_arg list \<Rightarrow> 'w \<times> reply result"
  Int_of :: "reply result \<Rightarrow> int result"
  Int64_of :: "reply result \<Rightarrow> int result"
  Bool_of :: "reply result \<Rightarrow> bool result"
  Bytes_of :: "reply result \<Rightarrow> string result"
  Strings_of :: "reply result \<Rightarrow> string list result"
  Values_of :: "reply result \<Rightarrow> reply list result"
  clock :: "'w \<Rightarrow> int"
  date_format :: "int \<Rightarrow> string"

record 'w RedisStorage =
  pool :: "'w redigo"
  retry :: int

definition unix_time :: "int \<Rightarrow> int" where
  "unix_time ns = ns div 1000000000"

subsection \<open>Connections and commands\<close>

text \<open>The loop of \<open>Do\<close>: at most \<open>i\<close> attempts to get a connection without an error; the two
  seconds of sleep after a failed attempt are not modelled. The result says whether it got one.\<close>

fun get_conn :: "'w redigo \<Rightarrow> nat \<Rightarrow> 'w \<Rightarrow> 'w \<times> bool" where
  "get_conn rg 0 w = (w, False)"
| "get_conn rg (Suc i) w =
    (case conn_err rg w of
       (w', None) \<Rightarrow> (w', True)
     | (w', Some _) \<Rightarrow> get_conn rg i w')"

definition RedisStorage_Do :: "'w RedisStorage \<Rightarrow> 'w \<Rightarrow> string \<Rightarrow> redis_arg list \<Rightarrow> 'w \<times> reply result" where
  "RedisStorage_Do r w commandName args =
    (case get_conn (pool r) (nat (retry r)) w of
       (w', False) \<Rightarrow> (w', Inl (GoErr ''failed to find a useful redis conn''))
     | (w', True) \<Rightarrow> conn_do (pool r) w' commandName args)"

text \<open>\<open>redis.Int(r.Do(...))\<close> and its kin.\<close>

definition do_int :: "'w RedisStorage \<Rightarrow> 'w \<Rightarrow> string \<Rightarrow> redis_arg list \<Rightarrow> 'w \<times> int result" where
  "do_int r w cmd args = (let (w', x) = RedisStorage_Do r w cmd args in (w', Int_of (pool r) x))"

definition do_int64 :: "'w RedisStorage \<Rightarrow> 'w \<Rightarrow> string \<Rightarrow> redis_arg list \<Rightarrow> 'w \<times> int result" where
  "do_int64 r w cmd args = (let (w', x) = RedisStorage_Do r w cmd args in (w', Int64_of (pool r) x))"

definition do_bool :: "'w RedisStorage \<Rightarrow> 'w \<Rightarrow> string \<Rightarrow> redis_arg list \<Rightarrow> 'w \<times> bool result" where
  "do_bool r w cmd args = (let (w', x) = RedisStorage_Do r w cmd args in (w', Bool_of (pool r) x))"

definition do_strings :: "'w RedisStorage \<Rightarrow> 'w \<Rightarrow> string \<Rightarrow> redis_arg list \<Rightarrow> 'w \<times> string list result" where
  "do_strings r w cmd args = (let (w', x) = RedisStorage_Do r w cmd args in (w', Strings_of (pool r) x))"

text \<open>\<open>_, err := f(); return err\<close>.\<close>

definition only_err :: "'w \<times> 'a result \<Rightarrow> 'w \<times> go_error option" where
  "only_err p = (fst p, drop_value (snd p))"

lemma only_err_simps [simp]: "only_err (w, Inr x) = (w, None)" "only_err (w, Inl e) = (w, Some e)"
  by (simp_all add: only_err_def)

subsection \<open>Messages\<close>

text \<open>The scan of one offline field: kept when it was created after the app registered, is newer
  than the last message the app received, and has not expired.\<close>

definition offline_field :: "int \<Rightarrow> int \<Rightarrow> int \<Rightarrow> string \<Rightarrow> int option" where
  "offline_field now regTime msgId f =
    (case scan_field3 f of
       None \<Rightarrow> None
     | Some (idx, ctime, expire) \<Rightarrow>
         if ctime \<le> regTime then None
         else if idx \<le> msgId \<or> expire \<le> now then None
         else Some idx)"

text \<open>The loop over the fields: the map \<open>skeys\<close> from message id to field and the ids as floats.\<close>

fun collect_offline :: "int \<Rightarrow> int \<Rightarrow> int \<Rightarrow> string list \<Rightarrow> (int \<Rightarrow> string option) \<Rightarrow> int list
    \<Rightarrow> (int \<Rightarrow> string option) \<times> int list" where
  "collect_offline now regTime msgId [] skeys sidxs = (skeys, sidxs)"
| "collect_offline now regTime msgId (f # fs) skeys sidxs =
    (case offline_field now regTime msgId f of
       None \<Rightarrow> collect_offline now regTime msgId fs skeys sidxs
     | Some idx \<Rightarrow>
         collect_offline now regTime msgId fs (skeys(idx \<mapsto> f)) (sidxs @ [via_float64 idx]))"

text \<open>A missing key of \<open>skeys\<close> is a nil argument.\<close>

definition offline_args :: "(int \<Rightarrow> string option) \<Rightarrow> int list \<Rightarrow> redis_arg list" where
  "offline_args skeys sidxs = map (\<lambda>t. case skeys t of Some f \<Rightarrow> AStr f | None \<Rightarrow> ANil) (sort sidxs)"

fun decode_messages :: "string list \<Rightarrow> RawMessage list" where
  "decode_messages [] = []"
| "decode_messages (t # ts) =
    (case Unmarshal dec_RawMessage t zero_RawMessage of
       (msg, True) \<Rightarrow> msg # decode_messages ts
     | (_, False) \<Rightarrow> decode_messages ts)"

definition RedisStorage_GetOfflineMsgs ::
    "'w RedisStorage \<Rightarrow> 'w \<Rightarrow> string \<Rightarrow> string \<Rightarrow> int \<Rightarrow> int \<Rightarrow> 'w \<times> RawMessage list" where
  "RedisStorage_GetOfflineMsgs r w appId regId regTime msgId =
    (let key = ''db_offline_msg_'' @ appId in
     case do_strings r w ''HKEYS'' [AStr key] of
       (w1, Inl _) \<Rightarrow> (w1, [])
     | (w1, Inr ret) \<Rightarrow>
        (let now = unix_time (clock (pool r) w1);
             (skeys, sidxs) = collect_offline now regTime msgId ret Map.empty [];
             args = AStr key # offline_args skeys sidxs
         in if length args = 1 then (w1, [])
            else (case do_strings r w1 ''HMGET'' args of
               (w2, Inl _) \<Rightarrow> (w2, [])
             | (w2, Inr rmsgs) \<Rightarrow> (w2, decode_messages rmsgs))))"

definition RedisStorage_GetRawMsg :: "'w RedisStorage \<Rightarrow> 'w \<Rightarrow> string \<Rightarrow> int \<Rightarrow> 'w \<times> RawMessage option" where
  "RedisStorage_GetRawMsg r w appId msgId =
    (let key = ''db_msg_'' @ appId in
     case RedisStorage_Do r w ''HGET'' [AStr key, AInt msgId] of
       (w1, Inl _) \<Rightarrow> (w1, None)
     | (w1, Inr RNil) \<Rightarrow> (w1, None)
     | (w1, Inr ret) \<Rightarrow>
        (case Bytes_of (pool r) (Inr ret) of
           Inl _ \<Rightarrow> (w1, None)
         | Inr data \<Rightarrow>
            (case Unmarshal dec_RawMessage data zero_RawMessage of
               (rmsg, True) \<Rightarrow> (w1, Some rmsg)
             | (_, False) \<Rightarrow> (w1, None))))"

subsection \<open>Servers and devices\<close>

definition cometNodesKey :: string where
  "cometNodesKey = ''comet_nodes''"

definition RedisStorage_AddComet :: "'w RedisStorage \<Rightarrow> 'w \<Rightarrow> string \<Rightarrow> 'w \<times> go_error option" where
  "RedisStorage_AddComet r w serverName =
    only_err (RedisStorage_Do r w ''SADD'' [AStr cometNodesKey, AStr serverName])"

definition RedisStorage_RemoveComet :: "'w RedisStorage \<Rightarrow> 'w \<Rightarrow> string \<Rightarrow> 'w \<times> go_error option" where
  "RedisStorage_RemoveComet r w serverName =
    only_err (RedisStorage_Do r w ''SREM'' [AStr cometNodesKey, AStr serverName])"

definition RedisStorage_AddDevice :: "'w RedisStorage \<Rightarrow> 'w \<Rightarrow> string \<Rightarrow> string \<Rightarrow> 'w \<times> go_error option" where
  "RedisStorage_AddDevice r w serverName devId =
    only_err (do_int r w ''HSET'' [AStr (''comet:'' @ serverName), AStr devId, ANil])"

definition RedisStorage_RemoveDevice :: "'w RedisStorage \<Rightarrow> 'w \<Rightarrow> string \<Rightarrow> string \<Rightarrow> 'w \<times> go_error option" where
  "RedisStorage_RemoveDevice r w serverName devId =
    only_err (RedisStorage_Do r w ''HDEL'' [AStr (''comet:'' @ serverName), AStr devId])"

definition RedisStorage_GetServerNames :: "'w RedisStorage \<Rightarrow> 'w \<Rightarrow> 'w \<times> string list result" where
  "RedisStorage_GetServerNames r w = do_strings r w ''SMEMBERS'' [AStr cometNodesKey]"

definition RedisStorage_GetDeviceIds :: "'w RedisStorage \<Rightarrow> 'w \<Rightarrow> string \<Rightarrow> 'w \<times> string list result" where
  "RedisStorage_GetDeviceIds r w serverName = do_strings r w ''HKEYS'' [AStr (''comet:'' @ serverName)]"

text \<open>The search of \<open>CheckDevice\<close> through the servers; the empty name means not found.\<close>

fun find_server :: "'w RedisStorage \<Rightarrow> string list \<Rightarrow> 'w \<Rightarrow> string \<Rightarrow> 'w \<times> string result" where
  "find_server r [] w devId = (w, Inr [])"
| "find_server r (name # names) w devId =
    (case do_bool r w ''HEXISTS'' [AStr (''comet:'' @ name), AStr devId] of
       (w', Inl e) \<Rightarrow> (w', Inl e)
     | (w', Inr True) \<Rightarrow> (w', Inr name)
     | (w', Inr False) \<Rightarrow> find_server r names w' devId)"

definition RedisStorage_CheckDevice :: "'w RedisStorage \<Rightarrow> 'w \<Rightarrow> string \<Rightarrow> 'w \<times> string result" where
  "RedisStorage_CheckDevice r w devId =
    (case RedisStorage_GetServerNames r w of
       (w', Inl e) \<Rightarrow> (w', Inl e)
     | (w', Inr names) \<Rightarrow> find_server r names w' devId)"

definition RedisStorage_RefreshDevices :: "'w RedisStorage \<Rightarrow> 'w \<Rightarrow> string \<Rightarrow> int \<Rightarrow> 'w \<times> go_error option" where
  "RedisStorage_RefreshDevices r w serverName timeout =
    only_err (do_int r w ''EXPIRE'' [AStr (''comet:'' @ serverName), AInt timeout])"

definition RedisStorage_InitDevices :: "'w RedisStorage \<Rightarrow> 'w \<Rightarrow> string \<Rightarrow> 'w \<times> go_error option" where
  "RedisStorage_InitDevices r w serverName =
    only_err (do_int r w ''DEL'' [AStr (''comet:'' @ serverName)])"

subsection \<open>Statistics of remote commands\<close>

definition initStatsService :: "'w RedisStorage \<Rightarrow> 'w \<Rightarrow> string \<Rightarrow> 'w \<times> go_error option" where
  "initStatsService r w service = only_err (do_int r w ''SADD'' [AStr ''stats_service'', AStr service])"

definition RedisStorage_GetStatsServices :: "'w RedisStorage \<Rightarrow> 'w \<Rightarrow> 'w \<times> string list result" where
  "RedisStorage_GetStatsServices r w = do_strings r w ''SMEMBERS'' [AStr ''stats_service'']"

text \<open>The body the six \<open>IncCmd...\<close> methods share, and their six \<open>GetStatsCmd...\<close> readers.\<close>

definition inc_service :: "string \<Rightarrow> 'w RedisStorage \<Rightarrow> 'w \<Rightarrow> string \<Rightarrow> 'w \<times> go_error option" where
  "inc_service prefix r w service =
    (case initStatsService r w service of
       (w', Some e) \<Rightarrow> (w', Some e)
     | (w', None) \<Rightarrow> only_err (do_int r w' ''INCR'' [AStr (prefix @ service)]))"

definition get_counter :: "'w RedisStorage \<Rightarrow> 'w \<Rightarrow> string \<Rightarrow> 'w \<times> int result" where
  "get_counter r w key = do_int r w ''GET'' [AStr key]"

definition RedisStorage_IncCmd :: "'w RedisStorage \<Rightarrow> 'w \<Rightarrow> string \<Rightarrow> 'w \<times> go_error option" where
  "RedisStorage_IncCmd r w service = inc_service ''stats_cmd_'' r w service"

definition RedisStorage_GetStatsCmd :: "'w RedisStorage \<Rightarrow> 'w \<Rightarrow> string \<Rightarrow> 'w \<times> int result" where
  "RedisStorage_GetStatsCmd r w service = get_counter r w (''stats_cmd_'' @ service)"

definition RedisStorage_IncCmdSuccess :: "'w RedisStorage \<Rightarrow> 'w \<Rightarrow> string \<Rightarrow> 'w \<times> go_error option" where
  "RedisStorage_IncCmdSuccess r w service = inc_service ''stats_cmd_success_'' r w service"

definition RedisStorage_GetStatsCmdSuccess :: "'w RedisStorage \<Rightarrow> 'w \<Rightarrow> string \<Rightarrow> 'w \<times> int result" where
  "RedisStorage_GetStatsCmdSuccess r w service = get_counter r w (''stats_cmd_success_'' @ service)"

definition RedisStorage_IncCmdTimeout :: "'w RedisStorage \<Rightarrow> 'w \<Rightarrow> string \<Rightarrow> 'w \<times> go_error option" where
  "RedisStorage_IncCmdTimeout r w service = inc_service ''stats_cmd_timeout_'' r w service"

definition RedisStorage_GetStatsCmdTimeout :: "'w RedisStorage \<Rightarrow> 'w \<Rightarrow> string \<Rightarrow> 'w \<times> int result" where
  "RedisStorage_GetStatsCmdTimeout r w service = get_counter r w (''stats_cmd_timeout_'' @ service)"

definition RedisStorage_IncCmdOffline :: "'w RedisStorage \<Rightarrow> 'w \<Rightarrow> string \<Rightarrow> 'w \<times> go_error option" where
  "RedisStorage_IncCmdOffline r w service = inc_service ''stats_cmd_offline_'' r w service"

definition RedisStorage_GetStatsCmdOffline :: "'w RedisStorage \<Rightarrow> 'w \<Rightarrow> string \<Rightarrow> 'w \<times> int result" where
  "RedisStorage_GetStatsCmdOffline r w service = get_counter r w (''stats_cmd_offline_'' @ service)"

definition RedisStorage_IncCmdInvalidService :: "'w RedisStorage \<Rightarrow> 'w \<Rightarrow> string \<Rightarrow> 'w \<times> go_error option" where
  "RedisStorage_IncCmdInvalidService r w service = inc_service ''stats_cmd_invalid_service_'' r w service"

definition RedisStorage_GetStatsCmdInvalidService :: "'w RedisStorage \<Rightarrow> 'w \<Rightarrow> string \<Rightarrow> 'w \<times> int result" where
  "RedisStorage_GetStatsCmdInvalidService r w service = get_counter r w (''stats_cmd_invalid_service_'' @ service)"

definition RedisStorage_IncCmdOtherError :: "'w RedisStorage \<Rightarrow> 'w \<Rightarrow> string \<Rightarrow> 'w \<times> go_error option" where
  "RedisStorage_IncCmdOtherError r w service = inc_service ''stats_cmd_other_error_'' r w service"

definition RedisStorage_GetStatsCmdOtherError :: "'w RedisStorage \<Rightarrow> 'w \<Rightarrow> string \<Rightarrow> 'w \<times> int result" where
  "RedisStorage_GetStatsCmdOtherError r w service = get_counter r w (''stats_cmd_other_error_'' @ service)"

definition RedisStorage_IncQueryOnlineDevices :: "'w RedisStorage \<Rightarrow> 'w \<Rightarrow> 'w \<times> go_error option" where
  "RedisStorage_IncQueryOnlineDevices r w = only_err (do_int r w ''INCR'' [AStr ''stats_query_online_devices''])"

definition RedisStorage_GetStatsQueryOnlineDevices :: "'w RedisStorage \<Rightarrow> 'w \<Rightarrow> 'w \<times> int result" where
  "RedisStorage_GetStatsQueryOnlineDevices r w = get_counter r w ''stats_query_online_devices''"

definition RedisStorage_IncQueryDeviceInfo :: "'w RedisStorage \<Rightarrow> 'w \<Rightarrow> 'w \<times> go_error option" where
  "RedisStorage_IncQueryDeviceInfo r w = only_err (do_int r w ''INCR'' [AStr ''stats_query_device_info''])"

definition RedisStorage_GetStatsQueryDeviceInfo :: "'w RedisStorage \<Rightarrow> 'w \<Rightarrow> 'w \<times> int result" where
  "RedisStorage_GetStatsQueryDeviceInfo r w = get_counter r w ''stats_query_device_info''"

definition RedisStorage_IncReplyTooLate :: "'w RedisStorage \<Rightarrow> 'w \<Rightarrow> 'w \<times> go_error option" where
  "RedisStorage_IncReplyTooLate r w = only_err (do_int r w ''INCR'' [AStr ''stats_reply_too_late''])"

definition RedisStorage_GetStatsReplyTooLate :: "'w RedisStorage \<Rightarrow> 'w \<Rightarrow> 'w \<times> int result" where
  "RedisStorage_GetStatsReplyTooLate r w = get_counter r w ''stats_reply_too_late''"

text \<open>\<open>ClearStats\<close> goes on with no service when it cannot list them: the error of
  \<open>GetStatsServices\<close> is overwritten by the last command's.\<close>

fun clear_services :: "'w RedisStorage \<Rightarrow> string list \<Rightarrow> 'w \<Rightarrow> 'w \<times> go_error option" where
  "clear_services r [] w = (w, None)"
| "clear_services r (service # services) w =
    (case do_int r w ''DEL''
        [AStr (''stats_cmd_'' @ service),
         AStr (''stats_cmd_success_'' @ service),
         AStr (''stats_cmd_timeout_'' @ service),
         AStr (''stats_cmd_offline_'' @ service),
         AStr (''stats_cmd_invalid_service_'' @ service),
         AStr (''stats_cmd_other_error_'' @ service)] of
       (w', Inl e) \<Rightarrow> (w', Some e)
     | (w', Inr _) \<Rightarrow> clear_services r services w')"

definition RedisStorage_ClearStats :: "'w RedisStorage \<Rightarrow> 'w \<Rightarrow> 'w \<times> go_error option" where
  "RedisStorage_ClearStats r w =
    (let (w1, services) = RedisStorage_GetStatsServices r w in
     case clear_services r (value_or [] services) w1 of
       (w2, Some e) \<Rightarrow> (w2, Some e)
     | (w2, None) \<Rightarrow> only_err (do_int r w2 ''DEL''
         [AStr ''stats_query_online_devices'', AStr ''stats_query_device_info'',
          AStr ''stats_reply_too_late'', AStr ''stats_service'']))"

subsection \<open>Statistics of messages and apps\<close>

definition msg_stat_key :: "int \<Rightarrow> string" where
  "msg_stat_key msgId = ''db_msg_stat:'' @ FormatInt msgId"

definition RedisStorage_MsgStatsSend :: "'w RedisStorage \<Rightarrow> 'w \<Rightarrow> int \<Rightarrow> 'w \<times> go_error option" where
  "RedisStorage_MsgStatsSend r w msgId =
    only_err (RedisStorage_Do r w ''HINCRBY'' [AStr (msg_stat_key msgId), AStr ''send'', AInt 1])"

definition RedisStorage_MsgStatsReceived :: "'w RedisStorage \<Rightarrow> 'w \<Rightarrow> int \<Rightarrow> 'w \<times> go_error option" where
  "RedisStorage_MsgStatsReceived r w msgId =
    only_err (RedisStorage_Do r w ''HINCRBY'' [AStr (msg_stat_key msgId), AStr ''received'', AInt 1])"

definition RedisStorage_MsgStatsClick :: "'w RedisStorage \<Rightarrow> 'w \<Rightarrow> int \<Rightarrow> 'w \<times> go_error option" where
  "RedisStorage_MsgStatsClick r w msgId =
    only_err (RedisStorage_Do r w ''HINCRBY'' [AStr (msg_stat_key msgId), AStr ''click'', AInt 1])"

definition stat_value :: "'w RedisStorage \<Rightarrow> reply \<Rightarrow> int" where
  "stat_value r x = (case x of RNil \<Rightarrow> 0 | _ \<Rightarrow> value_or 0 (Int_of (pool r) (Inr x)))"

text \<open>Indexing a reply of one or two values panics (\<open>None\<close>); the empty list is the nil slice.\<close>

definition RedisStorage_GetMsgStats :: "'w RedisStorage \<Rightarrow> 'w \<Rightarrow> int
    \<Rightarrow> ('w \<times> (int \<times> int \<times> int) result) option" where
  "RedisStorage_GetMsgStats r w msgId =
    (case RedisStorage_Do r w ''HMGET''
        [AStr (msg_stat_key msgId), AStr ''send'', AStr ''received'', AStr ''click''] of
       (w', x) \<Rightarrow>
        (case Values_of (pool r) x of
           Inl e \<Rightarrow> Some (w', Inl e)
         | Inr [] \<Rightarrow> Some (w', Inr (0, 0, 0))
         | Inr (a # b # c # _) \<Rightarrow> Some (w', Inr (stat_value r a, stat_value r b, stat_value r c))
         | Inr _ \<Rightarrow> None))"

definition app_key :: "'w RedisStorage \<Rightarrow> string \<Rightarrow> int \<Rightarrow> string" where
  "app_key r prefix t = prefix @ date_format (pool r) t"

definition inc_app :: "string \<Rightarrow> 'w RedisStorage \<Rightarrow> 'w \<Rightarrow> string \<Rightarrow> 'w \<times> go_error option" where
  "inc_app prefix r w appId =
    only_err (RedisStorage_Do r w ''ZINCRBY'' [AStr (app_key r prefix (clock (pool r) w)), AInt 1, AStr appId])"

definition RedisStorage_AppStatsPushApi :: "'w RedisStorage \<Rightarrow> 'w \<Rightarrow> string \<Rightarrow> 'w \<times> go_error option" where
  "RedisStorage_AppStatsPushApi r w appId = inc_app ''stats_app_pushapi:'' r w appId"

definition RedisStorage_AppStatsSend :: "'w RedisStorage \<Rightarrow> 'w \<Rightarrow> string \<Rightarrow> 'w \<times> go_error option" where
  "RedisStorage_AppStatsSend r w appId = inc_app ''stats_app_send:'' r w appId"

definition RedisStorage_AppStatsReceived :: "'w RedisStorage \<Rightarrow> 'w \<Rightarrow> string \<Rightarrow> 'w \<times> go_error option" where
  "RedisStorage_AppStatsReceived r w appId = inc_app ''stats_app_received:'' r w appId"

definition RedisStorage_AppStatsClick :: "'w RedisStorage \<Rightarrow> 'w \<Rightarrow> string \<Rightarrow> 'w \<times> go_error option" where
  "RedisStorage_AppStatsClick r w appId = inc_app ''stats_app_click:'' r w appId"

text \<open>\<open>if err != nil && err != redis.ErrNil { return err }\<close>: a missing score counts as 0.\<close>

definition nil_as_zero :: "int result \<Rightarrow> int result" where
  "nil_as_zero x = (case x of Inr n \<Rightarrow> Inr n | Inl ErrNil \<Rightarrow> Inr 0 | Inl e \<Rightarrow> Inl e)"

definition app_score :: "'w RedisStorage \<Rightarrow> string \<Rightarrow> 'w \<Rightarrow> string \<Rightarrow> 'w \<times> int result" where
  "app_score r key w appId =
    (let (w', x) = do_int r w ''ZSCORE'' [AStr key, AStr appId] in (w', nil_as_zero x))"

text \<open>The four counters of one day, read by \<open>get\<close> one after the other.\<close>

definition day_stats :: "'w RedisStorage \<Rightarrow> (string \<Rightarrow> 'w \<Rightarrow> 'w \<times> int result) \<Rightarrow> int \<Rightarrow> 'w \<Rightarrow> 'w \<times> AppStats result" where
  "day_stats r get t w =
    (case get (app_key r ''stats_app_pushapi:'' t) w of (w1, Inl e) \<Rightarrow> (w1, Inl e) | (w1, Inr pushapi) \<Rightarrow>
    (case get (app_key r ''stats_app_send:'' t) w1 of (w2, Inl e) \<Rightarrow> (w2, Inl e) | (w2, Inr send) \<Rightarrow>
    (case get (app_key r ''stats_app_received:'' t) w2 of (w3, Inl e) \<Rightarrow> (w3, Inl e) | (w3, Inr received) \<Rightarrow>
    (case get (app_key r ''stats_app_click:'' t) w3 of (w4, Inl e) \<Rightarrow> (w4, Inl e) | (w4, Inr click) \<Rightarrow>
     (w4, Inr \<lparr>as_Date = date_format (pool r) t, as_PushApi = pushapi, as_Send = send,
               as_Received = received, as_Click = click\<rparr>)))))"

definition day_ns :: int where
  "day_ns = 24 * 3600 * 1000000000"

text \<open>\<open>for ; !start.After(end); start = start.Add(24 * time.Hour)\<close>.\<close>

function stats_loop :: "'w RedisStorage \<Rightarrow> (string \<Rightarrow> 'w \<Rightarrow> 'w \<times> int result) \<Rightarrow> int \<Rightarrow> int \<Rightarrow> AppStats list \<Rightarrow> 'w
    \<Rightarrow> 'w \<times> AppStats list result" where
  "stats_loop r get start stop acc w =
    (if stop < start then (w, Inr acc)
     else (case day_stats r get start w of
        (w', Inl e) \<Rightarrow> (w', Inl e)
      | (w', Inr st) \<Rightarrow> stats_loop r get (start + day_ns) stop (acc @ [st]) w'))"
  by pat_completeness auto
termination
  by (relation "measure (\<lambda>(r, get, start, stop, acc, w). nat (stop - start + 1))") (auto simp: day_ns_def)

declare stats_loop.simps [simp del]

definition RedisStorage_GetAppStats :: "'w RedisStorage \<Rightarrow> 'w \<Rightarrow> string \<Rightarrow> int \<Rightarrow> int \<Rightarrow> 'w \<times> AppStats list result" where
  "RedisStorage_GetAppStats r w appId start stop =
    stats_loop r (\<lambda>key w. app_score r key w appId) start stop [] w"

fun sum_scores :: "'w RedisStorage \<Rightarrow> string \<Rightarrow> string list \<Rightarrow> int \<Rightarrow> 'w \<Rightarrow> 'w \<times> int result" where
  "sum_scores r key [] tot w = (w, Inr tot)"
| "sum_scores r key (appId # appIds) tot w =
    (case app_score r key w appId of
       (w', Inl e) \<Rightarrow> (w', Inl e)
     | (w', Inr count) \<Rightarrow> sum_scores r key appIds (tot + count) w')"

definition sys_score :: "'w RedisStorage \<Rightarrow> string \<Rightarrow> 'w \<Rightarrow> 'w \<times> int result" where
  "sys_score r key w =
    (case do_strings r w ''ZRANGE'' [AStr key, AInt 0, AInt (-1)] of
       (w', Inl e) \<Rightarrow> (w', Inl e)
     | (w', Inr appIds) \<Rightarrow> sum_scores r key appIds 0 w')"

definition RedisStorage_GetSysStats :: "'w RedisStorage \<Rightarrow> 'w \<Rightarrow> int \<Rightarrow> int \<Rightarrow> 'w \<times> AppStats list result" where
  "RedisStorage_GetSysStats r w start stop = stats_loop r (sys_score r) start stop [] w"

subsection \<open>Hashes, sets, lists and keys\<close>

definition RedisStorage_HashGetAll :: "'w RedisStorage \<Rightarrow> 'w \<Rightarrow> string \<Rightarrow> 'w \<times> string list result" where
  "RedisStorage_HashGetAll r w db =
    (case RedisStorage_Do r w ''HGETALL'' [AStr db] of
       (w', Inl e) \<Rightarrow> (w', Inl e)
     | (w', Inr RNil) \<Rightarrow> (w', Inr [])
     | (w', Inr ret) \<Rightarrow> (w', Strings_of (pool r) (Inr ret)))"

definition RedisStorage_HashGet :: "'w RedisStorage \<Rightarrow> 'w \<Rightarrow> string \<Rightarrow> string \<Rightarrow> 'w \<times> string option result" where
  "RedisStorage_HashGet r w db key =
    (case RedisStorage_Do r w ''HGET'' [AStr db, AStr key] of
       (w', Inl e) \<Rightarrow> (w', Inl e)
     | (w', Inr RNil) \<Rightarrow> (w', Inr None)
     | (w', Inr ret) \<Rightarrow>
         (case Bytes_of (pool r) (Inr ret) of Inl e \<Rightarrow> (w', Inl e) | Inr b \<Rightarrow> (w', Inr (Some b))))"

definition RedisStorage_ListLen :: "'w RedisStorage \<Rightarrow> 'w \<Rightarrow> string \<Rightarrow> 'w \<times> int result" where
  "RedisStorage_ListLen r w key = do_int r w ''LLEN'' [AStr key]"

definition RedisStorage_ListRange :: "'w RedisStorage \<Rightarrow> 'w \<Rightarrow> string \<Rightarrow> int \<Rightarrow> int \<Rightarrow> 'w \<times> string list result" where
  "RedisStorage_ListRange r w key start stop =
    (case RedisStorage_Do r w ''LRANGE'' [AStr key, AInt start, AInt stop] of
       (w', Inl e) \<Rightarrow> (w', Inl e)
     | (w', Inr RNil) \<Rightarrow> (w', Inr [])
     | (w', Inr ret) \<Rightarrow> (w', Strings_of (pool r) (Inr ret)))"

definition RedisStorage_HashSet :: "'w RedisStorage \<Rightarrow> 'w \<Rightarrow> string \<Rightarrow> string \<Rightarrow> string \<Rightarrow> 'w \<times> int result" where
  "RedisStorage_HashSet r w db key val = do_int r w ''HSET'' [AStr db, AStr key, AStr val]"

definition RedisStorage_HashExists :: "'w RedisStorage \<Rightarrow> 'w \<Rightarrow> string \<Rightarrow> string \<Rightarrow> 'w \<times> int result" where
  "RedisStorage_HashExists r w db key = do_int r w ''HEXISTS'' [AStr db, AStr key]"

definition RedisStorage_HashLen :: "'w RedisStorage \<Rightarrow> 'w \<Rightarrow> string \<Rightarrow> 'w \<times> int result" where
  "RedisStorage_HashLen r w db = do_int r w ''HLEN'' [AStr db]"

definition RedisStorage_HashSetNotExist :: "'w RedisStorage \<Rightarrow> 'w \<Rightarrow> string \<Rightarrow> string \<Rightarrow> string \<Rightarrow> 'w \<times> int result" where
  "RedisStorage_HashSetNotExist r w db key val = do_int r w ''HSETNX'' [AStr db, AStr key, AStr val]"

definition RedisStorage_HashDel :: "'w RedisStorage \<Rightarrow> 'w \<Rightarrow> string \<Rightarrow> string \<Rightarrow> 'w \<times> int result" where
  "RedisStorage_HashDel r w db key = do_int r w ''HDEL'' [AStr db, AStr key]"

definition RedisStorage_HashIncrBy :: "'w RedisStorage \<Rightarrow> 'w \<Rightarrow> string \<Rightarrow> string \<Rightarrow> int \<Rightarrow> 'w \<times> int result" where
  "RedisStorage_HashIncrBy r w db key val = do_int64 r w ''HINCRBY'' [AStr db, AStr key, AInt val]"

definition RedisStorage_SetNotExist :: "'w RedisStorage \<Rightarrow> 'w \<Rightarrow> string \<Rightarrow> string \<Rightarrow> 'w \<times> int result" where
  "RedisStorage_SetNotExist r w key val = do_int r w ''SETNX'' [AStr key, AStr val]"

definition RedisStorage_IncrBy :: "'w RedisStorage \<Rightarrow> 'w \<Rightarrow> string \<Rightarrow> int \<Rightarrow> 'w \<times> int result" where
  "RedisStorage_IncrBy r w key val = do_int64 r w ''INCRBY'' [AStr key, AInt val]"

definition RedisStorage_SetAdd :: "'w RedisStorage \<Rightarrow> 'w \<Rightarrow> string \<Rightarrow> string \<Rightarrow> 'w \<times> int result" where
  "RedisStorage_SetAdd r w key val = do_int r w ''SADD'' [AStr key, AStr val]"

definition RedisStorage_SetDel :: "'w RedisStorage \<Rightarrow> 'w \<Rightarrow> string \<Rightarrow> string \<Rightarrow> 'w \<times> int result" where
  "RedisStorage_SetDel r w key val = do_int r w ''SREM'' [AStr key, AStr val]"

definition RedisStorage_SetIsMember :: "'w RedisStorage \<Rightarrow> 'w \<Rightarrow> string \<Rightarrow> string \<Rightarrow> 'w \<times> int result" where
  "RedisStorage_SetIsMember r w key val = do_int r w ''SISMEMBER'' [AStr key, AStr val]"

definition RedisStorage_SetMembers :: "'w RedisStorage \<Rightarrow> 'w \<Rightarrow> string \<Rightarrow> 'w \<times> string list result" where
  "RedisStorage_SetMembers r w key = do_strings r w ''SMEMBERS'' [AStr key]"

text \<open>The type assertions of \<open>SetScan\<close> panic (\<open>None\<close>) on a reply of another shape. The
  arguments \<open>cursor\<close> and \<open>count\<close> are not sent: the command always scans from cursor 0.\<close>

fun bulks :: "reply list \<Rightarrow> string list option" where
  "bulks [] = Some []"
| "bulks (RBulk b # xs) = map_option (\<lambda>bs. b # bs) (bulks xs)"
| "bulks (_ # xs) = None"

definition RedisStorage_SetScan ::
    "'w RedisStorage \<Rightarrow> 'w \<Rightarrow> string \<Rightarrow> int \<Rightarrow> int \<Rightarrow> ('w \<times> (int \<times> string list) result) option" where
  "RedisStorage_SetScan r w key cursor count =
    (case RedisStorage_Do r w ''SSCAN'' [AStr key, AInt 0] of
       (w', Inl e) \<Rightarrow> Some (w', Inl e)
     | (w', Inr (RArr (RBulk next # RArr v2 # _))) \<Rightarrow>
         map_option (\<lambda>data. (w', Inr (Atoi_value next, data))) (bulks v2)
     | (w', Inr _) \<Rightarrow> None)"

definition RedisStorage_KeyExpire :: "'w RedisStorage \<Rightarrow> 'w \<Rightarrow> string \<Rightarrow> int \<Rightarrow> 'w \<times> int result" where
  "RedisStorage_KeyExpire r w key ttl = do_int r w ''EXPIRE'' [AStr key, AInt ttl]"

subsection \<open>The storage instance\<close>

text \<open>\<open>storage.Instance\<close> after \<open>NewInstance\<close>: the methods of a \<open>RedisStorage\<close>.\<close>

definition NewInstance :: "'w RedisStorage \<Rightarrow> 'w storage" where
  "NewInstance r = \<lparr>
     GetOfflineMsgs = RedisStorage_GetOfflineMsgs r,
     GetRawMsg = RedisStorage_GetRawMsg r,
     AddComet = RedisStorage_AddComet r,
     RemoveComet = RedisStorage_RemoveComet r,
     AddDevice = RedisStorage_AddDevice r,
     RemoveDevice = RedisStorage_RemoveDevice r,
     GetServerNames = RedisStorage_GetServerNames r,
     GetDeviceIds = RedisStorage_GetDeviceIds r,
     CheckDevice = RedisStorage_CheckDevice r,
     RefreshDevices = RedisStorage_RefreshDevices r,
     InitDevices = RedisStorage_InitDevices r,
     GetStatsServices = RedisStorage_GetStatsServices r,
     IncCmd = RedisStorage_IncCmd r,
     GetStatsCmd = RedisStorage_GetStatsCmd r,
     IncCmdSuccess = RedisStorage_IncCmdSuccess r,
     GetStatsCmdSuccess = RedisStorage_GetStatsCmdSuccess r,
     IncCmdTimeout = RedisStorage_IncCmdTimeout r,
     GetStatsCmdTimeout = RedisStorage_GetStatsCmdTimeout r,
     IncCmdOffline = RedisStorage_IncCmdOffline r,
     GetStatsCmdOffline = RedisStorage_GetStatsCmdOffline r,
     IncCmdInvalidService = RedisStorage_IncCmdInvalidService r,
     GetStatsCmdInvalidService = RedisStorage_GetStatsCmdInvalidService r,
     IncCmdOtherError = RedisStorage_IncCmdOtherError r,
     GetStatsCmdOtherError = RedisStorage_GetStatsCmdOtherError r,
     IncQueryOnlineDevices = RedisStorage_IncQueryOnlineDevices r,
     GetStatsQueryOnlineDevices = RedisStorage_GetStatsQueryOnlineDevices r,
     IncQueryDeviceInfo = RedisStorage_IncQueryDeviceInfo r,
     GetStatsQueryDeviceInfo = RedisStorage_GetStatsQueryDeviceInfo r,
     IncReplyTooLate = RedisStorage_IncReplyTooLate r,
     GetStatsReplyTooLate = RedisStorage_GetStatsReplyTooLate r,
     ClearStats = RedisStorage_ClearStats r,
     MsgStatsSend = RedisStorage_MsgStatsSend r,
     MsgStatsReceived = RedisStorage_MsgStatsReceived r,
     MsgStatsClick = RedisStorage_MsgStatsClick r,
     GetMsgStats = RedisStorage_GetMsgStats r,
     AppStatsPushApi = RedisStorage_AppStatsPushApi r,
     AppStatsSend = RedisStorage_AppStatsSend r,
     AppStatsReceived = RedisStorage_AppStatsReceived r,
     AppStatsClick = RedisStorage_AppStatsClick r,
     GetAppStats = RedisStorage_GetAppStats r,
     GetSysStats = RedisStorage_GetSysStats r,
     HashGetAll = RedisStorage_HashGetAll r,
     HashGet = RedisStorage_HashGet r,
     HashSet = RedisStorage_HashSet r,
     HashExists = RedisStorage_HashExists r,
     HashSetNotExist = RedisStorage_HashSetNotExist r,
     HashDel = RedisStorage_HashDel r,
     HashIncrBy = RedisStorage_HashIncrBy r,
     HashLen = RedisStorage_HashLen r,
     SetNotExist = RedisStorage_SetNotExist r,
     IncrBy = RedisStorage_IncrBy r,
     SetAdd = RedisStorage_SetAdd r,
     SetDel = RedisStorage_SetDel r,
     SetIsMember = RedisStorage_SetIsMember r,
     SetMembers = RedisStorage_SetMembers r,
     SetScan = RedisStorage_SetScan r,
     KeyExpire = RedisStorage_KeyExpire r,
     ListLen = RedisStorage_ListLen r,
     ListRange = RedisStorage_ListRange r\<rparr>"

end
