(* ===== verification/Redis_Contract.thy ===== *)
theory Redis_Contract
  imports Redis_Storage
begin

text \<open>
  The documented behaviour of Redis and of redigo's conversions that the storage relies on
  (\<open>redis_service\<close>), and the proof that under it \<open>RedisStorage\<close> meets the contract \<open>hash_storage\<close>;
  \<open>Redis_Memory\<close> has the other contracts and an instance. \<open>hview\<close> reads a hash field, \<open>sview\<close> the
  members of a set and \<open>cview\<close> a counter. A command that fails may or may not have taken effect.
\<close>

definition bulk_opt :: "string option \<Rightarrow> reply" where
  "bulk_opt v = (case v of None \<Rightarrow> RNil | Some b \<Rightarrow> RBulk b)"

locale redis_service =
  fixes rg :: "'w redigo"
    and hview :: "'w \<Rightarrow> string \<Rightarrow> string \<Rightarrow> string option"
    and sview :: "'w \<Rightarrow> string \<Rightarrow> string set"
    and cview :: "'w \<Rightarrow> string \<Rightarrow> int option"
  assumes connect: "conn_err rg w = (w', ce) \<Longrightarrow> hview w' = hview w \<and> sview w' = sview w \<and> cview w' = cview w"
    and int_conv: "Int_of rg (Inr (RInt n)) = Inr n" "Int_of rg (Inl e) = Inl e"
    and int64_conv: "Int64_of rg (Inr (RInt n)) = Inr n" "Int64_of rg (Inl e) = Inl e"
    and bool_conv: "Bool_of rg (Inr (RInt n)) = Inr (n \<noteq> 0)" "Bool_of rg (Inl e) = Inl e"
    and bytes_conv: "Bytes_of rg (Inr (RBulk b)) = Inr b"
    and strings_conv: "Strings_of rg (Inr (RArr (map RBulk bs))) = Inr bs" "Strings_of rg (Inl e) = Inl e"
    and HGET: "conn_do rg w ''HGET'' [AStr db, AStr k] = (w', r) \<Longrightarrow>
      hview w' = hview w \<and> (\<forall>x. r = Inr x \<longrightarrow> x = bulk_opt (hview w db k))"
    and HGETALL: "conn_do rg w ''HGETALL'' [AStr db] = (w', r) \<Longrightarrow> hview w' = hview w \<and>
      (\<forall>x. r = Inr x \<longrightarrow> (\<exists>ks. map_order (hview w db) ks \<and> x = RArr (map RBulk (flat_hash (hview w db) ks))))"
    and HSET: "conn_do rg w ''HSET'' [AStr db, AStr k, a] = (w', r) \<Longrightarrow> a = AStr v \<or> (a = ANil \<and> v = []) \<Longrightarrow>
      (case r of Inr x \<Rightarrow> hview w' = hput (hview w) db k (Some v) \<and> sview w' = sview w \<and> (\<exists>n. x = RInt n)
       | Inl _ \<Rightarrow> hview w' = hview w \<or> hview w' = hput (hview w) db k (Some v))"
    and HSETNX: "conn_do rg w ''HSETNX'' [AStr db, AStr k, AStr v] = (w', r) \<Longrightarrow>
      (case r of Inr x \<Rightarrow> (\<exists>n. x = RInt n) \<and>
           hview w' = (if hview w db k = None then hput (hview w) db k (Some v) else hview w)
       | Inl _ \<Rightarrow> hview w' = hview w \<or> hview w' = hput (hview w) db k (Some v))"
    and HDEL: "conn_do rg w ''HDEL'' [AStr db, AStr k] = (w', r) \<Longrightarrow>
      (case r of Inr x \<Rightarrow> hview w' = hput (hview w) db k None \<and> sview w' = sview w \<and> (\<exists>n. x = RInt n)
       | Inl _ \<Rightarrow> hview w' = hview w \<or> hview w' = hput (hview w) db k None)"
    and HEXISTS: "conn_do rg w ''HEXISTS'' [AStr db, AStr k] = (w', r) \<Longrightarrow>
      hview w' = hview w \<and> sview w' = sview w \<and>
      (\<forall>x. r = Inr x \<longrightarrow> (\<exists>n. x = RInt n \<and> (n \<noteq> 0 \<longleftrightarrow> hview w db k \<noteq> None)))"
    and SADD: "conn_do rg w ''SADD'' [AStr key, AStr m] = (w', Inr x) \<Longrightarrow>
      hview w' = hview w \<and> sview w' = (sview w)(key := insert m (sview w key))"
    and SMEMBERS: "conn_do rg w ''SMEMBERS'' [AStr key] = (w', r) \<Longrightarrow>
      hview w' = hview w \<and> sview w' = sview w \<and>
      (\<forall>x. r = Inr x \<longrightarrow> (\<exists>ms. set ms = sview w key \<and> x = RArr (map RBulk ms)))"
    and INCRBY: "conn_do rg w ''INCRBY'' [AStr key, AInt n] = (w', r) \<Longrightarrow>
      (case r of Inr x \<Rightarrow> (\<exists>v. x = RInt v \<and> v = (case cview w key of None \<Rightarrow> 0 | Some c \<Rightarrow> c) + n \<and>
           cview w' = (cview w)(key \<mapsto> v))
       | Inl _ \<Rightarrow> cview w' = cview w \<or>
           cview w' = (cview w)(key \<mapsto> (case cview w key of None \<Rightarrow> 0 | Some c \<Rightarrow> c) + n))"
begin

definition same_view :: "'w \<Rightarrow> 'w \<Rightarrow> bool" where
  "same_view w w' \<longleftrightarrow> hview w' = hview w \<and> sview w' = sview w \<and> cview w' = cview w"

lemma get_conn_view: "get_conn rg i w = (w', ok) \<Longrightarrow> same_view w w'"
proof (induction i arbitrary: w)
  case (Suc i)
  obtain w1 x where c: "conn_err rg w = (w1, x)" by fastforce
  then show ?case using Suc connect[OF c] by (cases x) (auto simp: same_view_def)
qed (simp add: same_view_def)

text \<open>A call of \<open>Do\<close> either finds no connection and changes nothing, or sends the command once.\<close>

lemma Do_cases:
  assumes "RedisStorage_Do \<lparr>pool = rg, retry = n\<rparr> w cmd args = (w', r)"
  obtains (none) e where "r = Inl e" "same_view w w'"
  | (sent) w1 where "same_view w w1" "conn_do rg w1 cmd args = (w', r)"
proof -
  obtain w1 ok where g: "get_conn rg (nat n) w = (w1, ok)" by fastforce
  show ?thesis
  proof (cases ok)
    case True
    then show ?thesis using assms g get_conn_view[OF g] sent by (simp add: RedisStorage_Do_def)
  next
    case False
    then show ?thesis using assms g get_conn_view[OF g] none by (auto simp: RedisStorage_Do_def)
  qed
qed

lemma do_int_cases:
  assumes "do_int \<lparr>pool = rg, retry = n\<rparr> w cmd args = (w', r)"
  obtains (none) e where "r = Inl e" "same_view w w'"
  | (sent) w1 x where "same_view w w1" "conn_do rg w1 cmd args = (w', x)" "r = Int_of rg x"
proof -
  obtain x where d: "RedisStorage_Do \<lparr>pool = rg, retry = n\<rparr> w cmd args = (w', x)" "r = Int_of rg x"
    using assms by (auto simp: do_int_def Let_def split: prod.splits)
  show ?thesis using d(1) by (rule Do_cases) (use d none sent int_conv in auto)
qed

lemma do_int64_cases:
  assumes "do_int64 \<lparr>pool = rg, retry = n\<rparr> w cmd args = (w', r)"
  obtains (none) e where "r = Inl e" "same_view w w'"
  | (sent) w1 x where "same_view w w1" "conn_do rg w1 cmd args = (w', x)" "r = Int64_of rg x"
proof -
  obtain x where d: "RedisStorage_Do \<lparr>pool = rg, retry = n\<rparr> w cmd args = (w', x)" "r = Int64_of rg x"
    using assms by (auto simp: do_int64_def Let_def split: prod.splits)
  show ?thesis using d(1) by (rule Do_cases) (use d none sent int64_conv in auto)
qed

lemma HashGet_contract:
  assumes "RedisStorage_HashGet \<lparr>pool = rg, retry = n\<rparr> w db k = (w', r)"
  shows "hview w' = hview w \<and> (\<forall>v. r = Inr v \<longrightarrow> v = hview w db k)"
proof -
  obtain x where d: "RedisStorage_Do \<lparr>pool = rg, retry = n\<rparr> w ''HGET'' [AStr db, AStr k] = (w', x)"
    using assms by (auto simp: RedisStorage_HashGet_def split: prod.splits sum.splits reply.splits)
  from d show ?thesis
  proof (cases rule: Do_cases)
    case none
    then show ?thesis using d assms by (auto simp: RedisStorage_HashGet_def same_view_def)
  next
    case (sent w1)
    show ?thesis
    proof (cases x)
      case (Inr y)
      then have "y = bulk_opt (hview w db k)" "hview w' = hview w" using HGET[OF sent(2)] sent(1) by (auto simp: same_view_def)
      then show ?thesis using Inr d assms bytes_conv
        by (auto simp: RedisStorage_HashGet_def bulk_opt_def split: option.splits)
    qed (use HGET[OF sent(2)] sent(1) d assms in \<open>auto simp: RedisStorage_HashGet_def same_view_def\<close>)
  qed
qed

lemma HashGetAll_contract:
  assumes "RedisStorage_HashGetAll \<lparr>pool = rg, retry = n\<rparr> w db = (w', r)"
  shows "hview w' = hview w \<and>
    (\<forall>vals. r = Inr vals \<longrightarrow> (\<exists>ks. map_order (hview w db) ks \<and> vals = flat_hash (hview w db) ks))"
proof -
  obtain x where d: "RedisStorage_Do \<lparr>pool = rg, retry = n\<rparr> w ''HGETALL'' [AStr db] = (w', x)"
    using assms by (auto simp: RedisStorage_HashGetAll_def split: prod.splits sum.splits reply.splits)
  from d show ?thesis
  proof (cases rule: Do_cases)
    case none
    then show ?thesis using d assms by (auto simp: RedisStorage_HashGetAll_def same_view_def)
  next
    case (sent w1)
    show ?thesis
    proof (cases x)
      case (Inr y)
      then obtain ks where "map_order (hview w db) ks" "y = RArr (map RBulk (flat_hash (hview w db) ks))"
        "hview w' = hview w" using HGETALL[OF sent(2)] sent(1) by (auto simp: same_view_def)
      then show ?thesis using Inr d assms strings_conv(1)[of "flat_hash (hview w db) ks"]
        by (auto simp: RedisStorage_HashGetAll_def)
    qed (use HGETALL[OF sent(2)] sent(1) d assms in \<open>auto simp: RedisStorage_HashGetAll_def same_view_def\<close>)
  qed
qed

lemma HashSet_contract:
  assumes "RedisStorage_HashSet \<lparr>pool = rg, retry = n\<rparr> w db k v = (w', r)"
  shows "case r of Inr _ \<Rightarrow> hview w' = hput (hview w) db k (Some v)
    | Inl _ \<Rightarrow> hview w' = hview w \<or> hview w' = hput (hview w) db k (Some v)"
  using assms unfolding RedisStorage_HashSet_def
proof (cases rule: do_int_cases)
  case (sent w1 x)
  then show ?thesis using HSET[OF sent(2), of v] int_conv by (cases x) (auto simp: same_view_def)
qed (simp add: same_view_def)

lemma HashSetNotExist_contract:
  assumes "RedisStorage_HashSetNotExist \<lparr>pool = rg, retry = n\<rparr> w db k v = (w', r)"
  shows "case r of Inr _ \<Rightarrow> hview w' = (if hview w db k = None then hput (hview w) db k (Some v) else hview w)
    | Inl _ \<Rightarrow> hview w' = hview w \<or> hview w' = hput (hview w) db k (Some v)"
  using assms unfolding RedisStorage_HashSetNotExist_def
proof (cases rule: do_int_cases)
  case (sent w1 x)
  then show ?thesis using HSETNX[OF sent(2)] int_conv by (cases x) (auto simp: same_view_def split: if_splits)
qed (simp add: same_view_def)

lemma HashDel_contract:
  assumes "RedisStorage_HashDel \<lparr>pool = rg, retry = n\<rparr> w db k = (w', r)"
  shows "case r of Inr _ \<Rightarrow> hview w' = hput (hview w) db k None
    | Inl _ \<Rightarrow> hview w' = hview w \<or> hview w' = hput (hview w) db k None"
  using assms unfolding RedisStorage_HashDel_def
proof (cases rule: do_int_cases)
  case (sent w1 x)
  then show ?thesis using HDEL[OF sent(2)] int_conv by (cases x) (auto simp: same_view_def)
qed (simp add: same_view_def)

lemma IncrBy_contract:
  assumes "RedisStorage_IncrBy \<lparr>pool = rg, retry = n\<rparr> w k i = (w', r)"
  shows "case r of Inr v \<Rightarrow> v = (case cview w k of None \<Rightarrow> 0 | Some c \<Rightarrow> c) + i \<and> cview w' = (cview w)(k \<mapsto> v)
    | Inl _ \<Rightarrow> cview w' = cview w \<or> cview w' = (cview w)(k \<mapsto> (case cview w k of None \<Rightarrow> 0 | Some c \<Rightarrow> c) + i)"
  using assms unfolding RedisStorage_IncrBy_def
proof (cases rule: do_int64_cases)
  case (sent w1 x)
  then show ?thesis using INCRBY[OF sent(2)] int64_conv by (cases x) (auto simp: same_view_def)
qed (simp add: same_view_def)

text \<open>The search of \<open>CheckDevice\<close>: the first server that has the device, or none has it.\<close>

lemma find_server_contract:
  assumes "find_server \<lparr>pool = rg, retry = n\<rparr> names w d = (w', r)"
  shows "hview w' = hview w \<and> sview w' = sview w \<and>
    (\<forall>name. r = Inr name \<longrightarrow> (name \<in> set names \<and> hview w (''comet:'' @ name) d \<noteq> None) \<or>
       (name = [] \<and> (\<forall>s \<in> set names. hview w (''comet:'' @ s) d = None)))"
  using assms
proof (induction names arbitrary: w)
  case (Cons s names)
  obtain w1 x where d: "RedisStorage_Do \<lparr>pool = rg, retry = n\<rparr> w ''HEXISTS'' [AStr (''comet:'' @ s), AStr d] = (w1, x)"
    by fastforce
  then have b: "do_bool \<lparr>pool = rg, retry = n\<rparr> w ''HEXISTS'' [AStr (''comet:'' @ s), AStr d] = (w1, Bool_of rg x)"
    by (simp add: do_bool_def)
  from d show ?case
  proof (cases rule: Do_cases)
    case (none e)
    then show ?thesis using Cons.prems b bool_conv(2)[of e] by (auto simp: same_view_def)
  next
    case (sent w0)
    note h = HEXISTS[OF sent(2)]
    show ?thesis
    proof (cases x)
      case (Inl e)
      then show ?thesis using Cons.prems b h bool_conv(2)[of e] sent(1) by (auto simp: same_view_def)
    next
      case (Inr y)
      then obtain i where "y = RInt i" "i \<noteq> 0 \<longleftrightarrow> hview w (''comet:'' @ s) d \<noteq> None"
        using h sent(1) by (auto simp: same_view_def)
      then show ?thesis using Cons b h Inr bool_conv(1)[of i] sent(1)
        by (cases "i = 0") (fastforce simp: same_view_def)+
    qed
  qed
qed auto

lemma CheckDevice_contract:
  assumes "RedisStorage_CheckDevice \<lparr>pool = rg, retry = n\<rparr> w d = (w', r)"
  shows "hview w' = hview w \<and> sview w' = sview w \<and>
    (\<forall>name. r = Inr name \<longrightarrow> (name \<in> sview w cometNodesKey \<and> hview w (''comet:'' @ name) d \<noteq> None) \<or>
       (name = [] \<and> (\<forall>s \<in> sview w cometNodesKey. hview w (''comet:'' @ s) d = None)))"
proof -
  obtain w1 x where d: "RedisStorage_Do \<lparr>pool = rg, retry = n\<rparr> w ''SMEMBERS'' [AStr cometNodesKey] = (w1, x)"
    by fastforce
  then have g: "RedisStorage_GetServerNames \<lparr>pool = rg, retry = n\<rparr> w = (w1, Strings_of rg x)"
    by (simp add: RedisStorage_GetServerNames_def do_strings_def)
  have v: "hview w1 = hview w \<and> sview w1 = sview w \<and>
    (\<forall>y. x = Inr y \<longrightarrow> (\<exists>ms. set ms = sview w cometNodesKey \<and> y = RArr (map RBulk ms)))"
    using d by (cases rule: Do_cases) (auto simp: same_view_def dest: SMEMBERS)
  show ?thesis
  proof (cases x)
    case (Inl e)
    then show ?thesis using assms g v strings_conv(2)[of e] by (auto simp: RedisStorage_CheckDevice_def)
  next
    case (Inr y)
    then obtain ms where ms: "set ms = sview w cometNodesKey" "y = RArr (map RBulk ms)" using v by auto
    then have "find_server \<lparr>pool = rg, retry = n\<rparr> ms w1 d = (w', r)"
      using assms g Inr strings_conv(1)[of ms] by (simp add: RedisStorage_CheckDevice_def)
    then show ?thesis using find_server_contract[of n ms w1 d w' r] v ms(1) by simp
  qed
qed

lemma AddComet_contract:
  assumes "RedisStorage_AddComet \<lparr>pool = rg, retry = n\<rparr> w s = (w', None)"
  shows "sview w' cometNodesKey = insert s (sview w cometNodesKey) \<and> hview w' = hview w"
proof -
  obtain x where d: "RedisStorage_Do \<lparr>pool = rg, retry = n\<rparr> w ''SADD'' [AStr cometNodesKey, AStr s] = (w', Inr x)"
    using assms by (auto simp: RedisStorage_AddComet_def only_err_def drop_value_def split: sum.splits)
      (metis prod.collapse)
  then show ?thesis by (cases rule: Do_cases) (auto simp: same_view_def dest: SADD)
qed

lemma AddDevice_contract:
  assumes "RedisStorage_AddDevice \<lparr>pool = rg, retry = n\<rparr> w s d = (w', None)"
  shows "hview w' = hput (hview w) (''comet:'' @ s) d (Some []) \<and> sview w' = sview w"
proof -
  obtain i where "do_int \<lparr>pool = rg, retry = n\<rparr> w ''HSET'' [AStr (''comet:'' @ s), AStr d, ANil] = (w', Inr i)"
    using assms by (auto simp: RedisStorage_AddDevice_def only_err_def drop_value_def split: sum.splits)
      (metis prod.collapse)
  then show ?thesis
  proof (cases rule: do_int_cases)
    case (sent w1 x)
    then show ?thesis using HSET[OF sent(2), of "[]"] int_conv by (cases x) (auto simp: same_view_def)
  qed simp
qed

lemma RemoveDevice_contract:
  assumes "RedisStorage_RemoveDevice \<lparr>pool = rg, retry = n\<rparr> w s d = (w', None)"
  shows "hview w' = hput (hview w) (''comet:'' @ s) d None \<and> sview w' = sview w"
proof -
  obtain x where d: "RedisStorage_Do \<lparr>pool = rg, retry = n\<rparr> w ''HDEL'' [AStr (''comet:'' @ s), AStr d] = (w', Inr x)"
    using assms by (auto simp: RedisStorage_RemoveDevice_def only_err_def drop_value_def split: sum.splits)
      (metis prod.collapse)
  then show ?thesis
  proof (cases rule: Do_cases)
    case (sent w1)
    then show ?thesis using HDEL[OF sent(2)] by (auto simp: same_view_def)
  qed simp
qed

end

text \<open>\<open>RedisStorage\<close> meets the contracts of the storage interface.\<close>

sublocale redis_service \<subseteq> hashes: hash_storage "NewInstance \<lparr>pool = rg, retry = n\<rparr>" hview for n
proof (unfold_locales, goal_cases)
  case (1 w db k w' r)
  then show ?case using HashGet_contract[of n w db k w' r] by (simp add: NewInstance_def)
next
  case (2 w db w' r)
  then show ?case using HashGetAll_contract[of n w db w' r] by (simp add: NewInstance_def)
next
  case (3 w db k v w' i)
  then show ?case using HashSet_contract[of n w db k v w' "Inr i"] by (simp add: NewInstance_def)
next
  case (4 w db k v w' e)
  then show ?case using HashSet_contract[of n w db k v w' "Inl e"] by (simp add: NewInstance_def)
next
  case (5 w db k v w' i)
  then show ?case using HashSetNotExist_contract[of n w db k v w' "Inr i"] by (simp add: NewInstance_def)
next
  case (6 w db k v w' e)
  then show ?case using HashSetNotExist_contract[of n w db k v w' "Inl e"] by (simp add: NewInstance_def)
next
  case (7 w db k w' i)
  then show ?case using HashDel_contract[of n w db k w' "Inr i"] by (simp add: NewInstance_def)
next
  case (8 w db k w' e)
  then show ?case using HashDel_contract[of n w db k w' "Inl e"] by (simp add: NewInstance_def)
qed

end
