(* ===== verification/Storage_Spec.thy ===== *)
theory Storage_Spec
  imports Redis_Contract "HOL-Library.Multiset"
begin

text \<open>
  What \<open>RedisStorage.Do\<close> and \<open>RedisStorage.GetOfflineMsgs\<close> do, without assumptions on the server:
  the number of attempts to get a connection and of commands sent (\<open>Do_attempts\<close>), and which fields
  of the hash of offline messages are asked for, in which order (\<open>GetOfflineMsgs_asks\<close>).
\<close>

subsection \<open>Attempts\<close>

text \<open>The world after \<open>k\<close> attempts to get a connection.\<close>

fun after_attempts :: "'w redigo \<Rightarrow> nat \<Rightarrow> 'w \<Rightarrow> 'w" where
  "after_attempts rg 0 w = w"
| "after_attempts rg (Suc k) w = after_attempts rg k (fst (conn_err rg w))"

definition attempt_ok :: "'w redigo \<Rightarrow> 'w \<Rightarrow> nat \<Rightarrow> bool" where
  "attempt_ok rg w k \<longleftrightarrow> snd (conn_err rg (after_attempts rg k w)) = None"

lemma attempt_ok_simps [simp]:
  "attempt_ok rg w 0 \<longleftrightarrow> snd (conn_err rg w) = None"
  "attempt_ok rg w (Suc k) \<longleftrightarrow> attempt_ok rg (fst (conn_err rg w)) k"
  by (simp_all add: attempt_ok_def)

lemma get_conn_fails: "(\<And>k. k < n \<Longrightarrow> \<not> attempt_ok rg w k) \<Longrightarrow> get_conn rg n w = (after_attempts rg n w, False)"
proof (induction n arbitrary: w)
  case (Suc n)
  obtain w1 x where c: "conn_err rg w = (w1, Some x)"
    using Suc.prems[of 0] by (cases "conn_err rg w") auto
  have "\<not> attempt_ok rg w1 k" if "k < n" for k using Suc.prems[of "Suc k"] that c by simp
  from Suc.IH[OF this] show ?case using c by simp
qed simp

lemma get_conn_succeeds:
  "k < n \<Longrightarrow> attempt_ok rg w k \<Longrightarrow> (\<And>j. j < k \<Longrightarrow> \<not> attempt_ok rg w j) \<Longrightarrow>
    get_conn rg n w = (after_attempts rg (Suc k) w, True)"
proof (induction n arbitrary: w k)
  case (Suc n)
  show ?case
  proof (cases k)
    case 0
    then show ?thesis using Suc.prems(2) by (cases "conn_err rg w") simp
  next
    case (Suc k')
    obtain w1 x where c: "conn_err rg w = (w1, Some x)"
      using Suc.prems(3)[of 0] Suc by (cases "conn_err rg w") auto
    have "\<not> attempt_ok rg w1 j" if "j < k'" for j using Suc.prems(3)[of "Suc j"] that c Suc by simp
    then show ?thesis using Suc.IH[of k' w1] Suc.prems c Suc by simp
  qed
qed simp

text \<open>\<open>Do\<close> sends its command once, on the first connection without an error; when none of the
  \<open>retry\<close> attempts finds one, it sends nothing.\<close>

lemma Do_attempts:
  "RedisStorage_Do r w cmd args =
    (if \<exists>k < nat (retry r). attempt_ok (pool r) w k
     then conn_do (pool r) (after_attempts (pool r) (Suc (LEAST k. attempt_ok (pool r) w k)) w) cmd args
     else (after_attempts (pool r) (nat (retry r)) w, Inl (GoErr ''failed to find a useful redis conn'')))"
proof (cases "\<exists>k < nat (retry r). attempt_ok (pool r) w k")
  case True
  then obtain k where k: "k < nat (retry r)" "attempt_ok (pool r) w k" by blast
  define l where "l = (LEAST k. attempt_ok (pool r) w k)"
  have l: "attempt_ok (pool r) w l" "l \<le> k" "\<And>j. j < l \<Longrightarrow> \<not> attempt_ok (pool r) w j"
    using k(2) by (auto simp: l_def intro: LeastI Least_le dest: not_less_Least)
  have "get_conn (pool r) (nat (retry r)) w = (after_attempts (pool r) (Suc l) w, True)"
    using get_conn_succeeds[of l "nat (retry r)" "pool r" w] l k(1) by simp
  then show ?thesis using True by (simp add: RedisStorage_Do_def l_def)
next
  case False
  then have "get_conn (pool r) (nat (retry r)) w = (after_attempts (pool r) (nat (retry r)) w, False)"
    by (intro get_conn_fails) blast
  then show ?thesis using False by (auto simp: RedisStorage_Do_def)
qed

subsection \<open>Offline messages\<close>

text \<open>The fields kept, and the message id of a kept field.\<close>

definition kept :: "int \<Rightarrow> int \<Rightarrow> int \<Rightarrow> string list \<Rightarrow> string list" where
  "kept t regTime msgId fs = filter (\<lambda>f. offline_field t regTime msgId f \<noteq> None) fs"

definition kept_id :: "int \<Rightarrow> int \<Rightarrow> int \<Rightarrow> string \<Rightarrow> int" where
  "kept_id t regTime msgId f = the (offline_field t regTime msgId f)"

lemma kept_simps [simp]:
  "kept t rt mid [] = []"
  "kept t rt mid (f # fs) = (if offline_field t rt mid f = None then kept t rt mid fs else f # kept t rt mid fs)"
  by (simp_all add: kept_def)

lemma collect_offline_kept:
  assumes "collect_offline t rt mid fs m ids = (m', ids')"
    and "\<And>f. f \<in> set (kept t rt mid fs) \<Longrightarrow> \<bar>kept_id t rt mid f\<bar> < 2 ^ 53"
    and "inj_on (kept_id t rt mid) (set (kept t rt mid fs))"
  shows "ids' = ids @ map (kept_id t rt mid) (kept t rt mid fs) \<and>
    (\<forall>f \<in> set (kept t rt mid fs). m' (kept_id t rt mid f) = Some f) \<and>
    (\<forall>i. i \<notin> kept_id t rt mid ` set (kept t rt mid fs) \<longrightarrow> m' i = m i)"
  using assms
proof (induction fs arbitrary: m ids)
  case (Cons f fs)
  show ?case
  proof (cases "offline_field t rt mid f")
    case None
    then show ?thesis using Cons by simp
  next
    case (Some i)
    then have ki: "kept_id t rt mid f = i" by (simp add: kept_id_def)
    have v: "via_float64 i = i" using Cons.prems(2)[of f] Some ki by (intro via_float64_exact) simp
    have c: "collect_offline t rt mid fs (m(i \<mapsto> f)) (ids @ [i]) = (m', ids')" using Cons.prems(1) Some v by simp
    have ih: "ids' = (ids @ [i]) @ map (kept_id t rt mid) (kept t rt mid fs) \<and>
      (\<forall>f \<in> set (kept t rt mid fs). m' (kept_id t rt mid f) = Some f) \<and>
      (\<forall>j. j \<notin> kept_id t rt mid ` set (kept t rt mid fs) \<longrightarrow> m' j = (m(i \<mapsto> f)) j)"
      using Cons.IH[OF c] Cons.prems(2,3) Some by (auto simp: inj_on_def)
    have "m' i = Some f"
    proof (cases "i \<in> kept_id t rt mid ` set (kept t rt mid fs)")
      case True
      then obtain g where g: "g \<in> set (kept t rt mid fs)" "kept_id t rt mid g = i" by auto
      then have "g = f" using Cons.prems(3) Some ki by (auto simp: inj_on_def)
      then show ?thesis using ih g by auto
    qed (use ih in auto)
    then show ?thesis using ih Some ki by auto
  qed
qed simp

lemma sort_map_key: "sort (map f xs) = map f (sort_key f xs)" for f :: "'a \<Rightarrow> 'b::linorder"
  by (rule properties_for_sort) (simp_all add: mset_map)

lemma offline_args_kept:
  assumes "collect_offline t rt mid fs Map.empty [] = (m, ids)"
    and "\<And>f. f \<in> set (kept t rt mid fs) \<Longrightarrow> \<bar>kept_id t rt mid f\<bar> < 2 ^ 53"
    and "inj_on (kept_id t rt mid) (set (kept t rt mid fs))"
  shows "offline_args m ids = map AStr (sort_key (kept_id t rt mid) (kept t rt mid fs))"
proof -
  have c: "ids = map (kept_id t rt mid) (kept t rt mid fs)"
    "\<And>f. f \<in> set (kept t rt mid fs) \<Longrightarrow> m (kept_id t rt mid f) = Some f"
    using collect_offline_kept[OF assms] by auto
  have "offline_args m ids = map (\<lambda>i. case m i of Some f \<Rightarrow> AStr f | None \<Rightarrow> ANil)
      (map (kept_id t rt mid) (sort_key (kept_id t rt mid) (kept t rt mid fs)))"
    by (simp add: offline_args_def c(1) sort_map_key del: map_map)
  also have "\<dots> = map AStr (sort_key (kept_id t rt mid) (kept t rt mid fs))"
    using c(2) by (auto simp: kept_def)
  finally show ?thesis .
qed

text \<open>The messages asked for: those of the kept fields, oldest id first.\<close>

lemma GetOfflineMsgs_asks:
  assumes keys: "do_strings r w ''HKEYS'' [AStr (''db_offline_msg_'' @ appId)] = (w1, Inr fs)"
    and t: "t = unix_time (clock (pool r) w1)"
    and small: "\<And>f. f \<in> set (kept t regTime msgId fs) \<Longrightarrow> \<bar>kept_id t regTime msgId f\<bar> < 2 ^ 53"
    and ids: "inj_on (kept_id t regTime msgId) (set (kept t regTime msgId fs))"
  shows "RedisStorage_GetOfflineMsgs r w appId regId regTime msgId =
    (if kept t regTime msgId fs = [] then (w1, [])
     else case do_strings r w1 ''HMGET'' (AStr (''db_offline_msg_'' @ appId) #
            map AStr (sort_key (kept_id t regTime msgId) (kept t regTime msgId fs))) of
          (w2, Inl _) \<Rightarrow> (w2, [])
        | (w2, Inr ms) \<Rightarrow> (w2, decode_messages ms))"
proof -
  obtain m js where c: "collect_offline t regTime msgId fs Map.empty [] = (m, js)" by fastforce
  have a: "offline_args m js = map AStr (sort_key (kept_id t regTime msgId) (kept t regTime msgId fs))"
    by (rule offline_args_kept[OF c small ids])
  have "(sort_key (kept_id t regTime msgId) (kept t regTime msgId fs) = []) = (kept t regTime msgId fs = [])"
    by (metis length_0_conv length_sort)
  then show ?thesis using keys c a
    by (simp add: RedisStorage_GetOfflineMsgs_def Let_def t[symmetric])
qed

text \<open>A field as the push API writes it is kept when the message was created after the app registered,
  is newer than the last one received, and has not expired.\<close>

lemma offline_field_format:
  assumes "0 \<le> i" "0 \<le> c" "0 \<le> x" "i < 2 ^ 63" "c < 2 ^ 63" "x < 2 ^ 63"
  shows "offline_field t regTime msgId (format_field3 i c x) =
    (if regTime < c \<and> msgId < i \<and> t < x then Some i else None)"
  using assms scan_format_field3[of i c x] by (simp add: offline_field_def int64_range_def)

end
