(* ===== verification/Redis_Memory.thy ===== *)
theory Redis_Memory
  imports Redis_Contract "HOL-Library.AList" "HOL-Library.List_Lexorder" "HOL-Library.Char_ord"
begin

text \<open>
  The remaining contracts that \<open>RedisStorage\<close> meets (\<open>counter_storage\<close>, \<open>device_registry\<close>), and an
  in-memory Redis that satisfies \<open>redis_service\<close>: hashes and sets as lists, and a script that says
  which commands fail (a failing command here has no effect). It shows that the documented behaviour
  can hold, and the examples of the other theories run on it.
\<close>

sublocale redis_service \<subseteq> counters: counter_storage "NewInstance \<lparr>pool = rg, retry = n\<rparr>" cview for n
proof (unfold_locales, goal_cases)
  case (1 w k i w' v)
  then show ?case using IncrBy_contract[of n w k i w' "Inr v"] by (simp add: NewInstance_def)
next
  case (2 w k i w' e)
  then show ?case using IncrBy_contract[of n w k i w' "Inl e"] by (simp add: NewInstance_def)
qed

sublocale redis_service \<subseteq> registry: device_registry "NewInstance \<lparr>pool = rg, retry = n\<rparr>" hview
    "\<lambda>w. sview w cometNodesKey" for n
proof (unfold_locales, goal_cases)
  case (1 w s w')
  then show ?case using AddComet_contract[of n w s w'] by (simp add: NewInstance_def)
next
  case (2 w s d w')
  then show ?case using AddDevice_contract[of n w s d w'] by (simp add: NewInstance_def)
next
  case (3 w s d w')
  then show ?case using RemoveDevice_contract[of n w s d w'] by (simp add: NewInstance_def)
next
  case (4 w d w' r)
  then show ?case using CheckDevice_contract[of n w d w' r] by (simp add: NewInstance_def)
qed

subsection \<open>A Redis in memory\<close>

record mem =
  hashes :: "string \<Rightarrow> (string \<times> string) list"
  sets :: "string \<Rightarrow> string list"
  counters :: "string \<Rightarrow> int option"
  script :: "bool list"
  clk :: int

definition mem_empty :: mem where
  "mem_empty = \<lparr>hashes = (\<lambda>_. []), sets = (\<lambda>_. []), counters = (\<lambda>_. None), script = [], clk = 0\<rparr>"

definition mem_hview :: "mem \<Rightarrow> string \<Rightarrow> string \<Rightarrow> string option" where
  "mem_hview w db k = map_of (hashes w db) k"

definition mem_sview :: "mem \<Rightarrow> string \<Rightarrow> string set" where
  "mem_sview w k = set (sets w k)"

definition mem_keys :: "(string \<times> string) list \<Rightarrow> string list" where
  "mem_keys xs = remdups (map fst xs)"

text \<open>The commands of the contract, and the reading ones that messages use.\<close>

definition hash_cmd :: "mem \<Rightarrow> string \<Rightarrow> redis_arg list \<Rightarrow> (mem \<times> reply) option" where
  "hash_cmd w cmd args =
    (case args of
       [AStr db] \<Rightarrow>
         if cmd = ''HGETALL'' then
           Some (w, RArr (map RBulk (flat_hash (map_of (hashes w db)) (mem_keys (hashes w db)))))
         else if cmd = ''HKEYS'' then Some (w, RArr (map RBulk (mem_keys (hashes w db))))
         else None
     | [AStr db, AStr k] \<Rightarrow>
         if cmd = ''HGET'' then Some (w, bulk_opt (map_of (hashes w db) k))
         else if cmd = ''HDEL'' then
           Some (w\<lparr>hashes := (hashes w)(db := AList.delete k (hashes w db))\<rparr>, RInt 1)
         else if cmd = ''HEXISTS'' then
           Some (w, RInt (if map_of (hashes w db) k = None then 0 else 1))
         else None
     | [AStr db, AStr k, a] \<Rightarrow>
         (let v = (case a of AStr v \<Rightarrow> v | AInt i \<Rightarrow> FormatInt i | ANil \<Rightarrow> []) in
          if cmd = ''HSET'' then Some (w\<lparr>hashes := (hashes w)(db := AList.update k v (hashes w db))\<rparr>, RInt 1)
          else if cmd = ''HSETNX'' then
            Some (if map_of (hashes w db) k = None then w\<lparr>hashes := (hashes w)(db := AList.update k v (hashes w db))\<rparr> else w,
                  RInt 1)
          else None)
     | _ \<Rightarrow> None)"

definition other_cmd :: "mem \<Rightarrow> string \<Rightarrow> redis_arg list \<Rightarrow> (mem \<times> reply) option" where
  "other_cmd w cmd args =
    (case args of
       [AStr key] \<Rightarrow> if cmd = ''SMEMBERS'' then Some (w, RArr (map RBulk (sets w key))) else None
     | [AStr key, AStr m] \<Rightarrow>
         if cmd = ''SADD'' then Some (w\<lparr>sets := (sets w)(key := List.insert m (sets w key))\<rparr>, RInt 1)
         else if cmd = ''SISMEMBER'' then Some (w, RInt (if m \<in> set (sets w key) then 1 else 0))
         else None
     | [AStr key, AInt n] \<Rightarrow>
         if cmd = ''INCRBY'' then
           (let v = (case counters w key of None \<Rightarrow> 0 | Some c \<Rightarrow> c) + n
            in Some (w\<lparr>counters := (counters w)(key \<mapsto> v)\<rparr>, RInt v))
         else if cmd = ''HGET'' then Some (w, bulk_opt (map_of (hashes w key) (FormatInt n)))
         else None
     | _ \<Rightarrow> None)"

definition mem_cmd :: "mem \<Rightarrow> string \<Rightarrow> redis_arg list \<Rightarrow> mem \<times> reply result" where
  "mem_cmd w cmd args =
    (case hash_cmd w cmd args of
       Some (w', r) \<Rightarrow> (w', Inr r)
     | None \<Rightarrow> (case other_cmd w cmd args of Some (w', r) \<Rightarrow> (w', Inr r) | None \<Rightarrow> (w, Inl (GoErr ''unknown command''))))"

definition mem_do :: "mem \<Rightarrow> string \<Rightarrow> redis_arg list \<Rightarrow> mem \<times> reply result" where
  "mem_do w cmd args =
    (case script w of
       [] \<Rightarrow> mem_cmd w cmd args
     | True # bs \<Rightarrow> mem_cmd (w\<lparr>script := bs\<rparr>) cmd args
     | False # bs \<Rightarrow> (w\<lparr>script := bs\<rparr>, Inl (GoErr ''connection reset'')))"

definition bad_reply :: "'a result" where
  "bad_reply = Inl (GoErr ''unexpected type'')"

definition bulk_of :: "reply \<Rightarrow> string option" where
  "bulk_of r = (case r of RBulk b \<Rightarrow> Some b | RNil \<Rightarrow> Some [] | _ \<Rightarrow> None)"

definition mem_redigo :: "mem redigo" where
  "mem_redigo = \<lparr>conn_err = (\<lambda>w. (w, None)), conn_do = mem_do,
     Int_of = (\<lambda>r. case r of Inl e \<Rightarrow> Inl e | Inr (RInt n) \<Rightarrow> Inr n | _ \<Rightarrow> bad_reply),
     Int64_of = (\<lambda>r. case r of Inl e \<Rightarrow> Inl e | Inr (RInt n) \<Rightarrow> Inr n | _ \<Rightarrow> bad_reply),
     Bool_of = (\<lambda>r. case r of Inl e \<Rightarrow> Inl e | Inr (RInt n) \<Rightarrow> Inr (n \<noteq> 0) | _ \<Rightarrow> bad_reply),
     Bytes_of = (\<lambda>r. case r of Inl e \<Rightarrow> Inl e | Inr (RBulk b) \<Rightarrow> Inr b | _ \<Rightarrow> bad_reply),
     Strings_of = (\<lambda>r. case r of Inl e \<Rightarrow> Inl e
       | Inr (RArr rs) \<Rightarrow> (if list_all (\<lambda>x. bulk_of x \<noteq> None) rs then Inr (List.map_filter bulk_of rs) else bad_reply)
       | _ \<Rightarrow> bad_reply),
     Values_of = (\<lambda>r. case r of Inl e \<Rightarrow> Inl e | Inr (RArr rs) \<Rightarrow> Inr rs | _ \<Rightarrow> bad_reply),
     clock = clk, date_format = (\<lambda>_. ''20140101'')\<rparr>"

lemma map_filter_bulks: "List.map_filter bulk_of (map RBulk bs) = bs"
  by (induction bs) (simp_all add: bulk_of_def List.map_filter_simps)

lemma mem_view_simps [simp]:
  "mem_hview (w\<lparr>script := bs\<rparr>) = mem_hview w" "mem_sview (w\<lparr>script := bs\<rparr>) = mem_sview w"
  "mem_hview (w\<lparr>counters := c\<rparr>) = mem_hview w" "mem_sview (w\<lparr>counters := c\<rparr>) = mem_sview w"
  "mem_hview (w\<lparr>sets := ss\<rparr>) = mem_hview w" "mem_sview (w\<lparr>hashes := h\<rparr>) = mem_sview w"
  by (auto simp: mem_hview_def mem_sview_def fun_eq_iff)

lemma mem_hput: "mem_hview (w\<lparr>hashes := (hashes w)(db := AList.update k v (hashes w db))\<rparr>) = hput (mem_hview w) db k (Some v)"
  by (auto simp: mem_hview_def fun_eq_iff update_conv')

lemma mem_hdel: "mem_hview (w\<lparr>hashes := (hashes w)(db := AList.delete k (hashes w db))\<rparr>) = hput (mem_hview w) db k None"
  by (auto simp: mem_hview_def fun_eq_iff delete_conv')

lemma mem_sadd: "mem_sview (w\<lparr>sets := (sets w)(key := List.insert m (sets w key))\<rparr>) = (mem_sview w)(key := insert m (mem_sview w key))"
  by (auto simp: mem_sview_def fun_eq_iff)

lemma mem_keys_order: "map_order (mem_hview w db) (mem_keys (hashes w db))"
proof -
  have "mem_hview w db = map_of (hashes w db)" by (simp add: mem_hview_def fun_eq_iff)
  then show ?thesis by (simp add: map_order_def mem_keys_def dom_map_of_conv_image_fst)
qed

lemma mem_hview_fun: "map_of (hashes w db) = mem_hview w db"
  by (simp add: mem_hview_def fun_eq_iff)

text \<open>A command is run on the same data, or fails without an effect.\<close>

lemma mem_do_cases:
  assumes "mem_do w cmd args = (w', r)"
  obtains (run) w0 where "mem_cmd w0 cmd args = (w', r)" "mem_hview w0 = mem_hview w" "mem_sview w0 = mem_sview w"
      "counters w0 = counters w" "hashes w0 = hashes w" "sets w0 = sets w"
  | (fail) "\<exists>e. r = Inl e" "mem_hview w' = mem_hview w" "mem_sview w' = mem_sview w" "counters w' = counters w"
  using assms that by (cases "script w") (auto simp: mem_do_def split: bool.splits)

lemma mem_service: "redis_service mem_redigo mem_hview mem_sview counters"
proof (unfold_locales, goal_cases)
  case (11 w db k w' r)
  then have "mem_do w ''HGET'' [AStr db, AStr k] = (w', r)" by (simp add: mem_redigo_def)
  then show ?case by (cases rule: mem_do_cases) (auto simp: mem_cmd_def hash_cmd_def mem_hview_fun)
next
  case (12 w db w' r)
  then have "mem_do w ''HGETALL'' [AStr db] = (w', r)" by (simp add: mem_redigo_def)
  then show ?case
  proof (cases rule: mem_do_cases)
    case (run w0)
    then show ?thesis using mem_keys_order[of w db] by (auto simp: mem_cmd_def hash_cmd_def mem_hview_fun)
  qed auto
next
  case (13 w db k a w' r v)
  then have "mem_do w ''HSET'' [AStr db, AStr k, a] = (w', r)" by (simp add: mem_redigo_def)
  then show ?case
  proof (cases rule: mem_do_cases)
    case (run w0)
    then show ?thesis using 13(2) mem_hput[of w0 db k v] by (auto simp: mem_cmd_def hash_cmd_def)
  qed auto
next
  case (14 w db k v w' r)
  then have "mem_do w ''HSETNX'' [AStr db, AStr k, AStr v] = (w', r)" by (simp add: mem_redigo_def)
  then show ?case
  proof (cases rule: mem_do_cases)
    case (run w0)
    then show ?thesis using mem_hput[of w0 db k v] by (auto simp: mem_cmd_def hash_cmd_def mem_hview_fun)
  qed auto
next
  case (15 w db k w' r)
  then have "mem_do w ''HDEL'' [AStr db, AStr k] = (w', r)" by (simp add: mem_redigo_def)
  then show ?case
  proof (cases rule: mem_do_cases)
    case (run w0)
    then show ?thesis using mem_hdel[of w0 db k] by (auto simp: mem_cmd_def hash_cmd_def)
  qed auto
next
  case (16 w db k w' r)
  then have "mem_do w ''HEXISTS'' [AStr db, AStr k] = (w', r)" by (simp add: mem_redigo_def)
  then show ?case by (cases rule: mem_do_cases) (auto simp: mem_cmd_def hash_cmd_def mem_hview_fun)
next
  case (17 w key m w' x)
  then have "mem_do w ''SADD'' [AStr key, AStr m] = (w', Inr x)" by (simp add: mem_redigo_def)
  then show ?case
  proof (cases rule: mem_do_cases)
    case (run w0)
    then show ?thesis using mem_sadd[of w0 key m] by (auto simp: mem_cmd_def hash_cmd_def other_cmd_def)
  qed auto
next
  case (18 w key w' r)
  then have "mem_do w ''SMEMBERS'' [AStr key] = (w', r)" by (simp add: mem_redigo_def)
  then show ?case by (cases rule: mem_do_cases) (auto simp: mem_cmd_def hash_cmd_def other_cmd_def mem_sview_def)
next
  case (19 w key i w' r)
  then have "mem_do w ''INCRBY'' [AStr key, AInt i] = (w', r)" by (simp add: mem_redigo_def)
  then show ?case
    by (cases rule: mem_do_cases) (auto simp: mem_cmd_def hash_cmd_def other_cmd_def Let_def split: option.splits)
qed (auto simp: mem_redigo_def map_filter_bulks bulk_of_def list_all_iff)

interpretation mem: redis_service mem_redigo mem_hview mem_sview counters
  by (rule mem_service)

definition mem_store :: "mem storage" where
  "mem_store = NewInstance \<lparr>pool = mem_redigo, retry = 1\<rparr>"

lemma mem_hash_storage: "hash_storage mem_store mem_hview"
  unfolding mem_store_def by (rule mem.hashes.hash_storage_axioms)

lemma mem_device_registry: "device_registry mem_store mem_hview (\<lambda>w. mem_sview w cometNodesKey)"
  unfolding mem_store_def by (rule mem.registry.device_registry_axioms)

lemma mem_counter_storage: "counter_storage mem_store counters"
  unfolding mem_store_def by (rule mem.counters.counter_storage_axioms)

text \<open>The operations of \<open>mem_store\<close> while no reply is lost.\<close>

definition mem_put :: "string \<Rightarrow> string \<Rightarrow> string \<Rightarrow> mem \<Rightarrow> mem" where
  "mem_put db k v w = w\<lparr>hashes := (hashes w)(db := AList.update k v (hashes w db))\<rparr>"

definition mem_del :: "string \<Rightarrow> string \<Rightarrow> mem \<Rightarrow> mem" where
  "mem_del db k w = w\<lparr>hashes := (hashes w)(db := AList.delete k (hashes w db))\<rparr>"

definition mem_inc :: "string \<Rightarrow> int \<Rightarrow> mem \<Rightarrow> mem" where
  "mem_inc k n w = w\<lparr>counters := (counters w)(k \<mapsto> (case counters w k of None \<Rightarrow> 0 | Some c \<Rightarrow> c) + n)\<rparr>"

lemma mem_script [simp]: "script (mem_put db k v w) = script w" "script (mem_del db k w) = script w"
  "script (mem_inc c n w) = script w" "script mem_empty = []"
  by (simp_all add: mem_put_def mem_del_def mem_inc_def mem_empty_def)

lemma mem_hview_ops [simp]:
  "mem_hview (mem_put db k v w) = hput (mem_hview w) db k (Some v)"
  "mem_hview (mem_del db k w) = hput (mem_hview w) db k None"
  "mem_hview (mem_inc c n w) = mem_hview w"
  "mem_hview mem_empty = (\<lambda>_ _. None)"
  using mem_hput[of w db k v] mem_hdel[of w db k]
  by (simp_all add: mem_put_def mem_del_def mem_inc_def mem_empty_def mem_hview_def[abs_def])

lemma mem_counters_ops [simp]:
  "counters (mem_put db k v w) = counters w" "counters (mem_del db k w) = counters w"
  "counters (mem_inc c n w) = (counters w)(c \<mapsto> (case counters w c of None \<Rightarrow> 0 | Some x \<Rightarrow> x) + n)"
  "counters mem_empty = Map.empty"
  by (simp_all add: mem_put_def mem_del_def mem_inc_def mem_empty_def)

lemma mem_clk_ops [simp]:
  "clk (mem_put db k v w) = clk w" "clk (mem_del db k w) = clk w" "clk (mem_inc c n w) = clk w" "clk mem_empty = 0"
  by (simp_all add: mem_put_def mem_del_def mem_inc_def mem_empty_def)

lemmas mem_run = mem_store_def NewInstance_def do_int_def do_int64_def RedisStorage_Do_def mem_redigo_def
  mem_do_def mem_cmd_def hash_cmd_def other_cmd_def Let_def

lemma mem_store_calls:
  assumes "script w = []"
  shows "HashGet mem_store w db k = (w, Inr (mem_hview w db k))"
    and "HashSet mem_store w db k v = (mem_put db k v w, Inr 1)"
    and "HashSetNotExist mem_store w db k v = (if mem_hview w db k = None then mem_put db k v w else w, Inr 1)"
    and "HashDel mem_store w db k = (mem_del db k w, Inr 1)"
    and "HashExists mem_store w db k = (w, Inr (if mem_hview w db k = None then 0 else 1))"
    and "IncrBy mem_store w c n = (mem_inc c n w, Inr (the (counters (mem_inc c n w) c)))"
  using assms
  by (simp_all add: mem_run RedisStorage_HashGet_def RedisStorage_HashSet_def RedisStorage_HashSetNotExist_def
      RedisStorage_HashDel_def RedisStorage_HashExists_def RedisStorage_IncrBy_def mem_put_def mem_del_def mem_inc_def
      mem_hview_def bulk_opt_def split: option.splits)

end
