(* ===== verification/Safemap.thy ===== *)
theory Safemap
  imports Prelude
begin

text \<open>
  \<open>utils/safemap/safemap.go\<close>: a map behind a read-write lock, used by the comet server as
  \<open>DevicesMap\<close> (device id to client). Every method holds the lock for its whole body, so a method
  call is one atomic step and the lock itself is not in the state. The locale \<open>keyed_map\<close> is the
  interface the server uses; its lemmas are about a whole history of calls.
\<close>

record ('k, 'v) SafeMap =
  mp :: "'k \<Rightarrow> 'v option"

definition NewSafeMap :: "('k, 'v) SafeMap" where
  "NewSafeMap = \<lparr>mp = Map.empty\<rparr>"

text \<open>\<open>nil\<close> is \<open>None\<close>.\<close>

definition Get :: "('k, 'v) SafeMap \<Rightarrow> 'k \<Rightarrow> 'v option" where
  "Get this k = (case mp this k of None \<Rightarrow> None | Some r \<Rightarrow> Some r)"

definition Set :: "('k, 'v) SafeMap \<Rightarrow> 'k \<Rightarrow> 'v \<Rightarrow> ('k, 'v) SafeMap \<times> bool" where
  "Set this k v =
    (case mp this k of
       None \<Rightarrow> (this\<lparr>mp := (mp this)(k \<mapsto> v)\<rparr>, True)
     | Some val \<Rightarrow>
         if val \<noteq> v then (this\<lparr>mp := (mp this)(k \<mapsto> v)\<rparr>, True) else (this, False))"

definition Check :: "('k, 'v) SafeMap \<Rightarrow> 'k \<Rightarrow> bool" where
  "Check this k = (case mp this k of None \<Rightarrow> False | Some _ \<Rightarrow> True)"

definition Delete :: "('k, 'v) SafeMap \<Rightarrow> 'k \<Rightarrow> ('k, 'v) SafeMap" where
  "Delete this k = this\<lparr>mp := (mp this)(k := None)\<rparr>"

text \<open>\<open>Items\<close> hands out the map itself, not a copy.\<close>

definition Items :: "('k, 'v) SafeMap \<Rightarrow> 'k \<Rightarrow> 'v option" where
  "Items this = mp this"

definition Size :: "('k, 'v) SafeMap \<Rightarrow> nat" where
  "Size this = card (dom (mp this))"

subsection \<open>Interface\<close>

datatype ('k, 'v) map_call = PutCall 'k 'v | DropCall 'k

locale keyed_map =
  fixes new :: 'm
    and get :: "'m \<Rightarrow> 'k \<Rightarrow> 'v option"
    and put :: "'m \<Rightarrow> 'k \<Rightarrow> 'v \<Rightarrow> 'm"
    and drp :: "'m \<Rightarrow> 'k \<Rightarrow> 'm"
  assumes get_new: "get new k = None"
    and get_put: "get (put m k v) k' = (if k' = k then Some v else get m k')"
    and get_drp: "get (drp m k) k' = (if k' = k then None else get m k')"
begin

definition call :: "('k, 'v) map_call \<Rightarrow> 'm \<Rightarrow> 'm" where
  "call c m = (case c of PutCall k v \<Rightarrow> put m k v | DropCall k \<Rightarrow> drp m k)"

definition spec :: "('k, 'v) map_call \<Rightarrow> ('k \<Rightarrow> 'v option) \<Rightarrow> ('k \<Rightarrow> 'v option)" where
  "spec c f = (case c of PutCall k v \<Rightarrow> f(k \<mapsto> v) | DropCall k \<Rightarrow> f(k := None))"

lemma get_call: "get (call c m) = spec c (get m)"
  by (cases c) (auto simp: call_def spec_def get_put get_drp)

lemma get_history: "get (fold call cs m) = fold spec cs (get m)"
  by (induction cs arbitrary: m) (simp_all add: get_call)

lemma history_from_new: "get (fold call cs new) = fold spec cs Map.empty"
proof -
  have "get new = Map.empty" by (rule ext) (rule get_new)
  then show ?thesis by (simp add: get_history)
qed

lemma untouched: "(\<And>c. c \<in> set cs \<Longrightarrow> c \<noteq> DropCall k \<and> (\<forall>v. c \<noteq> PutCall k v)) \<Longrightarrow>
  get (fold call cs m) k = get m k"
proof (induction cs arbitrary: m)
  case (Cons c cs)
  then have "get (fold call cs (call c m)) k = get (call c m) k" by simp
  moreover have "get (call c m) k = get m k"
    using Cons.prems[of c] by (cases c) (auto simp: call_def get_put get_drp)
  ultimately show ?case by simp
qed simp

lemma last_put_wins: "(\<And>c. c \<in> set cs \<Longrightarrow> c \<noteq> DropCall k \<and> (\<forall>v. c \<noteq> PutCall k v)) \<Longrightarrow>
  get (fold call (PutCall k v # cs) m) k = Some v"
  using untouched[of cs k "put m k v"] by (simp add: call_def get_put)

end

lemma Get_mp: "Get this k = mp this k"
  by (simp add: Get_def split: option.splits)

lemma Get_Set: "Get (fst (Set m k v)) k' = (if k' = k then Some v else Get m k')"
  by (auto simp: Get_mp Set_def split: option.splits)

lemma Get_Delete: "Get (Delete m k) k' = (if k' = k then None else Get m k')"
  by (simp add: Get_mp Delete_def)

lemma Check_Get: "Check m k \<longleftrightarrow> Get m k \<noteq> None"
  by (simp add: Check_def Get_mp split: option.splits)

lemma mp_Set: "mp (fst (Set m k v)) = (mp m)(k \<mapsto> v)"
  by (auto simp: Set_def split: option.splits)

lemma mp_Delete: "mp (Delete m k) = (mp m)(k := None)"
  by (simp add: Delete_def)

lemma Get_NewSafeMap [simp]: "Get NewSafeMap k = None"
  by (simp add: Get_mp NewSafeMap_def)

interpretation sm: keyed_map NewSafeMap Get "\<lambda>m k v. fst (Set m k v)" Delete
  by unfold_locales (simp_all add: Get_Set Get_Delete)

text \<open>The size counts the keys that \<open>Check\<close> finds.\<close>

lemma Size_Set: "finite (dom (mp m)) \<Longrightarrow>
  Size (fst (Set m k v)) = (if Check m k then Size m else Suc (Size m))"
  by (auto simp: Size_def mp_Set Check_Get Get_mp insert_absorb card_insert_if domIff)

lemma Size_Delete: "finite (dom (mp m)) \<Longrightarrow>
  Size (Delete m k) = (if Check m k then Size m - 1 else Size m)"
  by (auto simp: Size_def mp_Delete Check_Get Get_mp domIff card_Diff_singleton_if)

end
