(* ===== verification/Convert.thy ===== *)
theory Convert
  imports Go_Strings
begin

text \<open>
  \<open>utils/convert/convert.go\<close>: fixed-width integers to big-endian bytes and back. The integers are
  words of their width (a signed one too, with the arithmetic shift where the code shifts an
  \<open>int32\<close> or \<open>int16\<close>), a byte string is a list of characters, and an index out of range, which
  panics in Go, is \<open>None\<close>. Then the text of a time, with the calendar of the package \<open>time\<close>, and of an MD5 sum,
  whose function is a parameter.
\<close>

unbundle bit_operations_syntax

text \<open>\<open>byte(v)\<close> as a character of a byte string, and \<open>uint32(b)\<close> and its kin.\<close>

definition to_byte :: "'a::len word \<Rightarrow> char" where
  "to_byte v = byte_chr (unat (ucast v :: 8 word))"

definition of_byte :: "char \<Rightarrow> 'a::len word" where
  "of_byte c = word_of_nat (byte_val c)"

definition Uint32ToBytes :: "32 word \<Rightarrow> string" where
  "Uint32ToBytes v = [to_byte (drop_bit 24 v), to_byte (drop_bit 16 v), to_byte (drop_bit 8 v), to_byte v]"

definition Int32ToBytes :: "32 word \<Rightarrow> string" where
  "Int32ToBytes v = [to_byte (signed_drop_bit 24 v), to_byte (signed_drop_bit 16 v),
     to_byte (signed_drop_bit 8 v), to_byte v]"

definition Uint16ToBytes :: "16 word \<Rightarrow> string" where
  "Uint16ToBytes v = [to_byte (drop_bit 8 v), to_byte v]"

definition Int16ToBytes :: "16 word \<Rightarrow> string" where
  "Int16ToBytes v = [to_byte (signed_drop_bit 8 v), to_byte v]"

definition BytesToUint32 :: "string \<Rightarrow> 32 word option" where
  "BytesToUint32 buf =
    (case buf of b0 # b1 # b2 # b3 # _ \<Rightarrow>
       Some (push_bit 24 (of_byte b0) OR push_bit 16 (of_byte b1) OR push_bit 8 (of_byte b2) OR of_byte b3)
     | _ \<Rightarrow> None)"

definition BytesToInt32 :: "string \<Rightarrow> 32 word option" where
  "BytesToInt32 buf =
    (case buf of b0 # b1 # b2 # b3 # _ \<Rightarrow>
       Some (push_bit 24 (of_byte b0) OR push_bit 16 (of_byte b1) OR push_bit 8 (of_byte b2) OR of_byte b3)
     | _ \<Rightarrow> None)"

definition BytesToUint16 :: "string \<Rightarrow> 16 word option" where
  "BytesToUint16 buf =
    (case buf of b0 # b1 # _ \<Rightarrow> Some (push_bit 8 (of_byte b0) OR of_byte b1) | _ \<Rightarrow> None)"

definition BytesToInt16 :: "string \<Rightarrow> 16 word option" where
  "BytesToInt16 buf =
    (case buf of b0 # b1 # _ \<Rightarrow> Some (push_bit 8 (of_byte b0) OR of_byte b1) | _ \<Rightarrow> None)"

subsection \<open>Bits\<close>

lemma byte_less: "unat (ucast v :: 8 word) < 256"
proof -
  have "unat (ucast v :: 8 word) < 2 ^ LENGTH(8)" by (rule unsigned_less)
  then show ?thesis by simp
qed

lemma of_byte_to_byte: "LENGTH('a) \<ge> 8 \<Longrightarrow>
  (of_byte (to_byte v) :: 'a::len word) = ucast (ucast v :: 8 word)"
  using byte_less[of v]
  by (simp add: of_byte_def to_byte_def)

lemma of_byte_ucast: "(of_byte c :: 'a::len word) = ucast (word_of_nat (byte_val c) :: 8 word)"
  using byte_val_less[of c] by (simp add: of_byte_def unsigned_of_nat take_bit_nat_eq_self)

lemma to_byte_of_ucast: "to_byte (v :: 'a::len word) = c \<longleftrightarrow> (ucast v :: 8 word) = word_of_nat (byte_val c)"
proof -
  have "to_byte v = c \<longleftrightarrow> unat (ucast v :: 8 word) = byte_val c"
    using byte_less[of v] by (simp add: to_byte_def byte_chr_eq_iff)
  also have "\<dots> \<longleftrightarrow> (ucast v :: 8 word) = word_of_nat (byte_val c)"
    using byte_val_less[of c] by (auto simp: word_unat_eq_iff unat_of_nat take_bit_nat_eq_self)
  finally show ?thesis .
qed

lemma join32:
  "push_bit 24 (ucast (ucast (drop_bit 24 v) :: 8 word)) OR push_bit 16 (ucast (ucast (drop_bit 16 v) :: 8 word))
   OR push_bit 8 (ucast (ucast (drop_bit 8 v) :: 8 word)) OR ucast (ucast v :: 8 word) = (v :: 32 word)"
proof (rule bit_word_eqI)
  fix n assume "n < LENGTH(32)"
  then consider "n < 8" | "8 \<le> n" "n < 16" | "16 \<le> n" "n < 24" | "24 \<le> n" "n < 32" by fastforce
  then show "bit (push_bit 24 (ucast (ucast (drop_bit 24 v) :: 8 word)) OR push_bit 16 (ucast (ucast (drop_bit 16 v) :: 8 word))
   OR push_bit 8 (ucast (ucast (drop_bit 8 v) :: 8 word)) OR ucast (ucast v :: 8 word) :: 32 word) n = bit v n"
    by cases (auto simp: bit_simps)
qed

lemma join16: "push_bit 8 (ucast (ucast (drop_bit 8 v) :: 8 word)) OR ucast (ucast v :: 8 word) = (v :: 16 word)"
  by (rule bit_word_eqI) (auto simp: bit_simps)

lemma signed_drop_bit_byte:
  "n + 8 \<le> LENGTH('a) \<Longrightarrow> (ucast (signed_drop_bit n (v :: 'a::len word)) :: 8 word) = ucast (drop_bit n v)"
  by (rule bit_word_eqI) (auto simp: bit_simps min_def)

lemma bit_byte_beyond: "8 \<le> n \<Longrightarrow> \<not> bit (b :: 8 word) n"
  using bit_imp_le_length[of b n] by auto

lemma bytes_of_join32:
  fixes a b c d :: "8 word" and v :: "32 word"
  assumes "v = push_bit 24 (ucast a) OR push_bit 16 (ucast b) OR push_bit 8 (ucast c) OR ucast d"
  shows "ucast (drop_bit 24 v) = a" "ucast (drop_bit 16 v) = b" "ucast (drop_bit 8 v) = c" "ucast v = d"
  unfolding assms by (auto intro!: bit_word_eqI simp: bit_simps bit_byte_beyond)

lemma bytes_of_join16:
  fixes c d :: "8 word" and v :: "16 word"
  assumes "v = push_bit 8 (ucast c) OR ucast d"
  shows "ucast (drop_bit 8 v) = c" "ucast v = d"
  unfolding assms by (auto intro!: bit_word_eqI simp: bit_simps bit_byte_beyond)

subsection \<open>Round trips\<close>

lemma Uint32_round_trip: "BytesToUint32 (Uint32ToBytes v @ rest) = Some v"
  using join32[of v] by (simp add: BytesToUint32_def Uint32ToBytes_def of_byte_to_byte)

lemma Int32_as_Uint32: "Int32ToBytes v = Uint32ToBytes v" "BytesToInt32 buf = BytesToUint32 buf"
  by (simp_all add: Int32ToBytes_def Uint32ToBytes_def to_byte_def signed_drop_bit_byte
      BytesToInt32_def BytesToUint32_def)

lemma Uint16_round_trip: "BytesToUint16 (Uint16ToBytes v @ rest) = Some v"
  using join16[of v] by (simp add: BytesToUint16_def Uint16ToBytes_def of_byte_to_byte)

lemma Int16_as_Uint16: "Int16ToBytes v = Uint16ToBytes v" "BytesToInt16 buf = BytesToUint16 buf"
  by (simp_all add: Int16ToBytes_def Uint16ToBytes_def to_byte_def signed_drop_bit_byte
      BytesToInt16_def BytesToUint16_def)

lemma length4: "length buf = 4 \<longleftrightarrow> (\<exists>a b c d. buf = [a, b, c, d])"
  by (auto simp: length_Suc_conv numeral_eq_Suc)

lemma bytes_Uint32:
  assumes "BytesToUint32 buf = Some v" "length buf = 4"
  shows "Uint32ToBytes v = buf"
proof -
  obtain a b c d where buf: "buf = [a, b, c, d]" using assms(2) by (auto simp: length4)
  have "v = push_bit 24 (of_byte a) OR push_bit 16 (of_byte b) OR push_bit 8 (of_byte c) OR of_byte d"
    using assms(1) by (simp add: buf BytesToUint32_def)
  from bytes_of_join32[OF this[unfolded of_byte_ucast]] show ?thesis
    by (simp add: buf Uint32ToBytes_def to_byte_of_ucast)
qed

lemma bytes_Uint16:
  assumes "BytesToUint16 buf = Some v" "length buf = 2"
  shows "Uint16ToBytes v = buf"
proof -
  obtain c d where buf: "buf = [c, d]" using assms(2) by (auto simp: length_Suc_conv numeral_2_eq_2)
  have "v = push_bit 8 (of_byte c) OR of_byte d"
    using assms(1) by (simp add: buf BytesToUint16_def)
  from bytes_of_join16[OF this[unfolded of_byte_ucast]] show ?thesis
    by (simp add: buf Uint16ToBytes_def to_byte_of_ucast)
qed

lemma length_Uint32ToBytes [simp]: "length (Uint32ToBytes v) = 4"
  by (simp add: Uint32ToBytes_def)

subsection \<open>Times\<close>

text \<open>The calendar: days are numbered from the first of January 1970. A cycle of 400 years has 146097 days.\<close>

definition leap_year :: "int \<Rightarrow> bool" where
  "leap_year y \<longleftrightarrow> y mod 4 = 0 \<and> (y mod 100 \<noteq> 0 \<or> y mod 400 = 0)"

definition year_days :: "int \<Rightarrow> int" where
  "year_days y = (if leap_year y then 366 else 365)"

definition month_days :: "bool \<Rightarrow> int list" where
  "month_days leap = [31, if leap then 29 else 28, 31, 30, 31, 30, 31, 31, 30, 31, 30, 31]"

text \<open>Day \<open>d\<close> of consecutive periods of these lengths: the number of its period, and its number in it.\<close>

fun split_days :: "int list \<Rightarrow> int \<Rightarrow> nat \<times> int" where
  "split_days [] d = (0, d)"
| "split_days (l # ls) d = (if d < l then (0, d) else let (i, r) = split_days ls (d - l) in (Suc i, r))"

definition cycle_years :: "int list" where
  "cycle_years = map year_days [0..399]"

definition civil_date :: "int \<Rightarrow> int \<times> int \<times> int" where
  "civil_date n =
    (let z = n + 719528; (i, r) = split_days cycle_years (z mod 146097); y = 400 * (z div 146097) + int i;
         (m, d) = split_days (month_days (leap_year y)) r
     in (y, int m + 1, d + 1))"

text \<open>The number of a day from its date.\<close>

definition day_number :: "int \<Rightarrow> int \<Rightarrow> int \<Rightarrow> int" where
  "day_number y m d = 146097 * (y div 400) + sum_list (take (nat (y mod 400)) cycle_years)
     + sum_list (take (nat (m - 1)) (month_days (leap_year y))) + (d - 1) - 719528"

definition zero_pad :: "nat \<Rightarrow> nat \<Rightarrow> string" where
  "zero_pad k n = replicate (k - length (format_nat n)) (CHR ''0'') @ format_nat n"

text \<open>\<open>time.Unix(ts, 0)\<close> is its seconds; the layout is \<open>2006-01-02 15:04:05\<close> in the local zone, whose offset at a
  time is \<open>zone\<close>.\<close>

definition TimestampToTime :: "int \<Rightarrow> int" where
  "TimestampToTime timestamp = timestamp"

definition TimestampToTimeString :: "(int \<Rightarrow> int) \<Rightarrow> int \<Rightarrow> string" where
  "TimestampToTimeString zone timestamp =
    (let t = TimestampToTime timestamp; s = t + zone t; (y, m, d) = civil_date (s div 86400); r = nat (s mod 86400)
     in (if y < 0 then ''-'' else []) @ zero_pad 4 (nat \<bar>y\<bar>) @ ''-'' @ zero_pad 2 (nat m) @ ''-'' @ zero_pad 2 (nat d) @ '' '' @
        zero_pad 2 (r div 3600) @ '':'' @ zero_pad 2 (r div 60 mod 60) @ '':'' @ zero_pad 2 (r mod 60))"

definition StringToMd5 :: "(string \<Rightarrow> string) \<Rightarrow> string \<Rightarrow> string" where
  "StringToMd5 md5sum s = EncodeToString (md5sum s)"

lemma split_days_correct:
  assumes "split_days ls d = (i, r)" "0 \<le> d" "d < sum_list ls"
  shows "i < length ls" "0 \<le> r" "r < ls ! i" "sum_list (take i ls) + r = d"
proof -
  have "i < length ls \<and> 0 \<le> r \<and> r < ls ! i \<and> sum_list (take i ls) + r = d"
    using assms
  proof (induction ls d arbitrary: i r rule: split_days.induct)
    case (2 l ls d)
    then show ?case by (cases "d < l") (force split: prod.splits)+
  qed simp
  then show "i < length ls" "0 \<le> r" "r < ls ! i" "sum_list (take i ls) + r = d" by simp_all
qed

lemma sum_cycle_years: "sum_list cycle_years = 146097" "length cycle_years = 400"
  by code_simp+

lemma leap_year_cycle: "leap_year (400 * k + i) = leap_year i"
proof -
  have "(400 * k + i) mod 4 = i mod 4" "(400 * k + i) mod 100 = i mod 100" "(400 * k + i) mod 400 = i mod 400"
    using mod_mult_self4[of 4 "100 * k" i] mod_mult_self4[of 100 "4 * k" i] mod_mult_self4[of 400 k i] by (simp_all add: mult.assoc)
  then show ?thesis by (simp add: leap_year_def)
qed

text \<open>The date of a day is a date of the calendar, and it is that day's.\<close>

theorem civil_date_correct:
  assumes "civil_date n = (y, m, d)"
  shows "1 \<le> m \<and> m \<le> 12 \<and> 1 \<le> d \<and> d \<le> month_days (leap_year y) ! nat (m - 1) \<and> day_number y m d = n"
proof -
  define z where "z = n + 719528"
  obtain i r where i: "split_days cycle_years (z mod 146097) = (i, r)" by fastforce
  have y: "y = 400 * (z div 146097) + int i" using assms i by (simp add: civil_date_def z_def Let_def split: prod.splits)
  obtain k q where k: "split_days (month_days (leap_year y)) r = (k, q)" by fastforce
  have md: "m = int k + 1" "d = q + 1" using assms i k y by (auto simp: civil_date_def z_def Let_def)
  have zb: "0 \<le> z mod 146097" "z mod 146097 < sum_list cycle_years" by (simp_all add: sum_cycle_years)
  note I = split_days_correct[OF i zb]
  have il: "i < 400" using I(1) by (simp add: sum_cycle_years)
  then have yi: "cycle_years ! i = year_days (int i)" by (simp add: cycle_years_def)
  have sm: "sum_list (month_days (leap_year y)) = year_days (int i)"
    using leap_year_cycle[of "z div 146097" "int i"] by (simp add: month_days_def year_days_def y)
  note K = split_days_correct[OF k I(2)]
  have r: "r < sum_list (month_days (leap_year y))" using I(3) by (simp add: sm yi)
  have yd: "y div 400 = z div 146097" "y mod 400 = int i" using il by (simp_all add: y)
  have "day_number y m d = 146097 * (z div 146097) + sum_list (take i cycle_years)
      + sum_list (take k (month_days (leap_year y))) + q - 719528"
    by (simp add: day_number_def yd md)
  also have "\<dots> = 146097 * (z div 146097) + z mod 146097 - 719528" using I(4) K(4)[OF r] by simp
  also have "\<dots> = n" by (simp add: z_def)
  finally show ?thesis using K(1-3)[OF r] md by (simp add: month_days_def)
qed

end
