(* ===== verification/Comet_Message.thy ===== *)
theory Comet_Message
  imports Convert Storage
begin

text \<open>
  \<open>comet/message.go\<close>: the ten-byte frame header of the protocol between devices and the comet server
  and the JSON bodies of its messages. \<open>Serialize\<close> and \<open>Deserialize\<close> are \<open>encoding/binary\<close> in
  big-endian order on the struct: two bytes, then two 32-bit integers. A body is a record with the
  decoder (for what the server receives) or the encoder (for what it sends) that its struct tags
  give \<open>encoding/json\<close>.
\<close>

record Header =
  hd_Type :: "8 word"
  hd_Ver :: "8 word"
  hd_Seq :: "32 word"
  hd_Len :: "32 word"

record Message =
  mg_Header :: "Header option"
  mg_Data :: string

definition HEADER_SIZE :: nat where
  "HEADER_SIZE = 10"

definition MSG_HEARTBEAT :: "8 word" where
  "MSG_HEARTBEAT = 0"

definition MSG_INIT :: "8 word" where
  "MSG_INIT = 1"

definition MSG_INIT_REPLY :: "8 word" where
  "MSG_INIT_REPLY = 2"

definition MSG_REGISTER :: "8 word" where
  "MSG_REGISTER = 3"

definition MSG_REGISTER_REPLY :: "8 word" where
  "MSG_REGISTER_REPLY = 4"

definition MSG_UNREGISTER :: "8 word" where
  "MSG_UNREGISTER = 5"

definition MSG_UNREGISTER_REPLY :: "8 word" where
  "MSG_UNREGISTER_REPLY = 6"

definition MSG_PUSH :: "8 word" where
  "MSG_PUSH = 10"

definition MSG_PUSH_REPLY :: "8 word" where
  "MSG_PUSH_REPLY = 11"

definition MSG_SUBSCRIBE :: "8 word" where
  "MSG_SUBSCRIBE = 12"

definition MSG_SUBSCRIBE_REPLY :: "8 word" where
  "MSG_SUBSCRIBE_REPLY = 13"

definition MSG_UNSUBSCRIBE :: "8 word" where
  "MSG_UNSUBSCRIBE = 14"

definition MSG_UNSUBSCRIBE_REPLY :: "8 word" where
  "MSG_UNSUBSCRIBE_REPLY = 15"

definition MSG_GET_TOPICS :: "8 word" where
  "MSG_GET_TOPICS = 16"

definition MSG_GET_TOPICS_REPLY :: "8 word" where
  "MSG_GET_TOPICS_REPLY = 17"

definition MSG_CMD :: "8 word" where
  "MSG_CMD = 20"

definition MSG_CMD_REPLY :: "8 word" where
  "MSG_CMD_REPLY = 21"

definition MSG_REGISTER2 :: "8 word" where
  "MSG_REGISTER2 = 23"

definition MSG_REGISTER2_REPLY :: "8 word" where
  "MSG_REGISTER2_REPLY = 24"

definition MSG_UNREGISTER2 :: "8 word" where
  "MSG_UNREGISTER2 = 25"

definition MSG_UNREGISTER2_REPLY :: "8 word" where
  "MSG_UNREGISTER2_REPLY = 26"

definition MSG_STATS :: "8 word" where
  "MSG_STATS = 27"

definition MSG_STATS_REPLY :: "8 word" where
  "MSG_STATS_REPLY = 28"

lemmas msg_type_defs =
  MSG_HEARTBEAT_def MSG_INIT_def MSG_INIT_REPLY_def MSG_REGISTER_def MSG_REGISTER_REPLY_def MSG_UNREGISTER_def MSG_UNREGISTER_REPLY_def MSG_PUSH_def MSG_PUSH_REPLY_def MSG_SUBSCRIBE_def MSG_SUBSCRIBE_REPLY_def MSG_UNSUBSCRIBE_def MSG_UNSUBSCRIBE_REPLY_def MSG_GET_TOPICS_def MSG_GET_TOPICS_REPLY_def MSG_CMD_def MSG_CMD_REPLY_def MSG_REGISTER2_def MSG_REGISTER2_REPLY_def MSG_UNREGISTER2_def MSG_UNREGISTER2_REPLY_def MSG_STATS_def MSG_STATS_REPLY_def

definition ERR_INTERNAL :: int where
  "ERR_INTERNAL = 1000"

definition ERR_INVALID_REQ :: int where
  "ERR_INVALID_REQ = 1001"

definition ERR_INVALID_PARAMS :: int where
  "ERR_INVALID_PARAMS = 1002"

definition ERR_INVALID_APPID :: int where
  "ERR_INVALID_APPID = 1003"

definition ERR_INVALID_PKG :: int where
  "ERR_INVALID_PKG = 1004"

definition ERR_AUTH :: int where
  "ERR_AUTH = 1005"

definition ERR_REG_CONFLICT :: int where
  "ERR_REG_CONFLICT = 1006"

definition ERR_NOT_REG :: int where
  "ERR_NOT_REG = 1007"

definition ERR_INVALID_REGID :: int where
  "ERR_INVALID_REGID = 1008"

lemmas err_defs =
  ERR_INTERNAL_def ERR_INVALID_REQ_def ERR_INVALID_PARAMS_def ERR_INVALID_APPID_def ERR_INVALID_PKG_def ERR_AUTH_def ERR_REG_CONFLICT_def ERR_NOT_REG_def ERR_INVALID_REGID_def

subsection \<open>The frame header\<close>

definition Serialize :: "Header \<Rightarrow> string" where
  "Serialize h = [to_byte (hd_Type h), to_byte (hd_Ver h)] @ Uint32ToBytes (hd_Seq h) @ Uint32ToBytes (hd_Len h)"

text \<open>\<open>None\<close> is the error of \<open>binary.Read\<close> on fewer than ten bytes.\<close>

definition Deserialize :: "string \<Rightarrow> Header option" where
  "Deserialize b =
    (case b of
       b0 # b1 # rest \<Rightarrow>
         (case (BytesToUint32 rest, BytesToUint32 (drop 4 rest)) of
            (Some seq, Some len) \<Rightarrow>
              Some \<lparr>hd_Type = of_byte b0, hd_Ver = of_byte b1, hd_Seq = seq, hd_Len = len\<rparr>
          | _ \<Rightarrow> None)
     | _ \<Rightarrow> None)"

definition makeHeader :: "8 word \<Rightarrow> 32 word \<Rightarrow> 32 word \<Rightarrow> Header" where
  "makeHeader msgType seq sz = \<lparr>hd_Type = msgType, hd_Ver = 0, hd_Seq = seq, hd_Len = sz\<rparr>"

lemma length_Serialize [simp]: "length (Serialize h) = HEADER_SIZE"
  by (simp add: Serialize_def HEADER_SIZE_def)

lemma of_byte_to_byte8 [simp]: "of_byte (to_byte b) = (b :: 8 word)"
  by (simp add: of_byte_to_byte)

lemma to_byte_of_byte8 [simp]: "to_byte (of_byte c :: 8 word) = c"
  by (simp add: to_byte_of_ucast of_byte_def)

lemma Deserialize_Serialize [simp]: "Deserialize (Serialize h @ rest) = Some h"
proof -
  have d: "drop 4 (Uint32ToBytes a @ r) = r" for a r by simp
  show ?thesis
    using Uint32_round_trip[of "hd_Seq h"] Uint32_round_trip[of "hd_Len h"]
    by (simp add: Deserialize_def Serialize_def d)
qed

lemma Serialize_Deserialize:
  assumes "Deserialize b = Some h" "length b = HEADER_SIZE"
  shows "Serialize h = b"
proof -
  obtain b0 b1 s where b: "b = b0 # b1 # s" "length s = 8"
    using assms(2) by (auto simp: HEADER_SIZE_def length_Suc_conv numeral_eq_Suc)
  then obtain x y where xy: "BytesToUint32 s = Some x" "BytesToUint32 (drop 4 s) = Some y"
    "h = \<lparr>hd_Type = of_byte b0, hd_Ver = of_byte b1, hd_Seq = x, hd_Len = y\<rparr>"
    using assms(1) by (auto simp: Deserialize_def split: option.splits)
  have "BytesToUint32 (take 4 s) = Some x"
    using xy(1) b(2) by (auto simp: BytesToUint32_def length_Suc_conv numeral_eq_Suc split: list.splits)
  then have "Uint32ToBytes x = take 4 s" using b(2) by (intro bytes_Uint32) simp_all
  moreover have "Uint32ToBytes y = drop 4 s" using xy(2) b(2) by (intro bytes_Uint32) simp_all
  ultimately show ?thesis using xy(3) b(1) by (simp add: Serialize_def)
qed

lemma Deserialize_total: "HEADER_SIZE \<le> length b \<Longrightarrow> \<exists>h. Deserialize b = Some h"
  by (auto simp: HEADER_SIZE_def Deserialize_def BytesToUint32_def Suc_le_length_iff numeral_eq_Suc)

lemma Deserialize_short: "length b < HEADER_SIZE \<Longrightarrow> Deserialize b = None"
  by (auto simp: HEADER_SIZE_def Deserialize_def BytesToUint32_def split: list.splits option.splits)

subsection \<open>Bodies\<close>

record Base1 =
  b1_AppId :: string
  b1_RegId :: string

definition zero_Base1 :: Base1 where
  "zero_Base1 = \<lparr>b1_AppId = [], b1_RegId = []\<rparr>"

definition dec_Base1 :: "Base1 decoder" where
  "dec_Base1 = dec_struct
    [field ''appid'' b1_AppId b1_AppId_update dec_string,
     field ''regid'' b1_RegId b1_RegId_update dec_string]"

record InitMessage =
  im_DevId :: string
  im_Sync :: int
  im_Apps :: "Base1 list option"

definition zero_InitMessage :: InitMessage where
  "zero_InitMessage = \<lparr>im_DevId = [], im_Sync = 0, im_Apps = None\<rparr>"

definition dec_InitMessage :: "InitMessage decoder" where
  "dec_InitMessage = dec_struct
    [field ''devid'' im_DevId im_DevId_update dec_string,
     field ''sync'' im_Sync im_Sync_update dec_int64,
     field ''apps'' im_Apps im_Apps_update (dec_slice dec_Base1 zero_Base1)]"

record Base2 =
  b2_AppId :: string
  b2_RegId :: string
  b2_Pkg :: string

definition zero_Base2 :: Base2 where
  "zero_Base2 = \<lparr>b2_AppId = [], b2_RegId = [], b2_Pkg = []\<rparr>"

definition enc_Base2 :: "Base2 \<Rightarrow> json" where
  "enc_Base2 m = JObj
    (member ''appid'' (JStr (b2_AppId m)) @
     member ''regid'' (JStr (b2_RegId m)) @
     member ''pkg'' (JStr (b2_Pkg m)))"

record InitReplyMessage =
  ir_Result :: int
  ir_ErrInfo :: string
  ir_Apps :: "Base2 list option"
  ir_HB :: "32 word"
  ir_Reconn :: "32 word"

definition zero_InitReplyMessage :: InitReplyMessage where
  "zero_InitReplyMessage = \<lparr>ir_Result = 0, ir_ErrInfo = [], ir_Apps = None, ir_HB = 0, ir_Reconn = 0\<rparr>"

definition enc_InitReplyMessage :: "InitReplyMessage \<Rightarrow> json" where
  "enc_InitReplyMessage m = JObj
    (member ''result'' (jint (ir_Result m)) @
     omitempty (ir_ErrInfo m = []) ''errinfo'' (JStr (ir_ErrInfo m)) @
     omitempty ((ir_Apps m = None \<or> ir_Apps m = Some [])) ''apps'' (case ir_Apps m of None \<Rightarrow> JNull | Some xs \<Rightarrow> JArr (map enc_Base2 xs)) @
     omitempty (ir_HB m = 0) ''hb'' (jint (uint (ir_HB m))) @
     omitempty (ir_Reconn m = 0) ''reconn'' (jint (uint (ir_Reconn m))))"

record RegisterMessage =
  rq_AppId :: string
  rq_AppKey :: string
  rq_RegId :: string
  rq_Token :: string
  rq_Uid :: string

definition zero_RegisterMessage :: RegisterMessage where
  "zero_RegisterMessage = \<lparr>rq_AppId = [], rq_AppKey = [], rq_RegId = [], rq_Token = [], rq_Uid = []\<rparr>"

definition dec_RegisterMessage :: "RegisterMessage decoder" where
  "dec_RegisterMessage = dec_struct
    [field ''appid'' rq_AppId rq_AppId_update dec_string,
     field ''appkey'' rq_AppKey rq_AppKey_update dec_string,
     field ''regid'' rq_RegId rq_RegId_update dec_string,
     field ''token'' rq_Token rq_Token_update dec_string,
     field ''uid'' rq_Uid rq_Uid_update dec_string]"

record RegisterReplyMessage =
  rr_Result :: int
  rr_ErrInfo :: string
  rr_AppId :: string
  rr_Pkg :: string
  rr_RegId :: string

definition zero_RegisterReplyMessage :: RegisterReplyMessage where
  "zero_RegisterReplyMessage = \<lparr>rr_Result = 0, rr_ErrInfo = [], rr_AppId = [], rr_Pkg = [], rr_RegId = []\<rparr>"

definition enc_RegisterReplyMessage :: "RegisterReplyMessage \<Rightarrow> json" where
  "enc_RegisterReplyMessage m = JObj
    (member ''result'' (jint (rr_Result m)) @
     omitempty (rr_ErrInfo m = []) ''errinfo'' (JStr (rr_ErrInfo m)) @
     member ''appid'' (JStr (rr_AppId m)) @
     omitempty (rr_Pkg m = []) ''pkg'' (JStr (rr_Pkg m)) @
     omitempty (rr_RegId m = []) ''regid'' (JStr (rr_RegId m)))"

record UnregisterMessage =
  uq_AppId :: string
  uq_AppKey :: string
  uq_RegId :: string

definition zero_UnregisterMessage :: UnregisterMessage where
  "zero_UnregisterMessage = \<lparr>uq_AppId = [], uq_AppKey = [], uq_RegId = []\<rparr>"

definition dec_UnregisterMessage :: "UnregisterMessage decoder" where
  "dec_UnregisterMessage = dec_struct
    [field ''appid'' uq_AppId uq_AppId_update dec_string,
     field ''appkey'' uq_AppKey uq_AppKey_update dec_string,
     field ''regid'' uq_RegId uq_RegId_update dec_string]"

record UnregisterReplyMessage =
  ur_Result :: int
  ur_ErrInfo :: string
  ur_AppId :: string

definition zero_UnregisterReplyMessage :: UnregisterReplyMessage where
  "zero_UnregisterReplyMessage = \<lparr>ur_Result = 0, ur_ErrInfo = [], ur_AppId = []\<rparr>"

definition enc_UnregisterReplyMessage :: "UnregisterReplyMessage \<Rightarrow> json" where
  "enc_UnregisterReplyMessage m = JObj
    (member ''result'' (jint (ur_Result m)) @
     omitempty (ur_ErrInfo m = []) ''errinfo'' (JStr (ur_ErrInfo m)) @
     member ''appid'' (JStr (ur_AppId m)))"

record PushMessage =
  pm_MsgId :: int
  pm_AppId :: string
  pm_Type :: int
  pm_Content :: string

definition zero_PushMessage :: PushMessage where
  "zero_PushMessage = \<lparr>pm_MsgId = 0, pm_AppId = [], pm_Type = 0, pm_Content = []\<rparr>"

definition dec_PushMessage :: "PushMessage decoder" where
  "dec_PushMessage = dec_struct
    [field ''msgid'' pm_MsgId pm_MsgId_update dec_int64,
     field ''appid'' pm_AppId pm_AppId_update dec_string,
     field ''type'' pm_Type pm_Type_update dec_int64,
     field ''content'' pm_Content pm_Content_update dec_string]"

definition enc_PushMessage :: "PushMessage \<Rightarrow> json" where
  "enc_PushMessage m = JObj
    (member ''msgid'' (jint (pm_MsgId m)) @
     member ''appid'' (JStr (pm_AppId m)) @
     member ''type'' (jint (pm_Type m)) @
     member ''content'' (JStr (pm_Content m)))"

record PushReplyMessage =
  pr_MsgId :: int
  pr_AppId :: string
  pr_RegId :: string

definition zero_PushReplyMessage :: PushReplyMessage where
  "zero_PushReplyMessage = \<lparr>pr_MsgId = 0, pr_AppId = [], pr_RegId = []\<rparr>"

definition dec_PushReplyMessage :: "PushReplyMessage decoder" where
  "dec_PushReplyMessage = dec_struct
    [field ''msgid'' pr_MsgId pr_MsgId_update dec_int64,
     field ''appid'' pr_AppId pr_AppId_update dec_string,
     field ''regid'' pr_RegId pr_RegId_update dec_string]"

record SubscribeMessage =
  sq_AppId :: string
  sq_RegId :: string
  sq_Topic :: string

definition zero_SubscribeMessage :: SubscribeMessage where
  "zero_SubscribeMessage = \<lparr>sq_AppId = [], sq_RegId = [], sq_Topic = []\<rparr>"

definition dec_SubscribeMessage :: "SubscribeMessage decoder" where
  "dec_SubscribeMessage = dec_struct
    [field ''appid'' sq_AppId sq_AppId_update dec_string,
     field ''regid'' sq_RegId sq_RegId_update dec_string,
     field ''topic'' sq_Topic sq_Topic_update dec_string]"

record SubscribeReplyMessage =
  sr_Result :: int
  sr_ErrInfo :: string
  sr_AppId :: string
  sr_RegId :: string

definition zero_SubscribeReplyMessage :: SubscribeReplyMessage where
  "zero_SubscribeReplyMessage = \<lparr>sr_Result = 0, sr_ErrInfo = [], sr_AppId = [], sr_RegId = []\<rparr>"

definition enc_SubscribeReplyMessage :: "SubscribeReplyMessage \<Rightarrow> json" where
  "enc_SubscribeReplyMessage m = JObj
    (member ''result'' (jint (sr_Result m)) @
     omitempty (sr_ErrInfo m = []) ''errinfo'' (JStr (sr_ErrInfo m)) @
     member ''appid'' (JStr (sr_AppId m)) @
     member ''regid'' (JStr (sr_RegId m)))"

record UnsubscribeMessage =
  nq_AppId :: string
  nq_RegId :: string
  nq_Topic :: string

definition zero_UnsubscribeMessage :: UnsubscribeMessage where
  "zero_UnsubscribeMessage = \<lparr>nq_AppId = [], nq_RegId = [], nq_Topic = []\<rparr>"

definition dec_UnsubscribeMessage :: "UnsubscribeMessage decoder" where
  "dec_UnsubscribeMessage = dec_struct
    [field ''appid'' nq_AppId nq_AppId_update dec_string,
     field ''regid'' nq_RegId nq_RegId_update dec_string,
     field ''topic'' nq_Topic nq_Topic_update dec_string]"

record UnsubscribeReplyMessage =
  nr_Result :: int
  nr_ErrInfo :: string
  nr_AppId :: string
  nr_RegId :: string

definition zero_UnsubscribeReplyMessage :: UnsubscribeReplyMessage where
  "zero_UnsubscribeReplyMessage = \<lparr>nr_Result = 0, nr_ErrInfo = [], nr_AppId = [], nr_RegId = []\<rparr>"

definition enc_UnsubscribeReplyMessage :: "UnsubscribeReplyMessage \<Rightarrow> json" where
  "enc_UnsubscribeReplyMessage m = JObj
    (member ''result'' (jint (nr_Result m)) @
     omitempty (nr_ErrInfo m = []) ''errinfo'' (JStr (nr_ErrInfo m)) @
     member ''appid'' (JStr (nr_AppId m)) @
     member ''regid'' (JStr (nr_RegId m)))"

record GetTopicsMessage =
  gq_AppId :: string
  gq_RegId :: string

definition zero_GetTopicsMessage :: GetTopicsMessage where
  "zero_GetTopicsMessage = \<lparr>gq_AppId = [], gq_RegId = []\<rparr>"

definition dec_GetTopicsMessage :: "GetTopicsMessage decoder" where
  "dec_GetTopicsMessage = dec_struct
    [field ''appid'' gq_AppId gq_AppId_update dec_string,
     field ''regid'' gq_RegId gq_RegId_update dec_string]"

record GetTopicsReplyMessage =
  gr_Result :: int
  gr_ErrInfo :: string
  gr_AppId :: string
  gr_RegId :: string
  gr_Topics :: "string list option"

definition zero_GetTopicsReplyMessage :: GetTopicsReplyMessage where
  "zero_GetTopicsReplyMessage = \<lparr>gr_Result = 0, gr_ErrInfo = [], gr_AppId = [], gr_RegId = [], gr_Topics = None\<rparr>"

definition enc_GetTopicsReplyMessage :: "GetTopicsReplyMessage \<Rightarrow> json" where
  "enc_GetTopicsReplyMessage m = JObj
    (member ''result'' (jint (gr_Result m)) @
     omitempty (gr_ErrInfo m = []) ''errinfo'' (JStr (gr_ErrInfo m)) @
     member ''appid'' (JStr (gr_AppId m)) @
     member ''regid'' (JStr (gr_RegId m)) @
     member ''topics'' (jstrings (gr_Topics m)))"

record CommandMessage =
  cm_Service :: string
  cm_Cmd :: string

definition zero_CommandMessage :: CommandMessage where
  "zero_CommandMessage = \<lparr>cm_Service = [], cm_Cmd = []\<rparr>"

definition enc_CommandMessage :: "CommandMessage \<Rightarrow> json" where
  "enc_CommandMessage m = JObj
    (member ''service'' (JStr (cm_Service m)) @
     member ''cmd'' (JStr (cm_Cmd m)))"

record CommandReplyMessage =
  cr_Status :: int
  cr_Result :: string

definition zero_CommandReplyMessage :: CommandReplyMessage where
  "zero_CommandReplyMessage = \<lparr>cr_Status = 0, cr_Result = []\<rparr>"

definition dec_CommandReplyMessage :: "CommandReplyMessage decoder" where
  "dec_CommandReplyMessage = dec_struct
    [field ''status'' cr_Status cr_Status_update dec_int64,
     field ''result'' cr_Result cr_Result_update dec_string]"

definition enc_CommandReplyMessage :: "CommandReplyMessage \<Rightarrow> json" where
  "enc_CommandReplyMessage m = JObj
    (member ''status'' (jint (cr_Status m)) @
     member ''result'' (JStr (cr_Result m)))"

record Register2Message =
  rq2_Pkg :: string
  rq2_Token :: string
  rq2_SendIds :: "string list option"

definition zero_Register2Message :: Register2Message where
  "zero_Register2Message = \<lparr>rq2_Pkg = [], rq2_Token = [], rq2_SendIds = None\<rparr>"

definition dec_Register2Message :: "Register2Message decoder" where
  "dec_Register2Message = dec_struct
    [field ''pkg'' rq2_Pkg rq2_Pkg_update dec_string,
     field ''token'' rq2_Token rq2_Token_update dec_string,
     field ''sendids'' rq2_SendIds rq2_SendIds_update (dec_slice dec_string [])]"

record Register2ReplyMessage =
  rr2_Result :: int
  rr2_ErrInfo :: string
  rr2_AppId :: string
  rr2_Pkg :: string
  rr2_RegId :: string

definition zero_Register2ReplyMessage :: Register2ReplyMessage where
  "zero_Register2ReplyMessage = \<lparr>rr2_Result = 0, rr2_ErrInfo = [], rr2_AppId = [], rr2_Pkg = [], rr2_RegId = []\<rparr>"

definition enc_Register2ReplyMessage :: "Register2ReplyMessage \<Rightarrow> json" where
  "enc_Register2ReplyMessage m = JObj
    (member ''result'' (jint (rr2_Result m)) @
     omitempty (rr2_ErrInfo m = []) ''errinfo'' (JStr (rr2_ErrInfo m)) @
     member ''appid'' (JStr (rr2_AppId m)) @
     member ''pkg'' (JStr (rr2_Pkg m)) @
     member ''regid'' (JStr (rr2_RegId m)))"

record Unregister2Message =
  uq2_Pkg :: string
  uq2_RegId :: string
  uq2_SendId :: string

definition zero_Unregister2Message :: Unregister2Message where
  "zero_Unregister2Message = \<lparr>uq2_Pkg = [], uq2_RegId = [], uq2_SendId = []\<rparr>"

definition dec_Unregister2Message :: "Unregister2Message decoder" where
  "dec_Unregister2Message = dec_struct
    [field ''pkg'' uq2_Pkg uq2_Pkg_update dec_string,
     field ''regid'' uq2_RegId uq2_RegId_update dec_string,
     field ''sendid'' uq2_SendId uq2_SendId_update dec_string]"

record Unregister2ReplyMessage =
  ur2_Result :: int
  ur2_ErrInfo :: string
  ur2_AppId :: string
  ur2_Pkg :: string
  ur2_SenderCnt :: int

definition zero_Unregister2ReplyMessage :: Unregister2ReplyMessage where
  "zero_Unregister2ReplyMessage = \<lparr>ur2_Result = 0, ur2_ErrInfo = [], ur2_AppId = [], ur2_Pkg = [], ur2_SenderCnt = 0\<rparr>"

definition enc_Unregister2ReplyMessage :: "Unregister2ReplyMessage \<Rightarrow> json" where
  "enc_Unregister2ReplyMessage m = JObj
    (member ''result'' (jint (ur2_Result m)) @
     omitempty (ur2_ErrInfo m = []) ''errinfo'' (JStr (ur2_ErrInfo m)) @
     member ''appid'' (JStr (ur2_AppId m)) @
     member ''pkg'' (JStr (ur2_Pkg m)) @
     member ''sendercnt'' (jint (ur2_SenderCnt m)))"

record StatsMessage =
  tq_AppId :: string
  tq_RegId :: string
  tq_MsgId :: int
  tq_Click :: bool

definition zero_StatsMessage :: StatsMessage where
  "zero_StatsMessage = \<lparr>tq_AppId = [], tq_RegId = [], tq_MsgId = 0, tq_Click = False\<rparr>"

definition dec_StatsMessage :: "StatsMessage decoder" where
  "dec_StatsMessage = dec_struct
    [field ''appid'' tq_AppId tq_AppId_update dec_string,
     field ''regid'' tq_RegId tq_RegId_update dec_string,
     field ''msgid'' tq_MsgId tq_MsgId_update dec_int64,
     field ''click'' tq_Click tq_Click_update dec_bool]"

record StatsReplyMessage =
  tr_Result :: int
  tr_ErrInfo :: string
  tr_AppId :: string
  tr_RegId :: string

definition zero_StatsReplyMessage :: StatsReplyMessage where
  "zero_StatsReplyMessage = \<lparr>tr_Result = 0, tr_ErrInfo = [], tr_AppId = [], tr_RegId = []\<rparr>"

definition enc_StatsReplyMessage :: "StatsReplyMessage \<Rightarrow> json" where
  "enc_StatsReplyMessage m = JObj
    (member ''result'' (jint (tr_Result m)) @
     omitempty (tr_ErrInfo m = []) ''errinfo'' (JStr (tr_ErrInfo m)) @
     member ''appid'' (JStr (tr_AppId m)) @
     member ''regid'' (JStr (tr_RegId m)))"

lemmas reply_encoders =
  enc_Base2_def enc_InitReplyMessage_def enc_RegisterReplyMessage_def enc_UnregisterReplyMessage_def enc_PushMessage_def enc_SubscribeReplyMessage_def enc_UnsubscribeReplyMessage_def enc_GetTopicsReplyMessage_def enc_CommandMessage_def enc_CommandReplyMessage_def enc_Register2ReplyMessage_def enc_Unregister2ReplyMessage_def enc_StatsReplyMessage_def

text \<open>What the server sends is a well-formed JSON value, so a device can read it back.\<close>

lemma wf_members [simp]:
  "list_all (\<lambda>(k, j). wf_json j) (member n j) = wf_json j"
  "list_all (\<lambda>(k, j). wf_json j) (omitempty b n j) = (b \<or> wf_json j)"
  by (auto simp: member_def omitempty_def)

lemma PushMessage_round_trip:
  assumes "int64_range (pm_MsgId m)" "int64_range (pm_Type m)"
  shows "Unmarshal dec_PushMessage (json_text (enc_PushMessage m)) x = (m, True)"
proof -
  have "wf_json (enc_PushMessage m)" by (simp add: enc_PushMessage_def)
  then show ?thesis unfolding Unmarshal_text[OF \<open>wf_json (enc_PushMessage m)\<close>] using assms
    by (cases m; cases x) (simp add: dec_PushMessage_def enc_PushMessage_def dec_struct_def member_def
        find_field_def field_def)
qed

end
