(* ===== verification/Go_Slices.thy ===== *)
theory Go_Slices
  imports Prelude
begin

text \<open>
  Go slices with their backing arrays. A slice is nil or a window of the first \<open>slen\<close> cells of an
  array in a heap (no slice of this code starts past the array's first cell), and its capacity is
  the array's length. \<open>append\<close> writes in place while the capacity lasts and allocates otherwise; how
  much a new array is larger than needed is up to the runtime, so it is the argument \<open>spare\<close>. Two
  slices of one array see each other's writes, which is what the code's
  \<open>append(s[:i], s[i+1:]...)\<close> does to every other holder of \<open>s\<close>. The lemmas say
  what each operation leaves in the cells, and that writes through one slice leave other arrays alone.
\<close>

datatype slice = SNil | Slice (sarr: nat) (slen: nat)

record 'a sheap =
  cells :: "nat \<Rightarrow> 'a list"
  fresh :: nat

definition empty_sheap :: "'a sheap" where
  "empty_sheap = \<lparr>cells = (\<lambda>_. []), fresh = 0\<rparr>"

definition slice_list :: "'a sheap \<Rightarrow> slice \<Rightarrow> 'a list" where
  "slice_list h s = (case s of SNil \<Rightarrow> [] | Slice a n \<Rightarrow> take n (cells h a))"

definition slice_len :: "slice \<Rightarrow> nat" where
  "slice_len s = (case s of SNil \<Rightarrow> 0 | Slice a n \<Rightarrow> n)"

text \<open>Nil-or-elements view, which is what \<open>encoding/json\<close> sees.\<close>

definition slice_opt :: "'a sheap \<Rightarrow> slice \<Rightarrow> 'a list option" where
  "slice_opt h s = (case s of SNil \<Rightarrow> None | Slice _ _ \<Rightarrow> Some (slice_list h s))"

definition wf_slice :: "'a sheap \<Rightarrow> slice \<Rightarrow> bool" where
  "wf_slice h s = (case s of SNil \<Rightarrow> True | Slice a n \<Rightarrow> a < fresh h \<and> n \<le> length (cells h a))"

definition slice_arrays :: "slice \<Rightarrow> nat set" where
  "slice_arrays s = (case s of SNil \<Rightarrow> {} | Slice a _ \<Rightarrow> {a})"

text \<open>A new array with these elements (a composite literal, or a decoded JSON array).\<close>

definition make_slice :: "'a sheap \<Rightarrow> 'a list \<Rightarrow> 'a sheap \<times> slice" where
  "make_slice h xs =
    (h\<lparr>cells := (cells h)(fresh h := xs), fresh := Suc (fresh h)\<rparr>, Slice (fresh h) (length xs))"

text \<open>\<open>append(s, xs...)\<close>; \<open>z\<close> is the zero value that fills the spare cells of a new array.\<close>

definition append_slice :: "(nat \<Rightarrow> nat) \<Rightarrow> 'a \<Rightarrow> 'a sheap \<Rightarrow> slice \<Rightarrow> 'a list \<Rightarrow> 'a sheap \<times> slice" where
  "append_slice spare z h s xs =
    (if xs = [] then (h, s)
     else
      let n = slice_len s; m = n + length xs; old = slice_list h s
      in case s of
           Slice a _ \<Rightarrow>
             if m \<le> length (cells h a)
             then (h\<lparr>cells := (cells h)(a := old @ xs @ drop m (cells h a))\<rparr>, Slice a m)
             else (h\<lparr>cells := (cells h)(fresh h := old @ xs @ replicate (spare m) z),
                     fresh := Suc (fresh h)\<rparr>, Slice (fresh h) m)
         | SNil \<Rightarrow>
             (h\<lparr>cells := (cells h)(fresh h := xs @ replicate (spare m) z), fresh := Suc (fresh h)\<rparr>,
              Slice (fresh h) m))"

text \<open>\<open>s[:i]\<close> for \<open>i \<le> len(s)\<close>.\<close>

definition reslice :: "slice \<Rightarrow> nat \<Rightarrow> slice" where
  "reslice s i = (case s of SNil \<Rightarrow> SNil | Slice a _ \<Rightarrow> Slice a i)"

text \<open>\<open>append(s[:i], s[i+1:]...)\<close>.\<close>

definition delete_at :: "(nat \<Rightarrow> nat) \<Rightarrow> 'a \<Rightarrow> 'a sheap \<Rightarrow> slice \<Rightarrow> nat \<Rightarrow> 'a sheap \<times> slice" where
  "delete_at spare z h s i = append_slice spare z h (reslice s i) (drop (Suc i) (slice_list h s))"

lemma slice_list_simps [simp]:
  "slice_list h SNil = []" "slice_list h (Slice a n) = take n (cells h a)"
  by (simp_all add: slice_list_def)

lemma slice_len_simps [simp]: "slice_len SNil = 0" "slice_len (Slice a n) = n"
  by (simp_all add: slice_len_def)

lemma wf_slice_simps [simp]:
  "wf_slice h SNil" "wf_slice h (Slice a n) \<longleftrightarrow> a < fresh h \<and> n \<le> length (cells h a)"
  by (simp_all add: wf_slice_def)

lemma slice_arrays_simps [simp]: "slice_arrays SNil = {}" "slice_arrays (Slice a n) = {a}"
  by (simp_all add: slice_arrays_def)

lemma slice_opt_simps [simp]:
  "slice_opt h SNil = None" "slice_opt h (Slice a n) = Some (take n (cells h a))"
  by (simp_all add: slice_opt_def)

lemma reslice_simps [simp]: "reslice SNil i = SNil" "reslice (Slice a n) i = Slice a i"
  by (simp_all add: reslice_def)

lemma slice_len_list: "wf_slice h s \<Longrightarrow> length (slice_list h s) = slice_len s"
  by (cases s) simp_all

lemma wf_slice_arrays: "wf_slice h s \<Longrightarrow> a \<in> slice_arrays s \<Longrightarrow> a < fresh h"
  by (cases s) simp_all

lemma make_slice_list: "make_slice h xs = (h', s) \<Longrightarrow> slice_list h' s = xs"
  by (auto simp: make_slice_def)

lemma append_slice_list:
  "wf_slice h s \<Longrightarrow> append_slice spare z h s xs = (h', s') \<Longrightarrow> slice_list h' s' = slice_list h s @ xs"
  by (cases s) (auto simp: append_slice_def Let_def split: if_splits)

lemma append_slice_wf:
  "wf_slice h s \<Longrightarrow> append_slice spare z h s xs = (h', s') \<Longrightarrow> wf_slice h' s'"
  by (cases s) (auto simp: append_slice_def Let_def split: if_splits)

lemma append_slice_fresh: "append_slice spare z h s xs = (h', s') \<Longrightarrow> fresh h \<le> fresh h'"
  by (cases s) (auto simp: append_slice_def Let_def split: if_splits)

lemma append_slice_arrays:
  "append_slice spare z h s xs = (h', s') \<Longrightarrow> slice_arrays s' \<subseteq> slice_arrays s \<union> {fresh h..<fresh h'}"
  by (cases s) (auto simp: append_slice_def Let_def split: if_splits)

lemma append_slice_cells:
  "append_slice spare z h s xs = (h', s') \<Longrightarrow> b < fresh h \<Longrightarrow> b \<notin> slice_arrays s \<Longrightarrow> cells h' b = cells h b"
  by (cases s) (auto simp: append_slice_def Let_def split: if_splits)

text \<open>Appending never changes what the old slice shows.\<close>

lemma append_slice_old:
  "wf_slice h s \<Longrightarrow> append_slice spare z h s xs = (h', s') \<Longrightarrow> slice_list h' s = slice_list h s"
  by (cases s) (auto simp: append_slice_def Let_def split: if_splits)

lemma reslice_list: "i \<le> slice_len s \<Longrightarrow> slice_list h (reslice s i) = take i (slice_list h s)"
  by (cases s) (simp_all add: min_def)

lemma reslice_wf: "wf_slice h s \<Longrightarrow> i \<le> slice_len s \<Longrightarrow> wf_slice h (reslice s i)"
  by (cases s) simp_all

lemma delete_at_list:
  assumes "wf_slice h s" "i < slice_len s" "delete_at spare z h s i = (h', s')"
  shows "slice_list h' s' = take i (slice_list h s) @ drop (Suc i) (slice_list h s)"
  using append_slice_list[OF reslice_wf[OF assms(1)], of i spare z "drop (Suc i) (slice_list h s)" h' s'] assms
  by (simp add: delete_at_def reslice_list)

lemma delete_at_wf:
  assumes "wf_slice h s" "i < slice_len s" "delete_at spare z h s i = (h', s')"
  shows "wf_slice h' s'"
  using append_slice_wf[OF reslice_wf[OF assms(1)], of i spare z "drop (Suc i) (slice_list h s)" h' s'] assms
  by (simp add: delete_at_def)

text \<open>Deleting works in place: the array stays, nothing is allocated, and a slice that still has
  the old length shows the shifted elements with the last one repeated.\<close>

lemma delete_at_in_place:
  assumes "wf_slice h s" "i < slice_len s" "delete_at spare z h s i = (h', s')"
  shows "s' = reslice s (slice_len s - 1)" "fresh h' = fresh h"
    "slice_list h' s = take i (slice_list h s) @ drop (Suc i) (slice_list h s) @ [last (slice_list h s)]"
proof -
  obtain a n where s: "s = Slice a n" using assms(2) by (cases s) auto
  have n: "i < n" "n \<le> length (cells h a)" "a < fresh h" using assms(1,2) s by auto
  define ys where "ys = take n (cells h a)"
  have ys: "length ys = n" "ys \<noteq> []" "slice_list h s = ys" using n s by (auto simp: ys_def)
  have lst: "drop (n - 1) ys = [last ys]" using drop_last[OF ys(2)] ys(1) by simp
  show "s' = reslice s (slice_len s - 1)" "fresh h' = fresh h"
    using assms(3) s n by (auto simp: delete_at_def append_slice_def Let_def split: if_splits)
  show "slice_list h' s = take i (slice_list h s) @ drop (Suc i) (slice_list h s) @ [last (slice_list h s)]"
  proof (cases "Suc i = n")
    case True
    then have "h' = h" using assms(3) s n by (auto simp: delete_at_def append_slice_def)
    moreover have "ys = take i ys @ [last ys]" using lst True by (metis append_take_drop_id diff_Suc_1)
    ultimately show ?thesis using True ys by simp
  next
    case False
    then have "drop (Suc i) ys \<noteq> []" using n ys(1) by simp
    then have "cells h' a = take i (cells h a) @ drop (Suc i) ys @ drop (n - 1) (cells h a)"
      using assms(3) s n by (auto simp: delete_at_def append_slice_def Let_def min_def ys_def split: if_splits)
    then have "slice_list h' s = take i ys @ drop (Suc i) ys @ take 1 (drop (n - 1) (cells h a))"
      using s n ys(1) by (simp add: min_def ys_def)
    moreover have "take 1 (drop (n - 1) (cells h a)) = drop (n - 1) ys"
      using n by (simp add: ys_def drop_take)
    ultimately show ?thesis using lst ys by simp
  qed
qed

lemma delete_at_cells:
  "delete_at spare z h s i = (h', s') \<Longrightarrow> b < fresh h \<Longrightarrow> b \<notin> slice_arrays s \<Longrightarrow> cells h' b = cells h b"
  unfolding delete_at_def by (erule append_slice_cells) (cases s; simp)+

end
