(* ===== verification/Comet_State.thy ===== *)
theory Comet_State
  imports Comet_Message Go_Slices Safemap
begin

text \<open>
  The data of the comet server (\<open>comet/app_manager.go\<close>, \<open>comet/server.go\<close>, \<open>comet/job.go\<close>) and its
  state. \<open>AMInstance.regappMap\<close>, \<open>Client.RegApps\<close> and \<open>DevicesMap\<close> hold pointers, so registrations and
  clients live in heaps and the maps hold addresses; \<open>Topics\<close> and \<open>SendIds\<close> are slices of a heap of
  string arrays, which a copy of the struct shares. \<open>'w env\<close> is what the process runs in: the storage
  and the authentication service behind their interfaces (a nil interface, and a call that panics, are
  \<open>None\<close>), the clock, SHA-1, the growth of a slice's array, the order of a range over a map, and the
  outcome of a write to a socket. \<open>'w\<close> is the state of the world outside the process.

  A handler, a job and a push are each one step on the state. A channel of jobs is a queue without
  its bound of 1000: a sender that finds it full waits, which delays the step and does not change
  what is sent. Locks are not in the state, and log output is left out.
\<close>

subsection \<open>Data\<close>

record AppInfo =
  ai_AppId :: string
  ai_RegTime :: int
  ai_UserId :: string
  ai_LastMsgId :: int
  ai_Topics :: slice
  ai_SendIds :: slice

text \<open>\<open>RegApp\<close> embeds \<open>AppInfo\<close>.\<close>

record RegApp =
  ap_DevId :: string
  ap_RegId :: string
  ap_AppInfo :: AppInfo

text \<open>A connection, a worker and a reply channel are numbers. \<open>jobChannel\<close> points at the channel of
  the worker that the client was given.\<close>

record Client =
  cl_devId :: string
  cl_conn :: nat
  cl_closed :: bool
  cl_nextSeq :: "32 word"
  cl_lastActive :: int
  cl_RegApps :: "string \<Rightarrow> nat option"
  cl_jobChannel :: nat
  cl_replyChannels :: "32 word \<Rightarrow> nat option"

text \<open>\<open>Job\<close>: \<open>SendJob\<close> has the client, the header, the body (\<open>None\<close> is nil), the sequence number and
  the reply channel; \<open>UpdateJob\<close> the device id, the registration id and a copy of the \<open>AppInfo\<close>.\<close>

datatype Job =
    SendJob nat Header "string option" "32 word" "nat option"
  | UpdateJob string string AppInfo

record 'w comet =
  world :: 'w
  slices :: "string sheap"
  app_heap :: "nat \<Rightarrow> RegApp"
  app_fresh :: nat
  regappMap :: "string \<Rightarrow> nat option"
  client_heap :: "nat \<Rightarrow> Client"
  client_fresh :: nat
  DevicesMap :: "(string, nat) SafeMap"
  worker_jobs :: "nat \<Rightarrow> Job list"
  wire :: "nat \<Rightarrow> string"
  closed_conns :: "nat set"
  delivered :: "(nat \<times> Message) list"

record 'w env =
  store :: "'w storage"
  auth_Instance :: "('w \<Rightarrow> string \<Rightarrow> ('w \<times> bool \<times> string) option) option"
  now :: "'w \<Rightarrow> int"
  sha1 :: "string \<Rightarrow> string"
  spare :: "nat \<Rightarrow> nat"
  map_iter :: "'w \<Rightarrow> string set \<Rightarrow> string list"
  conn_write :: "'w \<Rightarrow> nat \<Rightarrow> string \<Rightarrow> 'w \<times> nat option"

text \<open>\<open>range\<close> over a map with string keys.\<close>

definition iter :: "'w env \<Rightarrow> 'w \<Rightarrow> (string \<Rightarrow> 'v option) \<Rightarrow> string list" where
  "iter e w m = map_iter e w (dom m)"

definition iter_ok :: "'w env \<Rightarrow> bool" where
  "iter_ok e \<longleftrightarrow> (\<forall>w S. finite S \<longrightarrow> distinct (map_iter e w S) \<and> set (map_iter e w S) = S)"

lemma iter_map_order: "iter_ok e \<Longrightarrow> finite (dom m) \<Longrightarrow> map_order m (iter e w m)"
  by (simp add: iter_ok_def iter_def map_order_def)

text \<open>A call of a storage method, and one whose result is dropped.\<close>

definition call :: "('w \<Rightarrow> 'w \<times> 'r) \<Rightarrow> 'w comet \<Rightarrow> 'w comet \<times> 'r" where
  "call f s = (let (w', r) = f (world s) in (s\<lparr>world := w'\<rparr>, r))"

definition do_call :: "('w \<Rightarrow> 'w \<times> 'r) \<Rightarrow> 'w comet \<Rightarrow> 'w comet" where
  "do_call f s = fst (call f s)"

subsection \<open>JSON form of \<open>AppInfo\<close>\<close>

text \<open>What \<open>encoding/json\<close> sees of an \<open>AppInfo\<close>: its slices are nil or lists.\<close>

record StoredInfo =
  si_AppId :: string
  si_RegTime :: int
  si_UserId :: string
  si_LastMsgId :: int
  si_Topics :: "string list option"
  si_SendIds :: "string list option"

definition zero_StoredInfo :: StoredInfo where
  "zero_StoredInfo = \<lparr>si_AppId = [], si_RegTime = 0, si_UserId = [], si_LastMsgId = 0,
     si_Topics = None, si_SendIds = None\<rparr>"

definition enc_StoredInfo :: "StoredInfo \<Rightarrow> json" where
  "enc_StoredInfo a = JObj
    (member ''app_id'' (JStr (si_AppId a)) @
     member ''regtime'' (jint (si_RegTime a)) @
     omitempty (si_UserId a = []) ''uid'' (JStr (si_UserId a)) @
     member ''last_msgid'' (jint (si_LastMsgId a)) @
     member ''topics'' (jstrings (si_Topics a)) @
     omitempty (elems (si_SendIds a) = []) ''sendids'' (jstrings (si_SendIds a)))"

definition dec_StoredInfo :: "StoredInfo decoder" where
  "dec_StoredInfo = dec_struct
    [field ''app_id'' si_AppId si_AppId_update dec_string,
     field ''regtime'' si_RegTime si_RegTime_update dec_int64,
     field ''uid'' si_UserId si_UserId_update dec_string,
     field ''last_msgid'' si_LastMsgId si_LastMsgId_update dec_int64,
     field ''topics'' si_Topics si_Topics_update strings_dec,
     field ''sendids'' si_SendIds si_SendIds_update strings_dec]"

definition info_view :: "string sheap \<Rightarrow> AppInfo \<Rightarrow> StoredInfo" where
  "info_view h i = \<lparr>si_AppId = ai_AppId i, si_RegTime = ai_RegTime i, si_UserId = ai_UserId i,
     si_LastMsgId = ai_LastMsgId i, si_Topics = slice_opt h (ai_Topics i), si_SendIds = slice_opt h (ai_SendIds i)\<rparr>"

text \<open>The arrays that decoding allocates.\<close>

definition alloc_strings :: "(nat \<Rightarrow> nat) \<Rightarrow> string sheap \<Rightarrow> string list option \<Rightarrow> string sheap \<times> slice" where
  "alloc_strings sp h s =
    (case s of
       None \<Rightarrow> (h, SNil)
     | Some xs \<Rightarrow> (h\<lparr>cells := (cells h)(fresh h := xs @ replicate (sp (length xs)) []), fresh := Suc (fresh h)\<rparr>,
                  Slice (fresh h) (length xs)))"

definition info_alloc :: "(nat \<Rightarrow> nat) \<Rightarrow> string sheap \<Rightarrow> StoredInfo \<Rightarrow> string sheap \<times> AppInfo" where
  "info_alloc sp h a =
    (let (h1, t) = alloc_strings sp h (si_Topics a); (h2, u) = alloc_strings sp h1 (si_SendIds a)
     in (h2, \<lparr>ai_AppId = si_AppId a, ai_RegTime = si_RegTime a, ai_UserId = si_UserId a,
              ai_LastMsgId = si_LastMsgId a, ai_Topics = t, ai_SendIds = u\<rparr>))"

definition AppInfo_text :: "string sheap \<Rightarrow> AppInfo \<Rightarrow> string" where
  "AppInfo_text h i = json_text (enc_StoredInfo (info_view h i))"

text \<open>\<open>json.Unmarshal(val, &info)\<close> into a zero \<open>AppInfo\<close>; \<open>None\<close> is an error.\<close>

definition AppInfo_parse :: "string \<Rightarrow> StoredInfo option" where
  "AppInfo_parse val =
    (case Unmarshal dec_StoredInfo val zero_StoredInfo of (a, True) \<Rightarrow> Some a | (_, False) \<Rightarrow> None)"

lemma alloc_strings_opt: "alloc_strings sp h s = (h', t) \<Longrightarrow> slice_opt h' t = s \<and> wf_slice h' t"
  by (auto simp: alloc_strings_def split: option.splits)

lemma alloc_strings_frame:
  "alloc_strings sp h s = (h', t) \<Longrightarrow> fresh h \<le> fresh h' \<and> slice_arrays t \<subseteq> {fresh h..<fresh h'} \<and>
    (\<forall>a < fresh h. cells h' a = cells h a)"
  by (auto simp: alloc_strings_def split: option.splits)

lemma slice_opt_frame: "wf_slice h t \<Longrightarrow> (\<forall>a < fresh h. cells h' a = cells h a) \<Longrightarrow> slice_opt h' t = slice_opt h t"
  by (cases t) simp_all

lemma wf_slice_frame: "wf_slice h t \<Longrightarrow> fresh h \<le> fresh h' \<Longrightarrow> (\<forall>a < fresh h. cells h' a = cells h a) \<Longrightarrow> wf_slice h' t"
  by (cases t) simp_all

lemma info_alloc_view: "info_alloc sp h a = (h', i) \<Longrightarrow> info_view h' i = a"
proof -
  assume al: "info_alloc sp h a = (h', i)"
  obtain h1 t u where t: "alloc_strings sp h (si_Topics a) = (h1, t)"
    and u: "alloc_strings sp h1 (si_SendIds a) = (h', u)"
    and i: "i = \<lparr>ai_AppId = si_AppId a, ai_RegTime = si_RegTime a, ai_UserId = si_UserId a,
              ai_LastMsgId = si_LastMsgId a, ai_Topics = t, ai_SendIds = u\<rparr>"
    using al by (auto simp: info_alloc_def Let_def split: prod.splits)
  have "slice_opt h' t = si_Topics a"
    using alloc_strings_opt[OF t] alloc_strings_frame[OF u] slice_opt_frame by metis
  then show ?thesis using alloc_strings_opt[OF u] i by (simp add: info_view_def)
qed

lemma wf_enc_StoredInfo [simp]: "wf_json (enc_StoredInfo a)"
  by (simp add: enc_StoredInfo_def)

text \<open>Reading back what \<open>UpdateAppInfo\<close> or \<open>RegisterApp\<close> wrote: an empty list of sender ids comes back
  as nil, because of its \<open>omitempty\<close>.\<close>

definition stored_norm :: "StoredInfo \<Rightarrow> StoredInfo" where
  "stored_norm a = a\<lparr>si_SendIds := (if elems (si_SendIds a) = [] then None else si_SendIds a)\<rparr>"

lemma dec_jstrings [simp]: "strings_dec (jstrings s) x = (s, True)"
  by (cases s) (simp_all add: strings_dec_def jstrings_def dec_slice_def comp_def list_all_iff)

lemma AppInfo_parse_text:
  assumes "int64_range (si_RegTime a)" "int64_range (si_LastMsgId a)"
  shows "AppInfo_parse (json_text (enc_StoredInfo a)) = Some (stored_norm a)"
  unfolding AppInfo_parse_def Unmarshal_text[OF wf_enc_StoredInfo] using assms
  by (cases a) (auto simp: enc_StoredInfo_def dec_StoredInfo_def dec_struct_def member_def omitempty_def
      find_field_def field_def zero_StoredInfo_def stored_norm_def)

end
