(* ===== verification/Storage_Properties.thy ===== *)
theory Storage_Properties
  imports Storage_Spec Redis_Memory Safemap Comet_State
begin

text \<open>
  The properties of the parts below the comet server: the codecs (\<open>utils/convert\<close>, the message header,
  the JSON forms), \<open>SafeMap\<close>, and \<open>RedisStorage\<close> against the contracts of the storage interface.
\<close>

subsection \<open>Storage\<close>

context redis_service
begin

lemma hash_contract: "hash_storage (NewInstance \<lparr>pool = rg, retry = n\<rparr>) hview"
  by (rule hashes.hash_storage_axioms)

lemma found_after_register:
  assumes "RedisStorage_AddComet \<lparr>pool = rg, retry = n\<rparr> w s = (w1, None)"
    and "RedisStorage_AddDevice \<lparr>pool = rg, retry = n\<rparr> w1 s d = (w2, None)"
    and "RedisStorage_CheckDevice \<lparr>pool = rg, retry = m\<rparr> w2 d = (w3, Inr name)"
  shows "name \<in> sview w1 cometNodesKey \<and> hview w2 (''comet:'' @ name) d \<noteq> None"
  using AddComet_contract[OF assms(1)] AddDevice_contract[OF assms(2)] CheckDevice_contract[OF assms(3)] by auto

end

text \<open>C21: Over any Redis that behaves as documented (\<open>redis_service\<close>), \<open>RedisStorage\<close> meets the contract
  that the comet server relies on (\<open>hash_storage\<close>): a hash field reads as it was last written, a failed
  write happened entirely or not at all, and no other field changes.\<close>

theorem RedisStorage_refines_hashes:
  assumes "redis_service rg hv sv cv"
  shows "hash_storage (NewInstance \<lparr>pool = rg, retry = n\<rparr>) hv"
  by (rule redis_service.hash_contract[OF assms])

theorem RedisStorage_refines_hashes_witness:
  "hash_storage (NewInstance \<lparr>pool = mem_redigo, retry = 3\<rparr>) mem_hview"
  by (rule RedisStorage_refines_hashes[OF mem_service])

text \<open>A device that a registered server announced with \<open>AddDevice\<close> is found by \<open>CheckDevice\<close>, whichever
  server asks: the answer names a registered server that has the device.\<close>

theorem CheckDevice_finds_registered:
  assumes "redis_service rg hv sv cv"
    and "RedisStorage_AddComet \<lparr>pool = rg, retry = n\<rparr> w s = (w1, None)"
    and "RedisStorage_AddDevice \<lparr>pool = rg, retry = n\<rparr> w1 s d = (w2, None)"
    and "RedisStorage_CheckDevice \<lparr>pool = rg, retry = m\<rparr> w2 d = (w3, Inr name)"
  shows "name \<in> sv w1 cometNodesKey \<and> hv w2 (''comet:'' @ name) d \<noteq> None"
  by (rule redis_service.found_after_register[OF assms])

lemma ex_announce:
  "RedisStorage_AddComet \<lparr>pool = mem_redigo, retry = 2\<rparr> mem_empty ''s1'' = (mem_empty\<lparr>sets := (\<lambda>_. [])(cometNodesKey := [''s1''])\<rparr>, None)"
  "RedisStorage_AddDevice \<lparr>pool = mem_redigo, retry = 2\<rparr> (mem_empty\<lparr>sets := (\<lambda>_. [])(cometNodesKey := [''s1''])\<rparr>) ''s1'' ''d1'' =
    (mem_empty\<lparr>sets := (\<lambda>_. [])(cometNodesKey := [''s1'']), hashes := (\<lambda>_. [])(''comet:s1'' := [(''d1'', [])])\<rparr>, None)"
  "RedisStorage_CheckDevice \<lparr>pool = mem_redigo, retry = 2\<rparr>
    (mem_empty\<lparr>sets := (\<lambda>_. [])(cometNodesKey := [''s1'']), hashes := (\<lambda>_. [])(''comet:s1'' := [(''d1'', [])])\<rparr>) ''d1'' =
    (mem_empty\<lparr>sets := (\<lambda>_. [])(cometNodesKey := [''s1'']), hashes := (\<lambda>_. [])(''comet:s1'' := [(''d1'', [])])\<rparr>, Inr ''s1'')"
  by (simp_all add: RedisStorage_AddComet_def RedisStorage_AddDevice_def RedisStorage_CheckDevice_def
      RedisStorage_GetServerNames_def do_int_def do_bool_def do_strings_def RedisStorage_Do_def mem_redigo_def mem_do_def
      mem_empty_def mem_cmd_def hash_cmd_def other_cmd_def Let_def cometNodesKey_def numeral_2_eq_2 bulk_of_def
      List.map_filter_simps)

theorem CheckDevice_finds_registered_witness:
  "''s1'' \<in> mem_sview (mem_empty\<lparr>sets := (\<lambda>_. [])(cometNodesKey := [''s1''])\<rparr>) cometNodesKey \<and>
   mem_hview (mem_empty\<lparr>sets := (\<lambda>_. [])(cometNodesKey := [''s1'']), hashes := (\<lambda>_. [])(''comet:s1'' := [(''d1'', [])])\<rparr>)
     (''comet:'' @ ''s1'') ''d1'' \<noteq> None"
  by (rule CheckDevice_finds_registered[OF mem_service ex_announce])

text \<open>\<open>RedisStorage.Do\<close> tries at most \<open>retry\<close> times to get a connection without an error, sends its
  command exactly once, on the first such connection, and sends nothing when there is none.\<close>

theorem Do_sends_once:
  "RedisStorage_Do r w cmd args =
    (if \<exists>k < nat (retry r). attempt_ok (pool r) w k
     then conn_do (pool r) (after_attempts (pool r) (Suc (LEAST k. attempt_ok (pool r) w k)) w) cmd args
     else (after_attempts (pool r) (nat (retry r)) w, Inl (GoErr ''failed to find a useful redis conn'')))"
  by (rule Do_attempts)

text \<open>C22: \<open>GetOfflineMsgs\<close> asks for exactly the messages whose field says that they were created after the
  app registered, are newer than the last one received and have not expired, oldest first (for ids that
  a \<open>float64\<close> represents and that name one field each), and returns those that decode.\<close>

theorem GetOfflineMsgs_selects:
  assumes "do_strings r w ''HKEYS'' [AStr (''db_offline_msg_'' @ appId)] = (w1, Inr fs)"
    and "t = unix_time (clock (pool r) w1)"
    and "\<And>f. f \<in> set (kept t regTime msgId fs) \<Longrightarrow> \<bar>kept_id t regTime msgId f\<bar> < 2 ^ 53"
    and "inj_on (kept_id t regTime msgId) (set (kept t regTime msgId fs))"
  shows "RedisStorage_GetOfflineMsgs r w appId regId regTime msgId =
    (if kept t regTime msgId fs = [] then (w1, [])
     else case do_strings r w1 ''HMGET'' (AStr (''db_offline_msg_'' @ appId) #
            map AStr (sort_key (kept_id t regTime msgId) (kept t regTime msgId fs))) of
          (w2, Inl _) \<Rightarrow> (w2, [])
        | (w2, Inr ms) \<Rightarrow> (w2, decode_messages ms))"
  by (rule GetOfflineMsgs_asks[OF assms])

definition ex_offline :: mem where
  "ex_offline = mem_empty\<lparr>hashes := (\<lambda>_. [])(''db_offline_msg_a'' := [(''9_20_90'', []), (''4_15_90'', []), (''3_15_90'', [])])\<rparr>"

lemma ex_kept: "kept 0 10 3 [''9_20_90'', ''4_15_90'', ''3_15_90''] = [''9_20_90'', ''4_15_90'']"
  "kept_id 0 10 3 ''9_20_90'' = 9" "kept_id 0 10 3 ''4_15_90'' = 4"
  by code_simp+

lemma ex_offline_keys:
  "do_strings \<lparr>pool = mem_redigo, retry = 1\<rparr> ex_offline ''HKEYS'' [AStr (''db_offline_msg_'' @ ''a'')] =
    (ex_offline, Inr [''9_20_90'', ''4_15_90'', ''3_15_90''])"
  by (simp add: do_strings_def RedisStorage_Do_def mem_redigo_def mem_do_def ex_offline_def mem_empty_def mem_cmd_def
      hash_cmd_def Let_def mem_keys_def bulk_of_def List.map_filter_simps)

theorem GetOfflineMsgs_selects_witness:
  "RedisStorage_GetOfflineMsgs \<lparr>pool = mem_redigo, retry = 1\<rparr> ex_offline ''a'' ''r'' 10 3 =
    (case do_strings \<lparr>pool = mem_redigo, retry = 1\<rparr> ex_offline ''HMGET''
            [AStr ''db_offline_msg_a'', AStr ''4_15_90'', AStr ''9_20_90''] of
       (w2, Inl _) \<Rightarrow> (w2, [])
     | (w2, Inr ms) \<Rightarrow> (w2, decode_messages ms))"
proof -
  have t: "0 = unix_time (clock (pool \<lparr>pool = mem_redigo, retry = 1\<rparr>) ex_offline)"
    by (simp add: mem_redigo_def unix_time_def ex_offline_def mem_empty_def)
  have "sort_key (kept_id 0 10 3) [''9_20_90'', ''4_15_90''] = [''4_15_90'', ''9_20_90'']" by (simp add: ex_kept)
  moreover have "\<And>f. f \<in> set (kept 0 10 3 [''9_20_90'', ''4_15_90'', ''3_15_90'']) \<Longrightarrow> \<bar>kept_id 0 10 3 f\<bar> < 2 ^ 53"
    unfolding ex_kept(1) by (auto simp: ex_kept(2,3))
  moreover have "inj_on (kept_id 0 10 3) (set (kept 0 10 3 [''9_20_90'', ''4_15_90'', ''3_15_90'']))"
    unfolding ex_kept(1) by (simp add: ex_kept(2,3))
  ultimately show ?thesis using GetOfflineMsgs_selects[OF ex_offline_keys t, of 10 3 "''r''"] by (simp add: ex_kept(1) del: kept_simps)
qed

text \<open>C23: A field of \<open>db_offline_msg_<appid>\<close> written as \<open><id>_<created>_<expires>\<close> is kept for a registration
  exactly when the message was created after it registered, is newer than its last message, and has not
  expired.\<close>

theorem offline_field_decides:
  assumes "0 \<le> i" "i < 2 ^ 63" "0 \<le> c" "c < 2 ^ 63" "0 \<le> x" "x < 2 ^ 63"
  shows "offline_field t regTime msgId (format_field3 i c x) =
    (if regTime < c \<and> msgId < i \<and> t < x then Some i else None)"
  by (rule offline_field_format) (use assms in simp_all)

theorem offline_field_decides_witness:
  "offline_field 50 10 3 (format_field3 4 15 90) = Some 4 \<and> offline_field 50 10 4 (format_field3 4 15 90) = None"
  using offline_field_decides[of 4 15 90 50 10 3] offline_field_decides[of 4 15 90 50 10 4] by simp

subsection \<open>Codecs\<close>

text \<open>A message header is ten bytes; \<open>Deserialize\<close> reads back what \<open>Serialize\<close> wrote from the front of
  any buffer, and the only ten bytes that it reads as a header are those that \<open>Serialize\<close> writes for it.\<close>

theorem header_codec:
  "length (Serialize h) = HEADER_SIZE \<and> Deserialize (Serialize h @ rest) = Some h \<and>
   (length b = HEADER_SIZE \<longrightarrow> (Deserialize b = Some h \<longleftrightarrow> b = Serialize h))"
  using Serialize_Deserialize[of b h] Deserialize_Serialize[of h "[]"] by auto

theorem header_codec_witness:
  "Deserialize (Serialize \<lparr>hd_Type = 2, hd_Ver = 1, hd_Seq = 515, hd_Len = 4294967295\<rparr>) =
     Some \<lparr>hd_Type = 2, hd_Ver = 1, hd_Seq = 515, hd_Len = 4294967295\<rparr>"
  using header_codec[of "\<lparr>hd_Type = 2, hd_Ver = 1, hd_Seq = 515, hd_Len = 4294967295\<rparr>" "[]"
      "Serialize \<lparr>hd_Type = 2, hd_Ver = 1, hd_Seq = 515, hd_Len = 4294967295\<rparr>"] by simp

text \<open>The big-endian conversions of \<open>utils/convert\<close> are inverse to each other, at 32 and 16 bits, signed
  and unsigned, and the signed and unsigned forms of the same bits are the same bytes.\<close>

theorem convert_round_trips:
  fixes v :: "32 word" and u :: "16 word"
  shows "BytesToUint32 (Uint32ToBytes v) = Some v \<and> BytesToInt32 (Int32ToBytes v) = Some v \<and>
    BytesToUint16 (Uint16ToBytes u) = Some u \<and> BytesToInt16 (Int16ToBytes u) = Some u \<and>
    Int32ToBytes v = Uint32ToBytes v \<and> Int16ToBytes u = Uint16ToBytes u \<and>
    (\<forall>a b c d. map_option Uint32ToBytes (BytesToUint32 [a, b, c, d]) = Some [a, b, c, d]) \<and>
    (\<forall>a b. map_option Uint16ToBytes (BytesToUint16 [a, b]) = Some [a, b])"
proof -
  have "map_option Uint32ToBytes (BytesToUint32 [a, b, c, d]) = Some [a, b, c, d]" for a b c d
    using bytes_Uint32[of "[a, b, c, d]"] by (simp add: BytesToUint32_def)
  moreover have "map_option Uint16ToBytes (BytesToUint16 [a, b]) = Some [a, b]" for a b
    using bytes_Uint16[of "[a, b]"] by (simp add: BytesToUint16_def)
  ultimately show ?thesis
    using Uint32_round_trip[of v "[]"] Uint16_round_trip[of u "[]"] by (simp add: Int32_as_Uint32 Int16_as_Uint16)
qed

text \<open>An \<open>AppInfo\<close> that the server stored is read back with every field as it was, but for an empty list
  of sender ids, which comes back as nil because of its \<open>omitempty\<close>.\<close>

theorem AppInfo_round_trip:
  assumes "int64_range (ai_RegTime i)" "int64_range (ai_LastMsgId i)"
  shows "AppInfo_parse (AppInfo_text h i) = Some (stored_norm (info_view h i))"
  unfolding AppInfo_text_def by (rule AppInfo_parse_text) (use assms in \<open>simp_all add: info_view_def\<close>)

definition ex_stored_info :: AppInfo where
  "ex_stored_info = \<lparr>ai_AppId = ''a'', ai_RegTime = 7, ai_UserId = [], ai_LastMsgId = -1, ai_Topics = Slice 0 2, ai_SendIds = SNil\<rparr>"

theorem AppInfo_round_trip_witness:
  "AppInfo_parse (AppInfo_text \<lparr>cells = (\<lambda>_. [''x'', ''y'']), fresh = 1\<rparr> ex_stored_info) =
    Some \<lparr>si_AppId = ''a'', si_RegTime = 7, si_UserId = [], si_LastMsgId = -1, si_Topics = Some [''x'', ''y''], si_SendIds = None\<rparr>"
  using AppInfo_round_trip[of ex_stored_info "\<lparr>cells = (\<lambda>_. [''x'', ''y'']), fresh = 1\<rparr>"]
  by (simp add: ex_stored_info_def stored_norm_def info_view_def int64_range_def)

subsection \<open>SafeMap\<close>

text \<open>After any history of \<open>Set\<close> and \<open>Delete\<close> on a new \<open>SafeMap\<close>, \<open>Get\<close> answers as a plain map does that
  had the same updates: the last \<open>Set\<close> of a key wins, also over an earlier value of the key.\<close>

theorem SafeMap_history:
  "Get (fold (\<lambda>(k, x) m. case x of Some v \<Rightarrow> fst (Set m k v) | None \<Rightarrow> Delete m k) us NewSafeMap) =
    fold (\<lambda>(k, x) f. f(k := x)) us Map.empty"
proof -
  define cs where "cs = map (\<lambda>(k, x). case x of Some v \<Rightarrow> PutCall k v | None \<Rightarrow> DropCall k) us"
  have "fold sm.call cs m = fold (\<lambda>(k, x) m. case x of Some v \<Rightarrow> fst (Set m k v) | None \<Rightarrow> Delete m k) us m" for m
    unfolding cs_def by (induction us arbitrary: m) (auto simp: sm.call_def split: option.splits)
  moreover have "fold sm.spec cs f = fold (\<lambda>(k, x) f. f(k := x)) us f" for f
    unfolding cs_def by (induction us arbitrary: f) (auto simp: sm.spec_def split: option.splits)
  ultimately show ?thesis using sm.history_from_new[of cs] by simp
qed

end
