(* ===== verification/App_Manager.thy ===== *)
theory App_Manager
  imports Comet_State
begin

text \<open>
  \<open>comet/app_manager.go\<close>: the registrations in memory (\<open>AMInstance\<close>) and their storage. A returned
  \<open>*RegApp\<close> is an address or \<open>None\<close>, an error-free storage call is written through \<open>call\<close>, and
  \<open>matchTopics\<close> is a pure function. The lemmas say what each operation does to memory and, for a
  storage that behaves as \<open>hash_storage\<close> says, to the hashes: \<open>db_app_<appid>\<close> (registration id to the
  JSON of its \<open>AppInfo\<close>), \<open>db_device_<devid>\<close> and \<open>db_user_<uid>\<close>.
\<close>

definition RegId :: "'w env \<Rightarrow> string \<Rightarrow> string \<Rightarrow> string \<Rightarrow> string" where
  "RegId e devid appId userId = EncodeToString (sha1 e (devid @ ''_'' @ appId @ ''_'' @ userId))"

definition GetCount :: "'w comet \<Rightarrow> nat" where
  "GetCount s = card (dom (regappMap s))"

subsection \<open>Operations\<close>

definition AddApp :: "string \<Rightarrow> string \<Rightarrow> AppInfo \<Rightarrow> 'w comet \<Rightarrow> 'w comet \<times> nat" where
  "AddApp devId regId info s =
    (case regappMap s regId of
       Some a \<Rightarrow> (s, a)
     | None \<Rightarrow>
         (let a = app_fresh s in
          (s\<lparr>app_heap := (app_heap s)(a := \<lparr>ap_DevId = devId, ap_RegId = regId, ap_AppInfo = info\<rparr>),
             app_fresh := Suc a, regappMap := (regappMap s)(regId \<mapsto> a)\<rparr>, a)))"

definition DelApp :: "string \<Rightarrow> 'w comet \<Rightarrow> 'w comet" where
  "DelApp regId s = s\<lparr>regappMap := (regappMap s)(regId := None)\<rparr>"

definition UpdateAppInfo :: "'w env \<Rightarrow> string \<Rightarrow> string \<Rightarrow> AppInfo \<Rightarrow> 'w comet \<Rightarrow> 'w comet \<times> bool" where
  "UpdateAppInfo e devId regId info s =
    (let b = AppInfo_text (slices s) info;
         (s1, r) = call (\<lambda>w. HashSet (store e) w (''db_app_'' @ ai_AppId info) regId b) s
     in (s1, ok_result r))"

definition RegisterApp :: "'w env \<Rightarrow> string \<Rightarrow> string \<Rightarrow> string \<Rightarrow> string \<Rightarrow> 'w comet \<Rightarrow> 'w comet \<times> nat option" where
  "RegisterApp e devId regId appId userId s =
    (case regappMap s regId of
       Some _ \<Rightarrow> (s, None)
     | None \<Rightarrow>
         (let info = \<lparr>ai_AppId = appId, ai_RegTime = now e (world s) div 1000000000, ai_UserId = userId,
                      ai_LastMsgId = -1, ai_Topics = SNil, ai_SendIds = SNil\<rparr>;
              b = AppInfo_text (slices s) info;
              (s1, r) = call (\<lambda>w. HashSet (store e) w (''db_app_'' @ appId) regId b) s
          in case r of
               Inl _ \<Rightarrow> (s1, None)
             | Inr _ \<Rightarrow>
                 (let s2 = do_call (\<lambda>w. HashSet (store e) w (''db_device_'' @ devId) appId regId) s1;
                      s3 = (if userId \<noteq> []
                            then do_call (\<lambda>w. HashSetNotExist (store e) w (''db_user_'' @ userId) regId appId) s2
                            else s2);
                      (s4, a) = AddApp devId regId info s3
                  in (s4, Some a))))"

definition RegisterApp2 :: "'w env \<Rightarrow> string \<Rightarrow> string \<Rightarrow> string \<Rightarrow> string \<Rightarrow> 'w comet \<Rightarrow> 'w comet \<times> nat option" where
  "RegisterApp2 e devId regId appId userId s =
    (case regappMap s regId of
       Some _ \<Rightarrow> (s, None)
     | None \<Rightarrow>
         (let (s1, r) = call (\<lambda>w. HashGet (store e) w (''db_app_'' @ appId) regId) s
          in case r of
               Inl _ \<Rightarrow> (s1, None)
             | Inr None \<Rightarrow> (s1, None)
             | Inr (Some val) \<Rightarrow>
                 (case AppInfo_parse val of
                    None \<Rightarrow> (s1, None)
                  | Some st \<Rightarrow>
                      (let (h, info) = info_alloc (spare e) (slices s1) st;
                           (s2, a) = AddApp devId regId info (s1\<lparr>slices := h\<rparr>)
                       in (s2, Some a)))))"

definition UnregisterApp :: "'w env \<Rightarrow> string \<Rightarrow> string \<Rightarrow> string \<Rightarrow> string \<Rightarrow> 'w comet \<Rightarrow> 'w comet" where
  "UnregisterApp e devId regId appId userId s =
    (if regId = [] then s
     else
      let s1 = do_call (\<lambda>w. HashDel (store e) w (''db_app_'' @ appId) regId) s;
          s2 = do_call (\<lambda>w. HashDel (store e) w (''db_device_'' @ devId) appId) s1;
          s3 = (if userId \<noteq> [] then do_call (\<lambda>w. HashDel (store e) w (''db_user_'' @ userId) regId) s2 else s2)
      in DelApp regId s3)"

abbreviation app_info :: "'w comet \<Rightarrow> nat \<Rightarrow> AppInfo" where
  "app_info s a \<equiv> ap_AppInfo (app_heap s a)"

definition GetApp :: "string \<Rightarrow> string \<Rightarrow> 'w comet \<Rightarrow> nat option" where
  "GetApp appId regId s =
    (case regappMap s regId of
       Some a \<Rightarrow> if ai_AppId (app_info s a) \<noteq> appId then None else Some a
     | None \<Rightarrow> None)"

text \<open>The first registration met on the way over \<open>client.RegApps\<close> that is for this app.\<close>

definition GetAppByDevice :: "'w env \<Rightarrow> string \<Rightarrow> string \<Rightarrow> 'w comet \<Rightarrow> nat option" where
  "GetAppByDevice e appId devId s =
    (case Get (DevicesMap s) devId of
       None \<Rightarrow> None
     | Some c \<Rightarrow>
         (let m = cl_RegApps (client_heap s c) in
          find (\<lambda>a. ai_AppId (app_info s a) = appId) (range_values m (iter e (world s) m))))"

definition GetApps :: "'w env \<Rightarrow> string \<Rightarrow> 'w comet \<Rightarrow> nat list" where
  "GetApps e appId s =
    filter (\<lambda>a. ai_AppId (app_info s a) = appId)
      (range_values (regappMap s) (iter e (world s) (regappMap s)))"

text \<open>The loop over the flat reply of \<open>HGETALL\<close> in steps of two; \<open>None\<close> is the panic on an odd one.\<close>

fun user_apps :: "(string \<Rightarrow> nat option) \<Rightarrow> string \<Rightarrow> string list \<Rightarrow> nat list option" where
  "user_apps m appId [] = Some []"
| "user_apps m appId [regid] = None"
| "user_apps m appId (regid # appid # vals) =
    map_option (\<lambda>as. if appid \<noteq> appId then as
                     else case m regid of Some a \<Rightarrow> a # as | None \<Rightarrow> as)
      (user_apps m appId vals)"

definition GetAppsByUser :: "'w env \<Rightarrow> string \<Rightarrow> string \<Rightarrow> 'w comet \<Rightarrow> ('w comet \<times> nat list) option" where
  "GetAppsByUser e appId userId s =
    (let (s1, r) = call (\<lambda>w. HashGetAll (store e) w (''db_user_'' @ userId)) s
     in case r of
          Inl _ \<Rightarrow> Some (s1, [])
        | Inr vals \<Rightarrow> map_option (\<lambda>as. (s1, as)) (user_apps (regappMap s1) appId vals))"

definition GetDevicesByGroup :: "'w env \<Rightarrow> string \<Rightarrow> int \<Rightarrow> int \<Rightarrow> 'w comet
    \<Rightarrow> ('w comet \<times> (int \<times> string list) result) option" where
  "GetDevicesByGroup e grp start stop s =
    map_option (\<lambda>(w, r). (s\<lparr>world := w\<rparr>, r)) (SetScan (store e) (world s) (''db_group_'' @ grp) start stop)"

fun except_loop :: "string list \<Rightarrow> bool \<Rightarrow> string list \<Rightarrow> bool" where
  "except_loop subs first [] = True"
| "except_loop subs first (t # ts) =
    (if (first \<and> t \<notin> set subs) \<or> (\<not> first \<and> t \<in> set subs) then False
     else except_loop subs False ts)"

definition matchTopics :: "string list \<Rightarrow> string list \<Rightarrow> string \<Rightarrow> bool" where
  "matchTopics subscriptions topics topicOp =
    (if topicOp = ''and'' then list_all (\<lambda>topic. list_ex (\<lambda>sub. sub = topic) subscriptions) topics
     else if topicOp = ''except'' then except_loop subscriptions True topics
     else list_ex (\<lambda>sub. list_ex (\<lambda>topic. sub = topic) topics) subscriptions)"

definition GetAppsByTopic :: "'w env \<Rightarrow> string \<Rightarrow> string list \<Rightarrow> string \<Rightarrow> 'w comet \<Rightarrow> nat list" where
  "GetAppsByTopic e appId topics topicOp s =
    filter (\<lambda>a. ai_AppId (app_info s a) = appId \<and>
                matchTopics (slice_list (slices s) (ai_Topics (app_info s a))) topics topicOp)
      (range_values (regappMap s) (iter e (world s) (regappMap s)))"

text \<open>The loop of \<open>LoadAppInfosByDevice\<close> over the pairs of app id and registration id.\<close>

fun load_infos :: "'w env \<Rightarrow> string list \<Rightarrow> 'w comet \<Rightarrow> (string \<Rightarrow> AppInfo option)
    \<Rightarrow> ('w comet \<times> (string \<Rightarrow> AppInfo option)) option" where
  "load_infos e [] s infos = Some (s, infos)"
| "load_infos e [appid] s infos = None"
| "load_infos e (appid # regid # vals) s infos =
    (let (s1, r) = call (\<lambda>w. HashGet (store e) w (''db_app_'' @ appid) regid) s
     in case r of
          Inr (Some val) \<Rightarrow>
            (case AppInfo_parse val of
               None \<Rightarrow> load_infos e vals s1 infos
             | Some st \<Rightarrow>
                 (let (h, info) = info_alloc (spare e) (slices s1) st
                  in load_infos e vals (s1\<lparr>slices := h\<rparr>) (infos(regid \<mapsto> info))))
        | _ \<Rightarrow> load_infos e vals s1 infos)"

definition LoadAppInfosByDevice :: "'w env \<Rightarrow> string \<Rightarrow> 'w comet
    \<Rightarrow> ('w comet \<times> (string \<Rightarrow> AppInfo option)) option" where
  "LoadAppInfosByDevice e devId s =
    (let (s1, r) = call (\<lambda>w. HashGetAll (store e) w (''db_device_'' @ devId)) s
     in case r of
          Inl _ \<Rightarrow> Some (s1, Map.empty)
        | Inr vals \<Rightarrow> load_infos e vals s1 Map.empty)"

subsection \<open>Topics\<close>

text \<open>Which registrations a topic push selects.\<close>

lemma except_loop_rest: "except_loop subs False ts \<longleftrightarrow> set ts \<inter> set subs = {}"
  by (induction ts) auto

lemma matchTopics_and: "matchTopics subs topics ''and'' \<longleftrightarrow> set topics \<subseteq> set subs"
  by (auto simp: matchTopics_def list_all_iff list_ex_iff)

lemma matchTopics_except: "matchTopics subs topics ''except'' \<longleftrightarrow>
  (case topics of [] \<Rightarrow> True | t # ts \<Rightarrow> t \<in> set subs \<and> set ts \<inter> set subs = {})"
  by (auto simp: matchTopics_def except_loop_rest split: list.splits)

lemma matchTopics_or: "op \<noteq> ''and'' \<Longrightarrow> op \<noteq> ''except'' \<Longrightarrow>
  matchTopics subs topics op \<longleftrightarrow> set subs \<inter> set topics \<noteq> {}"
  by (auto simp: matchTopics_def list_ex_iff)

subsection \<open>Frames\<close>

lemma call_simps [simp]:
  "call f s = (s\<lparr>world := fst (f (world s))\<rparr>, snd (f (world s)))"
  "do_call f s = s\<lparr>world := fst (f (world s))\<rparr>"
  by (simp_all add: call_def do_call_def split: prod.splits)

lemma AddApp_new: "regappMap s regId = None \<Longrightarrow> AddApp devId regId info s =
  (s\<lparr>app_heap := (app_heap s)(app_fresh s := \<lparr>ap_DevId = devId, ap_RegId = regId, ap_AppInfo = info\<rparr>),
     app_fresh := Suc (app_fresh s), regappMap := (regappMap s)(regId \<mapsto> app_fresh s)\<rparr>, app_fresh s)"
  by (simp add: AddApp_def Let_def)

lemma AddApp_old: "regappMap s regId = Some a \<Longrightarrow> AddApp devId regId info s = (s, a)"
  by (simp add: AddApp_def)

text \<open>What \<open>RegisterApp\<close> leaves in memory: nothing changes, or one new registration.\<close>

lemma RegisterApp_cases:
  assumes "RegisterApp e devId regId appId userId s = (s', r)"
  obtains (failed) w' where "r = None" "s' = s\<lparr>world := w'\<rparr>"
  | (ok) w' info where "r = Some (app_fresh s)" "regappMap s regId = None"
      "info = \<lparr>ai_AppId = appId, ai_RegTime = now e (world s) div 1000000000, ai_UserId = userId,
               ai_LastMsgId = -1, ai_Topics = SNil, ai_SendIds = SNil\<rparr>"
      "s' = s\<lparr>world := w', app_heap := (app_heap s)(app_fresh s := \<lparr>ap_DevId = devId, ap_RegId = regId, ap_AppInfo = info\<rparr>),
               app_fresh := Suc (app_fresh s), regappMap := (regappMap s)(regId \<mapsto> app_fresh s)\<rparr>"
proof (cases "regappMap s regId")
  case (Some a)
  then show ?thesis using assms failed[of "world s"] by (simp add: RegisterApp_def)
next
  case None
  then show ?thesis using assms failed ok
    by (auto simp: RegisterApp_def Let_def AddApp_new split: prod.splits sum.splits if_splits)
qed

lemma RegisterApp2_cases:
  assumes "RegisterApp2 e devId regId appId userId s = (s', r)"
  obtains (failed) w' where "r = None" "s' = s\<lparr>world := w'\<rparr>"
  | (ok) w' h st info where "r = Some (app_fresh s)" "regappMap s regId = None"
      "info_alloc (spare e) (slices s) st = (h, info)"
      "s' = s\<lparr>world := w', slices := h, app_heap := (app_heap s)(app_fresh s := \<lparr>ap_DevId = devId, ap_RegId = regId, ap_AppInfo = info\<rparr>),
               app_fresh := Suc (app_fresh s), regappMap := (regappMap s)(regId \<mapsto> app_fresh s)\<rparr>"
proof (cases "regappMap s regId")
  case (Some a)
  then show ?thesis using assms failed[of "world s"] by (simp add: RegisterApp2_def)
next
  case None
  then show ?thesis using assms failed ok
    by (auto simp: RegisterApp2_def Let_def AddApp_new split: prod.splits sum.splits option.splits)
qed

lemma UnregisterApp_state:
  "regId \<noteq> [] \<Longrightarrow> \<exists>w'. UnregisterApp e devId regId appId userId s =
     s\<lparr>world := w', regappMap := (regappMap s)(regId := None)\<rparr>"
  by (auto simp: UnregisterApp_def DelApp_def Let_def)

lemma UpdateAppInfo_state:
  "UpdateAppInfo e devId regId info s = (s', ok) \<Longrightarrow> \<exists>w'. s' = s\<lparr>world := w'\<rparr>"
  by (auto simp: UpdateAppInfo_def Let_def)

subsection \<open>Registrations in storage\<close>

text \<open>What the hashes say of a registration, for a storage that keeps the contract of \<open>hash_storage\<close>.\<close>

context hash_storage
begin

lemma UpdateAppInfo_cases:
  assumes "store e = st" "UpdateAppInfo e devId regId info s = (s', ok)"
  shows "hview (world s') = hput (hview (world s)) (''db_app_'' @ ai_AppId info) regId (Some (AppInfo_text (slices s) info))
    \<or> (\<not> ok \<and> hview (world s') = hview (world s))"
proof -
  obtain w' r where "HashSet st (world s) (''db_app_'' @ ai_AppId info) regId (AppInfo_text (slices s) info) = (w', r)"
    by fastforce
  from hash_set_cases[OF this] this assms show ?thesis by (auto simp: UpdateAppInfo_def Let_def)
qed

lemma RegisterApp2_reads:
  assumes "store e = st" "RegisterApp2 e devId regId appId userId s = (s', Some a)"
  obtains v si where "hview (world s) (''db_app_'' @ appId) regId = Some v" "AppInfo_parse v = Some si"
    "info_view (slices s') (app_info s' a) = si" "hview (world s') = hview (world s)"
proof -
  obtain w' r where g: "HashGet st (world s) (''db_app_'' @ appId) regId = (w', r)" by fastforce
  have n: "regappMap s regId = None" using assms(2) by (cases "regappMap s regId") (auto simp: RegisterApp2_def)
  obtain v si where r: "r = Inr (Some v)" "AppInfo_parse v = Some si"
    using assms g n by (auto simp: RegisterApp2_def Let_def split: sum.splits option.splits prod.splits)
  obtain h info where al: "info_alloc (spare e) (slices s) si = (h, info)" by fastforce
  have "slices s' = h" "app_info s' a = info" "world s' = w'"
    using assms g n r al by (auto simp: RegisterApp2_def Let_def AddApp_new)
  then show ?thesis using that[of v si] hash_get[OF g] r info_alloc_view[OF al] by simp
qed

text \<open>A first registration is stored: the hash of its app holds the new \<open>AppInfo\<close>, the hash of its
  device the registration id (unless that write failed), and no other registration is touched.\<close>

lemma RegisterApp_stored:
  assumes "store e = st" "RegisterApp e devId regId appId userId s = (s', Some a)"
  shows "hview (world s') (''db_app_'' @ appId) regId = Some (AppInfo_text (slices s') (app_info s' a))"
    and "k \<noteq> regId \<Longrightarrow> hview (world s') (''db_app_'' @ app) k = hview (world s) (''db_app_'' @ app) k"
proof -
  define info where "info = \<lparr>ai_AppId = appId, ai_RegTime = now e (world s) div 1000000000, ai_UserId = userId,
    ai_LastMsgId = -1, ai_Topics = SNil, ai_SendIds = SNil\<rparr>"
  obtain w1 r1 where h1: "HashSet st (world s) (''db_app_'' @ appId) regId (AppInfo_text (slices s) info) = (w1, r1)" by fastforce
  obtain w2 r2 where h2: "HashSet st w1 (''db_device_'' @ devId) appId regId = (w2, r2)" by fastforce
  obtain w3 r3 where h3: "HashSetNotExist st w2 (''db_user_'' @ userId) regId appId = (w3, r3)" by fastforce
  have n: "regappMap s regId = None" using assms(2) by (cases "regappMap s regId") (auto simp: RegisterApp_def)
  obtain i where r1: "r1 = Inr i"
    using assms n h1 by (cases r1) (auto simp: RegisterApp_def Let_def info_def)
  have s': "world s' = (if userId = [] then w2 else w3)" "app_info s' a = info" "slices s' = slices s"
    using assms n h1 h2 h3 r1 by (auto simp: RegisterApp_def Let_def info_def AddApp_new split: if_splits)
  have v1: "hview w1 = hput (hview (world s)) (''db_app_'' @ appId) regId (Some (AppInfo_text (slices s) info))"
    using hash_set_ok[OF h1[unfolded r1]] .
  have o2: "hview w2 (''db_app_'' @ app) k' = hview w1 (''db_app_'' @ app) k'" for app k'
    by (rule hash_set_other[OF h2]) simp
  have o3: "hview w3 (''db_app_'' @ app) k' = hview w2 (''db_app_'' @ app) k'" for app k'
    by (rule hash_setnx_other[OF h3]) simp
  show "hview (world s') (''db_app_'' @ appId) regId = Some (AppInfo_text (slices s') (app_info s' a))"
    using s' v1 o2 o3 by simp
  show "k \<noteq> regId \<Longrightarrow> hview (world s') (''db_app_'' @ app) k = hview (world s) (''db_app_'' @ app) k"
    using s' v1 o2 o3 by simp
qed

end

subsection \<open>What a registration selects\<close>

lemma GetApps_set: "map_order (regappMap s) (iter e (world s) (regappMap s)) \<Longrightarrow>
  set (GetApps e appId s) = {a. (\<exists>k. regappMap s k = Some a) \<and> ai_AppId (app_info s a) = appId}"
  by (auto simp: GetApps_def order_simps ran_def)

lemma GetAppsByTopic_set: "map_order (regappMap s) (iter e (world s) (regappMap s)) \<Longrightarrow>
  set (GetAppsByTopic e appId topics op s) =
    {a \<in> set (GetApps e appId s). matchTopics (slice_list (slices s) (ai_Topics (app_info s a))) topics op}"
  by (auto simp: GetAppsByTopic_def GetApps_def)

lemma GetAppByDevice_Some: "GetAppByDevice e appId devId s = Some a \<Longrightarrow>
  \<exists>c k. Get (DevicesMap s) devId = Some c \<and> cl_RegApps (client_heap s c) k = Some a \<and> ai_AppId (app_info s a) = appId"
  by (auto simp: GetAppByDevice_def find_Some_iff set_range_values Let_def in_set_conv_nth[symmetric]
      split: option.splits dest!: nth_mem)

end
