(* ===== verification/Comet_Client.thy ===== *)
theory Comet_Client
  imports App_Manager
begin

text \<open>
  The sending side of the comet server (\<open>comet/server.go\<close>: \<open>Client\<close>, \<open>SendJob\<close>; \<open>comet/job.go\<close>;
  \<open>UpdateJob\<close> of \<open>comet/handlers.go\<close>). \<open>SendMessage\<close> numbers a message and puts a job on the channel of
  the client's worker; the worker writes the frame. \<open>worker_sends\<close> shows that what a connection
  receives is, whatever the writes return, the frames of the client's jobs in order, up to the
  first failed write, after which nothing more is written.
\<close>

definition MAX_WAITING_MSGS :: nat where
  "MAX_WAITING_MSGS = 20"

definition NewClient :: "'w env \<Rightarrow> string \<Rightarrow> nat \<Rightarrow> nat \<Rightarrow> 'w comet \<Rightarrow> 'w comet \<times> nat" where
  "NewClient e devId conn jobChannel s =
    (let c = client_fresh s in
     (s\<lparr>client_heap := (client_heap s)(c :=
          \<lparr>cl_devId = devId, cl_conn = conn, cl_closed = False, cl_nextSeq = 1,
           cl_lastActive = now e (world s), cl_RegApps = Map.empty, cl_jobChannel = jobChannel,
           cl_replyChannels = Map.empty\<rparr>),
        client_fresh := Suc c\<rparr>, c))"

definition upd_client :: "nat \<Rightarrow> (Client \<Rightarrow> Client) \<Rightarrow> 'w comet \<Rightarrow> 'w comet" where
  "upd_client c f s = s\<lparr>client_heap := (client_heap s)(c := f (client_heap s c))\<rparr>"

subsection \<open>Enqueueing\<close>

definition NextSeq :: "nat \<Rightarrow> 'w comet \<Rightarrow> 'w comet \<times> 32 word" where
  "NextSeq c s =
    (let seq = cl_nextSeq (client_heap s c) + 1 in (upd_client c (cl_nextSeq_update (\<lambda>_. seq)) s, seq))"

text \<open>\<open>*(client.jobChannel) <- job\<close>.\<close>

definition put_job :: "nat \<Rightarrow> Job \<Rightarrow> 'w comet \<Rightarrow> 'w comet" where
  "put_job c j s =
    (let n = cl_jobChannel (client_heap s c) in
     s\<lparr>worker_jobs := (worker_jobs s)(n := worker_jobs s n @ [j])\<rparr>)"

definition SendMessage :: "nat \<Rightarrow> 8 word \<Rightarrow> 32 word \<Rightarrow> string option \<Rightarrow> nat option \<Rightarrow> 'w comet
    \<Rightarrow> 'w comet \<times> 32 word \<times> bool" where
  "SendMessage c msgType seq0 body reply s =
    (if reply \<noteq> None \<and> MAX_WAITING_MSGS \<le> card (dom (cl_replyChannels (client_heap s c))) then (s, 0, False)
     else
      let bodylen = (case body of None \<Rightarrow> 0 | Some b \<Rightarrow> length b);
          (s1, seq) = (if seq0 = 0 then NextSeq c s else (s, seq0));
          header = \<lparr>hd_Type = msgType, hd_Ver = 0, hd_Seq = seq, hd_Len = word_of_nat bodylen\<rparr>
      in (put_job c (SendJob c header body seq reply) s1, seq, True))"

definition SendMessage2 :: "nat \<Rightarrow> Header \<Rightarrow> string option \<Rightarrow> 'w comet \<Rightarrow> 'w comet \<times> 32 word \<times> bool" where
  "SendMessage2 c header body s =
    (let (s1, seq) = NextSeq c s in (put_job c (SendJob c header body seq None) s1, seq, True))"

definition MsgTimeout :: "nat \<Rightarrow> 32 word \<Rightarrow> 'w comet \<Rightarrow> 'w comet" where
  "MsgTimeout c seq s = upd_client c (cl_replyChannels_update (\<lambda>m. m(seq := None))) s"

subsection \<open>Jobs\<close>

text \<open>\<open>conn.Write(b)\<close>: all of \<open>b\<close>, or an error after some of it; a closed connection takes nothing.\<close>

definition conn_Write :: "'w env \<Rightarrow> nat \<Rightarrow> string \<Rightarrow> 'w comet \<Rightarrow> 'w comet \<times> bool" where
  "conn_Write e conn b s =
    (if conn \<in> closed_conns s then (s, False)
     else case conn_write e (world s) conn b of
       (w', None) \<Rightarrow> (s\<lparr>world := w', wire := (wire s)(conn := wire s conn @ b)\<rparr>, True)
     | (w', Some k) \<Rightarrow> (s\<lparr>world := w', wire := (wire s)(conn := wire s conn @ take k b)\<rparr>, False))"

definition SendJob_Do :: "'w env \<Rightarrow> nat \<Rightarrow> Header \<Rightarrow> string option \<Rightarrow> 32 word \<Rightarrow> nat option \<Rightarrow> 'w comet \<Rightarrow> 'w comet" where
  "SendJob_Do e c header0 body seq reply s =
    (if cl_closed (client_heap s c) then s
     else
      let header = header0\<lparr>hd_Seq := seq\<rparr>;
          conn = cl_conn (client_heap s c)
      in case conn_Write e conn (Serialize header) s of
           (s1, False) \<Rightarrow> upd_client c (cl_closed_update (\<lambda>_. True)) s1
         | (s1, True) \<Rightarrow>
             (let (s2, ok) = (case body of None \<Rightarrow> (s1, True) | Some b \<Rightarrow> conn_Write e conn b s1)
              in if \<not> ok then upd_client c (cl_closed_update (\<lambda>_. True)) s2
                 else case reply of
                        None \<Rightarrow> s2
                      | Some ch \<Rightarrow> upd_client c (cl_replyChannels_update (\<lambda>m. m(seq \<mapsto> ch))) s2))"

definition UpdateJob_Do :: "'w env \<Rightarrow> string \<Rightarrow> string \<Rightarrow> AppInfo \<Rightarrow> 'w comet \<Rightarrow> 'w comet" where
  "UpdateJob_Do e devid regid info s =
    (let s1 = fst (UpdateAppInfo e devid regid info s);
         s2 = do_call (\<lambda>w. MsgStatsReceived (store e) w (ai_LastMsgId info)) s1
     in do_call (\<lambda>w. AppStatsReceived (store e) w (ai_AppId info)) s2)"

definition Do :: "'w env \<Rightarrow> Job \<Rightarrow> 'w comet \<Rightarrow> 'w comet" where
  "Do e j s =
    (case j of
       SendJob c header body seq reply \<Rightarrow> SendJob_Do e c header body seq reply s
     | UpdateJob devid regid info \<Rightarrow> UpdateJob_Do e devid regid info s)"

subsection \<open>Workers\<close>

definition NewWorker :: "nat \<Rightarrow> 'w comet \<Rightarrow> 'w comet" where
  "NewWorker n s = s\<lparr>worker_jobs := (worker_jobs s)(n := [])\<rparr>"

text \<open>One turn of the loop of \<open>Run\<close>; an empty channel blocks.\<close>

definition Worker_turn :: "'w env \<Rightarrow> nat \<Rightarrow> 'w comet \<Rightarrow> 'w comet option" where
  "Worker_turn e n s =
    (case worker_jobs s n of
       [] \<Rightarrow> None
     | j # js \<Rightarrow> Some (Do e j (s\<lparr>worker_jobs := (worker_jobs s)(n := js)\<rparr>)))"

text \<open>\<open>Run\<close> until the channel is empty or \<open>Stop\<close> ends it after \<open>k\<close> jobs.\<close>

fun Worker_run :: "'w env \<Rightarrow> nat \<Rightarrow> nat \<Rightarrow> 'w comet \<Rightarrow> 'w comet" where
  "Worker_run e n 0 s = s"
| "Worker_run e n (Suc k) s = (case Worker_turn e n s of None \<Rightarrow> s | Some s' \<Rightarrow> Worker_run e n k s')"

subsection \<open>What the operations change\<close>

lemma upd_client_simps [simp]:
  "client_heap (upd_client c f s) d = (if d = c then f (client_heap s c) else client_heap s d)"
  "world (upd_client c f s) = world s" "slices (upd_client c f s) = slices s"
  "app_heap (upd_client c f s) = app_heap s" "app_fresh (upd_client c f s) = app_fresh s"
  "regappMap (upd_client c f s) = regappMap s" "client_fresh (upd_client c f s) = client_fresh s"
  "DevicesMap (upd_client c f s) = DevicesMap s" "worker_jobs (upd_client c f s) = worker_jobs s"
  "wire (upd_client c f s) = wire s" "closed_conns (upd_client c f s) = closed_conns s"
  "delivered (upd_client c f s) = delivered s"
  by (simp_all add: upd_client_def)

lemma put_job_simps [simp]:
  "client_heap (put_job c j s) = client_heap s"
  "world (put_job c j s) = world s" "slices (put_job c j s) = slices s"
  "app_heap (put_job c j s) = app_heap s" "app_fresh (put_job c j s) = app_fresh s"
  "regappMap (put_job c j s) = regappMap s" "client_fresh (put_job c j s) = client_fresh s"
  "DevicesMap (put_job c j s) = DevicesMap s" "wire (put_job c j s) = wire s"
  "closed_conns (put_job c j s) = closed_conns s" "delivered (put_job c j s) = delivered s"
  "worker_jobs (put_job c j s) = (worker_jobs s)(cl_jobChannel (client_heap s c) :=
     worker_jobs s (cl_jobChannel (client_heap s c)) @ [j])"
  by (simp_all add: put_job_def Let_def)

text \<open>A reply (no reply channel, the request's sequence number): always accepted, one job with the
  right length. \<open>reply_job\<close> is that job.\<close>

definition reply_job :: "nat \<Rightarrow> 8 word \<Rightarrow> 32 word \<Rightarrow> string \<Rightarrow> Job" where
  "reply_job c msgType seq b =
    SendJob c \<lparr>hd_Type = msgType, hd_Ver = 0, hd_Seq = seq, hd_Len = word_of_nat (length b)\<rparr> (Some b) seq None"

lemma SendMessage_no_reply:
  "SendMessage c ty seq (Some b) None s =
    (let (s1, q) = (if seq = 0 then NextSeq c s else (s, seq)) in (put_job c (reply_job c ty q b) s1, q, True))"
  by (simp add: SendMessage_def reply_job_def Let_def split: prod.splits)

text \<open>A message that waits for a reply is refused once 20 are waiting.\<close>

lemma SendMessage_refused:
  "SendMessage c ty seq body (Some ch) s = (s, 0, False)"
  if "20 \<le> card (dom (cl_replyChannels (client_heap s c)))"
  using that by (simp add: SendMessage_def MAX_WAITING_MSGS_def)

lemma conn_Write_cases:
  assumes "conn_Write e conn b s = (s', ok)"
  obtains w' k where "s' = s\<lparr>world := w', wire := (wire s)(conn := wire s conn @ take k b)\<rparr>" "ok \<longrightarrow> take k b = b"
proof (cases "conn \<in> closed_conns s")
  case True
  then have "s' = s\<lparr>world := world s, wire := (wire s)(conn := wire s conn @ take 0 b)\<rparr>" "\<not> ok"
    using assms by (auto simp: conn_Write_def)
  then show ?thesis using that by blast
next
  case False
  obtain w' r where w: "conn_write e (world s) conn b = (w', r)" by fastforce
  show ?thesis
  proof (cases r)
    case None
    then have "s' = s\<lparr>world := w', wire := (wire s)(conn := wire s conn @ take (length b) b)\<rparr>"
      using assms False w by (auto simp: conn_Write_def)
    then show ?thesis using that[of "length b" w'] by simp
  next
    case (Some k)
    then show ?thesis using that[of k w'] assms False w by (auto simp: conn_Write_def)
  qed
qed

text \<open>The bytes of a job for its connection.\<close>

definition frame_bytes :: "Header \<Rightarrow> 32 word \<Rightarrow> string option \<Rightarrow> string" where
  "frame_bytes header seq body =
    Serialize (header\<lparr>hd_Seq := seq\<rparr>) @ (case body of None \<Rightarrow> [] | Some b \<Rightarrow> b)"

lemma SendJob_Do_cases:
  assumes "\<not> cl_closed (client_heap s c)"
  defines "conn \<equiv> cl_conn (client_heap s c)"
  obtains (sent) w' f where
      "SendJob_Do e c h body seq reply s = upd_client c f (s\<lparr>world := w',
         wire := (wire s)(conn := wire s conn @ frame_bytes h seq body)\<rparr>)"
      "f = (case reply of None \<Rightarrow> id | Some ch \<Rightarrow> cl_replyChannels_update (\<lambda>m. m(seq \<mapsto> ch)))"
  | (failed) w' k where
      "SendJob_Do e c h body seq reply s = upd_client c (cl_closed_update (\<lambda>_. True)) (s\<lparr>world := w',
         wire := (wire s)(conn := wire s conn @ take k (frame_bytes h seq body))\<rparr>)"
proof -
  let ?h = "Serialize (h\<lparr>hd_Seq := seq\<rparr>)"
  obtain s1 ok where w1: "conn_Write e conn ?h s = (s1, ok)" by fastforce
  from w1 obtain w k where s1: "s1 = s\<lparr>world := w, wire := (wire s)(conn := wire s conn @ take k ?h)\<rparr>" "ok \<longrightarrow> take k ?h = ?h"
    by (rule conn_Write_cases)
  show ?thesis
  proof (cases ok)
    case False
    have "take k ?h = take (min k (length ?h)) (frame_bytes h seq body)"
      by (simp add: frame_bytes_def min_def)
    then show ?thesis using failed[of "min k (length ?h)" w] False w1 s1(1) assms(1)
      by (simp add: SendJob_Do_def conn_def[symmetric] Let_def)
  next
    case True
    then have s1': "s1 = s\<lparr>world := w, wire := (wire s)(conn := wire s conn @ ?h)\<rparr>" using s1 by simp
    show ?thesis
    proof (cases body)
      case None
      have u: "upd_client c id t = t" for t :: "'a comet" by (simp add: upd_client_def)
      show ?thesis using sent[OF _ refl, of w] None True w1 s1' assms(1)
        by (cases reply) (simp_all add: SendJob_Do_def conn_def[symmetric] Let_def frame_bytes_def u)
    next
      case (Some b)
      obtain s2 ok2 where w2: "conn_Write e conn b s1 = (s2, ok2)" by fastforce
      from w2 obtain w' k' where s2: "s2 = s1\<lparr>world := w', wire := (wire s1)(conn := wire s1 conn @ take k' b)\<rparr>" "ok2 \<longrightarrow> take k' b = b"
        by (rule conn_Write_cases)
      have u: "upd_client c id t = t" for t :: "'a comet" by (simp add: upd_client_def)
      show ?thesis
      proof (cases ok2)
        case True
        then have t: "take k' b = b" using s2 by simp
        show ?thesis using sent[OF _ refl, of w'] Some True \<open>ok\<close> w1 w2 s1' s2(1) assms(1)
          by (cases reply) (simp_all add: SendJob_Do_def conn_def[symmetric] Let_def frame_bytes_def u t)
      next
        case False
        have "?h @ take k' b = take (length ?h + k') (frame_bytes h seq body)"
          by (simp add: frame_bytes_def Some)
        then show ?thesis using failed[of "length ?h + k'" w'] Some False \<open>ok\<close> w1 w2 s1' s2(1) assms(1)
          by (simp add: SendJob_Do_def conn_def[symmetric] Let_def)
      qed
    qed
  qed
qed

lemma SendJob_Do_state:
  "\<exists>w' b f. SendJob_Do e c h body seq reply s =
     upd_client c f (s\<lparr>world := w', wire := (wire s)(cl_conn (client_heap s c) := wire s (cl_conn (client_heap s c)) @ b)\<rparr>)
   \<and> (\<forall>x. cl_conn (f x) = cl_conn x \<and> (cl_closed x \<longrightarrow> cl_closed (f x)) \<and> cl_devId (f x) = cl_devId x
       \<and> cl_RegApps (f x) = cl_RegApps x \<and> cl_jobChannel (f x) = cl_jobChannel x)"
proof (cases "cl_closed (client_heap s c)")
  case True
  then have "SendJob_Do e c h body seq reply s = upd_client c id (s\<lparr>world := world s,
      wire := (wire s)(cl_conn (client_heap s c) := wire s (cl_conn (client_heap s c)) @ [])\<rparr>)"
    by (simp add: SendJob_Do_def upd_client_def)
  then show ?thesis by (metis id_apply)
next
  case False
  then show ?thesis
  proof (cases rule: SendJob_Do_cases[where e = e and h = h and body = body and seq = seq and reply = reply])
    case (sent w' f)
    show ?thesis by (intro exI conjI) (rule sent(1), use sent(2) in \<open>cases reply; simp\<close>)
  next
    case (failed k w')
    show ?thesis by (intro exI conjI) (rule failed, simp)
  qed
qed

lemma UpdateJob_Do_state: "\<exists>w'. UpdateJob_Do e devid regid info s = s\<lparr>world := w'\<rparr>"
proof -
  obtain w1 ok where "UpdateAppInfo e devid regid info s = (s\<lparr>world := w1\<rparr>, ok)"
    using UpdateAppInfo_state by (metis prod.collapse)
  then show ?thesis by (simp add: UpdateJob_Do_def Let_def) blast
qed

lemma Do_frame [frame_simps]:
  "worker_jobs (Do e j s) = worker_jobs s" "slices (Do e j s) = slices s" "app_heap (Do e j s) = app_heap s"
  "app_fresh (Do e j s) = app_fresh s" "regappMap (Do e j s) = regappMap s"
  "client_fresh (Do e j s) = client_fresh s" "DevicesMap (Do e j s) = DevicesMap s"
  "closed_conns (Do e j s) = closed_conns s" "delivered (Do e j s) = delivered s"
  "cl_conn (client_heap (Do e j s) d) = cl_conn (client_heap s d)"
  "cl_devId (client_heap (Do e j s) d) = cl_devId (client_heap s d)"
  "cl_RegApps (client_heap (Do e j s) d) = cl_RegApps (client_heap s d)"
  "cl_jobChannel (client_heap (Do e j s) d) = cl_jobChannel (client_heap s d)"
  "cl_closed (client_heap s d) \<Longrightarrow> cl_closed (client_heap (Do e j s) d)"
proof -
  have "worker_jobs (Do e j s) = worker_jobs s \<and> slices (Do e j s) = slices s \<and> app_heap (Do e j s) = app_heap s \<and>
    app_fresh (Do e j s) = app_fresh s \<and> regappMap (Do e j s) = regappMap s \<and>
    client_fresh (Do e j s) = client_fresh s \<and> DevicesMap (Do e j s) = DevicesMap s \<and>
    closed_conns (Do e j s) = closed_conns s \<and> delivered (Do e j s) = delivered s \<and>
    cl_conn (client_heap (Do e j s) d) = cl_conn (client_heap s d) \<and>
    cl_devId (client_heap (Do e j s) d) = cl_devId (client_heap s d) \<and>
    cl_RegApps (client_heap (Do e j s) d) = cl_RegApps (client_heap s d) \<and>
    cl_jobChannel (client_heap (Do e j s) d) = cl_jobChannel (client_heap s d) \<and>
    (cl_closed (client_heap s d) \<longrightarrow> cl_closed (client_heap (Do e j s) d))"
  proof (cases j)
    case (SendJob c h body seq reply)
    obtain w' b f where "SendJob_Do e c h body seq reply s = upd_client c f (s\<lparr>world := w',
        wire := (wire s)(cl_conn (client_heap s c) := wire s (cl_conn (client_heap s c)) @ b)\<rparr>)"
      "\<forall>x. cl_conn (f x) = cl_conn x \<and> (cl_closed x \<longrightarrow> cl_closed (f x)) \<and> cl_devId (f x) = cl_devId x
         \<and> cl_RegApps (f x) = cl_RegApps x \<and> cl_jobChannel (f x) = cl_jobChannel x"
      using SendJob_Do_state[of e c h body seq reply s] by blast
    then show ?thesis using SendJob by (simp add: Do_def)
  next
    case (UpdateJob devid regid info)
    obtain w' where "UpdateJob_Do e devid regid info s = s\<lparr>world := w'\<rparr>" using UpdateJob_Do_state[of e devid regid info s] by blast
    then show ?thesis using UpdateJob by (simp add: Do_def)
  qed
  then show "worker_jobs (Do e j s) = worker_jobs s" "slices (Do e j s) = slices s" "app_heap (Do e j s) = app_heap s"
    "app_fresh (Do e j s) = app_fresh s" "regappMap (Do e j s) = regappMap s"
    "client_fresh (Do e j s) = client_fresh s" "DevicesMap (Do e j s) = DevicesMap s"
    "closed_conns (Do e j s) = closed_conns s" "delivered (Do e j s) = delivered s"
    "cl_conn (client_heap (Do e j s) d) = cl_conn (client_heap s d)"
    "cl_devId (client_heap (Do e j s) d) = cl_devId (client_heap s d)"
    "cl_RegApps (client_heap (Do e j s) d) = cl_RegApps (client_heap s d)"
    "cl_jobChannel (client_heap (Do e j s) d) = cl_jobChannel (client_heap s d)"
    "cl_closed (client_heap s d) \<Longrightarrow> cl_closed (client_heap (Do e j s) d)" by blast+
qed

subsection \<open>In-order delivery\<close>

definition job_for :: "nat \<Rightarrow> Job \<Rightarrow> bool" where
  "job_for c j = (case j of SendJob c' _ _ _ _ \<Rightarrow> c' = c | UpdateJob _ _ _ \<Rightarrow> False)"

definition job_bytes :: "Job \<Rightarrow> string" where
  "job_bytes j = (case j of SendJob _ h body seq _ \<Rightarrow> frame_bytes h seq body | UpdateJob _ _ _ \<Rightarrow> [])"

text \<open>\<open>sends js bs closed closed' bs'\<close>: writing the jobs \<open>js\<close> of one client took its connection from
  \<open>bs\<close> to \<open>bs'\<close>, in order, complete as long as the client stays open, and cut off at most once.\<close>

definition sends :: "Job list \<Rightarrow> bool \<Rightarrow> bool \<Rightarrow> string \<Rightarrow> string \<Rightarrow> bool" where
  "sends js closed closed' bs bs' \<longleftrightarrow>
    (\<exists>m p. m \<le> length js \<and> bs' = bs @ concat (map job_bytes (take m js)) @ p \<and>
       (\<not> closed' \<longrightarrow> m = length js \<and> p = [] \<and> \<not> closed) \<and>
       (closed \<longrightarrow> m = 0 \<and> p = []) \<and>
       (p \<noteq> [] \<longrightarrow> m < length js \<and> (\<exists>k. p = take k (job_bytes (js ! m)))))"

lemma sends_Nil: "sends [] c c bs bs"
  by (auto simp: sends_def)

lemma sends_closed: "sends js True True bs bs"
  by (auto simp: sends_def)

lemma sends_Cons:
  assumes "sends js False c' (bs @ job_bytes j) bs'"
  shows "sends (j # js) False c' bs bs'"
proof -
  obtain m p where mp: "m \<le> length js" "bs' = (bs @ job_bytes j) @ concat (map job_bytes (take m js)) @ p"
    "\<not> c' \<longrightarrow> m = length js \<and> p = []" "p \<noteq> [] \<longrightarrow> m < length js \<and> (\<exists>k. p = take k (job_bytes (js ! m)))"
    using assms by (auto simp: sends_def)
  show ?thesis unfolding sends_def by (rule exI[of _ "Suc m"], rule exI[of _ p]) (use mp in auto)
qed

lemma sends_cut: "sends (j # js) False True bs (bs @ take k (job_bytes j))"
  unfolding sends_def by (rule exI[of _ 0], rule exI[of _ "take k (job_bytes j)"]) auto

lemma Do_other_wire:
  assumes "\<And>h b q r. j \<noteq> SendJob c h b q r"
    and "\<And>c' h b q r. j = SendJob c' h b q r \<Longrightarrow> cl_conn (client_heap s c') \<noteq> cl_conn (client_heap s c)"
  shows "wire (Do e j s) (cl_conn (client_heap s c)) = wire s (cl_conn (client_heap s c))"
    and "cl_closed (client_heap (Do e j s) c) = cl_closed (client_heap s c)"
proof -
  have "wire (Do e j s) (cl_conn (client_heap s c)) = wire s (cl_conn (client_heap s c)) \<and>
    cl_closed (client_heap (Do e j s) c) = cl_closed (client_heap s c)"
  proof (cases j)
    case (SendJob c' h body seq reply)
    obtain w' b f where "SendJob_Do e c' h body seq reply s = upd_client c' f (s\<lparr>world := w',
        wire := (wire s)(cl_conn (client_heap s c') := wire s (cl_conn (client_heap s c')) @ b)\<rparr>)"
      using SendJob_Do_state[of e c' h body seq reply s] by blast
    moreover have "c' \<noteq> c" "cl_conn (client_heap s c') \<noteq> cl_conn (client_heap s c)" using assms SendJob by auto
    ultimately show ?thesis using SendJob by (simp add: Do_def)
  next
    case (UpdateJob devid regid info)
    obtain w' where "UpdateJob_Do e devid regid info s = s\<lparr>world := w'\<rparr>" using UpdateJob_Do_state[of e devid regid info s] by blast
    then show ?thesis using UpdateJob by (simp add: Do_def)
  qed
  then show "wire (Do e j s) (cl_conn (client_heap s c)) = wire s (cl_conn (client_heap s c))"
    "cl_closed (client_heap (Do e j s) c) = cl_closed (client_heap s c)" by blast+
qed

lemma worker_sends:
  assumes "\<And>c' h b q r. SendJob c' h b q r \<in> set (worker_jobs s n) \<Longrightarrow> c' \<noteq> c \<Longrightarrow>
      cl_conn (client_heap s c') \<noteq> cl_conn (client_heap s c)"
  shows "sends (filter (job_for c) (take k (worker_jobs s n))) (cl_closed (client_heap s c))
    (cl_closed (client_heap (Worker_run e n k s) c))
    (wire s (cl_conn (client_heap s c))) (wire (Worker_run e n k s) (cl_conn (client_heap s c)))"
  using assms
proof (induction k arbitrary: s)
  case (Suc k)
  show ?case
  proof (cases "worker_jobs s n")
    case (Cons j js)
    define s1 where "s1 = s\<lparr>worker_jobs := (worker_jobs s)(n := js)\<rparr>"
    define s2 where "s2 = Do e j s1"
    have s2: "worker_jobs s2 n = js" "\<And>d. cl_conn (client_heap s2 d) = cl_conn (client_heap s d)"
      by (simp_all add: s2_def s1_def frame_simps)
    have run: "Worker_run e n (Suc k) s = Worker_run e n k s2"
      using Cons by (simp add: Worker_turn_def s1_def s2_def)
    have prem: "cl_conn (client_heap s2 c') \<noteq> cl_conn (client_heap s2 c)"
      if "SendJob c' h b q r \<in> set (worker_jobs s2 n)" "c' \<noteq> c" for c' h b q r
      using Suc.prems[of c' h b q r] that s2 Cons by simp
    have ih: "sends (filter (job_for c) (take k js)) (cl_closed (client_heap s2 c))
        (cl_closed (client_heap (Worker_run e n k s2) c))
        (wire s2 (cl_conn (client_heap s c))) (wire (Worker_run e n k s2) (cl_conn (client_heap s c)))"
      using Suc.IH[of s2, OF prem] s2 by simp
    show ?thesis
    proof (cases "job_for c j")
      case False
      have j1: "j \<noteq> SendJob c h b q r" for h b q r using False by (auto simp: job_for_def)
      have j2: "cl_conn (client_heap s1 c') \<noteq> cl_conn (client_heap s1 c)" if "j = SendJob c' h b q r" for c' h b q r
        using Suc.prems[of c' h b q r] that j1[of h b q r] Cons by (auto simp: s1_def)
      have "wire s2 (cl_conn (client_heap s c)) = wire s (cl_conn (client_heap s c))"
        "cl_closed (client_heap s2 c) = cl_closed (client_heap s c)"
        using Do_other_wire[OF j1 j2, where e = e] by (simp_all add: s2_def) (simp_all add: s1_def)
      then show ?thesis using ih run Cons False by simp
    next
      case True
      then obtain h b q r where j: "j = SendJob c h b q r" by (auto simp: job_for_def split: Job.splits)
      show ?thesis
      proof (cases "cl_closed (client_heap s c)")
        case True
        then have "s2 = s1" by (simp add: s2_def s1_def j Do_def SendJob_Do_def)
        then have "wire s2 = wire s" "cl_closed (client_heap s2 c)" using True by (simp_all add: s1_def)
        then show ?thesis using ih run Cons True \<open>job_for c j\<close> by (auto simp: sends_def)
      next
        case False
        then have open1: "\<not> cl_closed (client_heap s1 c)" by (simp add: s1_def)
        then show ?thesis
        proof (cases rule: SendJob_Do_cases[where e = e and h = h and body = b and seq = q and reply = r])
          case (sent w' f)
          then have "\<not> cl_closed (client_heap s2 c)"
            "wire s2 (cl_conn (client_heap s c)) = wire s (cl_conn (client_heap s c)) @ job_bytes j"
            using open1 by (cases r; simp add: s2_def s1_def j Do_def job_bytes_def)+
          then show ?thesis using ih run Cons \<open>job_for c j\<close> False by (simp add: sends_Cons)
        next
          case (failed w' m)
          then have cl: "cl_closed (client_heap s2 c)"
            and w: "wire s2 (cl_conn (client_heap s c)) = wire s (cl_conn (client_heap s c)) @ take m (job_bytes j)"
            by (simp_all add: s2_def s1_def j Do_def job_bytes_def)
          have "wire (Worker_run e n k s2) (cl_conn (client_heap s c)) = wire s2 (cl_conn (client_heap s c))"
            "cl_closed (client_heap (Worker_run e n k s2) c)" using ih cl by (auto simp: sends_def)
          then show ?thesis using run Cons \<open>job_for c j\<close> False w by (simp add: sends_cut)
        qed
      qed
    qed
  qed (simp add: Worker_turn_def sends_Nil)
qed (simp add: sends_Nil)

end
