(* ===== verification/Handlers.thy ===== *)
theory Handlers
  imports Comet_Client
begin

text \<open>
  \<open>comet/handlers.go\<close>: one definition per message handler. A handler gets the environment, the client,
  the header and the body, and returns the new state and its result (always 0), or \<open>None\<close> when the
  call of the authentication service panics. The connection, which the code only logs, is left out.
  \<open>Handlers_Spec\<close> has the lemmas.
\<close>

type_synonym 'w handler = "'w env \<Rightarrow> nat \<Rightarrow> Header \<Rightarrow> string \<Rightarrow> 'w comet \<Rightarrow> ('w comet \<times> int) option"

definition sendReply :: "nat \<Rightarrow> 8 word \<Rightarrow> 32 word \<Rightarrow> json \<Rightarrow> 'w comet \<Rightarrow> 'w comet" where
  "sendReply c msgType seq v s = fst (SendMessage c msgType seq (Some (json_text v)) None s)"

definition set_app :: "nat \<Rightarrow> (AppInfo \<Rightarrow> AppInfo) \<Rightarrow> 'w comet \<Rightarrow> 'w comet" where
  "set_app a f s = s\<lparr>app_heap := (app_heap s)(a := ap_AppInfo_update f (app_heap s a))\<rparr>"

definition set_regapp :: "nat \<Rightarrow> string \<Rightarrow> nat option \<Rightarrow> 'w comet \<Rightarrow> 'w comet" where
  "set_regapp c appid x s = upd_client c (cl_RegApps_update (\<lambda>m. m(appid := x))) s"

text \<open>\<open>auth.Instance.Auth(token)\<close>.\<close>

definition Auth :: "'w env \<Rightarrow> string \<Rightarrow> 'w comet \<Rightarrow> ('w comet \<times> bool \<times> string) option" where
  "Auth e token s =
    (case auth_Instance e of
       None \<Rightarrow> None
     | Some f \<Rightarrow> map_option (\<lambda>(w', r). (s\<lparr>world := w'\<rparr>, r)) (f (world s) token))"

text \<open>\<open>ok, reguid\<close> for a token that may be empty.\<close>

definition auth_token :: "'w env \<Rightarrow> string \<Rightarrow> 'w comet \<Rightarrow> ('w comet \<times> bool \<times> string) option" where
  "auth_token e token s = (if token \<noteq> [] then Auth e token s else Some (s, True, []))"

text \<open>The search loops: with \<open>break\<close>, the first index; without, the last.\<close>

fun index_of :: "'a \<Rightarrow> 'a list \<Rightarrow> nat option" where
  "index_of x [] = None"
| "index_of x (y # ys) = (if y = x then Some 0 else map_option Suc (index_of x ys))"

fun last_index_of :: "'a \<Rightarrow> 'a list \<Rightarrow> nat option" where
  "last_index_of x [] = None"
| "last_index_of x (y # ys) =
    (case last_index_of x ys of
       Some n \<Rightarrow> Some (Suc n)
     | None \<Rightarrow> if y = x then Some 0 else None)"

subsection \<open>Sender ids\<close>

definition addSendids :: "'w env \<Rightarrow> nat \<Rightarrow> string \<Rightarrow> nat \<Rightarrow> string list \<Rightarrow> 'w comet \<Rightarrow> 'w comet \<times> bool" where
  "addSendids e c regId a sendids s =
    (let cur = ai_SendIds (app_info s a);
         added = filter (\<lambda>s1. s1 \<noteq> [] \<and> s1 \<notin> set (slice_list (slices s) cur)) sendids
     in if added = [] then (s, True)
        else
          let (h, new_sendids) = append_slice (spare e) [] (slices s) cur added;
              s1 = s\<lparr>slices := h\<rparr>;
              info = (app_info s1 a)\<lparr>ai_SendIds := new_sendids\<rparr>;
              (s2, ok) = UpdateAppInfo e (cl_devId (client_heap s1 c)) regId info s1
          in if \<not> ok then (s2, False)
             else (set_app a (ai_SendIds_update (\<lambda>_. new_sendids)) s2, True))"

definition delSendid :: "'w env \<Rightarrow> nat \<Rightarrow> string \<Rightarrow> nat \<Rightarrow> string \<Rightarrow> 'w comet \<Rightarrow> 'w comet \<times> bool" where
  "delSendid e c regId a sendid s =
    (let cur = ai_SendIds (app_info s a);
         found = index_of sendid (slice_list (slices s) cur)
     in if sendid \<noteq> ''[all]'' \<and> found = None then (s, True)
        else
          let (h, new_sendids) =
                (if sendid \<noteq> ''[all]'' then delete_at (spare e) [] (slices s) cur (the found)
                 else make_slice (slices s) []);
              s1 = s\<lparr>slices := h\<rparr>;
              info = (app_info s1 a)\<lparr>ai_SendIds := new_sendids\<rparr>;
              (s2, ok) = UpdateAppInfo e (cl_devId (client_heap s1 c)) regId info s1
          in if \<not> ok then (s2, False)
             else (set_app a (ai_SendIds_update (\<lambda>_. new_sendids)) s2, True))"

subsection \<open>Registration\<close>

definition register_reply :: "nat \<Rightarrow> Header \<Rightarrow> int \<Rightarrow> string \<Rightarrow> string \<Rightarrow> string \<Rightarrow> string \<Rightarrow> 'w comet \<Rightarrow> 'w comet" where
  "register_reply c header result msg appId pkg regId s =
    sendReply c MSG_REGISTER_REPLY (hd_Seq header) (enc_RegisterReplyMessage
      \<lparr>rr_Result = result, rr_ErrInfo = (if result \<noteq> 0 then msg else []), rr_AppId = appId, rr_Pkg = pkg, rr_RegId = regId\<rparr>) s"

definition handleRegister :: "'w handler" where
  "handleRegister e c header body s =
    (let (request, valid) = Unmarshal dec_RegisterMessage body zero_RegisterMessage;
         onReply = register_reply c header; appId = rq_AppId request
     in if \<not> valid then Some (onReply ERR_INVALID_REQ ''invalid body'' [] [] [] s, 0)
        else if appId = [] then
          Some (onReply ERR_INVALID_PARAMS ([CHR 0x27] @ ''appid'' @ [CHR 0x27] @ '' is empty'') appId [] [] s, 0)
        else
          let (s1, b) = call (\<lambda>w. HashGet (store e) w ''db_apps'' appId) s in
          case b of
            Inl _ \<Rightarrow> Some (onReply ERR_INTERNAL ''server error'' appId [] [] s1, 0)
          | Inr None \<Rightarrow> Some (onReply ERR_INVALID_APPID ''unknown appid'' appId [] [] s1, 0)
          | Inr (Some b) \<Rightarrow>
              (let (rawapp, valid) = Unmarshal dec_RawApp b zero_RawApp in
               if \<not> valid then Some (onReply ERR_INTERNAL ''server error'' appId [] [] s1, 0)
               else case auth_token e (rq_Token request) s1 of
                 None \<Rightarrow> None
               | Some (s2, False, _) \<Rightarrow> Some (onReply ERR_AUTH ''auth failed'' appId [] [] s2, 0)
               | Some (s2, True, reguid) \<Rightarrow>
                   (let regid = RegId e (cl_devId (client_heap s2 c)) appId reguid in
                    case cl_RegApps (client_heap s2 c) appId of
                      Some a \<Rightarrow>
                        if ap_RegId (app_heap s2 a) = regid
                        then Some (onReply 0 [] appId (ra_Pkg rawapp) regid s2, 0)
                        else Some (onReply ERR_REG_CONFLICT ''reg conflict'' appId (ra_Pkg rawapp) regid s2, 0)
                    | None \<Rightarrow>
                        (let (s3, regapp) = RegisterApp e (cl_devId (client_heap s2 c)) regid appId reguid s2 in
                         case regapp of
                           None \<Rightarrow> Some (onReply ERR_INTERNAL ''server error'' appId [] [] s3, 0)
                         | Some a \<Rightarrow>
                             Some (onReply 0 [] appId (ra_Pkg rawapp) regid (set_regapp c appId (Some a) s3), 0)))))"

definition unregister_reply :: "nat \<Rightarrow> Header \<Rightarrow> int \<Rightarrow> string \<Rightarrow> string \<Rightarrow> 'w comet \<Rightarrow> 'w comet" where
  "unregister_reply c header result msg appId s =
    sendReply c MSG_UNREGISTER_REPLY (hd_Seq header) (enc_UnregisterReplyMessage
      \<lparr>ur_Result = result, ur_ErrInfo = (if result \<noteq> 0 then msg else []), ur_AppId = appId\<rparr>) s"

definition handleUnregister :: "'w handler" where
  "handleUnregister e c header body s =
    (let (request, valid) = Unmarshal dec_UnregisterMessage body zero_UnregisterMessage;
         onReply = unregister_reply c header; appId = uq_AppId request
     in if \<not> valid then Some (onReply ERR_INVALID_REQ ''invalid body'' [] s, 0)
        else if appId = [] then
          Some (onReply ERR_INVALID_PARAMS ([CHR 0x27] @ ''appid'' @ [CHR 0x27] @ '' is empty'') appId s, 0)
        else if uq_RegId request = [] then
          Some (onReply ERR_INVALID_PARAMS ([CHR 0x27] @ ''regid'' @ [CHR 0x27] @ '' is empty'') appId s, 0)
        else case cl_RegApps (client_heap s c) appId of
          None \<Rightarrow> Some (onReply ERR_NOT_REG (''hasn'' @ [CHR 0x27] @ ''t register'') appId s, 0)
        | Some a \<Rightarrow>
            if ap_RegId (app_heap s a) \<noteq> uq_RegId request then
              Some (onReply ERR_INVALID_REGID (''registered with regid '' @ ap_RegId (app_heap s a)) appId s, 0)
            else
              let s1 = UnregisterApp e (cl_devId (client_heap s c)) (uq_RegId request) appId (ai_UserId (app_info s a)) s
              in Some (onReply 0 [] appId (set_regapp c appId None s1), 0))"

definition register2_reply :: "nat \<Rightarrow> Header \<Rightarrow> int \<Rightarrow> string \<Rightarrow> string \<Rightarrow> string \<Rightarrow> string \<Rightarrow> 'w comet \<Rightarrow> 'w comet" where
  "register2_reply c header result msg appId pkg regId s =
    sendReply c MSG_REGISTER2_REPLY (hd_Seq header) (enc_Register2ReplyMessage
      \<lparr>rr2_Result = result, rr2_ErrInfo = (if result \<noteq> 0 then msg else []), rr2_AppId = appId, rr2_Pkg = pkg,
       rr2_RegId = regId\<rparr>) s"

definition handleRegister2 :: "'w handler" where
  "handleRegister2 e c header body s =
    (let (request, valid) = Unmarshal dec_Register2Message body zero_Register2Message;
         onReply = register2_reply c header; pkg = rq2_Pkg request; sendids = elems (rq2_SendIds request)
     in if \<not> valid then Some (onReply ERR_INVALID_REQ ''invalid body'' [] [] [] s, 0)
        else if pkg = [] then
          Some (onReply ERR_INVALID_PARAMS ([CHR 0x27] @ ''pkg'' @ [CHR 0x27] @ '' is empty'') [] [] [] s, 0)
        else if sendids = [] then
          Some (onReply ERR_INVALID_PARAMS ([CHR 0x27] @ ''sendids'' @ [CHR 0x27] @ '' is empty'') [] pkg [] s, 0)
        else
          let (s1, val) = call (\<lambda>w. HashGet (store e) w ''db_packages'' pkg) s in
          case value_or None val of
            None \<Rightarrow> Some (onReply ERR_INVALID_PKG ''unknown pkg'' [] pkg [] s1, 0)
          | Some appid \<Rightarrow>
              (case auth_token e (rq2_Token request) s1 of
                 None \<Rightarrow> None
               | Some (s2, False, _) \<Rightarrow> Some (onReply ERR_AUTH ''auth failed'' appid pkg [] s2, 0)
               | Some (s2, True, reguid) \<Rightarrow>
                   (let regid = RegId e (cl_devId (client_heap s2 c)) appid reguid in
                    case cl_RegApps (client_heap s2 c) appid of
                      Some a \<Rightarrow>
                        if ap_RegId (app_heap s2 a) = regid then
                          (case addSendids e c regid a sendids s2 of
                             (s3, False) \<Rightarrow> Some (onReply ERR_INTERNAL ''server error'' appid pkg regid s3, 0)
                           | (s3, True) \<Rightarrow> Some (onReply 0 [] appid pkg regid s3, 0))
                        else Some (onReply ERR_REG_CONFLICT ''registered with another regid'' appid pkg regid s2, 0)
                    | None \<Rightarrow>
                        (let (s3, regapp) = RegisterApp e (cl_devId (client_heap s2 c)) regid appid reguid s2 in
                         case regapp of
                           None \<Rightarrow> Some (onReply ERR_INTERNAL ''server error'' appid pkg regid s3, 0)
                         | Some a \<Rightarrow>
                             (case addSendids e c regid a sendids (set_regapp c appid (Some a) s3) of
                                (s4, False) \<Rightarrow> Some (onReply ERR_INTERNAL ''server error'' appid pkg regid s4, 0)
                              | (s4, True) \<Rightarrow> Some (onReply 0 [] appid pkg regid s4, 0))))))"

definition unregister2_reply :: "nat \<Rightarrow> Header \<Rightarrow> int \<Rightarrow> string \<Rightarrow> string \<Rightarrow> string \<Rightarrow> int \<Rightarrow> 'w comet \<Rightarrow> 'w comet" where
  "unregister2_reply c header result msg appId pkg senderCnt s =
    sendReply c MSG_UNREGISTER2_REPLY (hd_Seq header) (enc_Unregister2ReplyMessage
      \<lparr>ur2_Result = result, ur2_ErrInfo = (if result \<noteq> 0 then msg else []), ur2_AppId = appId, ur2_Pkg = pkg,
       ur2_SenderCnt = senderCnt\<rparr>) s"

definition handleUnregister2 :: "'w handler" where
  "handleUnregister2 e c header body s =
    (let (request, valid) = Unmarshal dec_Unregister2Message body zero_Unregister2Message;
         onReply = unregister2_reply c header; pkg = uq2_Pkg request
     in if \<not> valid then Some (onReply ERR_INVALID_REQ ''invalid body'' [] [] 0 s, 0)
        else if pkg = [] then
          Some (onReply ERR_INVALID_PARAMS ([CHR 0x27] @ ''pkg'' @ [CHR 0x27] @ '' is empty'') [] [] 0 s, 0)
        else if uq2_RegId request = [] then
          Some (onReply ERR_INVALID_PARAMS ([CHR 0x27] @ ''regid'' @ [CHR 0x27] @ '' is empty'') [] [] 0 s, 0)
        else if uq2_SendId request = [] then
          Some (onReply ERR_INVALID_PARAMS ([CHR 0x27] @ ''sendid'' @ [CHR 0x27] @ '' is empty'') [] pkg 0 s, 0)
        else
          let (s1, val) = call (\<lambda>w. HashGet (store e) w ''db_packages'' pkg) s in
          case value_or None val of
            None \<Rightarrow> Some (onReply ERR_INVALID_PKG ''unknown pkg'' [] pkg 0 s1, 0)
          | Some appid \<Rightarrow>
              (case cl_RegApps (client_heap s1 c) appid of
                 None \<Rightarrow> Some (onReply ERR_NOT_REG (''hasn'' @ [CHR 0x27] @ ''t register'') appid pkg 0 s1, 0)
               | Some a \<Rightarrow>
                   if ap_RegId (app_heap s1 a) \<noteq> uq2_RegId request then
                     Some (onReply ERR_INVALID_REGID (''registered with regid '' @ ap_RegId (app_heap s1 a)) appid pkg 0 s1, 0)
                   else
                     (case delSendid e c (uq2_RegId request) a (uq2_SendId request) s1 of
                        (s2, False) \<Rightarrow> Some (onReply ERR_INTERNAL ''server error'' appid pkg 0 s2, 0)
                      | (s2, True) \<Rightarrow>
                          (let n = slice_len (ai_SendIds (app_info s2 a)) in
                           if n \<noteq> 0 then Some (onReply 0 [] appid pkg (int n) s2, 0)
                           else
                             let s3 = UnregisterApp e (cl_devId (client_heap s2 c)) (uq2_RegId request) appid
                                        (ai_UserId (app_info s2 a)) s2
                             in Some (onReply 0 [] appid pkg 0 (set_regapp c appid None s3), 0)))))"

subsection \<open>Acknowledgements\<close>

definition handlePushReply :: "'w handler" where
  "handlePushReply e c header body s =
    (let (request, valid) = Unmarshal dec_PushReplyMessage body zero_PushReplyMessage in
     if \<not> valid then Some (s, 0)
     else if pr_AppId request = [] \<or> pr_RegId request = [] then Some (s, 0)
     else case cl_RegApps (client_heap s c) (pr_AppId request) of
       None \<Rightarrow> Some (s, 0)
     | Some a \<Rightarrow>
         if ap_RegId (app_heap s a) \<noteq> pr_RegId request then Some (s, 0)
         else if pr_MsgId request \<le> ai_LastMsgId (app_info s a) then Some (s, 0)
         else
           let s1 = set_app a (ai_LastMsgId_update (\<lambda>_. pr_MsgId request)) s
           in Some (put_job c (UpdateJob (cl_devId (client_heap s1 c)) (pr_RegId request) (app_info s1 a)) s1, 0))"

text \<open>The reply of a device to a command: it is offered on the channel that waits for its sequence
  number, or counted as too late.\<close>

definition handleCmdReply :: "'w handler" where
  "handleCmdReply e c header body s =
    (case cl_replyChannels (client_heap s c) (hd_Seq header) of
       Some ch \<Rightarrow>
         (let s1 = upd_client c (cl_replyChannels_update (\<lambda>m. m(hd_Seq header := None))) s
          in Some (s1\<lparr>delivered := delivered s1 @ [(ch, \<lparr>mg_Header = Some header, mg_Data = body\<rparr>)]\<rparr>, 0))
     | None \<Rightarrow> Some (do_call (\<lambda>w. IncReplyTooLate (store e) w) s, 0))"

subsection \<open>Topics and statistics\<close>

definition subscribe_reply :: "nat \<Rightarrow> Header \<Rightarrow> int \<Rightarrow> string \<Rightarrow> string \<Rightarrow> 'w comet \<Rightarrow> 'w comet" where
  "subscribe_reply c header result appId regId s =
    sendReply c MSG_SUBSCRIBE_REPLY (hd_Seq header) (enc_SubscribeReplyMessage
      \<lparr>sr_Result = result, sr_ErrInfo = [], sr_AppId = appId, sr_RegId = regId\<rparr>) s"

definition handleSubscribe :: "'w handler" where
  "handleSubscribe e c header body s =
    (let (request, valid) = Unmarshal dec_SubscribeMessage body zero_SubscribeMessage;
         appId = sq_AppId request; topic = sq_Topic request;
         onReply = (\<lambda>result s. subscribe_reply c header result appId [] s)
     in if \<not> valid then Some (onReply 1 s, 0)
        else if appId = [] \<or> sq_RegId request = [] then Some (onReply 2 s, 0)
        else if length topic = 0 \<or> 64 < length topic then Some (onReply 3 s, 0)
        else case cl_RegApps (client_heap s c) appId of
          None \<Rightarrow> Some (onReply 4 s, 0)
        | Some a \<Rightarrow>
            if ap_RegId (app_heap s a) \<noteq> sq_RegId request then Some (onReply 10 s, 0)
            else
              let cur = ai_Topics (app_info s a) in
              if topic \<in> set (slice_list (slices s) cur) then
                Some (subscribe_reply c header 0 appId (sq_RegId request) s, 0)
              else if 10 \<le> slice_len cur then Some (onReply 5 s, 0)
              else
                let (h, topics) = append_slice (spare e) [] (slices s) cur [topic];
                    s1 = s\<lparr>slices := h\<rparr>;
                    info = (app_info s1 a)\<lparr>ai_Topics := topics\<rparr>;
                    (s2, ok) = UpdateAppInfo e (cl_devId (client_heap s1 c)) (sq_RegId request) info s1
                in if \<not> ok then Some (onReply 6 s2, 0)
                   else
                     let s3 = set_app a (ai_Topics_update (\<lambda>_. topics)) s2
                     in Some (subscribe_reply c header 0 appId (sq_RegId request) s3, 0))"

definition unsubscribe_reply :: "nat \<Rightarrow> Header \<Rightarrow> int \<Rightarrow> string \<Rightarrow> string \<Rightarrow> 'w comet \<Rightarrow> 'w comet" where
  "unsubscribe_reply c header result appId regId s =
    sendReply c MSG_UNSUBSCRIBE_REPLY (hd_Seq header) (enc_UnsubscribeReplyMessage
      \<lparr>nr_Result = result, nr_ErrInfo = [], nr_AppId = appId, nr_RegId = regId\<rparr>) s"

definition handleUnsubscribe :: "'w handler" where
  "handleUnsubscribe e c header body s =
    (let (request, valid) = Unmarshal dec_UnsubscribeMessage body zero_UnsubscribeMessage;
         appId = nq_AppId request;
         onReply = (\<lambda>result s. unsubscribe_reply c header result appId [] s)
     in if \<not> valid then Some (onReply 1 s, 0)
        else if appId = [] \<or> nq_RegId request = [] then Some (onReply 2 s, 0)
        else case cl_RegApps (client_heap s c) appId of
          None \<Rightarrow> Some (onReply 3 s, 0)
        | Some a \<Rightarrow>
            if ap_RegId (app_heap s a) \<noteq> nq_RegId request then Some (onReply 10 s, 0)
            else
              let cur = ai_Topics (app_info s a) in
              case last_index_of (nq_Topic request) (slice_list (slices s) cur) of
                None \<Rightarrow> Some (unsubscribe_reply c header 0 appId (nq_RegId request) s, 0)
              | Some index \<Rightarrow>
                  (let (h, topics) = delete_at (spare e) [] (slices s) cur index;
                       s1 = s\<lparr>slices := h\<rparr>;
                       info = (app_info s1 a)\<lparr>ai_Topics := topics\<rparr>;
                       (s2, ok) = UpdateAppInfo e (cl_devId (client_heap s1 c)) (nq_RegId request) info s1
                   in if \<not> ok then Some (onReply 4 s2, 0)
                      else
                        let s3 = set_app a (ai_Topics_update (\<lambda>_. topics)) s2
                        in Some (unsubscribe_reply c header 0 appId (nq_RegId request) s3, 0)))"

definition get_topics_reply :: "nat \<Rightarrow> Header \<Rightarrow> int \<Rightarrow> string \<Rightarrow> string \<Rightarrow> string list option \<Rightarrow> 'w comet \<Rightarrow> 'w comet" where
  "get_topics_reply c header result appId regId topics s =
    sendReply c MSG_GET_TOPICS_REPLY (hd_Seq header) (enc_GetTopicsReplyMessage
      \<lparr>gr_Result = result, gr_ErrInfo = [], gr_AppId = appId, gr_RegId = regId, gr_Topics = topics\<rparr>) s"

definition handleGetTopics :: "'w handler" where
  "handleGetTopics e c header body s =
    (let (request, valid) = Unmarshal dec_GetTopicsMessage body zero_GetTopicsMessage;
         appId = gq_AppId request;
         onReply = (\<lambda>result s. get_topics_reply c header result appId [] None s)
     in if \<not> valid then Some (onReply 1 s, 0)
        else if appId = [] \<or> gq_RegId request = [] then Some (onReply 2 s, 0)
        else case cl_RegApps (client_heap s c) appId of
          None \<Rightarrow> Some (onReply 3 s, 0)
        | Some a \<Rightarrow>
            if ap_RegId (app_heap s a) \<noteq> gq_RegId request then Some (onReply 10 s, 0)
            else Some (get_topics_reply c header 0 appId (gq_RegId request)
                         (slice_opt (slices s) (ai_Topics (app_info s a))) s, 0))"

definition stats_reply :: "nat \<Rightarrow> Header \<Rightarrow> int \<Rightarrow> string \<Rightarrow> string \<Rightarrow> 'w comet \<Rightarrow> 'w comet" where
  "stats_reply c header result appId regId s =
    sendReply c MSG_STATS_REPLY (hd_Seq header) (enc_StatsReplyMessage
      \<lparr>tr_Result = result, tr_ErrInfo = [], tr_AppId = appId, tr_RegId = regId\<rparr>) s"

definition handleStats :: "'w handler" where
  "handleStats e c header body s =
    (let (request, valid) = Unmarshal dec_StatsMessage body zero_StatsMessage;
         appId = tq_AppId request;
         onReply = (\<lambda>result s. stats_reply c header result appId [] s)
     in if \<not> valid then Some (onReply 1 s, 0)
        else if appId = [] \<or> tq_RegId request = [] then Some (onReply 2 s, 0)
        else case cl_RegApps (client_heap s c) appId of
          None \<Rightarrow> Some (onReply 4 s, 0)
        | Some a \<Rightarrow>
            if ap_RegId (app_heap s a) \<noteq> tq_RegId request then Some (onReply 10 s, 0)
            else
              let s1 = (if tq_Click request
                        then do_call (\<lambda>w. AppStatsClick (store e) w appId)
                               (do_call (\<lambda>w. MsgStatsClick (store e) w (tq_MsgId request)) s)
                        else s)
              in Some (stats_reply c header 0 appId (tq_RegId request) s1, 0))"

definition handleHeartbeat :: "'w handler" where
  "handleHeartbeat e c header body s =
    Some (upd_client c (cl_lastActive_update (\<lambda>_. now e (world s))) s, 0)"

text \<open>\<open>funcMap\<close> after \<open>Server.Init\<close>.\<close>

definition funcMap :: "8 word \<Rightarrow> 'w handler option" where
  "funcMap = [MSG_HEARTBEAT \<mapsto> handleHeartbeat, MSG_REGISTER \<mapsto> handleRegister,
     MSG_UNREGISTER \<mapsto> handleUnregister, MSG_PUSH_REPLY \<mapsto> handlePushReply,
     MSG_SUBSCRIBE \<mapsto> handleSubscribe, MSG_UNSUBSCRIBE \<mapsto> handleUnsubscribe,
     MSG_GET_TOPICS \<mapsto> handleGetTopics, MSG_CMD_REPLY \<mapsto> handleCmdReply,
     MSG_REGISTER2 \<mapsto> handleRegister2, MSG_UNREGISTER2 \<mapsto> handleUnregister2,
     MSG_STATS \<mapsto> handleStats]"

end
