(* ===== verification/Server.thy ===== *)
theory Server
  imports Handlers
begin

text \<open>
  \<open>comet/server.go\<close>: the connections of the comet server. \<open>handleConnection\<close> admits a connection,
  waits for its INIT message (\<open>waitInit\<close>), then reads frames and runs their handlers until the
  client is closed, silent for too long, or sends something invalid. What a socket delivers is a
  list of events; what the other goroutines do while this one sleeps or between two turns of its loop
  is an argument, a function on the state. One turn of the loop is split into its reading part
  \<open>read_turn\<close>, which only depends on the connection, and the rest. \<open>Server_Spec\<close> has the lemmas.
\<close>

definition PUSH_TYPE_ALL :: int where "PUSH_TYPE_ALL = 1"
definition PUSH_TYPE_REGID :: int where "PUSH_TYPE_REGID = 2"
definition PUSH_TYPE_USERID :: int where "PUSH_TYPE_USERID = 3"
definition PUSH_TYPE_DEVID :: int where "PUSH_TYPE_DEVID = 4"
definition PUSH_TYPE_TOPIC :: int where "PUSH_TYPE_TOPIC = 5"
definition PUSH_TYPE_ALIAS :: int where "PUSH_TYPE_ALIAS = 6"
definition PUSH_TYPE_GROUP :: int where "PUSH_TYPE_GROUP = 7"
definition MSG_TYPE_NOTIFICATION :: int where "MSG_TYPE_NOTIFICATION = 1"
definition MSG_TYPE_MESSAGE :: int where "MSG_TYPE_MESSAGE = 2"

lemmas push_type_defs = PUSH_TYPE_ALL_def PUSH_TYPE_REGID_def PUSH_TYPE_USERID_def PUSH_TYPE_DEVID_def
  PUSH_TYPE_TOPIC_def PUSH_TYPE_ALIAS_def PUSH_TYPE_GROUP_def

definition second :: int where "second = 1000000000"

definition BLACK_UPDATE_INTERVAL :: int where "BLACK_UPDATE_INTERVAL = 60"
definition READ_BODY_TIMEOUT :: int where "READ_BODY_TIMEOUT = 60"

record Server =
  sv_Name :: string
  sv_blackDevices :: "string list"
  sv_blackUpdate :: int
  sv_hbTimeout :: int
  sv_maxBodyLen :: "32 word"
  sv_maxClients :: "32 word"
  sv_clientCount :: "32 word"
  sv_workerCount :: nat
  sv_HbInterval :: "32 word"
  sv_ReconnTime :: "32 word"

text \<open>The zero \<open>time.Time\<close>, the first of January of the year 1, in nanoseconds.\<close>

definition zero_time :: int where "zero_time = - 62135596800000000000"

text \<open>\<open>NewServer\<close>; the accept, read and write timeouts it also stores do not change what the model
  describes. \<open>utils.GetLocalIP\<close> is the argument \<open>ip\<close>.\<close>

definition NewServer :: "string \<Rightarrow> 32 word \<Rightarrow> 32 word \<Rightarrow> 32 word \<Rightarrow> nat \<Rightarrow> Server" where
  "NewServer ip hto maxBodyLen maxClients srcnt =
    \<lparr>sv_Name = ip, sv_blackDevices = [], sv_blackUpdate = zero_time, sv_hbTimeout = uint hto,
     sv_maxBodyLen = maxBodyLen, sv_maxClients = maxClients, sv_clientCount = 0, sv_workerCount = srcnt,
     sv_HbInterval = 60, sv_ReconnTime = 60\<rparr>"

subsection \<open>Start and stop\<close>

text \<open>\<open>Server.Init\<close> after the listener is up. Go assigns \<open>blackDevices\<close> whether or not \<open>SetMembers\<close>
  fails; a failed call yields a nil slice.\<close>

definition Server_Init :: "'w env \<Rightarrow> Server \<Rightarrow> 'w comet \<Rightarrow> 'w comet \<times> Server result" where
  "Server_Init e srv s =
    (case call (\<lambda>w. InitDevices (store e) w (sv_Name srv)) s of
       (s1, Some err) \<Rightarrow> (s1, Inl err)
     | (s1, None) \<Rightarrow>
         (case call (\<lambda>w. SetMembers (store e) w ''db_black_devices'') s1 of
            (s2, Inl _) \<Rightarrow> (s2, Inr (srv\<lparr>sv_blackDevices := [], sv_blackUpdate := now e (world s2)\<rparr>))
          | (s2, Inr ds) \<Rightarrow> (s2, Inr (srv\<lparr>sv_blackDevices := ds\<rparr>))))"

definition startWorkers :: "Server \<Rightarrow> 'w comet \<Rightarrow> 'w comet" where
  "startWorkers srv s = fold NewWorker [0..<sv_workerCount srv] s"

text \<open>\<open>Server.Run\<close> before its accept loop.\<close>

definition Run_start :: "'w env \<Rightarrow> Server \<Rightarrow> 'w comet \<Rightarrow> 'w comet" where
  "Run_start e srv s = startWorkers srv (do_call (\<lambda>w. AddComet (store e) w (sv_Name srv)) s)"

text \<open>One tick of the refresh routine.\<close>

definition refresh_tick :: "'w env \<Rightarrow> Server \<Rightarrow> 'w comet \<Rightarrow> 'w comet" where
  "refresh_tick e srv s = do_call (\<lambda>w. RefreshDevices (store e) w (sv_Name srv) 60) s"

subsection \<open>Clients\<close>

text \<open>\<open>worker\<close> is the number that \<open>rand.Intn(workerCount)\<close> returns.\<close>

definition createClient :: "'w env \<Rightarrow> Server \<Rightarrow> nat \<Rightarrow> nat \<Rightarrow> string \<Rightarrow> 'w comet \<Rightarrow> 'w comet \<times> nat option" where
  "createClient e srv worker conn devid s =
    (case call (\<lambda>w. AddDevice (store e) w (sv_Name srv) devid) s of
       (s1, Some _) \<Rightarrow> (s1, None)
     | (s1, None) \<Rightarrow>
         (let (s2, c) = NewClient e devid conn worker s1
          in (s2\<lparr>DevicesMap := fst (Set (DevicesMap s2) devid c)\<rparr>, Some c)))"

text \<open>The loop of \<open>closeClient\<close> over the registrations, each deleted from both maps.\<close>

definition close_apps :: "nat \<Rightarrow> string list \<Rightarrow> 'w comet \<Rightarrow> 'w comet" where
  "close_apps c ks s =
    fold (\<lambda>k s. case cl_RegApps (client_heap s c) k of
            None \<Rightarrow> s
          | Some a \<Rightarrow> set_regapp c k None (DelApp (ap_RegId (app_heap s a)) s)) ks s"

definition closeClient :: "'w env \<Rightarrow> Server \<Rightarrow> nat \<Rightarrow> 'w comet \<Rightarrow> 'w comet" where
  "closeClient e srv c s =
    (let s1 = upd_client c (cl_closed_update (\<lambda>_. True)) s;
         s2 = s1\<lparr>closed_conns := insert (cl_conn (client_heap s1 c)) (closed_conns s1)\<rparr>;
         s3 = close_apps c (iter e (world s2) (cl_RegApps (client_heap s2 c))) s2;
         devid = cl_devId (client_heap s3 c);
         s4 = s3\<lparr>DevicesMap := Delete (DevicesMap s3) devid\<rparr>
     in do_call (\<lambda>w. RemoveDevice (store e) w (sv_Name srv) devid) s4)"

subsection \<open>Admission\<close>

text \<open>The refresh keeps the code's test: the list is replaced when \<open>SetMembers\<close> returns an error.\<close>

definition checkBlacklist :: "'w env \<Rightarrow> string \<Rightarrow> int \<Rightarrow> Server \<Rightarrow> 'w comet \<Rightarrow> Server \<times> 'w comet \<times> bool" where
  "checkBlacklist e devId t srv s =
    (let (srv1, s1) =
           (if sv_blackUpdate srv + BLACK_UPDATE_INTERVAL * second < t then
              (case call (\<lambda>w. SetMembers (store e) w ''db_black_devices'') s of
                 (s1, Inl _) \<Rightarrow> (srv\<lparr>sv_blackDevices := [], sv_blackUpdate := t\<rparr>, s1)
               | (s1, Inr _) \<Rightarrow> (srv, s1))
            else (srv, s))
     in (srv1, s1, devId \<notin> set (sv_blackDevices srv1)))"

definition checkDeviceId :: "string \<Rightarrow> bool" where
  "checkDeviceId devId = (devId \<noteq> [])"

text \<open>Waiting for an old connection of the device: it is marked closed, and after a sleep the map is
  read again; the sixth reading gives up. \<open>k\<close> counts the sleeps left.\<close>

fun wait_old :: "(nat \<Rightarrow> 'w comet \<Rightarrow> 'w comet) \<Rightarrow> string \<Rightarrow> nat \<Rightarrow> 'w comet \<Rightarrow> 'w comet \<times> bool" where
  "wait_old sleep devid k s =
    (case Get (DevicesMap s) devid of
       None \<Rightarrow> (s, True)
     | Some c \<Rightarrow>
         (case k of
            0 \<Rightarrow> (s, False)
          | Suc k' \<Rightarrow> wait_old sleep devid k' (sleep k' (upd_client c (cl_closed_update (\<lambda>_. True)) s))))"

declare wait_old.simps [simp del]

fun init_apps :: "'w env \<Rightarrow> nat \<Rightarrow> Base1 list \<Rightarrow> 'w comet \<Rightarrow> 'w comet" where
  "init_apps e c [] s = s"
| "init_apps e c (info # infos) s =
    (if b1_AppId info = [] \<or> b1_RegId info = [] then init_apps e c infos s
     else
      let (s1, regapp) = RegisterApp2 e (cl_devId (client_heap s c)) (b1_RegId info) (b1_AppId info) [] s
      in case regapp of
           None \<Rightarrow> init_apps e c infos s1
         | Some a \<Rightarrow> init_apps e c infos (set_regapp c (b1_AppId info) (Some a) s1))"

fun sync_apps :: "'w env \<Rightarrow> nat \<Rightarrow> (string \<Rightarrow> AppInfo option) \<Rightarrow> string list \<Rightarrow> Base2 list \<Rightarrow> 'w comet
    \<Rightarrow> 'w comet \<times> Base2 list" where
  "sync_apps e c infos [] apps s = (s, apps)"
| "sync_apps e c infos (regid # ks) apps s =
    (case infos regid of
       None \<Rightarrow> sync_apps e c infos ks apps s
     | Some info \<Rightarrow>
         (let (s1, b) = call (\<lambda>w. HashGet (store e) w ''db_apps'' (ai_AppId info)) s in
          case b of
            Inr (Some b) \<Rightarrow>
              (let (rawapp, valid) = Unmarshal dec_RawApp b zero_RawApp in
               if \<not> valid then sync_apps e c infos ks apps s1
               else
                let (s2, a) = AddApp (cl_devId (client_heap s1 c)) regid info s1
                in sync_apps e c infos ks
                     (apps @ [\<lparr>b2_AppId = ai_AppId info, b2_RegId = regid, b2_Pkg = ra_Pkg rawapp\<rparr>])
                     (set_regapp c (ai_AppId info) (Some a) s2))
          | _ \<Rightarrow> sync_apps e c infos ks apps s1))"

subsection \<open>Offline messages\<close>

text \<open>The loop over the groups of a message, ended by the first that has the device.\<close>

fun in_group :: "'w env \<Rightarrow> string \<Rightarrow> string list \<Rightarrow> 'w comet \<Rightarrow> 'w comet \<times> bool" where
  "in_group e devid [] s = (s, False)"
| "in_group e devid (g # gs) s =
    (let (s1, r) = call (\<lambda>w. SetIsMember (store e) w (''db_group_'' @ g) devid) s
     in if r = Inr 1 then (s1, True) else in_group e devid gs s1)"

definition offline_match :: "'w env \<Rightarrow> nat \<Rightarrow> nat \<Rightarrow> RawMessage \<Rightarrow> 'w comet \<Rightarrow> 'w comet \<times> bool" where
  "offline_match e c a m s =
    (let p = rm_PushParams m; ty = rm_PushType m; info = app_info s a in
     if ty = PUSH_TYPE_ALL then (s, True)
     else if ty = PUSH_TYPE_REGID then (s, ap_RegId (app_heap s a) \<in> set (elems (pp_RegId p)))
     else if ty = PUSH_TYPE_USERID then
       (s, ai_UserId info \<noteq> [] \<and> ai_UserId info \<in> set (elems (pp_UserId p)))
     else if ty = PUSH_TYPE_DEVID then (s, cl_devId (client_heap s c) \<in> set (elems (pp_DevId p)))
     else if ty = PUSH_TYPE_TOPIC then
       (s, matchTopics (slice_list (slices s) (ai_Topics info)) (elems (pp_Topic p)) (pp_TopicOp p))
     else if ty = PUSH_TYPE_GROUP then in_group e (cl_devId (client_heap s c)) (elems (pp_Group p)) s
     else (s, False))"

definition sendid_ok :: "string list \<Rightarrow> string \<Rightarrow> bool" where
  "sendid_ok sendids sendid \<longleftrightarrow> sendids = [] \<or> sendid = [] \<or> sendid \<in> set sendids"

definition push_body :: "string \<Rightarrow> RawMessage \<Rightarrow> string" where
  "push_body appId m = json_text (enc_PushMessage
    \<lparr>pm_MsgId = rm_MsgId m, pm_AppId = appId, pm_Type = rm_MsgType m,
     pm_Content = (if rm_MsgType m = MSG_TYPE_MESSAGE then rm_Content m
                   else json_text (enc_Notification (rm_Notification m)))\<rparr>)"

definition offline_msg :: "'w env \<Rightarrow> nat \<Rightarrow> nat \<Rightarrow> RawMessage \<Rightarrow> 'w comet \<Rightarrow> 'w comet" where
  "offline_msg e c a m s =
    (let (s1, ok) = offline_match e c a m s
     in if ok \<and> sendid_ok (slice_list (slices s1) (ai_SendIds (app_info s1 a))) (rm_SendId m)
        then fst (SendMessage c MSG_PUSH 0 (Some (push_body (rm_AppId m) m)) None s1)
        else s1)"

definition handleOfflineMsgs :: "'w env \<Rightarrow> nat \<Rightarrow> nat \<Rightarrow> 'w comet \<Rightarrow> 'w comet" where
  "handleOfflineMsgs e c a s =
    (let info = app_info s a;
         (s1, msgs) = call (\<lambda>w. GetOfflineMsgs (store e) w (ai_AppId info) (ap_RegId (app_heap s a))
                                  (ai_RegTime info) (ai_LastMsgId info)) s
     in fold (offline_msg e c a) msgs s1)"

subsection \<open>Reading from a socket\<close>

text \<open>What a socket delivers: bytes, a read deadline that passes, an error. The end of the list is
  the end of the stream.\<close>

datatype sock_event = Bytes string | Deadline | ReadError

text \<open>\<open>myRead(conn, buf)\<close> for \<open>n\<close> bytes: what was read (fewer on a deadline), or \<open>None\<close> for -1.\<close>

fun myRead :: "nat \<Rightarrow> sock_event list \<Rightarrow> string option \<times> sock_event list" where
  "myRead n evs =
    (if n = 0 then (Some [], evs)
     else case evs of
       [] \<Rightarrow> (None, [])
     | ReadError # es \<Rightarrow> (None, es)
     | Deadline # es \<Rightarrow> (Some [], es)
     | Bytes bs # es \<Rightarrow>
         if n < length bs then (Some (take n bs), Bytes (drop n bs) # es)
         else (case myRead (n - length bs) es of
                 (None, es') \<Rightarrow> (None, es')
               | (Some cs, es') \<Rightarrow> (Some (bs @ cs), es')))"

declare myRead.simps [simp del]

text \<open>\<open>buf\<close> with the bytes that were read put at an offset.\<close>

definition put_at :: "string \<Rightarrow> nat \<Rightarrow> string \<Rightarrow> string" where
  "put_at buf i bs = take i buf @ bs @ drop (i + length bs) buf"

definition zero_bytes :: "nat \<Rightarrow> string" where
  "zero_bytes n = replicate n (CHR 0x00)"

text \<open>The last part of \<open>waitInit\<close>: the registrations that the client names or that storage has for
  the device, the reply, the offline messages.\<close>

definition start_client :: "'w env \<Rightarrow> Server \<Rightarrow> nat \<Rightarrow> Header \<Rightarrow> InitMessage \<Rightarrow> 'w comet \<Rightarrow> 'w comet option" where
  "start_client e srv c header request s =
    (let r = (if im_Sync request = 0
              then Some (init_apps e c (case im_Apps request of None \<Rightarrow> [] | Some xs \<Rightarrow> xs) s, None)
              else map_option (\<lambda>(t, infos). map_prod id Some (sync_apps e c infos (iter e (world t) infos) [] t))
                     (LoadAppInfosByDevice e (im_DevId request) s))
     in case r of
          None \<Rightarrow> None
        | Some (s1, apps) \<Rightarrow>
            (let body = json_text (enc_InitReplyMessage
                   \<lparr>ir_Result = 0, ir_ErrInfo = [], ir_Apps = apps, ir_HB = sv_HbInterval srv, ir_Reconn = sv_ReconnTime srv\<rparr>);
                 s2 = fst (SendMessage c MSG_INIT_REPLY (hd_Seq header) (Some body) None s1);
                 m = cl_RegApps (client_heap s2 c)
             in Some (fold (\<lambda>a. handleOfflineMsgs e c a) (range_values m (iter e (world s2) m)) s2)))"

text \<open>The middle part: the checks on the device id and the wait for an old connection.\<close>

definition admit :: "'w env \<Rightarrow> (nat \<Rightarrow> 'w comet \<Rightarrow> 'w comet) \<Rightarrow> nat \<Rightarrow> nat \<Rightarrow> Server \<Rightarrow> Header \<Rightarrow> InitMessage \<Rightarrow> 'w comet
    \<Rightarrow> (Server \<times> 'w comet \<times> nat option) option" where
  "admit e sleep worker conn srv header request s =
    (let devid = im_DevId request in
     if \<not> checkDeviceId devid then Some (srv, s, None)
     else case checkBlacklist e devid (now e (world s)) srv s of
       (srv1, s1, False) \<Rightarrow> Some (srv1, s1, None)
     | (srv1, s1, True) \<Rightarrow>
         (case wait_old sleep devid 5 s1 of
            (s2, False) \<Rightarrow> Some (srv1, s2, None)
          | (s2, True) \<Rightarrow>
              (let (s3, r) = call (\<lambda>w. CheckDevice (store e) w devid) s2 in
               if r \<noteq> Inr [] then Some (srv1, s3, None)
               else case createClient e srv1 worker conn devid s3 of
                 (s4, None) \<Rightarrow> Some (srv1, s4, None)
               | (s4, Some c) \<Rightarrow> map_option (\<lambda>s5. (srv1, s5, Some c)) (start_client e srv1 c header request s4))))"

text \<open>\<open>waitInit\<close>. The time that the blacklist check compares with is that of the start of the call.\<close>

definition waitInit :: "'w env \<Rightarrow> (nat \<Rightarrow> 'w comet \<Rightarrow> 'w comet) \<Rightarrow> nat \<Rightarrow> nat \<Rightarrow> Server \<Rightarrow> sock_event list \<Rightarrow> 'w comet
    \<Rightarrow> (Server \<times> sock_event list \<times> 'w comet \<times> nat option) option" where
  "waitInit e sleep worker conn srv evs s =
    (case myRead HEADER_SIZE evs of
       (None, evs1) \<Rightarrow> Some (srv, evs1, s, None)
     | (Some hb, evs1) \<Rightarrow>
         if hb = [] then Some (srv, evs1, s, None)
         else case Deserialize (put_at (zero_bytes HEADER_SIZE) 0 hb) of
           None \<Rightarrow> Some (srv, evs1, s, None)
         | Some header \<Rightarrow>
             if hd_Type header \<noteq> MSG_INIT then Some (srv, evs1, s, None)
             else if sv_maxBodyLen srv < hd_Len header then Some (srv, evs1, s, None)
             else case myRead (unat (hd_Len header)) evs1 of
               (None, evs2) \<Rightarrow> Some (srv, evs2, s, None)
             | (Some db, evs2) \<Rightarrow>
                 if db = [] then Some (srv, evs2, s, None)
                 else case Unmarshal dec_InitMessage (put_at (zero_bytes (unat (hd_Len header))) 0 db) zero_InitMessage of
                   (_, False) \<Rightarrow> Some (srv, evs2, s, None)
                 | (request, True) \<Rightarrow>
                     map_option (\<lambda>(srv1, s1, r). (srv1, evs2, s1, r)) (admit e sleep worker conn srv header request s))"

subsection \<open>The read loop\<close>

record conn_st =
  readStep :: nat
  nRead :: nat
  headBuf :: string
  dataBuf :: string
  hdr :: Header
  startTime :: int

definition conn_st0 :: conn_st where
  "conn_st0 = \<lparr>readStep = 0, nRead = 0, headBuf = zero_bytes HEADER_SIZE, dataBuf = [],
     hdr = \<lparr>hd_Type = 0, hd_Ver = 0, hd_Seq = 0, hd_Len = 0\<rparr>, startTime = zero_time\<rparr>"

text \<open>The outcome of the reading part of a turn: \<open>Broken\<close> ends the loop, \<open>Again\<close> is \<open>continue\<close>,
  \<open>Beat\<close> is a heartbeat byte, \<open>Frame\<close> a whole message.\<close>

datatype turn = Broken | Again | Beat | Frame Header string

definition read_body :: "int \<Rightarrow> conn_st \<Rightarrow> sock_event list \<Rightarrow> turn \<times> conn_st \<times> sock_event list" where
  "read_body t st evs =
    (case myRead (length (dataBuf st) - nRead st) evs of
       (None, evs1) \<Rightarrow> (Broken, st, evs1)
     | (Some bs, evs1) \<Rightarrow>
         if bs = [] then (Again, st, evs1)
         else
          let st1 = st\<lparr>dataBuf := put_at (dataBuf st) (nRead st) bs, nRead := nRead st + length bs\<rparr>
          in if nRead st1 < unat (hd_Len (hdr st1)) then
               (if startTime st1 + READ_BODY_TIMEOUT * second < t then Broken else Again, st1, evs1)
             else (Frame (hdr st1) (dataBuf st1), st1\<lparr>readStep := 0, nRead := 0\<rparr>, evs1))"

definition read_header :: "32 word \<Rightarrow> int \<Rightarrow> conn_st \<Rightarrow> sock_event list \<Rightarrow> turn \<times> conn_st \<times> sock_event list" where
  "read_header maxBodyLen t st evs =
    (case myRead (length (headBuf st) - nRead st) evs of
       (None, evs1) \<Rightarrow> (Broken, st, evs1)
     | (Some bs, evs1) \<Rightarrow>
         if bs = [] then (Again, st, evs1)
         else
          let st1 = st\<lparr>headBuf := put_at (headBuf st) (nRead st) bs, nRead := nRead st + length bs\<rparr>
          in if nRead st1 < HEADER_SIZE then (Again, st1, evs1)
             else case Deserialize (headBuf st1) of
               None \<Rightarrow> (Broken, st1, evs1)
             | Some h \<Rightarrow>
                 let st2 = st1\<lparr>hdr := h\<rparr> in
                 if maxBodyLen < hd_Len h then (Broken, st2, evs1)
                 else if 0 < hd_Len h then
                   read_body t (st2\<lparr>dataBuf := zero_bytes (unat (hd_Len h)), readStep := 2, nRead := 0, startTime := t\<rparr>) evs1
                 else (Again, st2\<lparr>readStep := 0, nRead := 0\<rparr>, evs1))"

definition read_turn :: "32 word \<Rightarrow> int \<Rightarrow> conn_st \<Rightarrow> sock_event list \<Rightarrow> turn \<times> conn_st \<times> sock_event list" where
  "read_turn maxBodyLen t st evs =
    (if readStep st = 0 then
       (case myRead 1 evs of
          (None, evs1) \<Rightarrow> (Broken, st, evs1)
        | (Some bs, evs1) \<Rightarrow>
            (case bs of
               [] \<Rightarrow> (Again, st, evs1)
             | b # _ \<Rightarrow>
                 let st1 = st\<lparr>headBuf := put_at (headBuf st) 0 [b]\<rparr> in
                 if b = CHR 0x00 then (Beat, st1, evs1)
                 else read_header maxBodyLen t (st1\<lparr>nRead := nRead st1 + 1, readStep := 1\<rparr>) evs1))
     else if readStep st = 1 then read_header maxBodyLen t st evs
     else read_body t st evs)"

text \<open>One turn of the loop: the new state, and whether and with what it goes on.\<close>

definition conn_turn :: "'w env \<Rightarrow> Server \<Rightarrow> nat \<Rightarrow> conn_st \<Rightarrow> sock_event list \<Rightarrow> 'w comet
    \<Rightarrow> ('w comet \<times> (conn_st \<times> sock_event list) option) option" where
  "conn_turn e srv c st evs s =
    (let t = now e (world s) in
     if cl_closed (client_heap s c) then Some (s, None)
     else if cl_lastActive (client_heap s c) + sv_hbTimeout srv * second < t then Some (s, None)
     else case read_turn (sv_maxBodyLen srv) t st evs of
       (Broken, _, _) \<Rightarrow> Some (s, None)
     | (Again, st1, evs1) \<Rightarrow> Some (s, Some (st1, evs1))
     | (Beat, st1, evs1) \<Rightarrow>
         map_option (\<lambda>(s1, _). (s1, Some (st1, evs1))) (handleHeartbeat e c (hdr st1) [] s)
     | (Frame h body, st1, evs1) \<Rightarrow>
         (case funcMap (hd_Type h) of
            None \<Rightarrow> Some (s, Some (st1, evs1))
          | Some handler \<Rightarrow>
              map_option (\<lambda>(s1, ret). (s1, if ret < 0 then None else Some (st1, evs1)))
                (handler e c h body (upd_client c (cl_lastActive_update (\<lambda>_. t)) s))))"

text \<open>The loop for at most \<open>k\<close> turns, \<open>others i\<close> between two turns; \<open>True\<close> when it ended.\<close>

fun conn_loop :: "'w env \<Rightarrow> (nat \<Rightarrow> 'w comet \<Rightarrow> 'w comet) \<Rightarrow> Server \<Rightarrow> nat \<Rightarrow> nat \<Rightarrow> conn_st \<Rightarrow> sock_event list \<Rightarrow> 'w comet
    \<Rightarrow> ('w comet \<times> bool) option" where
  "conn_loop e others srv c 0 st evs s = Some (s, False)"
| "conn_loop e others srv c (Suc k) st evs s =
    (case conn_turn e srv c st evs s of
       None \<Rightarrow> None
     | Some (s1, None) \<Rightarrow> Some (s1, True)
     | Some (s1, Some (st1, evs1)) \<Rightarrow> conn_loop e others srv c k st1 evs1 (others k s1))"

text \<open>\<open>handleConnection\<close>: refused, not admitted, or served until its loop ends, then closed. A loop
  that does not end within \<open>k\<close> turns leaves the client open.\<close>

definition handleConnection :: "'w env \<Rightarrow> (nat \<Rightarrow> 'w comet \<Rightarrow> 'w comet) \<Rightarrow> (nat \<Rightarrow> 'w comet \<Rightarrow> 'w comet)
    \<Rightarrow> nat \<Rightarrow> nat \<Rightarrow> nat \<Rightarrow> Server \<Rightarrow> sock_event list \<Rightarrow> 'w comet \<Rightarrow> (Server \<times> 'w comet) option" where
  "handleConnection e sleep others k worker conn srv evs s =
    (if sv_maxClients srv \<le> sv_clientCount srv
     then Some (srv, s\<lparr>closed_conns := insert conn (closed_conns s)\<rparr>)
     else case waitInit e sleep worker conn srv evs s of
       None \<Rightarrow> None
     | Some (srv1, _, s1, None) \<Rightarrow> Some (srv1, s1\<lparr>closed_conns := insert conn (closed_conns s1)\<rparr>)
     | Some (srv1, evs1, s1, Some c) \<Rightarrow>
         (let srv2 = srv1\<lparr>sv_clientCount := sv_clientCount srv1 + 1\<rparr> in
          case conn_loop e others srv2 c k conn_st0 evs1 s1 of
            None \<Rightarrow> None
          | Some (s2, False) \<Rightarrow> Some (srv2, s2)
          | Some (s2, True) \<Rightarrow>
              Some (srv2\<lparr>sv_clientCount := sv_clientCount srv2 - 1\<rparr>, closeClient e srv2 c s2)))"

end
