(* ===== verification/Server_Spec.thy ===== *)
theory Server_Spec
  imports Server
begin

text \<open>
  What the read loop of \<open>handleConnection\<close> extracts from a byte stream: \<open>parse_stream\<close> is the protocol's
  grammar on the whole stream (heartbeat bytes, frames of a ten-byte header and a body), and
  \<open>read_all_parses\<close> shows that however the stream is cut into reads and whatever deadlines pass in
  between, the loop sees what the grammar says. Then the facts on the blacklist and on closing.
\<close>

subsection \<open>The grammar\<close>

text \<open>A message with an empty body is skipped, as the loop does; \<open>Broken\<close> ends the stream, because a
  header announces too long a body or the stream ends, in a frame or between two.\<close>

function parse_stream :: "32 word \<Rightarrow> string \<Rightarrow> turn list" where
  "parse_stream mx bs =
    (case bs of
       [] \<Rightarrow> [Broken]
     | b # rest \<Rightarrow>
         if b = CHR 0x00 then Beat # parse_stream mx rest
         else if length bs < HEADER_SIZE then [Broken]
         else case Deserialize bs of
           None \<Rightarrow> [Broken]
         | Some h \<Rightarrow>
             if mx < hd_Len h then [Broken]
             else
              let n = unat (hd_Len h); body = drop HEADER_SIZE bs in
              if n = 0 then parse_stream mx body
              else if length body < n then [Broken]
              else Frame h (take n body) # parse_stream mx (drop n body))"
  by pat_completeness auto
termination
  by (relation "measure (length \<circ> snd)") (auto simp: HEADER_SIZE_def)

declare parse_stream.simps [simp del]

text \<open>The bytes of a list of events, up to an error.\<close>

fun ev_bytes :: "sock_event list \<Rightarrow> string" where
  "ev_bytes [] = []"
| "ev_bytes (Bytes bs # es) = bs @ ev_bytes es"
| "ev_bytes (Deadline # es) = ev_bytes es"
| "ev_bytes (ReadError # es) = []"

text \<open>The loop's reading part alone: what its turns yield, \<open>continue\<close> left out.\<close>

fun read_all :: "nat \<Rightarrow> 32 word \<Rightarrow> int \<Rightarrow> conn_st \<Rightarrow> sock_event list \<Rightarrow> turn list" where
  "read_all 0 mx t st evs = []"
| "read_all (Suc k) mx t st evs =
    (case read_turn mx t st evs of
       (Broken, _, _) \<Rightarrow> [Broken]
     | (Again, st1, evs1) \<Rightarrow> read_all k mx t st1 evs1
     | (x, st1, evs1) \<Rightarrow> x # read_all k mx t st1 evs1)"

subsection \<open>Reads\<close>

definition ev_size :: "sock_event list \<Rightarrow> nat" where
  "ev_size evs = length (ev_bytes evs) + length evs"

lemma myRead_Some:
  "myRead n evs = (Some bs, evs') \<Longrightarrow>
    ev_bytes evs = bs @ ev_bytes evs' \<and> length bs \<le> n \<and> (0 < n \<longrightarrow> ev_size evs' < ev_size evs)"
proof (induction n evs arbitrary: bs evs' rule: myRead.induct)
  case (1 n evs)
  show ?case
  proof (cases "n = 0")
    case False
    show ?thesis
    proof (cases evs)
      case (Cons e es)
      show ?thesis
      proof (cases e)
        case (Bytes cs)
        show ?thesis
        proof (cases "n < length cs")
          case True
          then show ?thesis using "1.prems" Cons Bytes False
            by (auto simp: myRead.simps[of n] ev_size_def)
        next
          case le: False
          obtain r es' where m: "myRead (n - length cs) es = (r, es')" by fastforce
          then obtain ds where r: "r = Some ds" "bs = cs @ ds" "evs' = es'"
            using "1.prems" Cons Bytes False le by (auto simp: myRead.simps[of n] split: option.splits)
          have IH: "ev_bytes es = ds @ ev_bytes es' \<and> length ds \<le> n - length cs \<and>
            (0 < n - length cs \<longrightarrow> ev_size es' < ev_size es)"
            using "1.IH"[OF False Cons Bytes le] m r by simp
          moreover have "n - length cs = 0 \<Longrightarrow> es' = es" using m r by (auto simp: myRead.simps[of 0])
          ultimately show ?thesis using Cons Bytes r le by (auto simp: ev_size_def)
        qed
      next
        case Deadline
        then show ?thesis using "1.prems" Cons False by (auto simp: myRead.simps[of n] ev_size_def)
      next
        case ReadError
        then show ?thesis using "1.prems" Cons False by (auto simp: myRead.simps[of n])
      qed
    qed (use "1.prems" False in \<open>auto simp: myRead.simps[of n]\<close>)
  qed (use 1 in \<open>auto simp: myRead.simps[of 0]\<close>)
qed

lemma myRead_None: "myRead n evs = (None, evs') \<Longrightarrow> length (ev_bytes evs) < n"
proof (induction n evs arbitrary: evs' rule: myRead.induct)
  case (1 n evs)
  have n: "n \<noteq> 0" using "1.prems" by (cases "n = 0") (auto simp: myRead.simps[of 0])
  show ?case
  proof (cases evs)
    case (Cons e es)
    show ?thesis
    proof (cases e)
      case (Bytes cs)
      then have le: "\<not> n < length cs" using "1.prems" Cons n by (auto simp: myRead.simps[of n])
      then obtain es' where "myRead (n - length cs) es = (None, es')"
        using "1.prems" Cons Bytes n by (auto simp: myRead.simps[of n] split: prod.splits option.splits)
      from "1.IH"[OF n Cons Bytes le this] show ?thesis using Cons Bytes by simp
    qed (use "1.prems" Cons n in \<open>auto simp: myRead.simps[of n]\<close>)
  qed (use n in simp)
qed

subsection \<open>The loop against the grammar\<close>

text \<open>What a connection's local state has taken from the stream and not handed on.\<close>

definition taken :: "conn_st \<Rightarrow> string" where
  "taken st =
    (if readStep st = 0 then []
     else if readStep st = 1 then take (nRead st) (headBuf st)
     else Serialize (hdr st) @ take (nRead st) (dataBuf st))"

definition conn_ok :: "32 word \<Rightarrow> int \<Rightarrow> conn_st \<Rightarrow> bool" where
  "conn_ok mx t st \<longleftrightarrow>
    length (headBuf st) = HEADER_SIZE \<and>
    (if readStep st = 0 then nRead st = 0
     else if readStep st = 1 then
       0 < nRead st \<and> nRead st < HEADER_SIZE \<and> headBuf st ! 0 \<noteq> CHR 0x00
     else readStep st = 2 \<and> length (dataBuf st) = unat (hd_Len (hdr st)) \<and> nRead st < unat (hd_Len (hdr st)) \<and>
       \<not> mx < hd_Len (hdr st) \<and> Serialize (hdr st) ! 0 \<noteq> CHR 0x00 \<and>
       \<not> startTime st + READ_BODY_TIMEOUT * second < t)"

lemma conn_ok0: "conn_ok mx t conn_st0"
  by (simp add: conn_ok_def conn_st0_def zero_bytes_def)

lemma put_at_full: "length bs = length buf - i \<Longrightarrow> i \<le> length buf \<Longrightarrow> put_at buf i bs = take i buf @ bs"
  by (simp add: put_at_def)

lemma put_at_length: "i + length bs \<le> length buf \<Longrightarrow> length (put_at buf i bs) = length buf"
  by (simp add: put_at_def)

lemma take_put_at: "i \<le> length buf \<Longrightarrow> take (i + length bs) (put_at buf i bs) = take i buf @ bs"
  by (simp add: put_at_def)

lemma put_at_hd: "0 < i \<Longrightarrow> 0 < length buf \<Longrightarrow> put_at buf i bs ! 0 = buf ! 0"
  by (cases buf; cases i) (simp_all add: put_at_def)

text \<open>One step of the grammar on a stream that starts with a header.\<close>

lemma parse_frame:
  assumes "Serialize h ! 0 \<noteq> CHR 0x00" "\<not> mx < hd_Len h" "0 < unat (hd_Len h)"
  shows "parse_stream mx (Serialize h @ body) =
    (if length body < unat (hd_Len h) then [Broken]
     else Frame h (take (unat (hd_Len h)) body) # parse_stream mx (drop (unat (hd_Len h)) body))"
proof -
  obtain b r where b: "Serialize h = b # r" by (cases "Serialize h") (auto simp: Serialize_def)
  have d: "Deserialize (b # r @ body) = Some h" using Deserialize_Serialize[of h body] b by simp
  have l: "length r = 9" using length_Serialize[of h] b by (simp add: HEADER_SIZE_def)
  have "drop HEADER_SIZE (b # r @ body) = body" using l by (simp add: HEADER_SIZE_def)
  then show ?thesis using assms b d l by (subst parse_stream.simps) (simp add: Let_def HEADER_SIZE_def)
qed

lemma parse_empty:
  assumes "Serialize h ! 0 \<noteq> CHR 0x00" "\<not> mx < hd_Len h" "unat (hd_Len h) = 0"
  shows "parse_stream mx (Serialize h @ body) = parse_stream mx body"
proof -
  obtain b r where b: "Serialize h = b # r" by (cases "Serialize h") (auto simp: Serialize_def)
  have d: "Deserialize (b # r @ body) = Some h" using Deserialize_Serialize[of h body] b by simp
  have l: "length r = 9" using length_Serialize[of h] b by (simp add: HEADER_SIZE_def)
  have "drop HEADER_SIZE (b # r @ body) = body" using l by (simp add: HEADER_SIZE_def)
  then show ?thesis using assms b d l by (subst parse_stream.simps) (simp add: Let_def HEADER_SIZE_def)
qed

lemma parse_too_long:
  assumes "Serialize h ! 0 \<noteq> CHR 0x00" "mx < hd_Len h"
  shows "parse_stream mx (Serialize h @ body) = [Broken]"
proof -
  obtain b r where b: "Serialize h = b # r" by (cases "Serialize h") (auto simp: Serialize_def)
  have d: "Deserialize (b # r @ body) = Some h" using Deserialize_Serialize[of h body] b by simp
  then show ?thesis using assms b by (subst parse_stream.simps) (simp add: Let_def)
qed

lemma parse_short: "bs = [] \<or> bs ! 0 \<noteq> CHR 0x00 \<Longrightarrow> length bs < HEADER_SIZE \<Longrightarrow> parse_stream mx bs = [Broken]"
  by (subst parse_stream.simps) (cases bs; simp)

text \<open>What a turn yields, against the grammar on what is left of the stream.\<close>

definition turn_ok :: "32 word \<Rightarrow> int \<Rightarrow> string \<Rightarrow> nat \<Rightarrow> turn \<times> conn_st \<times> sock_event list \<Rightarrow> bool" where
  "turn_ok mx t bs n r \<longleftrightarrow>
    (case r of (x, st1, evs1) \<Rightarrow>
       (case x of
          Broken \<Rightarrow> parse_stream mx bs = [Broken]
        | Again \<Rightarrow> parse_stream mx bs = parse_stream mx (taken st1 @ ev_bytes evs1)
        | x \<Rightarrow> parse_stream mx bs = x # parse_stream mx (taken st1 @ ev_bytes evs1)) \<and>
       (x \<noteq> Broken \<longrightarrow> conn_ok mx t st1 \<and> ev_size evs1 < n))"

lemma read_body_ok:
  assumes ok: "conn_ok mx t st" and s2: "readStep st = 2"
  shows "turn_ok mx t (taken st @ ev_bytes evs) (ev_size evs) (read_body t st evs)"
proof -
  let ?n = "unat (hd_Len (hdr st))"
  have st: "length (dataBuf st) = ?n" "nRead st < ?n" "\<not> mx < hd_Len (hdr st)" "Serialize (hdr st) ! 0 \<noteq> CHR 0x00"
    "\<not> startTime st + READ_BODY_TIMEOUT * second < t" "length (headBuf st) = HEADER_SIZE"
    using ok s2 by (simp_all add: conn_ok_def)
  have tk: "taken st = Serialize (hdr st) @ take (nRead st) (dataBuf st)" using s2 by (simp add: taken_def)
  obtain r evs1 where m: "myRead (length (dataBuf st) - nRead st) evs = (r, evs1)" by fastforce
  have p: "parse_stream mx (taken st @ ev_bytes evs) =
    (if nRead st + length (ev_bytes evs) < ?n then [Broken]
     else Frame (hdr st) (take ?n (take (nRead st) (dataBuf st) @ ev_bytes evs)) #
       parse_stream mx (drop ?n (take (nRead st) (dataBuf st) @ ev_bytes evs)))"
    using parse_frame[OF st(4,3), of "take (nRead st) (dataBuf st) @ ev_bytes evs"] st(1,2) tk by (simp add: min_def)
  show ?thesis
  proof (cases r)
    case None
    then have "length (ev_bytes evs) < ?n - nRead st" using myRead_None[OF m[unfolded None]] st(1) by simp
    then show ?thesis using m None p by (simp add: read_body_def turn_ok_def)
  next
    case (Some bs)
    note ev = myRead_Some[OF m[unfolded Some]]
    show ?thesis
    proof (cases "bs = []")
      case True
      then show ?thesis using m Some ev ok st(1,2) by (simp add: read_body_def turn_ok_def)
    next
      case False
      show ?thesis
      proof (cases "nRead st + length bs < ?n")
        case True
        then show ?thesis using m Some ev False st s2
          by (auto simp: read_body_def turn_ok_def conn_ok_def taken_def put_at_length take_put_at)
      next
        case full: False
        then have l: "nRead st + length bs = ?n" using ev st(1,2) by auto
        then have "put_at (dataBuf st) (nRead st) bs = take (nRead st) (dataBuf st) @ bs"
          using st(1,2) by (intro put_at_full) auto
        then show ?thesis using m Some ev False full p l st
          by (auto simp: read_body_def turn_ok_def conn_ok_def taken_def min_def)
      qed
    qed
  qed
qed

lemma turn_ok_mono: "turn_ok mx t bs n r \<Longrightarrow> n \<le> m \<Longrightarrow> turn_ok mx t bs m r"
  by (auto simp: turn_ok_def split: prod.splits)

lemma read_header_ok:
  assumes ok: "conn_ok mx t st" and s1: "readStep st = 1"
  shows "turn_ok mx t (taken st @ ev_bytes evs) (ev_size evs) (read_header mx t st evs)"
proof -
  have st: "length (headBuf st) = HEADER_SIZE" "0 < nRead st" "nRead st < HEADER_SIZE" "headBuf st ! 0 \<noteq> CHR 0x00"
    using ok s1 by (simp_all add: conn_ok_def)
  have tk: "taken st = take (nRead st) (headBuf st)" using s1 by (simp add: taken_def)
  have tk0: "taken st \<noteq> []" "taken st ! 0 \<noteq> CHR 0x00" using st by (auto simp: tk)
  obtain r evs1 where m: "myRead (length (headBuf st) - nRead st) evs = (r, evs1)" by fastforce
  show ?thesis
  proof (cases r)
    case None
    then have "length (taken st @ ev_bytes evs) < HEADER_SIZE" using myRead_None[OF m[unfolded None]] st by (simp add: tk)
    then show ?thesis using m None parse_short tk0 by (simp add: read_header_def turn_ok_def nth_append)
  next
    case (Some bs)
    note ev = myRead_Some[OF m[unfolded Some]]
    show ?thesis
    proof (cases "bs = []")
      case True
      then show ?thesis using m Some ev ok st by (simp add: read_header_def turn_ok_def)
    next
      case ne: False
      have le: "nRead st + length bs \<le> length (headBuf st)" using ev st by auto
      define buf where "buf = put_at (headBuf st) (nRead st) bs"
      have lb: "length buf = HEADER_SIZE" "buf ! 0 \<noteq> CHR 0x00" "take (nRead st + length bs) buf = taken st @ bs"
        using put_at_length[OF le] put_at_hd[of "nRead st" "headBuf st" bs] take_put_at[of "nRead st" "headBuf st" bs] st tk
        by (simp_all add: buf_def)
      show ?thesis
      proof (cases "nRead st + length bs < HEADER_SIZE")
        case True
        then show ?thesis using m Some ev ne st s1 lb
          by (simp add: read_header_def turn_ok_def conn_ok_def taken_def Let_def flip: buf_def)
      next
        case False
        then have full: "nRead st + length bs = HEADER_SIZE" using ev st by auto
        then have buf: "buf = taken st @ bs" using lb by simp
        obtain h where h: "Deserialize buf = Some h" using Deserialize_total[of buf] lb(1) by auto
        have ser: "Serialize h = buf" using Serialize_Deserialize[OF h lb(1)] .
        have whole: "taken st @ ev_bytes evs = Serialize h @ ev_bytes evs1" using ev buf ser by simp
        show ?thesis
        proof (cases "mx < hd_Len h")
          case True
          then show ?thesis using m Some ne full h parse_too_long[of h mx] ser lb(2) whole
            by (simp add: read_header_def turn_ok_def Let_def flip: buf_def)
        next
          case le: False
          show ?thesis
          proof (cases "0 < hd_Len h")
            case False
            then have z: "unat (hd_Len h) = 0" by (simp add: unat_eq_0 word_gt_0)
            show ?thesis using m Some ne full h le False parse_empty[OF _ le z] ser lb ev whole st
              by (simp add: read_header_def turn_ok_def Let_def conn_ok_def taken_def flip: buf_def)
          next
            case True
            define st2 where "st2 = st\<lparr>headBuf := buf, hdr := h, dataBuf := zero_bytes (unat (hd_Len h)),
              readStep := 2, nRead := 0, startTime := t\<rparr>"
            have "0 < unat (hd_Len h)" using True by (simp add: word_less_nat_alt)
            then have "conn_ok mx t st2" using le ser lb
              by (simp add: conn_ok_def st2_def zero_bytes_def READ_BODY_TIMEOUT_def second_def)
            from read_body_ok[OF this] have "turn_ok mx t (taken st2 @ ev_bytes evs1) (ev_size evs1) (read_body t st2 evs1)"
              by (simp add: st2_def)
            moreover have "taken st2 = Serialize h" by (simp add: taken_def st2_def)
            moreover have "read_header mx t st evs = read_body t st2 evs1"
              using m Some ne full h le True by (simp add: read_header_def Let_def st2_def flip: buf_def)
            ultimately have "turn_ok mx t (taken st @ ev_bytes evs) (ev_size evs1) (read_header mx t st evs)"
              using whole by simp
            then show ?thesis by (rule turn_ok_mono) (use ev st in simp)
          qed
        qed
      qed
    qed
  qed
qed

lemma read_turn_ok:
  assumes ok: "conn_ok mx t st"
  shows "turn_ok mx t (taken st @ ev_bytes evs) (ev_size evs) (read_turn mx t st evs)"
proof (cases "readStep st = 0")
  case True
  have st: "nRead st = 0" "length (headBuf st) = HEADER_SIZE" "taken st = []" using ok True by (simp_all add: conn_ok_def taken_def)
  obtain r evs1 where m: "myRead 1 evs = (r, evs1)" by fastforce
  show ?thesis
  proof (cases r)
    case None
    then have "ev_bytes evs = []" using myRead_None[OF m[unfolded None]] by simp
    then show ?thesis using m None True st parse_short[of "[]" mx] by (simp add: read_turn_def turn_ok_def HEADER_SIZE_def)
  next
    case (Some bs)
    note ev = myRead_Some[OF m[unfolded Some]]
    show ?thesis
    proof (cases bs)
      case Nil
      then show ?thesis using m Some True ev ok st by (simp add: read_turn_def turn_ok_def)
    next
      case (Cons b cs)
      then have cs: "cs = []" using ev by simp
      define st1 where "st1 = st\<lparr>headBuf := put_at (headBuf st) 0 [b], nRead := 1, readStep := 1\<rparr>"
      have hb: "length (put_at (headBuf st) 0 [b]) = HEADER_SIZE" "put_at (headBuf st) 0 [b] ! 0 = b"
        using st by (simp_all add: put_at_length HEADER_SIZE_def) (simp add: put_at_def)
      show ?thesis
      proof (cases "b = CHR 0x00")
        case z: True
        have "parse_stream mx (ev_bytes evs) = Beat # parse_stream mx (ev_bytes evs1)"
          using ev Cons cs z by (simp add: parse_stream.simps[of mx "CHR 0x00 # _"])
        then show ?thesis using m Some Cons cs True ev st hb z
          by (simp add: read_turn_def turn_ok_def conn_ok_def taken_def)
      next
        case False
        have "conn_ok mx t st1" using hb False by (simp add: conn_ok_def st1_def HEADER_SIZE_def)
        from read_header_ok[OF this, of evs1]
        have "turn_ok mx t (taken st1 @ ev_bytes evs1) (ev_size evs1) (read_header mx t st1 evs1)" by (simp add: st1_def)
        moreover have "taken st1 = [b]" using hb by (simp add: taken_def st1_def) (simp add: put_at_def)
        moreover have "read_turn mx t st evs = read_header mx t st1 evs1"
          using m Some Cons cs True False st by (simp add: read_turn_def st1_def Let_def)
        ultimately have "turn_ok mx t (taken st @ ev_bytes evs) (ev_size evs1) (read_turn mx t st evs)"
          using ev Cons cs st by simp
        then show ?thesis by (rule turn_ok_mono) (use ev in simp)
      qed
    qed
  qed
next
  case False
  then have "readStep st = 1 \<or> readStep st = 2" using ok by (simp add: conn_ok_def split: if_split_asm)
  then show ?thesis
  proof
    assume "readStep st = 1"
    then show ?thesis using read_header_ok[OF ok, of evs] by (simp add: read_turn_def)
  next
    assume "readStep st = 2"
    then show ?thesis using read_body_ok[OF ok, of evs] by (simp add: read_turn_def)
  qed
qed

lemma read_all_parses:
  "conn_ok mx t st \<Longrightarrow> ev_size evs < k \<Longrightarrow> read_all k mx t st evs = parse_stream mx (taken st @ ev_bytes evs)"
proof (induction k arbitrary: st evs)
  case (Suc k)
  obtain x st1 evs1 where r: "read_turn mx t st evs = (x, st1, evs1)" by (metis prod_cases3)
  note ok = read_turn_ok[OF Suc.prems(1), of evs, unfolded r turn_ok_def, simplified]
  have IH: "x \<noteq> Broken \<Longrightarrow> read_all k mx t st1 evs1 = parse_stream mx (taken st1 @ ev_bytes evs1)"
    using ok Suc.prems(2) by (intro Suc.IH) auto
  show ?case using ok IH r by (cases x) simp_all
qed simp

subsection \<open>What the handlers get\<close>

text \<open>The frames that \<open>conn_loop\<close> takes from the stream, whatever the clock and the other goroutines do.\<close>

fun conn_trace :: "'w env \<Rightarrow> (nat \<Rightarrow> 'w comet \<Rightarrow> 'w comet) \<Rightarrow> Server \<Rightarrow> nat \<Rightarrow> nat \<Rightarrow> conn_st \<Rightarrow> sock_event list \<Rightarrow> 'w comet
    \<Rightarrow> (Header \<times> string) list" where
  "conn_trace e others srv c 0 st evs s = []"
| "conn_trace e others srv c (Suc k) st evs s =
    (case conn_turn e srv c st evs s of
       Some (s1, Some (st1, evs1)) \<Rightarrow>
         (case read_turn (sv_maxBodyLen srv) (now e (world s)) st evs of
            (Frame h b, _, _) \<Rightarrow> [(h, b)] | _ \<Rightarrow> [])
         @ conn_trace e others srv c k st1 evs1 (others k s1)
     | _ \<Rightarrow> [])"

definition frames :: "turn list \<Rightarrow> (Header \<times> string) list" where
  "frames ts = List.map_filter (\<lambda>x. case x of Frame h b \<Rightarrow> Some (h, b) | _ \<Rightarrow> None) ts"

lemma frames_simps [simp]:
  "frames [] = []" "frames (Frame h b # ts) = (h, b) # frames ts" "frames (Beat # ts) = frames ts"
  "frames (Broken # ts) = frames ts"
  by (simp_all add: frames_def List.map_filter_simps)

text \<open>The clock matters for \<open>Broken\<close> only.\<close>

lemma read_turn_time:
  assumes "read_turn mx t st evs = (x, st1, evs1)" "x \<noteq> Broken"
  obtains st2 where "read_turn mx t (st\<lparr>startTime := t\<rparr>) evs = (x, st2, evs1)" "st2\<lparr>startTime := u\<rparr> = st1\<lparr>startTime := u\<rparr>"
proof -
  have nt: "\<not> t + READ_BODY_TIMEOUT * second < t" by (simp add: READ_BODY_TIMEOUT_def second_def)
  have body: "\<exists>z. read_body t (a\<lparr>startTime := t\<rparr>) es = (x, z, evs1) \<and> z\<lparr>startTime := u\<rparr> = st1\<lparr>startTime := u\<rparr>"
    if "read_body t a es = (x, st1, evs1)" for a es
    using that assms(2) nt by (auto simp: read_body_def Let_def split: prod.splits option.splits if_splits)
  have header: "\<exists>z. read_header mx t (a\<lparr>startTime := t\<rparr>) es = (x, z, evs1) \<and> z\<lparr>startTime := u\<rparr> = st1\<lparr>startTime := u\<rparr>"
    if "read_header mx t a es = (x, st1, evs1)" for a es
    using that assms(2) by (auto simp: read_header_def Let_def split: prod.splits option.splits if_splits)
  have "\<exists>z. read_turn mx t (st\<lparr>startTime := t\<rparr>) evs = (x, z, evs1) \<and> z\<lparr>startTime := u\<rparr> = st1\<lparr>startTime := u\<rparr>"
  proof (cases "readStep st = 0")
    case True
    have comm: "st\<lparr>startTime := t, headBuf := h, nRead := n, readStep := m\<rparr> =
      st\<lparr>headBuf := h, nRead := n, readStep := m, startTime := t\<rparr>" for h n m by (cases st) simp
    show ?thesis using assms True
      header[of "st\<lparr>headBuf := put_at (headBuf st) 0 [b], nRead := Suc (nRead st), readStep := Suc 0\<rparr>" es for b es]
      by (auto simp: read_turn_def Let_def comm split: prod.splits option.splits list.splits if_splits)
  qed (use assms header body in \<open>auto simp: read_turn_def split: if_splits\<close>)
  then show ?thesis using that by blast
qed

lemma taken_time [simp]: "taken (st\<lparr>startTime := t\<rparr>) = taken st"
  by (simp add: taken_def)

lemma conn_ok_time: "conn_ok mx t (st\<lparr>startTime := t\<rparr>) \<longleftrightarrow> conn_ok mx u (st\<lparr>startTime := u\<rparr>)"
  by (simp add: conn_ok_def READ_BODY_TIMEOUT_def second_def)

lemma read_turn_grammar:
  assumes ok: "conn_ok mx u (st\<lparr>startTime := u\<rparr>)" and r: "read_turn mx t st evs = (x, st1, evs1)" and x: "x \<noteq> Broken"
  shows "conn_ok mx u (st1\<lparr>startTime := u\<rparr>)"
    "frames (parse_stream mx (taken st @ ev_bytes evs)) =
      (case x of Frame h b \<Rightarrow> [(h, b)] | _ \<Rightarrow> []) @ frames (parse_stream mx (taken st1 @ ev_bytes evs1))"
proof -
  obtain st2 where st2: "read_turn mx t (st\<lparr>startTime := t\<rparr>) evs = (x, st2, evs1)" "st2\<lparr>startTime := u\<rparr> = st1\<lparr>startTime := u\<rparr>"
    using read_turn_time[OF r x] by metis
  have "conn_ok mx t (st\<lparr>startTime := t\<rparr>)" using ok conn_ok_time by blast
  note t = read_turn_ok[OF this, of evs, unfolded st2(1) turn_ok_def, simplified]
  have ok2: "conn_ok mx t st2" using t x by simp
  then have "conn_ok mx u (st2\<lparr>startTime := u\<rparr>)"
    by (simp add: conn_ok_def READ_BODY_TIMEOUT_def second_def split: if_splits)
  then show "conn_ok mx u (st1\<lparr>startTime := u\<rparr>)" using st2(2) by simp
  have "taken st2 = taken st1" using st2(2) taken_time by metis
  then show "frames (parse_stream mx (taken st @ ev_bytes evs)) =
      (case x of Frame h b \<Rightarrow> [(h, b)] | _ \<Rightarrow> []) @ frames (parse_stream mx (taken st1 @ ev_bytes evs1))"
    using t x by (cases x) simp_all
qed

lemma conn_turn_reads:
  assumes "conn_turn e srv c st evs s = Some (s1, Some (st1, evs1))"
  shows "\<exists>x. read_turn (sv_maxBodyLen srv) (now e (world s)) st evs = (x, st1, evs1) \<and> x \<noteq> Broken"
  using assms by (auto simp: conn_turn_def Let_def split: if_splits prod.splits turn.splits option.splits)

lemma conn_trace_prefix:
  "conn_ok (sv_maxBodyLen srv) u (st\<lparr>startTime := u\<rparr>) \<Longrightarrow>
    \<exists>fs. frames (parse_stream (sv_maxBodyLen srv) (taken st @ ev_bytes evs)) = conn_trace e others srv c k st evs s @ fs"
proof (induction k arbitrary: st evs s)
  case (Suc k)
  show ?case
  proof (cases "\<exists>s1 st1 evs1. conn_turn e srv c st evs s = Some (s1, Some (st1, evs1))")
    case True
    then obtain s1 st1 evs1 where t: "conn_turn e srv c st evs s = Some (s1, Some (st1, evs1))" by blast
    then obtain x where r: "read_turn (sv_maxBodyLen srv) (now e (world s)) st evs = (x, st1, evs1)" "x \<noteq> Broken"
      using conn_turn_reads by blast
    note g = read_turn_grammar[OF Suc.prems r]
    obtain fs where "frames (parse_stream (sv_maxBodyLen srv) (taken st1 @ ev_bytes evs1)) =
      conn_trace e others srv c k st1 evs1 (others k s1) @ fs" using Suc.IH[OF g(1)] by blast
    then show ?thesis using g(2) t r by (cases x) auto
  qed (auto split: option.splits prod.splits)
qed simp

text \<open>A handler gets a body of the announced length, not empty and within the server's limit.\<close>

lemma parse_stream_frames:
  "(h, b) \<in> set (frames (parse_stream mx bs)) \<Longrightarrow> length b = unat (hd_Len h) \<and> b \<noteq> [] \<and> hd_Len h \<le> mx"
proof (induction mx bs rule: parse_stream.induct)
  case (1 mx bs)
  show ?case
  proof (cases bs)
    case (Cons c rest)
    show ?thesis
    proof (cases "c = CHR 0x00")
      case True
      then show ?thesis using "1.IH"(1)[OF Cons True] "1.prems" Cons by (subst (asm) parse_stream.simps) simp
    next
      case False
      then show ?thesis
      proof (cases "Deserialize bs")
        case None
        then show ?thesis using "1.prems" Cons False by (subst (asm) parse_stream.simps) (simp split: if_splits)
      next
        case (Some g)
        then have l: "\<not> length bs < HEADER_SIZE" using Deserialize_short by fastforce
        show ?thesis
        proof (cases "mx < hd_Len g")
          case True
          then show ?thesis using "1.prems" Cons False Some l by (subst (asm) parse_stream.simps) simp
        next
          case le: False
          have eq: "parse_stream mx bs = (if unat (hd_Len g) = 0 then parse_stream mx (drop HEADER_SIZE bs)
              else if length (drop HEADER_SIZE bs) < unat (hd_Len g) then [Broken]
              else Frame g (take (unat (hd_Len g)) (drop HEADER_SIZE bs)) #
                parse_stream mx (drop (unat (hd_Len g)) (drop HEADER_SIZE bs)))"
            using Cons False Some le l by (subst parse_stream.simps) (simp add: Let_def)
          note p = "1.prems"[unfolded eq]
          note ih = "1.IH"(2,3)[OF Cons False l Some le refl refl]
          consider (empty) "unat (hd_Len g) = 0" | (short) "unat (hd_Len g) \<noteq> 0" "length (drop HEADER_SIZE bs) < unat (hd_Len g)"
            | (whole) "unat (hd_Len g) \<noteq> 0" "\<not> length (drop HEADER_SIZE bs) < unat (hd_Len g)" by blast
          then show ?thesis
          proof cases
            case whole
            then have "(h, b) = (g, take (unat (hd_Len g)) (drop HEADER_SIZE bs)) \<or>
              (h, b) \<in> set (frames (parse_stream mx (drop (unat (hd_Len g)) (drop HEADER_SIZE bs))))"
              using p by (simp del: drop_drop)
            then show ?thesis
            proof
              assume hb: "(h, b) = (g, take (unat (hd_Len g)) (drop HEADER_SIZE bs))"
              then have "length b = unat (hd_Len g)" using whole(2) by simp
              moreover from this have "b \<noteq> []" using whole(1) by (metis list.size(3))
              ultimately show ?thesis using hb le by simp
            qed (rule ih(2)[OF whole])
          qed (use p ih(1) in simp_all)
        qed
      qed
    qed
  qed (use "1.prems" in \<open>simp add: parse_stream.simps\<close>)
qed

text \<open>The bytes of a sequence of messages, with heartbeats in front of some, are taken apart again.\<close>

definition msg_bytes :: "nat \<times> Header \<times> string \<Rightarrow> string" where
  "msg_bytes x = (case x of (n, h, b) \<Rightarrow> zero_bytes n @ Serialize h @ b)"

definition sendable :: "32 word \<Rightarrow> nat \<times> Header \<times> string \<Rightarrow> bool" where
  "sendable mx x = (case x of (n, h, b) \<Rightarrow>
     hd_Type h \<noteq> 0 \<and> b \<noteq> [] \<and> length b = unat (hd_Len h) \<and> hd_Len h \<le> mx)"

lemma parse_beats: "frames (parse_stream mx (zero_bytes n @ bs)) = frames (parse_stream mx bs)"
  by (induction n) (simp_all add: zero_bytes_def parse_stream.simps[of mx "_ # _"])

lemma parse_messages:
  "list_all (sendable mx) xs \<Longrightarrow> frames (parse_stream mx (concat (map msg_bytes xs))) = map snd xs"
proof (induction xs)
  case (Cons x xs)
  obtain n h b where x: "x = (n, h, b)" by (metis prod_cases3)
  have b: "hd_Type h \<noteq> 0" "b \<noteq> []" "length b = unat (hd_Len h)" "hd_Len h \<le> mx" using Cons.prems x by (simp_all add: sendable_def)
  have "hd_Type h = of_byte (Serialize h ! 0)" by (simp add: Serialize_def)
  moreover have "of_byte (CHR 0x00) = (0 :: 8 word)" by (simp add: of_byte_def byte_val_def)
  ultimately have nz: "Serialize h ! 0 \<noteq> CHR 0x00" using b(1) by metis
  have pos: "0 < unat (hd_Len h)" using b(2,3) by (metis length_greater_0_conv)
  have "parse_stream mx (Serialize h @ b @ concat (map msg_bytes xs)) =
      Frame h b # parse_stream mx (concat (map msg_bytes xs))"
    using parse_frame[OF nz _ pos, of mx "b @ concat (map msg_bytes xs)"] b by (simp add: not_less)
  moreover have "msg_bytes x = zero_bytes n @ Serialize h @ b" by (simp add: msg_bytes_def x)
  ultimately show ?case using Cons x by (simp add: parse_beats)
qed (simp add: parse_stream.simps)

subsection \<open>The blacklist\<close>

text \<open>The refresh replaces the list only when reading it failed, and then by the empty list.\<close>

lemma checkBlacklist_read_ok:
  assumes "SetMembers (store e) (world s) ''db_black_devices'' = (w, Inr ds)"
  shows "\<exists>s'. checkBlacklist e d t srv s = (srv, s', d \<notin> set (sv_blackDevices srv))"
  using assms by (auto simp: checkBlacklist_def)

lemma checkBlacklist_read_fails:
  assumes "SetMembers (store e) (world s) ''db_black_devices'' = (w, Inl err)"
    and "sv_blackUpdate srv + BLACK_UPDATE_INTERVAL * second < t"
  shows "checkBlacklist e d t srv s = (srv\<lparr>sv_blackDevices := [], sv_blackUpdate := t\<rparr>, s\<lparr>world := w\<rparr>, True)"
  using assms by (simp add: checkBlacklist_def)

end
