(* ===== verification/Comet_Push.thy ===== *)
theory Comet_Push
  imports Server
begin

text \<open>
  \<open>comet/comet.go\<close>: pushing a message to the registrations it is meant for on this server.
  \<open>pushMessage\<close> enqueues it for one registration, \<open>PushMessages\<close> selects the registrations. Pushing to
  a group scans the set of its devices page by page until the next cursor is 0; the loop takes fuel,
  and the result says whether it ended. \<open>None\<close> is a panic.
\<close>

definition pushMessage :: "'w env \<Rightarrow> nat \<Rightarrow> RawMessage \<Rightarrow> Header \<Rightarrow> string \<Rightarrow> 'w comet \<Rightarrow> 'w comet \<times> bool" where
  "pushMessage e a m header body s =
    (if rm_SendId m \<noteq> [] \<and> rm_SendId m \<notin> set (slice_list (slices s) (ai_SendIds (app_info s a))) then (s, False)
     else case Get (DevicesMap s) (ap_DevId (app_heap s a)) of
       None \<Rightarrow> (s, False)
     | Some c \<Rightarrow>
         (let s1 = fst (SendMessage2 c header (Some body) s);
              s2 = do_call (\<lambda>w. MsgStatsSend (store e) w (rm_MsgId m)) s1
          in (do_call (\<lambda>w. AppStatsSend (store e) w (rm_AppId m)) s2, True)))"

definition push_all :: "'w env \<Rightarrow> RawMessage \<Rightarrow> Header \<Rightarrow> string \<Rightarrow> nat list \<Rightarrow> 'w comet \<Rightarrow> 'w comet" where
  "push_all e m header body as s = fold (\<lambda>a s. fst (pushMessage e a m header body s)) as s"

text \<open>A registration that is looked up first, and pushed to when it is there.\<close>

definition push_found :: "'w env \<Rightarrow> RawMessage \<Rightarrow> Header \<Rightarrow> string \<Rightarrow> nat option \<Rightarrow> 'w comet \<Rightarrow> 'w comet" where
  "push_found e m header body x s =
    (case x of None \<Rightarrow> s | Some a \<Rightarrow> fst (pushMessage e a m header body s))"

fun push_users :: "'w env \<Rightarrow> string \<Rightarrow> RawMessage \<Rightarrow> Header \<Rightarrow> string \<Rightarrow> string list \<Rightarrow> 'w comet \<Rightarrow> 'w comet option" where
  "push_users e appId m header body [] s = Some s"
| "push_users e appId m header body (uid # uids) s =
    (case GetAppsByUser e appId uid s of
       None \<Rightarrow> None
     | Some (s1, apps) \<Rightarrow> push_users e appId m header body uids (push_all e m header body apps s1))"

definition push_devices :: "'w env \<Rightarrow> string \<Rightarrow> RawMessage \<Rightarrow> Header \<Rightarrow> string \<Rightarrow> string list \<Rightarrow> 'w comet \<Rightarrow> 'w comet" where
  "push_devices e appId m header body devids s =
    fold (\<lambda>devid s. push_found e m header body (GetAppByDevice e appId devid s) s) devids s"

fun push_group :: "'w env \<Rightarrow> string \<Rightarrow> RawMessage \<Rightarrow> Header \<Rightarrow> string \<Rightarrow> string \<Rightarrow> nat \<Rightarrow> int \<Rightarrow> int \<Rightarrow> 'w comet
    \<Rightarrow> ('w comet \<times> bool) option" where
  "push_group e appId m header body grp 0 start stop s = Some (s, False)"
| "push_group e appId m header body grp (Suc k) start stop s =
    (case GetDevicesByGroup e grp start stop s of
       None \<Rightarrow> None
     | Some (s1, Inl _) \<Rightarrow> Some (s1, True)
     | Some (s1, Inr (nxt, items)) \<Rightarrow>
         (let s2 = push_devices e appId m header body items s1
          in if nxt = 0 then Some (s2, True)
             else push_group e appId m header body grp k nxt (nxt + 1000) s2))"

fun push_groups :: "'w env \<Rightarrow> string \<Rightarrow> RawMessage \<Rightarrow> Header \<Rightarrow> string \<Rightarrow> nat \<Rightarrow> string list \<Rightarrow> 'w comet
    \<Rightarrow> ('w comet \<times> bool) option" where
  "push_groups e appId m header body k [] s = Some (s, True)"
| "push_groups e appId m header body k (g # gs) s =
    (case push_group e appId m header body g k 0 1000 s of
       None \<Rightarrow> None
     | Some (s1, False) \<Rightarrow> Some (s1, False)
     | Some (s1, True) \<Rightarrow> push_groups e appId m header body k gs s1)"

definition PushMessages :: "'w env \<Rightarrow> nat \<Rightarrow> string \<Rightarrow> RawMessage \<Rightarrow> 'w comet \<Rightarrow> ('w comet \<times> bool) option" where
  "PushMessages e k appId m s =
    (let body = push_body appId m;
         header = makeHeader MSG_PUSH 0 (word_of_nat (length body));
         p = rm_PushParams m; ty = rm_PushType m
     in if ty = PUSH_TYPE_ALL then Some (push_all e m header body (GetApps e appId s) s, True)
        else if ty = PUSH_TYPE_REGID then
          Some (fold (\<lambda>regid s. push_found e m header body (GetApp appId regid s) s) (elems (pp_RegId p)) s, True)
        else if ty = PUSH_TYPE_USERID then
          map_option (\<lambda>s. (s, True)) (push_users e appId m header body (elems (pp_UserId p)) s)
        else if ty = PUSH_TYPE_DEVID then Some (push_devices e appId m header body (elems (pp_DevId p)) s, True)
        else if ty = PUSH_TYPE_TOPIC then
          Some (push_all e m header body (GetAppsByTopic e appId (elems (pp_Topic p)) (pp_TopicOp p) s) s, True)
        else if ty = PUSH_TYPE_GROUP then push_groups e appId m header body k (elems (pp_Group p)) s
        else Some (s, True))"

subsection \<open>What a push enqueues\<close>

text \<open>\<open>pushes h b cs s s'\<close>: from \<open>s\<close> to \<open>s'\<close> exactly one job with header \<open>h\<close> and body \<open>b\<close> was put on the
  channel of each client of the list \<open>cs\<close>, in that order; besides the clients' sequence numbers and
  the world nothing else changed.\<close>

definition push_job :: "Header \<Rightarrow> string \<Rightarrow> Job \<Rightarrow> nat option" where
  "push_job header body j =
    (case j of SendJob c h b seq None \<Rightarrow> if h = header \<and> b = Some body then Some c else None | _ \<Rightarrow> None)"

definition pushes :: "Header \<Rightarrow> string \<Rightarrow> nat list \<Rightarrow> 'w comet \<Rightarrow> 'w comet \<Rightarrow> bool" where
  "pushes h b cs s s' \<longleftrightarrow>
    (\<forall>n. \<exists>js. worker_jobs s' n = worker_jobs s n @ js \<and>
       map (push_job h b) js = map Some (filter (\<lambda>c. cl_jobChannel (client_heap s c) = n) cs)) \<and>
    (\<forall>c. (client_heap s' c)\<lparr>cl_nextSeq := 0\<rparr> = (client_heap s c)\<lparr>cl_nextSeq := 0\<rparr>) \<and>
    slices s' = slices s \<and> app_heap s' = app_heap s \<and> app_fresh s' = app_fresh s \<and> regappMap s' = regappMap s \<and>
    client_fresh s' = client_fresh s \<and> DevicesMap s' = DevicesMap s \<and> wire s' = wire s \<and>
    closed_conns s' = closed_conns s \<and> delivered s' = delivered s"

lemma pushes_refl: "pushes h b [] s s"
  by (simp add: pushes_def)

lemma pushes_world: "pushes h b cs s s' \<Longrightarrow> pushes h b cs s (s'\<lparr>world := w\<rparr>)"
  by (simp add: pushes_def)

lemma pushes_client:
  assumes "pushes h b cs s s'"
  shows "cl_jobChannel (client_heap s' c) = cl_jobChannel (client_heap s c)"
    "cl_RegApps (client_heap s' c) = cl_RegApps (client_heap s c)"
proof -
  have "(client_heap s' c)\<lparr>cl_nextSeq := 0\<rparr> = (client_heap s c)\<lparr>cl_nextSeq := 0\<rparr>"
    using assms by (simp add: pushes_def)
  then show "cl_jobChannel (client_heap s' c) = cl_jobChannel (client_heap s c)"
    "cl_RegApps (client_heap s' c) = cl_RegApps (client_heap s c)"
    by (metis Client.select_convs(6,7) Client.surjective Client.update_convs(4))+
qed

lemma pushes_trans:
  assumes "pushes h b cs s t" "pushes h b ds t u"
  shows "pushes h b (cs @ ds) s u"
proof -
  have "\<exists>js. worker_jobs u n = worker_jobs s n @ js \<and>
    map (push_job h b) js = map Some (filter (\<lambda>c. cl_jobChannel (client_heap s c) = n) (cs @ ds))" for n
  proof -
    obtain js ks where "worker_jobs t n = worker_jobs s n @ js"
      "map (push_job h b) js = map Some (filter (\<lambda>c. cl_jobChannel (client_heap s c) = n) cs)"
      "worker_jobs u n = worker_jobs t n @ ks"
      "map (push_job h b) ks = map Some (filter (\<lambda>c. cl_jobChannel (client_heap t c) = n) ds)"
      using assms unfolding pushes_def by blast
    then show ?thesis using pushes_client[OF assms(1)] by (intro exI[of _ "js @ ks"]) simp
  qed
  then show ?thesis using assms by (simp add: pushes_def)
qed

text \<open>One push: one job for the client that the map of devices has for the registration, if its
  sender ids allow the message. \<open>recipients\<close> are these clients for a list of registrations.\<close>

definition recipient :: "'w comet \<Rightarrow> RawMessage \<Rightarrow> nat \<Rightarrow> nat option" where
  "recipient s m a =
    (if rm_SendId m \<noteq> [] \<and> rm_SendId m \<notin> set (slice_list (slices s) (ai_SendIds (app_info s a))) then None
     else Get (DevicesMap s) (ap_DevId (app_heap s a)))"

definition recipients :: "'w comet \<Rightarrow> RawMessage \<Rightarrow> nat list \<Rightarrow> nat list" where
  "recipients s m as = List.map_filter (recipient s m) as"

lemma recipients_simps [simp]:
  "recipients s m [] = []"
  "recipients s m (a # as) = (case recipient s m a of None \<Rightarrow> [] | Some c \<Rightarrow> [c]) @ recipients s m as"
  by (simp_all add: recipients_def List.map_filter_simps split: option.splits)

lemma recipients_append: "recipients s m (as @ bs) = recipients s m as @ recipients s m bs"
  by (simp add: recipients_def List.map_filter_def)

lemma set_recipients: "c \<in> set (recipients s m as) \<longleftrightarrow> (\<exists>a\<in>set as. recipient s m a = Some c)"
  by (induction as) (auto split: option.splits)

lemma pushMessage_pushes:
  "pushes h b (case recipient s m a of None \<Rightarrow> [] | Some c \<Rightarrow> [c]) s (fst (pushMessage e a m h b s))"
proof (cases "recipient s m a")
  case None
  then have "fst (pushMessage e a m h b s) = s"
    by (auto simp: recipient_def pushMessage_def split: option.splits if_splits)
  then show ?thesis using None by (simp add: pushes_refl)
next
  case (Some c)
  define t where "t = put_job c (SendJob c h (Some b) (cl_nextSeq (client_heap s c) + 1) None)
    (upd_client c (cl_nextSeq_update (\<lambda>_. cl_nextSeq (client_heap s c) + 1)) s)"
  obtain w where w: "fst (pushMessage e a m h b s) = t\<lparr>world := w\<rparr>"
    using Some by (auto simp: recipient_def pushMessage_def SendMessage2_def NextSeq_def Let_def t_def split: if_splits)
  have "pushes h b [c] s t" by (auto simp: pushes_def t_def push_job_def)
  then show ?thesis using Some w by (simp add: pushes_world)
qed

lemma recipient_pushes: "pushes h b cs s t \<Longrightarrow> recipient t m a = recipient s m a"
  by (simp add: pushes_def recipient_def)

text \<open>Pushing to a registration found by a lookup, and to a list of them.\<close>

lemma push_found_pushes:
  assumes "pushes h b (recipients s m as) s t"
  shows "pushes h b (recipients s m (as @ (case x of None \<Rightarrow> [] | Some a \<Rightarrow> [a]))) s (push_found e m h b x t)"
proof (cases x)
  case (Some a)
  have "pushes h b (case recipient s m a of None \<Rightarrow> [] | Some c \<Rightarrow> [c]) t (fst (pushMessage e a m h b t))"
    using pushMessage_pushes[of h b t m a e] recipient_pushes[OF assms, of m a] by simp
  from pushes_trans[OF assms this] show ?thesis using Some by (simp add: push_found_def recipients_append)
qed (use assms in \<open>simp add: push_found_def\<close>)

lemma push_all_pushes:
  assumes "pushes h b (recipients s m bs) s t"
  shows "pushes h b (recipients s m (bs @ as)) s (push_all e m h b as t)"
  using assms
proof (induction as arbitrary: bs t)
  case (Cons a as)
  have "pushes h b (recipients s m (bs @ [a])) s (fst (pushMessage e a m h b t))"
    using push_found_pushes[OF Cons.prems, where x = "Some a" and e = e] by (simp add: push_found_def)
  from Cons.IH[OF this] show ?case by (simp add: push_all_def)
qed (simp add: push_all_def)

text \<open>Loops that look a registration up in each turn: \<open>Q\<close> holds of what the lookups return.\<close>

definition pushes_some :: "Header \<Rightarrow> string \<Rightarrow> RawMessage \<Rightarrow> (nat \<Rightarrow> bool) \<Rightarrow> 'w comet \<Rightarrow> 'w comet \<Rightarrow> bool" where
  "pushes_some h b m Q s t \<longleftrightarrow> (\<exists>as. pushes h b (recipients s m as) s t \<and> (\<forall>a\<in>set as. Q a))"

lemma pushes_some_refl: "pushes_some h b m Q s s"
  using pushes_refl[of h b s] by (auto simp: pushes_some_def intro!: exI[of _ "[]"])

lemma pushes_some_world: "pushes_some h b m Q s t \<Longrightarrow> pushes_some h b m Q s (t\<lparr>world := w\<rparr>)"
  by (auto simp: pushes_some_def intro: pushes_world)

lemma push_found_some:
  "pushes_some h b m Q s t \<Longrightarrow> (\<And>a. x = Some a \<Longrightarrow> Q a) \<Longrightarrow> pushes_some h b m Q s (push_found e m h b x t)"
  unfolding pushes_some_def by (elim exE conjE, rule exI, rule conjI, rule push_found_pushes) (auto split: option.splits)

lemma push_all_some:
  "pushes_some h b m Q s t \<Longrightarrow> (\<And>a. a \<in> set as \<Longrightarrow> Q a) \<Longrightarrow> pushes_some h b m Q s (push_all e m h b as t)"
  unfolding pushes_some_def by (elim exE conjE, rule exI, rule conjI, rule push_all_pushes) auto

lemma pushes_some_frame:
  assumes "pushes_some h b m Q s t"
  shows "regappMap t = regappMap s" "DevicesMap t = DevicesMap s" "app_heap t = app_heap s" "slices t = slices s"
    "cl_RegApps (client_heap t c) = cl_RegApps (client_heap s c)"
proof -
  obtain as where p: "pushes h b (recipients s m as) s t" using assms by (auto simp: pushes_some_def)
  show "regappMap t = regappMap s" "DevicesMap t = DevicesMap s" "app_heap t = app_heap s" "slices t = slices s"
    using p by (simp_all add: pushes_def)
  show "cl_RegApps (client_heap t c) = cl_RegApps (client_heap s c)" by (rule pushes_client[OF p])
qed

text \<open>The registrations of this process for the app that a device has.\<close>

definition on_device :: "'w comet \<Rightarrow> string \<Rightarrow> string \<Rightarrow> nat \<Rightarrow> bool" where
  "on_device s appId devid a \<longleftrightarrow>
    (\<exists>c k. Get (DevicesMap s) devid = Some c \<and> cl_RegApps (client_heap s c) k = Some a \<and> ai_AppId (app_info s a) = appId)"

lemma push_devices_some:
  assumes "pushes_some h b m Q s t" "\<And>d a. d \<in> set devids \<Longrightarrow> on_device s appId d a \<Longrightarrow> Q a"
  shows "pushes_some h b m Q s (push_devices e appId m h b devids t)"
  using assms
proof (induction devids arbitrary: t)
  case (Cons d ds)
  have "Q a" if "GetAppByDevice e appId d t = Some a" for a
  proof -
    have "on_device s appId d a"
      using GetAppByDevice_Some[OF that] pushes_some_frame[OF Cons.prems(1)] by (auto simp: on_device_def)
    then show ?thesis using Cons.prems(2)[of d a] by simp
  qed
  then have "pushes_some h b m Q s (push_found e m h b (GetAppByDevice e appId d t) t)"
    using push_found_some[OF Cons.prems(1)] by blast
  moreover have "\<And>d a. d \<in> set ds \<Longrightarrow> on_device s appId d a \<Longrightarrow> Q a"
    using Cons.prems(2) by (meson list.set_intros(2))
  ultimately show ?case using Cons.IH by (simp add: push_devices_def)
qed (simp add: push_devices_def)

lemma push_group_some:
  assumes "pushes_some h b m Q s t" "\<And>d a. on_device s appId d a \<Longrightarrow> Q a"
    "push_group e appId m h b grp k start stop t = Some (t', fin)"
  shows "pushes_some h b m Q s t'"
  using assms(1,3)
proof (induction k arbitrary: start stop t)
  case (Suc k)
  then show ?case
    by (auto simp: GetDevicesByGroup_def Let_def assms(2) split: option.splits sum.splits prod.splits if_splits
        dest!: Suc.IH[rotated] intro!: push_devices_some pushes_some_world)
qed simp

lemma push_groups_some:
  assumes "pushes_some h b m Q s t" "\<And>d a. on_device s appId d a \<Longrightarrow> Q a"
    "push_groups e appId m h b k gs t = Some (t', fin)"
  shows "pushes_some h b m Q s t'"
  using assms(1,3)
proof (induction gs arbitrary: t)
  case (Cons g gs)
  obtain t1 f where g: "push_group e appId m h b g k 0 1000 t = Some (t1, f)"
    using Cons.prems(2) by (auto split: option.splits)
  have "pushes_some h b m Q s t1" by (rule push_group_some[OF Cons.prems(1) assms(2) g])
  then show ?case using Cons g by (cases f) auto
qed simp

lemma user_apps_set: "user_apps rm appId vals = Some as \<Longrightarrow> a \<in> set as \<Longrightarrow> \<exists>k. rm k = Some a"
  by (induction rm appId vals arbitrary: as rule: user_apps.induct) (auto split: if_splits option.splits)

lemma push_users_some:
  assumes "pushes_some h b m Q s t" "\<And>k a. regappMap s k = Some a \<Longrightarrow> Q a"
    "push_users e appId m h b uids t = Some t'"
  shows "pushes_some h b m Q s t'"
  using assms(1,3)
proof (induction uids arbitrary: t)
  case (Cons u us)
  obtain t1 as where g: "GetAppsByUser e appId u t = Some (t1, as)"
    using Cons.prems(2) by (auto split: option.splits)
  then obtain w where t1: "t1 = t\<lparr>world := w\<rparr>" and as: "\<forall>a\<in>set as. \<exists>k. regappMap t k = Some a"
    by (auto simp: GetAppsByUser_def split: sum.splits dest: user_apps_set)
  have "pushes_some h b m Q s (push_all e m h b as t1)"
    using push_all_some[OF pushes_some_world[OF Cons.prems(1), of w], of as e] as t1 assms(2)
      pushes_some_frame(1)[OF Cons.prems(1)] by auto
  then show ?case using Cons g by auto
qed simp

end
