(* ===== verification/Comet_Invariant.thy ===== *)
theory Comet_Invariant
  imports Comet_Push
begin

text \<open>
  The invariant \<open>wf_comet\<close> of the comet server's state and the lemmas that every operation keeps it:
  pointers are allocated, the map of registrations is keyed by their ids, the slices of a
  registration are within their arrays and no two registrations share an array, a device is
  connected at most once (the map of devices has exactly the clients whose connection is open), a
  client's jobs wait on its own worker's channel with the right length in their header, and what a
  connection was sent is a sequence of whole frames, cut off at most at its end and only if the
  client was closed.
\<close>

subsection \<open>The parts\<close>

definition info_arrays :: "AppInfo \<Rightarrow> nat set" where
  "info_arrays i = slice_arrays (ai_Topics i) \<union> slice_arrays (ai_SendIds i)"

definition wf_info :: "string sheap \<Rightarrow> AppInfo \<Rightarrow> bool" where
  "wf_info h i \<longleftrightarrow> wf_slice h (ai_Topics i) \<and> wf_slice h (ai_SendIds i)"

definition wf_apps :: "'w comet \<Rightarrow> bool" where
  "wf_apps s \<longleftrightarrow>
    (\<forall>k a. regappMap s k = Some a \<longrightarrow> a < app_fresh s \<and> ap_RegId (app_heap s a) = k) \<and>
    (\<forall>c k a. c < client_fresh s \<longrightarrow> cl_RegApps (client_heap s c) k = Some a \<longrightarrow> a < app_fresh s) \<and>
    finite (dom (regappMap s)) \<and>
    (\<forall>c < client_fresh s. finite (dom (cl_RegApps (client_heap s c))))"

text \<open>Every registration has its own arrays, one per list.\<close>

definition own_arrays :: "'w comet \<Rightarrow> bool" where
  "own_arrays s \<longleftrightarrow>
    (\<forall>a < app_fresh s. wf_info (slices s) (app_info s a) \<and>
       slice_arrays (ai_Topics (app_info s a)) \<inter> slice_arrays (ai_SendIds (app_info s a)) = {} \<and>
       (\<forall>b < app_fresh s. b \<noteq> a \<longrightarrow> info_arrays (app_info s a) \<inter> info_arrays (app_info s b) = {}))"

definition one_client_per_device :: "'w comet \<Rightarrow> bool" where
  "one_client_per_device s \<longleftrightarrow>
    (\<forall>d c. Get (DevicesMap s) d = Some c \<longrightarrow> c < client_fresh s \<and> cl_devId (client_heap s c) = d) \<and>
    (\<forall>c < client_fresh s. cl_conn (client_heap s c) \<notin> closed_conns s \<longleftrightarrow>
       Get (DevicesMap s) (cl_devId (client_heap s c)) = Some c) \<and>
    (\<forall>c < client_fresh s. \<forall>d < client_fresh s. cl_conn (client_heap s c) = cl_conn (client_heap s d) \<longrightarrow> c = d)"

definition wf_job :: "'w comet \<Rightarrow> nat \<Rightarrow> Job \<Rightarrow> bool" where
  "wf_job s n j =
    (case j of
       SendJob c h body seq reply \<Rightarrow>
         c < client_fresh s \<and> cl_jobChannel (client_heap s c) = n \<and>
         hd_Len h = word_of_nat (case body of None \<Rightarrow> 0 | Some b \<Rightarrow> length b)
     | UpdateJob devid regid info \<Rightarrow> wf_info (slices s) info)"

definition wf_jobs :: "'w comet \<Rightarrow> bool" where
  "wf_jobs s \<longleftrightarrow> (\<forall>n. \<forall>j \<in> set (worker_jobs s n). wf_job s n j)"

definition whole_frame :: "string \<Rightarrow> bool" where
  "whole_frame f \<longleftrightarrow> (\<exists>h body. f = Serialize h @ body \<and> hd_Len h = word_of_nat (length body))"

definition framed :: "bool \<Rightarrow> string \<Rightarrow> bool" where
  "framed closed bs \<longleftrightarrow>
    (\<exists>fs p. bs = concat fs @ p \<and> list_all whole_frame fs \<and>
       (p \<noteq> [] \<longrightarrow> closed \<and> (\<exists>f k. whole_frame f \<and> p = take k f)))"

definition wf_wire :: "'w comet \<Rightarrow> bool" where
  "wf_wire s \<longleftrightarrow>
    (\<forall>c < client_fresh s. framed (cl_closed (client_heap s c)) (wire s (cl_conn (client_heap s c)))) \<and>
    (\<forall>n. (\<forall>c < client_fresh s. cl_conn (client_heap s c) \<noteq> n) \<longrightarrow> wire s n = [])"

definition wf_comet :: "'w comet \<Rightarrow> bool" where
  "wf_comet s \<longleftrightarrow> wf_apps s \<and> own_arrays s \<and> one_client_per_device s \<and> wf_jobs s \<and> wf_wire s"

text \<open>A connection number that no client has and that was not closed.\<close>

definition unused_conn :: "nat \<Rightarrow> 'w comet \<Rightarrow> bool" where
  "unused_conn n s \<longleftrightarrow> n \<notin> closed_conns s \<and> (\<forall>c < client_fresh s. cl_conn (client_heap s c) \<noteq> n)"

lemmas wf_defs = wf_comet_def wf_apps_def own_arrays_def one_client_per_device_def wf_jobs_def wf_wire_def

subsection \<open>Primitive changes\<close>

lemma wf_world [simp]: "wf_comet (s\<lparr>world := w\<rparr>) = wf_comet s"
  by (simp add: wf_defs wf_job_def cong: Job.case_cong)

lemma wf_delivered [simp]: "wf_comet (s\<lparr>delivered := d\<rparr>) = wf_comet s"
  by (simp add: wf_defs wf_job_def cong: Job.case_cong)

lemma unused_conn_simps [simp]:
  "unused_conn n (s\<lparr>world := w\<rparr>) = unused_conn n s" "unused_conn n (s\<lparr>slices := h\<rparr>) = unused_conn n s"
  "unused_conn n (put_job c j s) = unused_conn n s"
  by (simp_all add: unused_conn_def)

text \<open>A change of one client that keeps its identity, its registrations and its closing.\<close>

lemma framed_mono: "framed c bs \<Longrightarrow> (c \<longrightarrow> c') \<Longrightarrow> framed c' bs"
  by (auto simp: framed_def)

lemma wf_upd_client_apps:
  assumes "wf_comet s" "\<And>x. cl_devId (f x) = cl_devId x" "\<And>x. cl_conn (f x) = cl_conn x"
    "\<And>x. cl_jobChannel (f x) = cl_jobChannel x" "\<And>x. cl_closed x \<longrightarrow> cl_closed (f x)"
    "\<And>k a. c < client_fresh s \<Longrightarrow> cl_RegApps (f (client_heap s c)) k = Some a \<Longrightarrow> a < app_fresh s"
    "c < client_fresh s \<Longrightarrow> finite (dom (cl_RegApps (f (client_heap s c))))"
  shows "wf_comet (upd_client c f s)"
proof -
  let ?s = "upd_client c f s"
  have j: "wf_job ?s n j = wf_job s n j" for n j using assms(4) by (simp add: wf_job_def split: Job.split)
  have same: "cl_conn (client_heap ?s d) = cl_conn (client_heap s d)"
    "cl_devId (client_heap ?s d) = cl_devId (client_heap s d)" for d using assms(2,3) by simp_all
  have "wf_jobs ?s" using assms(1) unfolding wf_jobs_def j by (simp add: wf_comet_def wf_jobs_def)
  moreover have "wf_apps ?s" using assms(1,6,7) by (auto simp: wf_comet_def wf_apps_def)
  moreover have "one_client_per_device ?s"
    using assms(1) unfolding one_client_per_device_def same by (simp add: wf_comet_def one_client_per_device_def)
  moreover have "wf_wire ?s"
    using assms(1,5) unfolding wf_wire_def same by (auto simp: wf_comet_def wf_wire_def intro: framed_mono)
  moreover have "own_arrays ?s" using assms(1) by (simp add: wf_comet_def own_arrays_def)
  ultimately show ?thesis by (simp add: wf_comet_def)
qed

lemma wf_upd_client:
  assumes "wf_comet s" "\<And>x. cl_devId (f x) = cl_devId x" "\<And>x. cl_conn (f x) = cl_conn x"
    "\<And>x. cl_RegApps (f x) = cl_RegApps x" "\<And>x. cl_jobChannel (f x) = cl_jobChannel x"
    "\<And>x. cl_closed x \<longrightarrow> cl_closed (f x)"
  shows "wf_comet (upd_client c f s)"
  using assms by (intro wf_upd_client_apps) (auto simp: wf_comet_def wf_apps_def)

lemma wf_put_job:
  assumes "wf_comet s" "wf_job s (cl_jobChannel (client_heap s c)) j"
  shows "wf_comet (put_job c j s)"
proof -
  have j: "wf_job (put_job c j s) n i = wf_job s n i" for n i by (simp add: wf_job_def split: Job.split)
  have "wf_jobs (put_job c j s)" using assms unfolding wf_jobs_def j by (auto simp: wf_comet_def wf_jobs_def)
  then show ?thesis using assms(1) by (simp add: wf_comet_def wf_apps_def own_arrays_def one_client_per_device_def wf_wire_def)
qed

lemma wf_NextSeq: "wf_comet s \<Longrightarrow> NextSeq c s = (s1, q) \<Longrightarrow> wf_comet s1"
  by (auto simp: NextSeq_def Let_def intro: wf_upd_client)

lemma wf_SendMessage:
  assumes "wf_comet s" "c < client_fresh s" "SendMessage c ty q0 body r s = (s', x)"
  shows "wf_comet s'"
proof (cases "r \<noteq> None \<and> MAX_WAITING_MSGS \<le> card (dom (cl_replyChannels (client_heap s c)))")
  case False
  obtain s1 q where q: "(if q0 = 0 then NextSeq c s else (s, q0)) = (s1, q)" by fastforce
  then have "wf_comet s1" "client_fresh s1 = client_fresh s" "cl_jobChannel (client_heap s1 c) = cl_jobChannel (client_heap s c)"
    using assms(1) by (auto simp: NextSeq_def Let_def wf_NextSeq split: if_splits intro: wf_upd_client)
  moreover have "s' = put_job c (SendJob c \<lparr>hd_Type = ty, hd_Ver = 0, hd_Seq = q,
      hd_Len = word_of_nat (case body of None \<Rightarrow> 0 | Some b \<Rightarrow> length b)\<rparr> body q r) s1"
    using assms(3) False unfolding SendMessage_def Let_def q by (auto split: if_splits)
  ultimately show ?thesis using assms(2) by (auto intro!: wf_put_job simp: wf_job_def)
qed (use assms in \<open>simp add: SendMessage_def\<close>)

lemma SendMessage_frame:
  assumes "SendMessage c ty q0 body r s = (s', x)"
  shows "client_fresh s' = client_fresh s" "closed_conns s' = closed_conns s" "DevicesMap s' = DevicesMap s"
    "app_heap s' = app_heap s" "app_fresh s' = app_fresh s" "regappMap s' = regappMap s" "slices s' = slices s"
    "world s' = world s" "cl_RegApps (client_heap s' d) = cl_RegApps (client_heap s d)"
    "cl_devId (client_heap s' d) = cl_devId (client_heap s d)" "cl_conn (client_heap s' d) = cl_conn (client_heap s d)"
  using assms by (auto simp: SendMessage_def NextSeq_def Let_def split: if_splits)

lemma wf_sendReply: "wf_comet s \<Longrightarrow> c < client_fresh s \<Longrightarrow> wf_comet (sendReply c ty q v s)"
  using wf_SendMessage by (metis prod.collapse sendReply_def)

lemma wf_set_regapp:
  assumes "wf_comet s" "\<And>a. x = Some a \<Longrightarrow> a < app_fresh s"
  shows "wf_comet (set_regapp c k x s)"
  unfolding set_regapp_def
  by (rule wf_upd_client_apps) (use assms in \<open>auto simp: wf_comet_def wf_apps_def split: if_splits\<close>)

lemma wf_DelApp: "wf_comet s \<Longrightarrow> wf_comet (DelApp k s)"
proof -
  assume w: "wf_comet s"
  have j: "wf_job (DelApp k s) n i = wf_job s n i" for n i by (simp add: wf_job_def DelApp_def split: Job.split)
  have "wf_jobs (DelApp k s)" using w unfolding wf_jobs_def j by (simp add: wf_comet_def wf_jobs_def DelApp_def)
  then show ?thesis using w by (auto simp: wf_comet_def wf_apps_def own_arrays_def one_client_per_device_def wf_wire_def DelApp_def)
qed

text \<open>A heap that only grew, with its old arrays as long as before.\<close>

definition heap_grows :: "string sheap \<Rightarrow> string sheap \<Rightarrow> bool" where
  "heap_grows h h' \<longleftrightarrow> fresh h \<le> fresh h' \<and> (\<forall>b < fresh h. length (cells h' b) = length (cells h b))"

lemma wf_slice_grows: "heap_grows h h' \<Longrightarrow> wf_slice h t \<Longrightarrow> wf_slice h' t"
  by (cases t) (auto simp: heap_grows_def)

lemma wf_info_grows: "heap_grows h h' \<Longrightarrow> wf_info h i \<Longrightarrow> wf_info h' i"
  by (simp add: wf_info_def wf_slice_grows)

lemma append_slice_grows: "wf_slice h t \<Longrightarrow> append_slice sp z h t xs = (h', t') \<Longrightarrow> heap_grows h h'"
  by (cases t) (auto simp: append_slice_def heap_grows_def Let_def split: if_splits)

lemma delete_at_grows:
  "wf_slice h t \<Longrightarrow> i < slice_len t \<Longrightarrow> delete_at sp z h t i = (h', t') \<Longrightarrow> heap_grows h h'"
  unfolding delete_at_def by (erule append_slice_grows[rotated]) (simp add: reslice_wf)

lemma delete_at_arrays:
  "delete_at sp z h t i = (h', t') \<Longrightarrow> slice_arrays t' \<subseteq> slice_arrays t \<union> {fresh h..<fresh h'}"
  unfolding delete_at_def by (drule append_slice_arrays) (cases t; auto)

lemma make_slice_grows: "make_slice h xs = (h', t') \<Longrightarrow> heap_grows h h'"
  by (auto simp: make_slice_def heap_grows_def)

text \<open>A slice that takes the place of another: it is in the other's array or in arrays nobody has, and no array but
  the other's changed.\<close>

definition new_list :: "string sheap \<Rightarrow> slice \<Rightarrow> string sheap \<Rightarrow> slice \<Rightarrow> bool" where
  "new_list h t h' t' \<longleftrightarrow> heap_grows h h' \<and> wf_slice h' t' \<and> slice_arrays t' \<subseteq> slice_arrays t \<union> {fresh h..<fresh h'} \<and>
     (\<forall>x < fresh h. x \<notin> slice_arrays t \<longrightarrow> cells h' x = cells h x)"

lemma new_list_append: "wf_slice h t \<Longrightarrow> append_slice sp z h t xs = (h', t') \<Longrightarrow> new_list h t h' t'"
  using append_slice_cells[of sp z h t xs h' t']
  by (auto simp: new_list_def append_slice_grows append_slice_wf dest: append_slice_arrays)

lemma new_list_delete: "wf_slice h t \<Longrightarrow> i < slice_len t \<Longrightarrow> delete_at sp z h t i = (h', t') \<Longrightarrow> new_list h t h' t'"
  using delete_at_cells[of sp z h t i h' t']
  by (auto simp: new_list_def delete_at_grows delete_at_wf dest: delete_at_arrays)

lemma new_list_make: "make_slice h xs = (h', t') \<Longrightarrow> new_list h t h' t'"
  by (auto simp: new_list_def make_slice_def heap_grows_def)

lemma info_alloc_frame:
  assumes "info_alloc sp h st = (h', i)"
  shows "heap_grows h h'" "wf_info h' i" "info_arrays i \<subseteq> {fresh h..<fresh h'}"
    "slice_arrays (ai_Topics i) \<inter> slice_arrays (ai_SendIds i) = {}"
proof -
  obtain h1 t u where t: "alloc_strings sp h (si_Topics st) = (h1, t)"
    and u: "alloc_strings sp h1 (si_SendIds st) = (h', u)" and i: "ai_Topics i = t" "ai_SendIds i = u"
    using assms by (auto simp: info_alloc_def Let_def split: prod.splits)
  note ft = alloc_strings_frame[OF t] and fu = alloc_strings_frame[OF u]
  show "heap_grows h h'" using ft fu by (auto simp: heap_grows_def)
  have "wf_slice h' t" by (rule wf_slice_frame[of h1]) (use alloc_strings_opt[OF t] fu in auto)
  then show "wf_info h' i" using alloc_strings_opt[OF u] i by (simp add: wf_info_def)
  show "info_arrays i \<subseteq> {fresh h..<fresh h'}" using ft fu i by (auto simp: info_arrays_def)
  have "slice_arrays t \<subseteq> {..<fresh h1}" "slice_arrays u \<subseteq> {fresh h1..}" using ft fu by auto
  then show "slice_arrays (ai_Topics i) \<inter> slice_arrays (ai_SendIds i) = {}" unfolding i by force
qed

lemma wf_heap_grows:
  assumes "wf_comet s" "heap_grows (slices s) h"
  shows "wf_comet (s\<lparr>slices := h\<rparr>)"
proof -
  have "wf_job (s\<lparr>slices := h\<rparr>) n i" if "wf_job s n i" for n i
    using that wf_info_grows[OF assms(2)] by (auto simp: wf_job_def split: Job.splits)
  then have "wf_jobs (s\<lparr>slices := h\<rparr>)" using assms(1) by (simp add: wf_comet_def wf_jobs_def)
  moreover have "own_arrays (s\<lparr>slices := h\<rparr>)"
    using assms(1) wf_info_grows[OF assms(2)] by (simp add: wf_comet_def own_arrays_def)
  ultimately show ?thesis using assms(1)
    by (simp add: wf_comet_def wf_apps_def one_client_per_device_def wf_wire_def)
qed

lemma info_arrays_less: "wf_info h i \<Longrightarrow> x \<in> info_arrays i \<Longrightarrow> x < fresh h"
  by (auto simp: wf_info_def info_arrays_def dest: wf_slice_arrays)

text \<open>A registration gets other slices, in its own arrays or in arrays nobody has.\<close>

lemma wf_set_app:
  assumes w: "wf_comet s" and a: "a < app_fresh s"
    and i: "wf_info (slices s) (f (app_info s a))"
      "slice_arrays (ai_Topics (f (app_info s a))) \<inter> slice_arrays (ai_SendIds (f (app_info s a))) = {}"
    and new: "\<And>x b. x \<in> info_arrays (f (app_info s a)) \<Longrightarrow> b < app_fresh s \<Longrightarrow> b \<noteq> a \<Longrightarrow> x \<notin> info_arrays (app_info s b)"
  shows "wf_comet (set_app a f s)"
proof -
  have j: "wf_job (set_app a f s) n i = wf_job s n i" for n i by (simp add: wf_job_def set_app_def split: Job.split)
  have "wf_jobs (set_app a f s)" using w unfolding wf_jobs_def j by (simp add: wf_comet_def wf_jobs_def set_app_def)
  moreover have "own_arrays (set_app a f s)"
  proof -
    have o: "own_arrays s" using w by (simp add: wf_comet_def)
    have info: "app_info (set_app a f s) b = (if b = a then f (app_info s a) else app_info s b)" for b
      by (simp add: set_app_def)
    have sl: "slices (set_app a f s) = slices s" "app_fresh (set_app a f s) = app_fresh s" by (simp_all add: set_app_def)
    have old: "wf_info (slices s) (app_info s b)" "slice_arrays (ai_Topics (app_info s b)) \<inter> slice_arrays (ai_SendIds (app_info s b)) = {}"
      "c < app_fresh s \<Longrightarrow> c \<noteq> b \<Longrightarrow> info_arrays (app_info s b) \<inter> info_arrays (app_info s c) = {}"
      if "b < app_fresh s" for b c using o that by (simp_all add: own_arrays_def)
    have new': "info_arrays (f (app_info s a)) \<inter> info_arrays (app_info s b) = {}" if "b < app_fresh s" "b \<noteq> a" for b
      using new that by blast
    show ?thesis unfolding own_arrays_def info sl using i old new' by (simp add: Int_commute)
  qed
  moreover have "wf_apps (set_app a f s)" using w by (auto simp: wf_comet_def wf_apps_def set_app_def)
  ultimately show ?thesis using w by (simp add: wf_comet_def one_client_per_device_def wf_wire_def set_app_def)
qed

lemma set_app_simps [simp]:
  "world (set_app a f s) = world s" "slices (set_app a f s) = slices s" "app_fresh (set_app a f s) = app_fresh s"
  "regappMap (set_app a f s) = regappMap s" "client_heap (set_app a f s) = client_heap s"
  "client_fresh (set_app a f s) = client_fresh s" "DevicesMap (set_app a f s) = DevicesMap s"
  "worker_jobs (set_app a f s) = worker_jobs s" "wire (set_app a f s) = wire s"
  "closed_conns (set_app a f s) = closed_conns s"
  "app_heap (set_app a f s) = (app_heap s)(a := ap_AppInfo_update f (app_heap s a))"
  by (simp_all add: set_app_def)

lemma wf_AddApp:
  assumes w: "wf_comet s" and n: "regappMap s regId = None"
    and i: "wf_info (slices s) info" "slice_arrays (ai_Topics info) \<inter> slice_arrays (ai_SendIds info) = {}"
    and new: "\<And>x b. x \<in> info_arrays info \<Longrightarrow> b < app_fresh s \<Longrightarrow> x \<notin> info_arrays (app_info s b)"
    and A: "AddApp devId regId info s = (s', a)"
  shows "wf_comet s'" "a < app_fresh s'" "client_fresh s' = client_fresh s"
proof -
  have s': "s' = s\<lparr>app_heap := (app_heap s)(app_fresh s := \<lparr>ap_DevId = devId, ap_RegId = regId, ap_AppInfo = info\<rparr>),
     app_fresh := Suc (app_fresh s), regappMap := (regappMap s)(regId \<mapsto> app_fresh s)\<rparr>" "a = app_fresh s"
    using A n by (auto simp: AddApp_new)
  show "a < app_fresh s'" "client_fresh s' = client_fresh s" by (simp_all add: s')
  have j: "wf_job s' m i = wf_job s m i" for m i by (simp add: wf_job_def s' split: Job.split)
  have "wf_jobs s'" using w unfolding wf_jobs_def j by (simp add: wf_comet_def wf_jobs_def s')
  moreover have "own_arrays s'"
  proof -
    have info: "app_info s' b = (if b = app_fresh s then info else app_info s b)" for b by (simp add: s')
    have sl: "slices s' = slices s" "app_fresh s' = Suc (app_fresh s)" by (simp_all add: s')
    have o: "own_arrays s" using w by (simp add: wf_comet_def)
    have old: "wf_info (slices s) (app_info s b)" "slice_arrays (ai_Topics (app_info s b)) \<inter> slice_arrays (ai_SendIds (app_info s b)) = {}"
      "c < app_fresh s \<Longrightarrow> c \<noteq> b \<Longrightarrow> info_arrays (app_info s b) \<inter> info_arrays (app_info s c) = {}"
      if "b < app_fresh s" for b c using o that by (simp_all add: own_arrays_def)
    have new': "info_arrays info \<inter> info_arrays (app_info s b) = {}" if "b < app_fresh s" for b
      using new that by blast
    show ?thesis unfolding own_arrays_def info sl using i old new' by (simp add: Int_commute less_Suc_eq)
  qed
  moreover have "wf_apps s'" using w by (fastforce simp: wf_comet_def wf_apps_def s' less_Suc_eq)
  ultimately show "wf_comet s'" using w by (simp add: wf_comet_def one_client_per_device_def wf_wire_def s')
qed

subsection \<open>Operations on one client\<close>

text \<open>\<open>good s t\<close>: \<open>t\<close> is well formed and has the clients and connections of \<open>s\<close>, and the registrations
  of \<open>s\<close> with the same ids and a last message id that did not go down. Every operation that
  leaves the set of clients alone takes a \<open>t\<close> that is good for \<open>s\<close> to another one.\<close>

definition app_grows :: "RegApp \<Rightarrow> RegApp \<Rightarrow> bool" where
  "app_grows x y \<longleftrightarrow> ap_RegId y = ap_RegId x \<and> ap_DevId y = ap_DevId x \<and>
     ai_AppId (ap_AppInfo y) = ai_AppId (ap_AppInfo x) \<and> ai_UserId (ap_AppInfo y) = ai_UserId (ap_AppInfo x) \<and>
     ai_LastMsgId (ap_AppInfo x) \<le> ai_LastMsgId (ap_AppInfo y)"

lemma app_grows_refl [simp]: "app_grows x x"
  by (simp add: app_grows_def)

lemma app_grows_slices [simp]:
  "app_grows x (ap_AppInfo_update (ai_Topics_update f) y) = app_grows x y"
  "app_grows x (ap_AppInfo_update (ai_SendIds_update f) y) = app_grows x y"
  by (simp_all add: app_grows_def)

lemma app_grows_trans: "app_grows x y \<Longrightarrow> app_grows y z \<Longrightarrow> app_grows x z"
  by (simp add: app_grows_def)

definition good :: "'w comet \<Rightarrow> 'w comet \<Rightarrow> bool" where
  "good s t \<longleftrightarrow> wf_comet t \<and> (\<forall>a < app_fresh s. app_grows (app_heap s a) (app_heap t a)) \<and> client_fresh t = client_fresh s \<and> closed_conns t = closed_conns s \<and>
     DevicesMap t = DevicesMap s \<and> app_fresh s \<le> app_fresh t \<and>
     (\<forall>d. cl_conn (client_heap t d) = cl_conn (client_heap s d) \<and> cl_devId (client_heap t d) = cl_devId (client_heap s d))"

definition apps_grow :: "'w comet \<Rightarrow> 'w comet \<Rightarrow> bool" where
  "apps_grow s t \<longleftrightarrow> app_fresh s \<le> app_fresh t \<and> (\<forall>a < app_fresh s. app_grows (app_heap s a) (app_heap t a))"

lemma apps_grow_refl [simp]: "apps_grow s s"
  by (simp add: apps_grow_def)

lemma apps_grow_trans: "apps_grow s t \<Longrightarrow> apps_grow t u \<Longrightarrow> apps_grow s u"
  unfolding apps_grow_def by (auto intro: app_grows_trans)

lemma good_apps_grow: "good s t \<Longrightarrow> apps_grow s t"
  by (simp add: good_def apps_grow_def)

lemma apps_grow_simps [simp]:
  "apps_grow s (t\<lparr>world := w\<rparr>) = apps_grow s t" "apps_grow (s\<lparr>world := w\<rparr>) t = apps_grow s t"
  "apps_grow s (upd_client c f t) = apps_grow s t" "apps_grow (upd_client c f s) t = apps_grow s t"
  by (simp_all add: apps_grow_def)

lemma good_refl: "wf_comet s \<Longrightarrow> good s s"
  by (simp add: good_def)

lemma good_trans: "good s t \<Longrightarrow> good t u \<Longrightarrow> good s u"
  unfolding good_def by (auto intro: app_grows_trans order_trans)

lemma goodD: "good s t \<Longrightarrow> wf_comet t" "good s t \<Longrightarrow> client_fresh t = client_fresh s"
  by (simp_all add: good_def)

lemma good_unused: "good s t \<Longrightarrow> unused_conn n s \<Longrightarrow> unused_conn n t"
  by (simp add: good_def unused_conn_def)

lemma good_world: "good s t \<Longrightarrow> good s (t\<lparr>world := w\<rparr>)"
  by (simp add: good_def)

lemma good_do_call: "good s t \<Longrightarrow> good s (do_call f t)"
  by (simp add: good_world)

lemma good_upd_client:
  "good s t \<Longrightarrow> (\<And>x. cl_devId (f x) = cl_devId x \<and> cl_conn (f x) = cl_conn x \<and> cl_RegApps (f x) = cl_RegApps x \<and>
     cl_jobChannel (f x) = cl_jobChannel x \<and> (cl_closed x \<longrightarrow> cl_closed (f x))) \<Longrightarrow> good s (upd_client c f t)"
  by (auto simp: good_def intro: wf_upd_client)

lemma good_sendReply: "good s t \<Longrightarrow> c < client_fresh s \<Longrightarrow> good s (sendReply c ty q v t)"
proof -
  assume g: "good s t" "c < client_fresh s"
  obtain t' x where m: "SendMessage c ty q (Some (json_text v)) None t = (t', x)" by (rule prod.exhaust)
  then have "wf_comet t'" using g by (intro wf_SendMessage[OF _ _ m]) (simp_all add: good_def)
  then show ?thesis using g m SendMessage_frame[OF m] by (simp add: good_def sendReply_def)
qed

lemma good_set_regapp:
  "good s t \<Longrightarrow> (\<And>a. x = Some a \<Longrightarrow> a < app_fresh t) \<Longrightarrow> good s (set_regapp c k x t)"
  using wf_set_regapp[of t x c k] by (auto simp: good_def set_regapp_def)

lemma good_DelApp: "good s t \<Longrightarrow> good s (DelApp k t)"
  using wf_DelApp[of t k] by (simp add: good_def DelApp_def)

lemma good_UnregisterApp: "good s t \<Longrightarrow> good s (UnregisterApp e devId regId appId uid t)"
  by (simp add: UnregisterApp_def Let_def good_world good_DelApp)

lemma good_RegisterApp:
  assumes "good s t" "RegisterApp e devId regId appId uid t = (t', r)"
  shows "good s t' \<and> (\<forall>a. r = Some a \<longrightarrow> a < app_fresh t')"
  using assms(2)
proof (cases rule: RegisterApp_cases)
  case (failed w')
  then show ?thesis using assms(1) by (simp add: good_world)
next
  case (ok w' info)
  let ?t = "t\<lparr>world := w'\<rparr>"
  obtain u a where A: "AddApp devId regId info ?t = (u, a)" by fastforce
  have i: "wf_info (slices ?t) info" "slice_arrays (ai_Topics info) \<inter> slice_arrays (ai_SendIds info) = {}" "info_arrays info = {}"
    using ok(3) by (simp_all add: wf_info_def info_arrays_def)
  have "wf_comet u" "a < app_fresh u" "client_fresh u = client_fresh ?t"
    using assms(1) ok(2) i by (intro wf_AddApp[OF _ _ _ _ _ A]; simp add: good_def)+
  moreover have "t' = u" "r = Some a" using A ok by (auto simp: AddApp_new)
  moreover have "closed_conns u = closed_conns t" "DevicesMap u = DevicesMap t" "app_fresh t \<le> app_fresh u" "client_heap u = client_heap t"
    "\<And>b. b < app_fresh t \<Longrightarrow> app_heap u b = app_heap t b"
    using A ok(2) by (auto simp: AddApp_new)
  ultimately show ?thesis using assms(1) by (auto simp: good_def)
qed

lemma good_RegisterApp2:
  assumes "good s t" "RegisterApp2 e devId regId appId uid t = (t', r)"
  shows "good s t' \<and> (\<forall>a. r = Some a \<longrightarrow> a < app_fresh t')"
  using assms(2)
proof (cases rule: RegisterApp2_cases)
  case (failed w')
  then show ?thesis using assms(1) by (simp add: good_world)
next
  case (ok w' h st info)
  let ?t = "t\<lparr>world := w', slices := h\<rparr>"
  obtain u a where A: "AddApp devId regId info ?t = (u, a)" by fastforce
  note al = info_alloc_frame[OF ok(3)]
  have w: "wf_comet ?t" using assms(1) wf_heap_grows[of "t\<lparr>world := w'\<rparr>" h] al(1) by (simp add: good_def)
  have new: "x \<notin> info_arrays (app_info ?t b)" if "x \<in> info_arrays info" "b < app_fresh ?t" for x b
  proof -
    have "wf_info (slices t) (app_info t b)" using assms(1) that(2) by (simp add: good_def wf_comet_def own_arrays_def)
    then have "x \<in> info_arrays (app_info t b) \<Longrightarrow> x < fresh (slices t)" by (rule info_arrays_less)
    then show ?thesis using al(3) that(1) by fastforce
  qed
  have "wf_comet u" "a < app_fresh u" "client_fresh u = client_fresh ?t"
    using w ok(2) al new by (intro wf_AddApp[OF _ _ _ _ _ A]; simp)+
  moreover have "t' = u" "r = Some a" using A ok by (auto simp: AddApp_new)
  moreover have "closed_conns u = closed_conns t" "DevicesMap u = DevicesMap t" "app_fresh t \<le> app_fresh u" "client_heap u = client_heap t"
    "\<And>b. b < app_fresh t \<Longrightarrow> app_heap u b = app_heap t b"
    using A ok(2) by (auto simp: AddApp_new)
  ultimately show ?thesis using assms(1) by (auto simp: good_def)
qed

text \<open>New slices for one of the lists of a registration.\<close>

lemma good_heap: "good s t \<Longrightarrow> heap_grows (slices t) h \<Longrightarrow> good s (t\<lparr>slices := h\<rparr>)"
  using wf_heap_grows[of t h] by (simp add: good_def)

lemma wf_own:
  assumes "wf_comet t" "a < app_fresh t"
  shows "wf_info (slices t) (app_info t a)"
    "slice_arrays (ai_Topics (app_info t a)) \<inter> slice_arrays (ai_SendIds (app_info t a)) = {}"
    "b < app_fresh t \<Longrightarrow> b \<noteq> a \<Longrightarrow> info_arrays (app_info t a) \<inter> info_arrays (app_info t b) = {}"
    "b < app_fresh t \<Longrightarrow> x \<in> info_arrays (app_info t b) \<Longrightarrow> x < fresh (slices t)"
  using assms by (auto simp: wf_comet_def own_arrays_def dest: info_arrays_less)

lemma good_set_Topics:
  assumes g: "good s t" and a: "a < app_fresh t"
    and h: "heap_grows (slices t) h" "wf_slice h x"
      "slice_arrays x \<subseteq> slice_arrays (ai_Topics (app_info t a)) \<union> {fresh (slices t)..<fresh h}"
  shows "good s (set_app a (ai_Topics_update (\<lambda>_. x)) (t\<lparr>slices := h, world := w\<rparr>))"
proof -
  let ?t = "t\<lparr>slices := h, world := w\<rparr>"
  have wt: "wf_comet t" using g by (simp add: good_def)
  note own = wf_own[OF wt a]
  have "wf_comet (set_app a (ai_Topics_update (\<lambda>_. x)) ?t)"
  proof (rule wf_set_app)
    show "wf_comet ?t" using wf_heap_grows[OF wt h(1)] by simp
    show "wf_info (slices ?t) (ai_Topics_update (\<lambda>_. x) (app_info ?t a))"
      using own(1) h by (auto simp: wf_info_def intro: wf_slice_grows)
    show "slice_arrays (ai_Topics (ai_Topics_update (\<lambda>_. x) (app_info ?t a))) \<inter>
        slice_arrays (ai_SendIds (ai_Topics_update (\<lambda>_. x) (app_info ?t a))) = {}"
      using own(2) own(4)[OF a] h(3) by (fastforce simp: info_arrays_def)
    show "y \<notin> info_arrays (app_info ?t b)"
      if "y \<in> info_arrays (ai_Topics_update (\<lambda>_. x) (app_info ?t a))" "b < app_fresh ?t" "b \<noteq> a" for y b
      using own(3)[of b] own(4)[of b y] that h(3) by (fastforce simp: info_arrays_def)
  qed (use a in simp)
  then show ?thesis using g by (simp add: good_def)
qed

lemma good_set_SendIds:
  assumes g: "good s t" and a: "a < app_fresh t"
    and h: "heap_grows (slices t) h" "wf_slice h x"
      "slice_arrays x \<subseteq> slice_arrays (ai_SendIds (app_info t a)) \<union> {fresh (slices t)..<fresh h}"
  shows "good s (set_app a (ai_SendIds_update (\<lambda>_. x)) (t\<lparr>slices := h, world := w\<rparr>))"
proof -
  let ?t = "t\<lparr>slices := h, world := w\<rparr>"
  have wt: "wf_comet t" using g by (simp add: good_def)
  note own = wf_own[OF wt a]
  have "wf_comet (set_app a (ai_SendIds_update (\<lambda>_. x)) ?t)"
  proof (rule wf_set_app)
    show "wf_comet ?t" using wf_heap_grows[OF wt h(1)] by simp
    show "wf_info (slices ?t) (ai_SendIds_update (\<lambda>_. x) (app_info ?t a))"
      using own(1) h by (auto simp: wf_info_def intro: wf_slice_grows)
    show "slice_arrays (ai_Topics (ai_SendIds_update (\<lambda>_. x) (app_info ?t a))) \<inter>
        slice_arrays (ai_SendIds (ai_SendIds_update (\<lambda>_. x) (app_info ?t a))) = {}"
      using own(2) own(4)[OF a] h(3) by (fastforce simp: info_arrays_def)
    show "y \<notin> info_arrays (app_info ?t b)"
      if "y \<in> info_arrays (ai_SendIds_update (\<lambda>_. x) (app_info ?t a))" "b < app_fresh ?t" "b \<noteq> a" for y b
      using own(3)[of b] own(4)[of b y] that h(3) by (fastforce simp: info_arrays_def)
  qed (use a in simp)
  then show ?thesis using g by (simp add: good_def)
qed

lemma good_set_LastMsgId:
  "good s t \<Longrightarrow> a < app_fresh t \<Longrightarrow> ai_LastMsgId (app_info t a) \<le> f (ai_LastMsgId (app_info t a)) \<Longrightarrow>
    good s (set_app a (ai_LastMsgId_update f) t)"
  using wf_set_app[of t a "ai_LastMsgId_update f"] wf_own[of t a]
  by (auto simp: good_def wf_info_def info_arrays_def app_grows_def)

lemma UpdateAppInfo_world: obtains w where "UpdateAppInfo e d r i t = (t\<lparr>world := w\<rparr>, snd (UpdateAppInfo e d r i t))"
  using UpdateAppInfo_state by (metis prod.collapse)

lemma slices_world_commute: "t\<lparr>slices := h, world := w\<rparr> = t\<lparr>world := w, slices := h\<rparr>"
  by simp

subsection \<open>Handlers\<close>

lemma regapp_allocated:
  "good s t \<Longrightarrow> c < client_fresh s \<Longrightarrow> cl_RegApps (client_heap t c) k = Some a \<Longrightarrow> a < app_fresh t"
  by (auto simp: good_def wf_comet_def wf_apps_def)

text \<open>What an operation on the sender ids leaves: the old state, or a new slice that was stored or not.\<close>

lemma addSendids_cases:
  assumes "wf_comet t" "a < app_fresh t" "addSendids e c r a sendids t = (t', ok)"
  obtains (same) "t' = t"
  | (list) h x w where "new_list (slices t) (ai_SendIds (app_info t a)) h x"
      "t' = t\<lparr>slices := h, world := w\<rparr> \<or> t' = set_app a (ai_SendIds_update (\<lambda>_. x)) (t\<lparr>slices := h, world := w\<rparr>)"
proof -
  define cur where "cur = ai_SendIds (app_info t a)"
  define added where "added = filter (\<lambda>s1. s1 \<noteq> [] \<and> s1 \<notin> set (slice_list (slices t) cur)) sendids"
  obtain h x where h: "append_slice (spare e) [] (slices t) cur added = (h, x)" by fastforce
  have w: "wf_slice (slices t) cur" using wf_own(1)[OF assms(1,2)] by (simp add: wf_info_def cur_def)
  define i where "i = (app_info t a)\<lparr>ai_SendIds := x\<rparr>"
  obtain wo ok' where u: "UpdateAppInfo e (cl_devId (client_heap t c)) r i (t\<lparr>slices := h\<rparr>) = (t\<lparr>slices := h, world := wo\<rparr>, ok')"
    using UpdateAppInfo_world by metis
  have "t' = t \<or> t' = t\<lparr>slices := h, world := wo\<rparr> \<or>
    t' = set_app a (ai_SendIds_update (\<lambda>_. x)) (t\<lparr>slices := h, world := wo\<rparr>)"
    using assms(3) h u[unfolded i_def] by (auto simp: addSendids_def Let_def cur_def[symmetric] added_def[symmetric] split: if_splits)
  then show ?thesis using new_list_append[OF w h] same list unfolding cur_def by blast
qed

lemma index_of_less: "index_of x xs = Some i \<Longrightarrow> i < length xs"
  by (induction xs arbitrary: i) (auto split: if_splits)

lemma last_index_of_less: "last_index_of x xs = Some i \<Longrightarrow> i < length xs"
  by (induction xs arbitrary: i) (auto split: if_splits option.splits)

lemma delSendid_cases:
  assumes "wf_comet t" "a < app_fresh t" "delSendid e c r a sendid t = (t', ok)"
  obtains (same) "t' = t"
  | (list) h x w where "new_list (slices t) (ai_SendIds (app_info t a)) h x"
      "t' = t\<lparr>slices := h, world := w\<rparr> \<or> t' = set_app a (ai_SendIds_update (\<lambda>_. x)) (t\<lparr>slices := h, world := w\<rparr>)"
proof (cases "sendid \<noteq> ''[all]'' \<and> index_of sendid (slice_list (slices t) (ai_SendIds (app_info t a))) = None")
  case True
  then show ?thesis using assms same by (auto simp: delSendid_def Let_def)
next
  case found: False
  define cur where "cur = ai_SendIds (app_info t a)"
  have w: "wf_slice (slices t) cur" using wf_own(1)[OF assms(1,2)] by (simp add: wf_info_def cur_def)
  obtain h x where h: "(if sendid \<noteq> ''[all]'' then delete_at (spare e) [] (slices t) cur
      (the (index_of sendid (slice_list (slices t) cur))) else make_slice (slices t) []) = (h, x)" by fastforce
  define i where "i = (app_info t a)\<lparr>ai_SendIds := x\<rparr>"
  obtain wo ok' where u: "UpdateAppInfo e (cl_devId (client_heap t c)) r i (t\<lparr>slices := h\<rparr>) = (t\<lparr>slices := h, world := wo\<rparr>, ok')"
    using UpdateAppInfo_world by metis
  have t': "t' = t\<lparr>slices := h, world := wo\<rparr> \<or>
    t' = set_app a (ai_SendIds_update (\<lambda>_. x)) (t\<lparr>slices := h, world := wo\<rparr>)"
    using assms(3) found unfolding delSendid_def Let_def cur_def[symmetric] h
    by (auto simp: u[unfolded i_def] split: if_splits)
  have "new_list (slices t) cur h x"
  proof (cases "sendid = ''[all]''")
    case True
    then show ?thesis using h new_list_make[of "slices t" "[]" h x] by simp
  next
    case False
    then obtain n where n: "index_of sendid (slice_list (slices t) cur) = Some n"
      using found by (auto simp: cur_def)
    then have "n < slice_len cur" using index_of_less[OF n] slice_len_list[OF w] by simp
    then show ?thesis using new_list_delete[OF w] h False n by auto
  qed
  then show ?thesis using t' list unfolding cur_def by blast
qed

text \<open>Both are good, with either list.\<close>

lemma good_new_sendids:
  assumes g: "good s t" and a: "a < app_fresh t" and l: "new_list (slices t) (ai_SendIds (app_info t a)) h x"
    and t': "t' = t\<lparr>slices := h, world := w\<rparr> \<or> t' = set_app a (ai_SendIds_update (\<lambda>_. x)) (t\<lparr>slices := h, world := w\<rparr>)"
  shows "good s t'"
proof -
  have "good s (t\<lparr>slices := h, world := w\<rparr>)" using l by (intro good_world good_heap g) (simp add: new_list_def)
  moreover have "good s (set_app a (ai_SendIds_update (\<lambda>_. x)) (t\<lparr>slices := h, world := w\<rparr>))"
    using l by (intro good_set_SendIds[OF g a]) (simp_all add: new_list_def)
  ultimately show ?thesis using t' by blast
qed

lemma good_new_topics:
  assumes g: "good s t" and a: "a < app_fresh t" and l: "new_list (slices t) (ai_Topics (app_info t a)) h x"
    and t': "t' = t\<lparr>slices := h, world := w\<rparr> \<or> t' = set_app a (ai_Topics_update (\<lambda>_. x)) (t\<lparr>slices := h, world := w\<rparr>)"
  shows "good s t'"
proof -
  have "good s (t\<lparr>slices := h, world := w\<rparr>)" using l by (intro good_world good_heap g) (simp add: new_list_def)
  moreover have "good s (set_app a (ai_Topics_update (\<lambda>_. x)) (t\<lparr>slices := h, world := w\<rparr>))"
    using l by (intro good_set_Topics[OF g a]) (simp_all add: new_list_def)
  ultimately show ?thesis using t' by blast
qed

lemma good_addSendids: "good s t \<Longrightarrow> a < app_fresh t \<Longrightarrow> addSendids e c r a sendids t = (t', ok) \<Longrightarrow> good s t'"
  using addSendids_cases[OF goodD(1)] good_new_sendids by metis

lemma good_delSendid: "good s t \<Longrightarrow> a < app_fresh t \<Longrightarrow> delSendid e c r a sendid t = (t', ok) \<Longrightarrow> good s t'"
  using delSendid_cases[OF goodD(1)] good_new_sendids by metis

lemma good_Auth: "good s t \<Longrightarrow> auth_token e tok t = Some (t', ok, u) \<Longrightarrow> good s t'"
  by (auto simp: auth_token_def Auth_def good_world split: if_splits option.splits)

definition keeps :: "'w handler \<Rightarrow> bool" where
  "keeps f \<longleftrightarrow> (\<forall>e c h b s s' r. wf_comet s \<longrightarrow> c < client_fresh s \<longrightarrow> f e c h b s = Some (s', r) \<longrightarrow> good s s')"

lemmas reply_defs = register_reply_def unregister_reply_def register2_reply_def unregister2_reply_def
  subscribe_reply_def unsubscribe_reply_def get_topics_reply_def stats_reply_def

lemmas good_intros = good_sendReply good_world good_set_regapp good_UnregisterApp good_DelApp

lemma keeps_Heartbeat: "keeps handleHeartbeat"
  by (auto simp: keeps_def handleHeartbeat_def intro!: good_upd_client good_refl)

lemma keeps_CmdReply: "keeps handleCmdReply"
proof -
  have g: "good s t \<Longrightarrow> good s (t\<lparr>delivered := d\<rparr>)" for s t :: "'a comet" and d by (simp add: good_def)
  show ?thesis
    by (auto simp: keeps_def handleCmdReply_def Let_def split: option.splits intro!: good_upd_client good_refl good_world g)
qed

lemma keeps_GetTopics: "keeps handleGetTopics"
  by (auto simp: keeps_def handleGetTopics_def Let_def reply_defs split: option.splits if_splits prod.splits
      intro!: good_intros good_refl)

lemma keeps_Stats: "keeps handleStats"
  by (auto simp: keeps_def handleStats_def Let_def reply_defs split: option.splits if_splits prod.splits
      intro!: good_intros good_refl)

lemma keeps_Unregister: "keeps handleUnregister"
  by (auto simp: keeps_def handleUnregister_def Let_def reply_defs split: option.splits if_splits prod.splits
      intro!: good_intros good_refl)

lemma keeps_PushReply: "keeps handlePushReply"
  unfolding keeps_def
proof (intro allI impI)
  fix e c h b and s s' :: "'w comet" and r
  assume w: "wf_comet s" "c < client_fresh s" and f: "handlePushReply e c h b s = Some (s', r)"
  show "good s s'"
  proof (cases "s' = s")
    case False
    then obtain a m dev reg where a: "cl_RegApps (client_heap s c) (pr_AppId (fst (Unmarshal dec_PushReplyMessage b zero_PushReplyMessage))) = Some a"
      and m: "\<not> m \<le> ai_LastMsgId (app_info s a)"
      and s': "s' = put_job c (UpdateJob dev reg (app_info (set_app a (ai_LastMsgId_update (\<lambda>_. m)) s) a))
        (set_app a (ai_LastMsgId_update (\<lambda>_. m)) s)"
      using f by (auto simp: handlePushReply_def Let_def split: prod.splits if_splits option.splits)
    let ?t = "set_app a (ai_LastMsgId_update (\<lambda>_. m)) s"
    have a': "a < app_fresh s" using regapp_allocated[OF good_refl[OF w(1)] w(2) a] .
    have g: "good s ?t" by (rule good_set_LastMsgId[OF good_refl[OF w(1)] a']) (use m in simp)
    have "wf_info (slices ?t) (app_info ?t a)" using wf_own(1)[OF goodD(1)[OF g], of a] a' by simp
    then have "wf_comet s'" unfolding s' by (intro wf_put_job goodD(1)[OF g]) (simp add: wf_job_def)
    then show ?thesis using g by (simp add: good_def s')
  qed (use w good_refl in simp)
qed

text \<open>Subscribing and unsubscribing reply in a state as before, or with a new list of topics, stored or not.\<close>

lemma handleSubscribe_cases:
  assumes w: "wf_comet s" "c < client_fresh s" and f: "handleSubscribe e c hr b s = Some (s', r)"
  obtains (same) res app reg where "s' = subscribe_reply c hr res app reg s"
  | (list) k a h x wo t res app reg where "cl_RegApps (client_heap s c) k = Some a"
      "new_list (slices s) (ai_Topics (app_info s a)) h x" "s' = subscribe_reply c hr res app reg t"
      "t = s\<lparr>slices := h, world := wo\<rparr> \<or> t = set_app a (ai_Topics_update (\<lambda>_. x)) (s\<lparr>slices := h, world := wo\<rparr>)"
proof (cases "\<exists>res app reg. s' = subscribe_reply c hr res app reg s")
  case upd0: False
  obtain q valid where q: "Unmarshal dec_SubscribeMessage b zero_SubscribeMessage = (q, valid)" by fastforce
  obtain a where upd: "cl_RegApps (client_heap s c) (sq_AppId q) = Some a"
    using f q upd0 by (fastforce simp: handleSubscribe_def Let_def split: if_splits option.splits)
  have a: "a < app_fresh s" using regapp_allocated[OF good_refl[OF w(1)] w(2) upd] .
  have ws: "wf_slice (slices s) (ai_Topics (app_info s a))" using wf_own(1)[OF w(1) a] by (simp add: wf_info_def)
  obtain h x where h: "append_slice (spare e) [] (slices s) (ai_Topics (app_info s a)) [sq_Topic q] = (h, x)" by fastforce
  define i where "i = (app_info s a)\<lparr>ai_Topics := x\<rparr>"
  obtain wo ok where u: "UpdateAppInfo e (cl_devId (client_heap s c)) (sq_RegId q) i (s\<lparr>slices := h\<rparr>) = (s\<lparr>slices := h, world := wo\<rparr>, ok)"
    using UpdateAppInfo_world by metis
  have "(\<exists>res app reg. s' = subscribe_reply c hr res app reg (s\<lparr>slices := h, world := wo\<rparr>)) \<or>
    (\<exists>res app reg. s' = subscribe_reply c hr res app reg (set_app a (ai_Topics_update (\<lambda>_. x)) (s\<lparr>slices := h, world := wo\<rparr>)))"
    using f q upd0 upd h u[unfolded i_def] by (fastforce simp: handleSubscribe_def Let_def split: if_splits)
  then show ?thesis using list[OF upd new_list_append[OF ws h]] by blast
qed (use same in blast)

lemma handleUnsubscribe_cases:
  assumes w: "wf_comet s" "c < client_fresh s" and f: "handleUnsubscribe e c hr b s = Some (s', r)"
  obtains (same) res app reg where "s' = unsubscribe_reply c hr res app reg s"
  | (list) k a h x wo t res app reg where "cl_RegApps (client_heap s c) k = Some a"
      "new_list (slices s) (ai_Topics (app_info s a)) h x" "s' = unsubscribe_reply c hr res app reg t"
      "t = s\<lparr>slices := h, world := wo\<rparr> \<or> t = set_app a (ai_Topics_update (\<lambda>_. x)) (s\<lparr>slices := h, world := wo\<rparr>)"
proof (cases "\<exists>res app reg. s' = unsubscribe_reply c hr res app reg s")
  case upd0: False
  obtain q valid where q: "Unmarshal dec_UnsubscribeMessage b zero_UnsubscribeMessage = (q, valid)" by fastforce
  obtain a n where upd: "cl_RegApps (client_heap s c) (nq_AppId q) = Some a"
    "last_index_of (nq_Topic q) (slice_list (slices s) (ai_Topics (app_info s a))) = Some n"
    using f q upd0 by (fastforce simp: handleUnsubscribe_def Let_def split: if_splits option.splits)
  have a: "a < app_fresh s" using regapp_allocated[OF good_refl[OF w(1)] w(2) upd(1)] .
  have ws: "wf_slice (slices s) (ai_Topics (app_info s a))" using wf_own(1)[OF w(1) a] by (simp add: wf_info_def)
  have n: "n < slice_len (ai_Topics (app_info s a))" using last_index_of_less[OF upd(2)] slice_len_list[OF ws] by simp
  obtain h x where h: "delete_at (spare e) [] (slices s) (ai_Topics (app_info s a)) n = (h, x)" by fastforce
  define i where "i = (app_info s a)\<lparr>ai_Topics := x\<rparr>"
  obtain wo ok where u: "UpdateAppInfo e (cl_devId (client_heap s c)) (nq_RegId q) i (s\<lparr>slices := h\<rparr>) = (s\<lparr>slices := h, world := wo\<rparr>, ok)"
    using UpdateAppInfo_world by metis
  have "(\<exists>res app reg. s' = unsubscribe_reply c hr res app reg (s\<lparr>slices := h, world := wo\<rparr>)) \<or>
    (\<exists>res app reg. s' = unsubscribe_reply c hr res app reg (set_app a (ai_Topics_update (\<lambda>_. x)) (s\<lparr>slices := h, world := wo\<rparr>)))"
    using f q upd0 upd h u[unfolded i_def] by (fastforce simp: handleUnsubscribe_def Let_def split: if_splits)
  then show ?thesis using list[OF upd(1) new_list_delete[OF ws n h]] by blast
qed (use same in blast)

lemma keeps_Subscribe: "keeps handleSubscribe"
  unfolding keeps_def
proof (intro allI impI)
  fix e c hd b and s s' :: "'w comet" and r
  assume w: "wf_comet s" "c < client_fresh s" and f: "handleSubscribe e c hd b s = Some (s', r)"
  note g0 = good_refl[OF w(1)]
  from w f show "good s s'"
  proof (cases rule: handleSubscribe_cases)
    case (list k a h x wo t res app reg)
    have "good s t" by (rule good_new_topics[OF g0 regapp_allocated[OF g0 w(2) list(1)] list(2,4)])
    then show ?thesis using w(2) by (simp add: list(3) subscribe_reply_def good_sendReply)
  qed (use g0 w(2) in \<open>simp add: subscribe_reply_def good_sendReply\<close>)
qed

lemma keeps_Unsubscribe: "keeps handleUnsubscribe"
  unfolding keeps_def
proof (intro allI impI)
  fix e c hd b and s s' :: "'w comet" and r
  assume w: "wf_comet s" "c < client_fresh s" and f: "handleUnsubscribe e c hd b s = Some (s', r)"
  note g0 = good_refl[OF w(1)]
  from w f show "good s s'"
  proof (cases rule: handleUnsubscribe_cases)
    case (list k a h x wo t res app reg)
    have "good s t" by (rule good_new_topics[OF g0 regapp_allocated[OF g0 w(2) list(1)] list(2,4)])
    then show ?thesis using w(2) by (simp add: list(3) unsubscribe_reply_def good_sendReply)
  qed (use g0 w(2) in \<open>simp add: unsubscribe_reply_def good_sendReply\<close>)
qed

lemma keeps_Register: "keeps handleRegister"
  unfolding keeps_def
proof (intro allI impI)
  fix e c hd b and s s' :: "'w comet" and r
  assume w: "wf_comet s" "c < client_fresh s" and f: "handleRegister e c hd b s = Some (s', r)"
  note g0 = good_refl[OF w(1)]
  have rep: "good s (register_reply c hd res m app pkg reg t)" if "good s t" for res m app pkg reg t
    using that w(2) by (simp add: register_reply_def good_sendReply)
  have auth: "good s (t\<lparr>world := w'\<rparr>) \<Longrightarrow> auth_token e tok (t\<lparr>world := w'\<rparr>) = Some (t', ok, u) \<Longrightarrow> good s t'" for t w' tok t' ok u
    by (rule good_Auth)
  have reg: "good s t \<Longrightarrow> RegisterApp e d g app u t = (t', x) \<Longrightarrow> good s t' \<and> (\<forall>a. x = Some a \<longrightarrow> a < app_fresh t')" for t d g app u t' x
    by (rule good_RegisterApp)
  show "good s s'" using f
    by (auto simp: handleRegister_def Let_def good_world[OF g0] split: option.splits if_splits prod.splits sum.splits bool.splits
        intro!: rep good_set_regapp good_world g0 dest!: auth[rotated] reg[rotated])
qed

lemma keeps_Register2: "keeps handleRegister2"
  unfolding keeps_def
proof (intro allI impI)
  fix e c hd b and s s' :: "'w comet" and r
  assume w: "wf_comet s" "c < client_fresh s" and f: "handleRegister2 e c hd b s = Some (s', r)"
  note g0 = good_refl[OF w(1)]
  have rep: "good s (register2_reply c hd res m app pkg reg t)" if "good s t" for res m app pkg reg t
    using that w(2) by (simp add: register2_reply_def good_sendReply)
  have auth: "good s (t\<lparr>world := w'\<rparr>) \<Longrightarrow> auth_token e tok (t\<lparr>world := w'\<rparr>) = Some (t', ok, u) \<Longrightarrow> good s t'" for t w' tok t' ok u
    by (rule good_Auth)
  have reg: "good s t \<Longrightarrow> RegisterApp e d g app u t = (t', x) \<Longrightarrow> good s t' \<and> (\<forall>a. x = Some a \<longrightarrow> a < app_fresh t')" for t d g app u t' x
    by (rule good_RegisterApp)
  have add: "good s t'" if "addSendids e c g a ids t = (t', ok)" "good s t" "a < app_fresh t" for g a ids t t' ok
    using good_addSendids that by blast
  have sr: "good s (set_regapp c k (Some a) t) \<and> a < app_fresh (set_regapp c k (Some a) t)"
    if "good s t" "a < app_fresh t" for k a t
    using good_set_regapp[OF that(1), of "Some a"] that(2) by (simp add: set_regapp_def)
  show "good s s'" using f
    by (auto simp: handleRegister2_def Let_def good_world[OF g0] sr regapp_allocated w(2)
        split: option.splits if_splits prod.splits bool.splits
        intro!: rep good_world g0 dest!: auth[rotated] reg[rotated] add
        dest: regapp_allocated[OF _ w(2), rotated])
qed

lemma keeps_Unregister2: "keeps handleUnregister2"
  unfolding keeps_def
proof (intro allI impI)
  fix e c hd b and s s' :: "'w comet" and r
  assume w: "wf_comet s" "c < client_fresh s" and f: "handleUnregister2 e c hd b s = Some (s', r)"
  note g0 = good_refl[OF w(1)]
  have rep: "good s (unregister2_reply c hd res m app pkg n t)" if "good s t" for res m app pkg n t
    using that w(2) by (simp add: unregister2_reply_def good_sendReply)
  have del: "good s t'" if "delSendid e c g a x t = (t', ok)" "good s t" "a < app_fresh t" for g a x t t' ok
    using good_delSendid that by blast
  show "good s s'" using f
    by (auto simp: handleUnregister2_def Let_def good_world[OF g0] w(2)
        split: option.splits if_splits prod.splits bool.splits
        intro!: rep good_world g0 good_set_regapp good_UnregisterApp dest!: del
        dest: regapp_allocated[OF g0 w(2)])
qed

lemma funcMap_keeps: "funcMap ty = Some f \<Longrightarrow> keeps f"
  using keeps_Heartbeat keeps_Register keeps_Unregister keeps_PushReply keeps_Subscribe keeps_Unsubscribe
    keeps_GetTopics keeps_CmdReply keeps_Register2 keeps_Unregister2 keeps_Stats
  by (auto simp: funcMap_def split: if_splits)

end
