(* ===== verification/Handlers_Spec.thy ===== *)
theory Handlers_Spec
  imports Comet_Invariant
begin

text \<open>
  What the handlers do. \<open>answers\<close>: a request is answered by exactly one message, of the reply type
  and with the request's sequence number, on the channel of the client's worker. The topic lists and
  sender ids of a registration, read through the slices, change as pure functions on lists say
  (\<open>subscribe_result\<close>, \<open>unsubscribe_result\<close>), and no other registration's lists change.
\<close>

subsection \<open>One answer per request\<close>

text \<open>\<open>quiet s t\<close>: nothing was sent and no client changed but for its registrations.\<close>

definition quiet :: "'w comet \<Rightarrow> 'w comet \<Rightarrow> bool" where
  "quiet s t \<longleftrightarrow> worker_jobs t = worker_jobs s \<and> wire t = wire s \<and> delivered t = delivered s \<and>
     closed_conns t = closed_conns s \<and> DevicesMap t = DevicesMap s \<and>
     (\<forall>d. (client_heap t d)\<lparr>cl_RegApps := Map.empty\<rparr> = (client_heap s d)\<lparr>cl_RegApps := Map.empty\<rparr>)"

lemma quiet_refl [simp]: "quiet s s"
  by (simp add: quiet_def)

lemma quiet_simps [simp]:
  "quiet s (t\<lparr>world := w\<rparr>) = quiet s t" "quiet s (t\<lparr>slices := h\<rparr>) = quiet s t" "quiet s (set_app a f t) = quiet s t"
  "quiet s (DelApp k t) = quiet s t" "quiet s (set_regapp c k x t) = quiet s t"
  by (auto simp: quiet_def DelApp_def set_regapp_def upd_client_def set_app_def)

lemma quiet_RegisterApp: "RegisterApp e d r g u t = (t', x) \<Longrightarrow> quiet s t \<Longrightarrow> quiet s t'"
  by (erule RegisterApp_cases) (auto simp: quiet_def)

lemma quiet_UnregisterApp [simp]: "quiet s t \<Longrightarrow> quiet s (UnregisterApp e d r g u t)"
  by (simp add: UnregisterApp_def Let_def)

lemma quiet_Auth: "auth_token e tok t = Some (t', ok, u) \<Longrightarrow> quiet s t \<Longrightarrow> quiet s t'"
  by (auto simp: auth_token_def Auth_def split: if_splits option.splits)

lemma quiet_UpdateAppInfo: "UpdateAppInfo e d r i t = (t', ok) \<Longrightarrow> quiet s t \<Longrightarrow> quiet s t'"
  using UpdateAppInfo_state by fastforce

lemma quiet_addSendids: "addSendids e c r a ids t = (t', ok) \<Longrightarrow> quiet s t \<Longrightarrow> quiet s t'"
  by (auto simp: addSendids_def Let_def split: if_splits prod.splits dest!: quiet_UpdateAppInfo)

lemma quiet_delSendid: "delSendid e c r a i t = (t', ok) \<Longrightarrow> quiet s t \<Longrightarrow> quiet s t'"
  by (auto simp: delSendid_def Let_def split: if_splits prod.splits dest!: quiet_UpdateAppInfo)

definition answers :: "nat \<Rightarrow> 8 word \<Rightarrow> Header \<Rightarrow> 'w comet \<Rightarrow> 'w comet \<Rightarrow> bool" where
  "answers c ty hr s s' \<longleftrightarrow> (\<exists>v t. quiet s t \<and> s' = sendReply c ty (hd_Seq hr) v t)"

lemma answersI: "quiet s t \<Longrightarrow> answers c ty hr s (sendReply c ty (hd_Seq hr) v t)"
  by (auto simp: answers_def)

text \<open>The answer as a job: with a sequence number of its own the reply carries it.\<close>

lemma answers_job:
  assumes "answers c ty hr s s'" "hd_Seq hr \<noteq> 0"
  shows "\<exists>b. worker_jobs s' = (worker_jobs s)(cl_jobChannel (client_heap s c) :=
      worker_jobs s (cl_jobChannel (client_heap s c)) @ [reply_job c ty (hd_Seq hr) b])"
    "wire s' = wire s" "delivered s' = delivered s"
proof -
  obtain v t where q: "quiet s t" and s': "s' = sendReply c ty (hd_Seq hr) v t" using assms(1) by (auto simp: answers_def)
  have "(client_heap t c)\<lparr>cl_RegApps := Map.empty\<rparr> = (client_heap s c)\<lparr>cl_RegApps := Map.empty\<rparr>" using q by (simp add: quiet_def)
  then have ch: "cl_jobChannel (client_heap t c) = cl_jobChannel (client_heap s c)"
    by (metis Client.select_convs(7) Client.surjective Client.update_convs(6))
  show "\<exists>b. worker_jobs s' = (worker_jobs s)(cl_jobChannel (client_heap s c) :=
      worker_jobs s (cl_jobChannel (client_heap s c)) @ [reply_job c ty (hd_Seq hr) b])" "wire s' = wire s" "delivered s' = delivered s"
    using q ch assms(2) by (auto simp: s' sendReply_def SendMessage_no_reply quiet_def)
qed

lemmas quiet_dests = quiet_RegisterApp quiet_Auth quiet_addSendids quiet_delSendid quiet_UpdateAppInfo

lemma Subscribe_answers: "handleSubscribe e c hr b s = Some (s', r) \<Longrightarrow> answers c MSG_SUBSCRIBE_REPLY hr s s'"
  by (auto simp: handleSubscribe_def Let_def subscribe_reply_def split: if_splits prod.splits option.splits
      intro!: answersI dest!: quiet_UpdateAppInfo[of _ _ _ _ _ _ _ s])

lemma Unsubscribe_answers: "handleUnsubscribe e c hr b s = Some (s', r) \<Longrightarrow> answers c MSG_UNSUBSCRIBE_REPLY hr s s'"
  by (auto simp: handleUnsubscribe_def Let_def unsubscribe_reply_def split: if_splits prod.splits option.splits
      intro!: answersI dest!: quiet_UpdateAppInfo[of _ _ _ _ _ _ _ s])

lemma GetTopics_answers: "handleGetTopics e c hr b s = Some (s', r) \<Longrightarrow> answers c MSG_GET_TOPICS_REPLY hr s s'"
  by (auto simp: handleGetTopics_def Let_def get_topics_reply_def split: if_splits prod.splits option.splits intro!: answersI)

lemma Stats_answers: "handleStats e c hr b s = Some (s', r) \<Longrightarrow> answers c MSG_STATS_REPLY hr s s'"
  by (auto simp: handleStats_def Let_def stats_reply_def split: if_splits prod.splits option.splits intro!: answersI)

lemma Unregister_answers: "handleUnregister e c hr b s = Some (s', r) \<Longrightarrow> answers c MSG_UNREGISTER_REPLY hr s s'"
  by (auto simp: handleUnregister_def Let_def unregister_reply_def split: if_splits prod.splits option.splits intro!: answersI)

lemma Register_answers: "handleRegister e c hr b s = Some (s', r) \<Longrightarrow> answers c MSG_REGISTER_REPLY hr s s'"
  by (auto simp: handleRegister_def Let_def register_reply_def split: if_splits prod.splits option.splits sum.splits bool.splits
      intro!: answersI dest!: quiet_Auth[of _ _ _ _ _ _ s] quiet_RegisterApp[of _ _ _ _ _ _ _ _ s])

lemma Register2_answers: "handleRegister2 e c hr b s = Some (s', r) \<Longrightarrow> answers c MSG_REGISTER2_REPLY hr s s'"
  by (auto simp: handleRegister2_def Let_def register2_reply_def split: if_splits prod.splits option.splits bool.splits
      intro!: answersI dest!: quiet_Auth[of _ _ _ _ _ _ s] quiet_RegisterApp[of _ _ _ _ _ _ _ _ s]
      quiet_addSendids[of _ _ _ _ _ _ _ _ s])

lemma Unregister2_answers: "handleUnregister2 e c hr b s = Some (s', r) \<Longrightarrow> answers c MSG_UNREGISTER2_REPLY hr s s'"
  by (auto simp: handleUnregister2_def Let_def unregister2_reply_def split: if_splits prod.splits option.splits bool.splits
      intro!: answersI quiet_UnregisterApp dest!: quiet_delSendid[of _ _ _ _ _ _ _ _ s])

text \<open>The requests, and the type of the reply: the next number.\<close>

definition requests :: "8 word set" where
  "requests = {MSG_REGISTER, MSG_UNREGISTER, MSG_SUBSCRIBE, MSG_UNSUBSCRIBE, MSG_GET_TOPICS, MSG_REGISTER2,
     MSG_UNREGISTER2, MSG_STATS}"

lemma request_answered:
  assumes "ty \<in> requests" "funcMap ty = Some f" "f e c hr b s = Some (s', r)"
  shows "answers c (ty + 1) hr s s'"
proof -
  have "MSG_REGISTER + 1 = MSG_REGISTER_REPLY" "MSG_UNREGISTER + 1 = MSG_UNREGISTER_REPLY"
    "MSG_SUBSCRIBE + 1 = MSG_SUBSCRIBE_REPLY" "MSG_UNSUBSCRIBE + 1 = MSG_UNSUBSCRIBE_REPLY"
    "MSG_GET_TOPICS + 1 = MSG_GET_TOPICS_REPLY" "MSG_REGISTER2 + 1 = MSG_REGISTER2_REPLY"
    "MSG_UNREGISTER2 + 1 = MSG_UNREGISTER2_REPLY" "MSG_STATS + 1 = MSG_STATS_REPLY"
    by (simp_all add: msg_type_defs)
  moreover have "(ty = MSG_REGISTER \<and> f = handleRegister) \<or> (ty = MSG_UNREGISTER \<and> f = handleUnregister) \<or>
    (ty = MSG_SUBSCRIBE \<and> f = handleSubscribe) \<or> (ty = MSG_UNSUBSCRIBE \<and> f = handleUnsubscribe) \<or>
    (ty = MSG_GET_TOPICS \<and> f = handleGetTopics) \<or> (ty = MSG_REGISTER2 \<and> f = handleRegister2) \<or>
    (ty = MSG_UNREGISTER2 \<and> f = handleUnregister2) \<or> (ty = MSG_STATS \<and> f = handleStats)"
    using assms(1,2) by (auto simp: requests_def funcMap_def msg_type_defs split: if_splits)
  ultimately show ?thesis using assms(3) Register_answers Unregister_answers Subscribe_answers Unsubscribe_answers
    GetTopics_answers Register2_answers Unregister2_answers Stats_answers by metis
qed

subsection \<open>Topics\<close>

definition topics_of :: "'w comet \<Rightarrow> nat \<Rightarrow> string list" where
  "topics_of s a = slice_list (slices s) (ai_Topics (app_info s a))"

definition sendids_of :: "'w comet \<Rightarrow> nat \<Rightarrow> string list" where
  "sendids_of s a = slice_list (slices s) (ai_SendIds (app_info s a))"

text \<open>The lists of the registrations other than \<open>a\<close>, and the sender ids of \<open>a\<close>.\<close>

definition same_lists_but :: "nat \<Rightarrow> 'w comet \<Rightarrow> 'w comet \<Rightarrow> bool" where
  "same_lists_but a s t \<longleftrightarrow>
    (\<forall>b < app_fresh s. sendids_of t b = sendids_of s b \<and> (b \<noteq> a \<longrightarrow> topics_of t b = topics_of s b))"

lemma sendReply_lists [simp]:
  "topics_of (sendReply c ty q v t) a = topics_of t a" "sendids_of (sendReply c ty q v t) a = sendids_of t a"
proof -
  obtain u x where m: "SendMessage c ty q (Some (json_text v)) None t = (u, x)" by (rule prod.exhaust)
  then show "topics_of (sendReply c ty q v t) a = topics_of t a" "sendids_of (sendReply c ty q v t) a = sendids_of t a"
    using SendMessage_frame(4,7)[OF m] by (simp_all add: sendReply_def topics_of_def sendids_of_def)
qed

lemma slice_list_cells: "(\<And>x. x \<in> slice_arrays t \<Longrightarrow> cells h' x = cells h x) \<Longrightarrow> slice_list h' t = slice_list h t"
  by (cases t) simp_all

text \<open>A change of the heap that touches only the arrays of \<open>a\<close>'s topics.\<close>

lemma lists_after_topics_change:
  assumes w: "wf_comet s" and a: "a < app_fresh s"
    and h: "\<And>x. x < fresh (slices s) \<Longrightarrow> x \<notin> slice_arrays (ai_Topics (app_info s a)) \<Longrightarrow> cells h x = cells (slices s) x"
  shows "same_lists_but a s (s\<lparr>slices := h, world := wo\<rparr>)"
    and "same_lists_but a s (set_app a (ai_Topics_update (\<lambda>_. y)) (s\<lparr>slices := h, world := wo\<rparr>))"
proof -
  have other: "slice_list h t = slice_list (slices s) t"
    if "slice_arrays t \<inter> slice_arrays (ai_Topics (app_info s a)) = {}" "\<And>x. x \<in> slice_arrays t \<Longrightarrow> x < fresh (slices s)" for t
    using that h by (intro slice_list_cells) blast
  have l: "x < fresh (slices s)" if "b < app_fresh s" "x \<in> info_arrays (app_info s b)" for b x
    using wf_own(4)[OF w that(1) that] .
  have S: "slice_list h (ai_SendIds (app_info s b)) = slice_list (slices s) (ai_SendIds (app_info s b))" if b: "b < app_fresh s" for b
  proof (rule other)
    show "slice_arrays (ai_SendIds (app_info s b)) \<inter> slice_arrays (ai_Topics (app_info s a)) = {}"
      using wf_own(2)[OF w a] wf_own(3)[OF w a b] by (cases "b = a") (auto simp: info_arrays_def)
  qed (use l[OF b] in \<open>simp add: info_arrays_def\<close>)
  have T: "slice_list h (ai_Topics (app_info s b)) = slice_list (slices s) (ai_Topics (app_info s b))"
    if b: "b < app_fresh s" "b \<noteq> a" for b
  proof (rule other)
    show "slice_arrays (ai_Topics (app_info s b)) \<inter> slice_arrays (ai_Topics (app_info s a)) = {}"
      using wf_own(3)[OF w a b] by (auto simp: info_arrays_def)
  qed (use l[OF b(1)] in \<open>simp add: info_arrays_def\<close>)
  show "same_lists_but a s (s\<lparr>slices := h, world := wo\<rparr>)"
    "same_lists_but a s (set_app a (ai_Topics_update (\<lambda>_. y)) (s\<lparr>slices := h, world := wo\<rparr>))"
    using S T by (auto simp: same_lists_but_def topics_of_def sendids_of_def)
qed

text \<open>Subscribing: the result code and the topics afterwards; \<open>stored\<close> says whether the write of the
  new list to storage succeeded.\<close>

definition subscribe_result :: "string list \<Rightarrow> string \<Rightarrow> bool \<Rightarrow> int \<times> string list" where
  "subscribe_result topics topic stored =
    (if topic \<in> set topics then (0, topics)
     else if 10 \<le> length topics then (5, topics)
     else if stored then (0, topics @ [topic]) else (6, topics))"

definition subscribe_request :: "string \<Rightarrow> SubscribeMessage \<Rightarrow> bool" where
  "subscribe_request body q \<longleftrightarrow> Unmarshal dec_SubscribeMessage body zero_SubscribeMessage = (q, True) \<and>
     sq_AppId q \<noteq> [] \<and> sq_RegId q \<noteq> [] \<and> sq_Topic q \<noteq> [] \<and> length (sq_Topic q) \<le> 64"

lemma handleSubscribe_lists:
  assumes w: "wf_comet s" and c: "c < client_fresh s" and q: "subscribe_request body q"
    and a: "cl_RegApps (client_heap s c) (sq_AppId q) = Some a" "ap_RegId (app_heap s a) = sq_RegId q"
  obtains t stored where
    "handleSubscribe e c hr body s =
      Some (subscribe_reply c hr (fst (subscribe_result (topics_of s a) (sq_Topic q) stored)) (sq_AppId q)
        (if fst (subscribe_result (topics_of s a) (sq_Topic q) stored) = 0 then sq_RegId q else []) t, 0)"
    "topics_of t a = snd (subscribe_result (topics_of s a) (sq_Topic q) stored)" "same_lists_but a s t"
    "quiet s t" "app_fresh t = app_fresh s"
proof -
  have al: "a < app_fresh s" using regapp_allocated[OF good_refl[OF w] c a(1)] .
  define cur where "cur = ai_Topics (app_info s a)"
  have ws: "wf_slice (slices s) cur" using wf_own(1)[OF w al] by (simp add: wf_info_def cur_def)
  have len: "slice_len cur = length (topics_of s a)" using slice_len_list[OF ws] by (simp add: topics_of_def cur_def)
  have mem: "set (slice_list (slices s) cur) = set (topics_of s a)" by (simp add: topics_of_def cur_def)
  obtain h x where h: "append_slice (spare e) [] (slices s) cur [sq_Topic q] = (h, x)" by fastforce
  define i where "i = (app_info s a)\<lparr>ai_Topics := x\<rparr>"
  obtain wo ok where u: "UpdateAppInfo e (cl_devId (client_heap s c)) (sq_RegId q) i (s\<lparr>slices := h\<rparr>) = (s\<lparr>slices := h, world := wo\<rparr>, ok)"
    using UpdateAppInfo_world by metis
  define t where "t = (if sq_Topic q \<in> set (topics_of s a) \<or> 10 \<le> length (topics_of s a) then s
    else if ok then set_app a (ai_Topics_update (\<lambda>_. x)) (s\<lparr>slices := h, world := wo\<rparr>) else s\<lparr>slices := h, world := wo\<rparr>)"
  have old: "slice_list h cur = slice_list (slices s) cur" by (rule append_slice_old[OF ws h])
  have new: "slice_list h x = slice_list (slices s) cur @ [sq_Topic q]" by (rule append_slice_list[OF ws h])
  have ch: "\<And>y. y < fresh (slices s) \<Longrightarrow> y \<notin> slice_arrays cur \<Longrightarrow> cells h y = cells (slices s) y"
    using append_slice_cells[OF h] by blast
  show ?thesis
  proof (rule that[of ok t])
    show "handleSubscribe e c hr body s =
      Some (subscribe_reply c hr (fst (subscribe_result (topics_of s a) (sq_Topic q) ok)) (sq_AppId q)
        (if fst (subscribe_result (topics_of s a) (sq_Topic q) ok) = 0 then sq_RegId q else []) t, 0)"
      using q a h u[unfolded i_def] len mem
      by (auto simp: handleSubscribe_def subscribe_request_def Let_def subscribe_result_def t_def simp flip: cur_def)
    show "topics_of t a = snd (subscribe_result (topics_of s a) (sq_Topic q) ok)"
      using old new by (auto simp: t_def subscribe_result_def topics_of_def cur_def)
    show "same_lists_but a s t"
      using lists_after_topics_change[OF w al, where h = h and wo = wo] ch by (auto simp: t_def cur_def same_lists_but_def[of a s s])
    show "quiet s t" "app_fresh t = app_fresh s" by (simp_all add: t_def)
  qed
qed

text \<open>Unsubscribing. The list shrinks in its own array before it is stored, so when the write fails
  the registration keeps the old length over the shifted array: the topic is gone and the last one
  stands there twice.\<close>

definition unsubscribe_result :: "string list \<Rightarrow> string \<Rightarrow> bool \<Rightarrow> int \<times> string list" where
  "unsubscribe_result topics topic stored =
    (case last_index_of topic topics of
       None \<Rightarrow> (0, topics)
     | Some n \<Rightarrow>
         if stored then (0, take n topics @ drop (Suc n) topics)
         else (4, take n topics @ drop (Suc n) topics @ [last topics]))"

definition unsubscribe_request :: "string \<Rightarrow> UnsubscribeMessage \<Rightarrow> bool" where
  "unsubscribe_request body q \<longleftrightarrow> Unmarshal dec_UnsubscribeMessage body zero_UnsubscribeMessage = (q, True) \<and>
     nq_AppId q \<noteq> [] \<and> nq_RegId q \<noteq> []"

lemma handleUnsubscribe_lists:
  assumes w: "wf_comet s" and c: "c < client_fresh s" and q: "unsubscribe_request body q"
    and a: "cl_RegApps (client_heap s c) (nq_AppId q) = Some a" "ap_RegId (app_heap s a) = nq_RegId q"
  obtains t stored where
    "handleUnsubscribe e c hr body s =
      Some (unsubscribe_reply c hr (fst (unsubscribe_result (topics_of s a) (nq_Topic q) stored)) (nq_AppId q)
        (if fst (unsubscribe_result (topics_of s a) (nq_Topic q) stored) = 0 then nq_RegId q else []) t, 0)"
    "topics_of t a = snd (unsubscribe_result (topics_of s a) (nq_Topic q) stored)" "same_lists_but a s t"
    "quiet s t" "app_fresh t = app_fresh s"
proof (cases "last_index_of (nq_Topic q) (topics_of s a)")
  case None
  then show ?thesis using q a that[of True s]
    by (auto simp: handleUnsubscribe_def unsubscribe_request_def Let_def unsubscribe_result_def topics_of_def same_lists_but_def)
next
  case (Some n)
  have al: "a < app_fresh s" using regapp_allocated[OF good_refl[OF w] c a(1)] .
  define cur where "cur = ai_Topics (app_info s a)"
  have ws: "wf_slice (slices s) cur" using wf_own(1)[OF w al] by (simp add: wf_info_def cur_def)
  have tp: "slice_list (slices s) cur = topics_of s a" by (simp add: topics_of_def cur_def)
  have n: "n < slice_len cur" using last_index_of_less[OF Some] slice_len_list[OF ws] tp by simp
  obtain h x where h: "delete_at (spare e) [] (slices s) cur n = (h, x)" by fastforce
  define i where "i = (app_info s a)\<lparr>ai_Topics := x\<rparr>"
  obtain wo ok where u: "UpdateAppInfo e (cl_devId (client_heap s c)) (nq_RegId q) i (s\<lparr>slices := h\<rparr>) = (s\<lparr>slices := h, world := wo\<rparr>, ok)"
    using UpdateAppInfo_world by metis
  define t where "t = (if ok then set_app a (ai_Topics_update (\<lambda>_. x)) (s\<lparr>slices := h, world := wo\<rparr>) else s\<lparr>slices := h, world := wo\<rparr>)"
  have old: "slice_list h cur = take n (topics_of s a) @ drop (Suc n) (topics_of s a) @ [last (topics_of s a)]"
    using delete_at_in_place(3)[OF ws n h] tp by simp
  have new: "slice_list h x = take n (topics_of s a) @ drop (Suc n) (topics_of s a)"
    using delete_at_list[OF ws n h] tp by simp
  have ch: "\<And>y. y < fresh (slices s) \<Longrightarrow> y \<notin> slice_arrays cur \<Longrightarrow> cells h y = cells (slices s) y"
    using delete_at_cells[OF h] by blast
  show ?thesis
  proof (rule that[of ok t])
    show "handleUnsubscribe e c hr body s =
      Some (unsubscribe_reply c hr (fst (unsubscribe_result (topics_of s a) (nq_Topic q) ok)) (nq_AppId q)
        (if fst (unsubscribe_result (topics_of s a) (nq_Topic q) ok) = 0 then nq_RegId q else []) t, 0)"
      using q a h u[unfolded i_def] Some tp
      by (auto simp: handleUnsubscribe_def unsubscribe_request_def Let_def unsubscribe_result_def t_def simp flip: cur_def)
    show "topics_of t a = snd (unsubscribe_result (topics_of s a) (nq_Topic q) ok)"
      using old new Some by (auto simp: t_def unsubscribe_result_def topics_of_def cur_def)
    show "same_lists_but a s t"
      using lists_after_topics_change[OF w al, where h = h and wo = wo] ch by (auto simp: t_def cur_def)
    show "quiet s t" "app_fresh t = app_fresh s" by (simp_all add: t_def)
  qed
qed

end
