(* ===== verification/Comet_Steps.thy ===== *)
theory Comet_Steps
  imports Comet_Invariant
begin

text \<open>
  The comet server as a step relation: a connection is admitted, a turn of a read loop runs a handler,
  a worker does a job, a message is pushed, a command is sent to a device and its wait ends, a
  connection is closed, time passes. Every step keeps \<open>wf_comet\<close>, so it holds in every state that the
  server reaches.
\<close>

subsection \<open>Workers\<close>

lemma whole_frame_bytes:
  "hd_Len h = word_of_nat (case body of None \<Rightarrow> 0 | Some b \<Rightarrow> length b) \<Longrightarrow> whole_frame (frame_bytes h seq body)"
  unfolding whole_frame_def frame_bytes_def
  by (rule exI[of _ "h\<lparr>hd_Seq := seq\<rparr>"], rule exI[of _ "case body of None \<Rightarrow> [] | Some b \<Rightarrow> b"])
    (auto split: option.splits)

lemma framed_append: "framed False bs \<Longrightarrow> whole_frame f \<Longrightarrow> framed c (bs @ f)"
  unfolding framed_def by (elim exE, rename_tac fs p, rule_tac x = "fs @ [f]" in exI, rule_tac x = "[]" in exI) auto

lemma framed_cut: "framed False bs \<Longrightarrow> whole_frame f \<Longrightarrow> framed True (bs @ take k f)"
  unfolding framed_def by (elim exE, rename_tac fs p, rule_tac x = fs in exI, rule_tac x = "take k f" in exI) auto

lemma wf_write:
  assumes w: "wf_comet s" and c: "c < client_fresh s"
    and f: "framed (cl_closed (client_heap s c)) (wire s (cl_conn (client_heap s c)) @ bs)"
  shows "wf_comet (s\<lparr>world := w, wire := (wire s)(cl_conn (client_heap s c) := wire s (cl_conn (client_heap s c)) @ bs)\<rparr>)"
proof -
  let ?s = "s\<lparr>world := w, wire := (wire s)(cl_conn (client_heap s c) := wire s (cl_conn (client_heap s c)) @ bs)\<rparr>"
  have j: "wf_job ?s n i = wf_job s n i" for n i by (simp add: wf_job_def split: Job.split)
  have "wf_jobs ?s" using w unfolding wf_jobs_def j by (simp add: wf_comet_def wf_jobs_def)
  moreover have "wf_wire ?s" using w c f by (auto simp: wf_comet_def wf_wire_def one_client_per_device_def)
  ultimately show ?thesis using w
    by (simp add: wf_comet_def wf_apps_def own_arrays_def one_client_per_device_def)
qed

lemma wf_SendJob:
  assumes w: "wf_comet s" and j: "wf_job s n (SendJob c h body seq reply)"
  shows "wf_comet (SendJob_Do e c h body seq reply s)"
proof (cases "cl_closed (client_heap s c)")
  case False
  have c: "c < client_fresh s" and fr: "whole_frame (frame_bytes h seq body)"
    using j whole_frame_bytes by (auto simp: wf_job_def)
  have op: "framed False (wire s (cl_conn (client_heap s c)))"
    using w c False by (auto simp: wf_comet_def wf_wire_def)
  let ?conn = "cl_conn (client_heap s c)"
  show ?thesis using False
  proof (cases rule: SendJob_Do_cases[where e = e and h = h and body = body and seq = seq and reply = reply])
    case (sent w' f)
    have "wf_comet (s\<lparr>world := w', wire := (wire s)(?conn := wire s ?conn @ frame_bytes h seq body)\<rparr>)"
      by (rule wf_write[OF w c]) (rule framed_append[OF op fr])
    then show ?thesis unfolding sent(1) using sent(2) by (intro wf_upd_client) (auto split: option.splits)
  next
    case (failed w' k)
    txt \<open>The client is marked closed after the write; the two changes commute.\<close>
    have u: "wf_comet (upd_client c (cl_closed_update (\<lambda>_. True)) s)"
      by (rule wf_upd_client[OF w]) auto
    have "wf_comet ((upd_client c (cl_closed_update (\<lambda>_. True)) s)\<lparr>world := w',
        wire := (wire s)(?conn := wire s ?conn @ take k (frame_bytes h seq body))\<rparr>)"
      using wf_write[OF u, of c "take k (frame_bytes h seq body)" w'] c framed_cut[OF op fr, of k] by simp
    moreover have "(upd_client c (cl_closed_update (\<lambda>_. True)) s)\<lparr>world := w',
        wire := (wire s)(?conn := wire s ?conn @ take k (frame_bytes h seq body))\<rparr> =
      SendJob_Do e c h body seq reply s"
      unfolding failed by (simp add: upd_client_def)
    ultimately show ?thesis by simp
  qed
qed (use w in \<open>simp add: SendJob_Do_def\<close>)

lemma wf_Worker_turn: "wf_comet s \<Longrightarrow> Worker_turn e n s = Some s' \<Longrightarrow> wf_comet s'"
proof -
  assume w: "wf_comet s" and t: "Worker_turn e n s = Some s'"
  then obtain i js where q: "worker_jobs s n = i # js" and s': "s' = Do e i (s\<lparr>worker_jobs := (worker_jobs s)(n := js)\<rparr>)"
    by (auto simp: Worker_turn_def split: list.splits)
  let ?t = "s\<lparr>worker_jobs := (worker_jobs s)(n := js)\<rparr>"
  have j: "wf_job ?t m k = wf_job s m k" for m k by (simp add: wf_job_def split: Job.split)
  have "\<forall>k\<in>set (worker_jobs s n). wf_job s n k" using w by (simp add: wf_comet_def wf_jobs_def)
  then have i: "wf_job ?t n i" "\<forall>k\<in>set js. wf_job s n k" using q unfolding j by auto
  have "wf_jobs ?t" unfolding wf_jobs_def j using w i(2) by (simp add: wf_comet_def wf_jobs_def)
  then have wt: "wf_comet ?t" using w by (simp add: wf_comet_def wf_apps_def own_arrays_def one_client_per_device_def wf_wire_def)
  show ?thesis
  proof (cases i)
    case (SendJob c h body seq reply)
    then show ?thesis using wf_SendJob[OF wt] i(1) s' by (simp add: Do_def)
  next
    case (UpdateJob devid regid info)
    then show ?thesis using wt s' UpdateJob_Do_state[of e devid regid info ?t] by (auto simp: Do_def)
  qed
qed

lemma good_Worker_turn: "wf_comet s \<Longrightarrow> Worker_turn e n s = Some s' \<Longrightarrow> good s s'"
  using wf_Worker_turn[of s e n s'] by (auto simp: good_def Worker_turn_def frame_simps split: list.splits)

subsection \<open>Pushes and commands\<close>

lemma good_SendMessage2:
  assumes "good s t" "c < client_fresh s" "hd_Len h = word_of_nat (length b)"
  shows "good s (fst (SendMessage2 c h (Some b) t))"
proof -
  obtain t1 q where n: "NextSeq c t = (t1, q)" by fastforce
  then have t1: "t1 = upd_client c (cl_nextSeq_update (\<lambda>_. q)) t" by (auto simp: NextSeq_def Let_def)
  have g: "good s t1" unfolding t1 by (rule good_upd_client[OF assms(1)]) simp
  have "wf_comet (put_job c (SendJob c h (Some b) q None) t1)"
    using g assms by (intro wf_put_job) (simp_all add: good_def wf_job_def)
  then show ?thesis using g n by (simp add: SendMessage2_def good_def)
qed

lemma good_pushMessage:
  assumes "good s t" "hd_Len h = word_of_nat (length b)"
  shows "good s (fst (pushMessage e a m h b t))"
proof (cases "Get (DevicesMap t) (ap_DevId (app_heap t a))")
  case None
  then show ?thesis using assms(1) by (simp add: pushMessage_def)
next
  case (Some c)
  then have "c < client_fresh s" using assms(1) by (auto simp: good_def wf_comet_def one_client_per_device_def)
  then have "good s (fst (SendMessage2 c h (Some b) t))" using good_SendMessage2 assms by blast
  then show ?thesis using assms(1) Some by (simp add: pushMessage_def Let_def good_world)
qed

lemma good_fold: "(\<And>x t. good s t \<Longrightarrow> good s (f x t)) \<Longrightarrow> good s t \<Longrightarrow> good s (fold f xs t)"
  by (induction xs arbitrary: t) auto

lemma good_push_all:
  "good s t \<Longrightarrow> hd_Len h = word_of_nat (length b) \<Longrightarrow> good s (push_all e m h b as t)"
  unfolding push_all_def by (rule good_fold[OF good_pushMessage])

lemma good_push_found:
  "good s t \<Longrightarrow> hd_Len h = word_of_nat (length b) \<Longrightarrow> good s (push_found e m h b x t)"
  by (cases x) (simp_all add: push_found_def good_pushMessage)

lemma good_push_devices:
  "good s t \<Longrightarrow> hd_Len h = word_of_nat (length b) \<Longrightarrow> good s (push_devices e appId m h b ds t)"
  unfolding push_devices_def by (rule good_fold[OF good_push_found])

lemma good_push_group:
  assumes "hd_Len h = word_of_nat (length b)"
  shows "good s t \<Longrightarrow> push_group e appId m h b grp k start stop t = Some (t', fin) \<Longrightarrow> good s t'"
proof (induction k arbitrary: start stop t)
  case (Suc k)
  obtain w r where d: "GetDevicesByGroup e grp start stop t = Some (t\<lparr>world := w\<rparr>, r)"
    using Suc.prems(2) by (auto simp: GetDevicesByGroup_def split: option.splits)
  have g: "good s (push_devices e appId m h b ds (t\<lparr>world := w\<rparr>))" for ds
    using Suc.prems(1) assms by (simp add: good_push_devices good_world)
  show ?case using Suc.prems d g Suc.IH[OF g]
    by (cases r) (auto simp: Let_def good_world split: prod.splits if_splits)
qed simp

lemma good_push_groups:
  assumes "hd_Len h = word_of_nat (length b)"
  shows "good s t \<Longrightarrow> push_groups e appId m h b k gs t = Some (t', fin) \<Longrightarrow> good s t'"
  by (induction gs arbitrary: t)
    (auto dest!: good_push_group[OF assms, rotated] split: option.splits prod.splits bool.splits)

lemma good_push_users:
  assumes "hd_Len h = word_of_nat (length b)"
  shows "good s t \<Longrightarrow> push_users e appId m h b us t = Some t' \<Longrightarrow> good s t'"
proof (induction us arbitrary: t)
  case (Cons u us)
  obtain t1 as where g: "GetAppsByUser e appId u t = Some (t1, as)" using Cons.prems(2) by (auto split: option.splits)
  then obtain w where "t1 = t\<lparr>world := w\<rparr>" by (auto simp: GetAppsByUser_def split: sum.splits)
  then have "good s (push_all e m h b as t1)" using Cons.prems(1) assms by (simp add: good_push_all good_world)
  then show ?case using Cons.IH Cons.prems(2) g by simp
qed simp

lemma good_PushMessages: "good s t \<Longrightarrow> PushMessages e k appId m t = Some (t', fin) \<Longrightarrow> good s t'"
  by (auto simp: PushMessages_def Let_def makeHeader_def split: if_splits
      intro!: good_push_all good_push_devices good_fold[OF good_push_found]
      elim!: good_push_groups[rotated 2] good_push_users[rotated 2])

lemma good_SendMessage:
  assumes "good s t" "c < client_fresh s"
  shows "good s (fst (SendMessage c ty q body r t))"
proof -
  obtain t' x where m: "SendMessage c ty q body r t = (t', x)" by (rule prod.exhaust)
  have "wf_comet t'" using assms by (intro wf_SendMessage[OF _ _ m]) (simp_all add: good_def)
  then show ?thesis using assms m SendMessage_frame[OF m] by (simp add: good_def)
qed

lemma good_MsgTimeout: "good s t \<Longrightarrow> good s (MsgTimeout c q t)"
  by (simp add: MsgTimeout_def good_upd_client)

subsection \<open>Admission\<close>

text \<open>Registrations loaded from storage that are not in memory yet: their arrays are their own.\<close>

definition pending :: "'w comet \<Rightarrow> (string \<Rightarrow> AppInfo option) \<Rightarrow> bool" where
  "pending t m \<longleftrightarrow>
    (\<forall>k i. m k = Some i \<longrightarrow> wf_info (slices t) i \<and> slice_arrays (ai_Topics i) \<inter> slice_arrays (ai_SendIds i) = {} \<and>
       (\<forall>b < app_fresh t. info_arrays i \<inter> info_arrays (app_info t b) = {}) \<and>
       (\<forall>k' i'. m k' = Some i' \<longrightarrow> k' \<noteq> k \<longrightarrow> info_arrays i \<inter> info_arrays i' = {}))"

lemma pending_empty: "pending t Map.empty"
  by (simp add: pending_def)

lemma pending_world [simp]: "pending (t\<lparr>world := w\<rparr>) m = pending t m"
  by (simp add: pending_def)

lemma pending_alloc:
  assumes w: "wf_comet t" and p: "pending t m" and al: "info_alloc sp (slices t) st = (h, i)"
  shows "pending (t\<lparr>slices := h\<rparr>) (m(k \<mapsto> i))"
proof -
  note a = info_alloc_frame[OF al]
  have old: "x < fresh (slices t)" if "m k' = Some i'" "x \<in> info_arrays i'" for k' i' x
  proof -
    have "wf_info (slices t) i'" using p that(1) unfolding pending_def by blast
    then show ?thesis using that(2) by (rule info_arrays_less)
  qed
  have app: "x < fresh (slices t)" if "b < app_fresh t" "x \<in> info_arrays (app_info t b)" for b x
    using wf_own(4)[OF w that(1) that] .
  have new: "fresh (slices t) \<le> x" if "x \<in> info_arrays i" for x using a(3) that by auto
  have n1: "info_arrays i \<inter> info_arrays i' = {}" if "m k' = Some i'" for k' i'
    using old[OF that] new by fastforce
  have n2: "info_arrays i \<inter> info_arrays (app_info t b) = {}" if "b < app_fresh t" for b
    using app[OF that] new by fastforce
  show ?thesis unfolding pending_def
  proof (intro allI impI)
    fix k1 i1 assume k1: "(m(k \<mapsto> i)) k1 = Some i1"
    show "wf_info (slices (t\<lparr>slices := h\<rparr>)) i1 \<and> slice_arrays (ai_Topics i1) \<inter> slice_arrays (ai_SendIds i1) = {} \<and>
       (\<forall>b<app_fresh (t\<lparr>slices := h\<rparr>). info_arrays i1 \<inter> info_arrays (app_info (t\<lparr>slices := h\<rparr>) b) = {}) \<and>
       (\<forall>k' i'. (m(k \<mapsto> i)) k' = Some i' \<longrightarrow> k' \<noteq> k1 \<longrightarrow> info_arrays i1 \<inter> info_arrays i' = {})"
    proof (cases "k1 = k")
      case True
      then show ?thesis using k1 a(2,4) n1 n2 by auto
    next
      case False
      then have "m k1 = Some i1" using k1 by simp
      with p have "wf_info (slices t) i1 \<and> slice_arrays (ai_Topics i1) \<inter> slice_arrays (ai_SendIds i1) = {} \<and>
        (\<forall>b<app_fresh t. info_arrays i1 \<inter> info_arrays (app_info t b) = {}) \<and>
        (\<forall>k' i'. m k' = Some i' \<longrightarrow> k' \<noteq> k1 \<longrightarrow> info_arrays i1 \<inter> info_arrays i' = {})"
        unfolding pending_def by blast
      then show ?thesis using n1[OF \<open>m k1 = Some i1\<close>] wf_info_grows[OF a(1)] by (auto simp: Int_commute)
    qed
  qed
qed

lemma load_infos_cases:
  obtains (nil) "vals = []" | (odd) x where "vals = [x]" | (pair) x y vs where "vals = x # y # vs"
  by (metis neq_Nil_conv)

lemma load_infos_good:
  "good s t \<Longrightarrow> pending t m \<Longrightarrow> finite (dom m) \<Longrightarrow> load_infos e vals t m = Some (t', m') \<Longrightarrow>
    good s t' \<and> pending t' m' \<and> finite (dom m')"
proof (induction "length vals" arbitrary: vals t m rule: less_induct)
  case less
  show ?case
  proof (cases vals rule: load_infos_cases)
    case (pair appid regid vs)
    obtain w r where c: "call (\<lambda>w. HashGet (store e) w (''db_app_'' @ appid) regid) t = (t\<lparr>world := w\<rparr>, r)" by simp
    have gw: "good s (t\<lparr>world := w\<rparr>)" "pending (t\<lparr>world := w\<rparr>) m" using less.prems by (simp_all add: good_world)
    have IH: "good s u \<Longrightarrow> pending u m1 \<Longrightarrow> finite (dom m1) \<Longrightarrow> load_infos e vs u m1 = Some (t', m') \<Longrightarrow>
        good s t' \<and> pending t' m' \<and> finite (dom m')" for u m1
      using less.hyps[of vs u m1] pair by simp
    show ?thesis
    proof (cases "\<exists>val st. r = Inr (Some val) \<and> AppInfo_parse val = Some st")
      case True
      then obtain val st where r: "r = Inr (Some val)" "AppInfo_parse val = Some st" by blast
      obtain h info where al: "info_alloc (spare e) (slices t) st = (h, info)" by fastforce
      have g: "good s (t\<lparr>world := w\<rparr>\<lparr>slices := h\<rparr>)"
        using gw(1) info_alloc_frame(1)[OF al] by (intro good_heap) simp_all
      have p: "pending (t\<lparr>world := w\<rparr>\<lparr>slices := h\<rparr>) (m(regid \<mapsto> info))"
        using pending_alloc[OF goodD(1)[OF gw(1)] gw(2)] al by simp
      have "load_infos e vs (t\<lparr>world := w\<rparr>\<lparr>slices := h\<rparr>) (m(regid \<mapsto> info)) = Some (t', m')"
        using less.prems(4) pair c r al by simp
      then show ?thesis using IH[OF g p] less.prems(3) by simp
    next
      case False
      have "load_infos e vs (t\<lparr>world := w\<rparr>) m = Some (t', m')"
        using less.prems(4) pair c False by (auto split: sum.splits option.splits)
      then show ?thesis using IH[OF gw] less.prems(3) by simp
    qed
  qed (use less.prems in auto)
qed

text \<open>The second loop: each loaded registration goes into memory, the others stay pending.\<close>

lemma restrict_split: "k \<notin> set ks \<Longrightarrow> m k = Some i \<Longrightarrow> pending t (m |` set (k # ks)) \<Longrightarrow>
  wf_info (slices t) i \<and> slice_arrays (ai_Topics i) \<inter> slice_arrays (ai_SendIds i) = {} \<and>
  (\<forall>b < app_fresh t. info_arrays i \<inter> info_arrays (app_info t b) = {}) \<and>
  (\<forall>k' i'. k' \<in> set ks \<longrightarrow> m k' = Some i' \<longrightarrow> info_arrays i \<inter> info_arrays i' = {})"
proof -
  assume k: "k \<notin> set ks" "m k = Some i" and p: "pending t (m |` set (k # ks))"
  have mk: "(m |` set (k # ks)) k = Some i" using k by simp
  note q = p[unfolded pending_def, rule_format, OF mk]
  have "info_arrays i \<inter> info_arrays i' = {}" if "k' \<in> set ks" "m k' = Some i'" for k' i'
  proof -
    have "(m |` set (k # ks)) k' = Some i'" "k' \<noteq> k" using that k by auto
    then show ?thesis using q by blast
  qed
  then show ?thesis using q by blast
qed

lemma pending_mono: "pending t m \<Longrightarrow> (\<And>k i. m' k = Some i \<Longrightarrow> m k = Some i) \<Longrightarrow> pending t m'"
  unfolding pending_def by (intro allI impI) (metis (no_types, lifting))

lemma pending_sub: "pending t (m |` set (k # ks)) \<Longrightarrow> pending t (m |` set ks)"
  by (erule pending_mono) (auto simp: restrict_map_def split: if_splits)

lemma sync_apps_good:
  assumes c: "c < client_fresh s"
  shows "good s t \<Longrightarrow> distinct ks \<Longrightarrow> pending t (m |` set ks) \<Longrightarrow> good s (fst (sync_apps e c m ks apps t))"
proof (induction ks arbitrary: apps t)
  case (Cons k ks)
  note sub = pending_sub[OF Cons.prems(3)]
  show ?case
  proof (cases "m k")
    case None
    then show ?thesis using Cons sub by simp
  next
    case (Some info)
    obtain w r where cl: "call (\<lambda>w. HashGet (store e) w ''db_apps'' (ai_AppId info)) t = (t\<lparr>world := w\<rparr>, r)" by simp
    let ?t = "t\<lparr>world := w\<rparr>"
    have gw: "good s ?t" using Cons.prems(1) by (rule good_world)
    have skip: "good s (fst (sync_apps e c m ks apps ?t))" using Cons.IH[OF gw] Cons.prems(2) sub by simp
    show ?thesis
    proof (cases "\<exists>b app. r = Inr (Some b) \<and> Unmarshal dec_RawApp b zero_RawApp = (app, True)")
      case True
      then obtain b app where r: "r = Inr (Some b)" "Unmarshal dec_RawApp b zero_RawApp = (app, True)" by blast
      obtain u a where A: "AddApp (cl_devId (client_heap ?t c)) k info ?t = (u, a)" by fastforce
      have i: "wf_info (slices t) info" "slice_arrays (ai_Topics info) \<inter> slice_arrays (ai_SendIds info) = {}"
        "\<And>b. b < app_fresh t \<Longrightarrow> info_arrays info \<inter> info_arrays (app_info t b) = {}"
        "\<And>k' i'. k' \<in> set ks \<Longrightarrow> m k' = Some i' \<Longrightarrow> info_arrays info \<inter> info_arrays i' = {}"
        using restrict_split[OF _ Some Cons.prems(3)] Cons.prems(2) by auto
      have u: "good s u \<and> a < app_fresh u \<and> pending u (m |` set ks)"
      proof (cases "regappMap t k")
        case None
        have "wf_comet u" "a < app_fresh u" "client_fresh u = client_fresh ?t"
          using gw None i by (intro wf_AddApp[OF _ _ _ _ _ A]; auto simp: good_def)+
        moreover have "good s u" using calculation A None gw by (auto simp: AddApp_new good_def)
        moreover have "pending u (m |` set ks)"
        proof -
          have "slices u = slices t" "app_fresh u = Suc (app_fresh t)"
            "\<And>b. app_info u b = (if b = app_fresh t then info else app_info t b)"
            using A None by (auto simp: AddApp_new)
          then show ?thesis using sub i(4) unfolding pending_def
            by (auto simp: restrict_map_def less_Suc_eq Int_commute split: if_splits)
        qed
        ultimately show ?thesis by blast
      next
        case (Some a')
        then have "u = ?t" "a = a'" using A by (auto simp: AddApp_old)
        moreover have "a' < app_fresh t" using Some gw by (auto simp: good_def wf_comet_def wf_apps_def)
        ultimately show ?thesis using gw sub by simp
      qed
      have "good s (set_regapp c (ai_AppId info) (Some a) u)" using u by (intro good_set_regapp) auto
      moreover have "pending (set_regapp c (ai_AppId info) (Some a) u) (m |` set ks)"
        using u by (simp add: pending_def set_regapp_def)
      ultimately have "good s (fst (sync_apps e c m ks (apps @ [\<lparr>b2_AppId = ai_AppId info, b2_RegId = k, b2_Pkg = ra_Pkg app\<rparr>])
          (set_regapp c (ai_AppId info) (Some a) u)))"
        using Cons.IH Cons.prems(2) by simp
      then show ?thesis using Some cl r A by simp
    next
      case False
      have "sync_apps e c m (k # ks) apps t = sync_apps e c m ks apps ?t"
        using Some cl False by (auto split: sum.splits option.splits prod.splits)
      then show ?thesis using skip by simp
    qed
  qed
qed simp

lemma init_apps_good: "c < client_fresh s \<Longrightarrow> good s t \<Longrightarrow> good s (init_apps e c infos t)"
proof (induction infos arbitrary: t)
  case (Cons i xs)
  obtain t1 r where g: "RegisterApp2 e (cl_devId (client_heap t c)) (b1_RegId i) (b1_AppId i) [] t = (t1, r)" by fastforce
  have "good s t1" "\<And>a. r = Some a \<Longrightarrow> a < app_fresh t1" using good_RegisterApp2[OF Cons.prems(2) g] by auto
  then show ?case using Cons g by (cases r) (auto intro!: Cons.IH good_set_regapp)
qed simp

lemma self_world: "\<exists>w. s = s\<lparr>world := w\<rparr>"
  by (rule exI[of _ "world s"]) simp

lemma in_group_world: "in_group e d gs t = (t', b) \<Longrightarrow> \<exists>w. t' = t\<lparr>world := w\<rparr>"
proof (induction gs arbitrary: t)
  case (Cons g gs)
  obtain w r where c: "call (\<lambda>w. SetIsMember (store e) w (''db_group_'' @ g) d) t = (t\<lparr>world := w\<rparr>, r)" by simp
  show ?case
  proof (cases "r = Inr 1")
    case True
    then show ?thesis using Cons.prems c by auto
  next
    case False
    then have "in_group e d gs (t\<lparr>world := w\<rparr>) = (t', b)" using Cons.prems c by simp
    from Cons.IH[OF this] show ?thesis by auto
  qed
qed (use self_world in auto)

lemma offline_match_world: "offline_match e c a m t = (t', b) \<Longrightarrow> \<exists>w. t' = t\<lparr>world := w\<rparr>"
  using self_world[of t] in_group_world by (auto simp: offline_match_def Let_def split: if_splits)

lemma good_offline:
  assumes c: "c < client_fresh s" and g: "good s t"
  shows "good s (handleOfflineMsgs e c a t)"
proof -
  have m: "good s (offline_msg e c a m u)" if "good s u" for m u
  proof -
    obtain u1 ok where o: "offline_match e c a m u = (u1, ok)" by fastforce
    obtain w where "u1 = u\<lparr>world := w\<rparr>" using offline_match_world[OF o] by blast
    then have "good s u1" using that by (simp add: good_world)
    then show ?thesis using o c by (simp add: offline_msg_def good_SendMessage)
  qed
  obtain w ms where "call (\<lambda>w. GetOfflineMsgs (store e) w (ai_AppId (app_info t a)) (ap_RegId (app_heap t a))
      (ai_RegTime (app_info t a)) (ai_LastMsgId (app_info t a))) t = (t\<lparr>world := w\<rparr>, ms)" by simp
  then have "handleOfflineMsgs e c a t = fold (offline_msg e c a) ms (t\<lparr>world := w\<rparr>)"
    unfolding handleOfflineMsgs_def Let_def by simp
  moreover have "good s (fold (offline_msg e c a) ms (t\<lparr>world := w\<rparr>))"
    by (rule good_fold[where f = "offline_msg e c a", OF m good_world[OF g]])
  ultimately show ?thesis by simp
qed

lemma wf_createClient:
  assumes w: "wf_comet s" and u: "unused_conn conn s" and d: "Get (DevicesMap s) devid = None"
    and cr: "createClient e srv worker conn devid s = (s', r)"
  shows "wf_comet s' \<and> (\<forall>c. r = Some c \<longrightarrow> c < client_fresh s' \<and> cl_devId (client_heap s' c) = devid) \<and> apps_grow s s'"
proof (cases "snd (AddDevice (store e) (world s) (sv_Name srv) devid)")
  case None
  define c where "c = client_fresh s"
  define cl where "cl = \<lparr>cl_devId = devid, cl_conn = conn, cl_closed = False, cl_nextSeq = 1,
    cl_lastActive = now e (fst (AddDevice (store e) (world s) (sv_Name srv) devid)), cl_RegApps = Map.empty,
    cl_jobChannel = worker, cl_replyChannels = Map.empty\<rparr>"
  have s': "s' = s\<lparr>world := fst (AddDevice (store e) (world s) (sv_Name srv) devid),
      client_heap := (client_heap s)(c := cl), client_fresh := Suc c,
      DevicesMap := fst (Set (DevicesMap s) devid c)\<rparr>" and r: "r = Some c"
    using cr None by (auto simp: createClient_def NewClient_def Let_def c_def cl_def)
  have j: "wf_job s' n i" if "wf_job s n i" for n i
    using that by (auto simp: wf_job_def s' c_def split: Job.splits)
  have jobs: "wf_jobs s'" using w j by (simp add: wf_comet_def wf_jobs_def s')
  have "wf_apps s'" using w by (auto simp: wf_comet_def wf_apps_def s' c_def cl_def less_Suc_eq)
  moreover have "own_arrays s'" using w by (simp add: wf_comet_def own_arrays_def s')
  moreover have "one_client_per_device s'"
    using w u d unfolding one_client_per_device_def wf_comet_def unused_conn_def
    by (auto simp: s' c_def cl_def less_Suc_eq Get_Set)
  moreover have "wf_wire s'"
    using w u unfolding wf_wire_def wf_comet_def unused_conn_def
    by (auto simp: s' c_def cl_def less_Suc_eq framed_def intro: exI[of _ "[]"])
  moreover have "apps_grow s s'" by (simp add: apps_grow_def s')
  ultimately show ?thesis using jobs r by (simp add: wf_comet_def s' c_def cl_def)
next
  case (Some err)
  then show ?thesis using cr w by (auto simp: createClient_def)
qed

text \<open>What this connection's environment may do while it sleeps.\<close>

definition safe_sleep :: "nat \<Rightarrow> (nat \<Rightarrow> 'w comet \<Rightarrow> 'w comet) \<Rightarrow> bool" where
  "safe_sleep conn sleep \<longleftrightarrow> (\<forall>i t. wf_comet t \<longrightarrow> unused_conn conn t \<longrightarrow> 
     wf_comet (sleep i t) \<and> unused_conn conn (sleep i t) \<and> apps_grow t (sleep i t))"

lemma wait_old_wf:
  "safe_sleep conn sleep \<Longrightarrow> wf_comet s \<Longrightarrow> unused_conn conn s \<Longrightarrow> wait_old sleep devid k s = (s', ok) \<Longrightarrow>
    wf_comet s' \<and> unused_conn conn s' \<and> (ok \<longrightarrow> Get (DevicesMap s') devid = None) \<and> apps_grow s s'"
proof (induction sleep devid k s rule: wait_old.induct)
  case (1 sleep devid k s)
  note safe = "1.prems"(1)
  show ?case
  proof (cases "Get (DevicesMap s) devid")
    case None
    then show ?thesis using 1 by (auto simp: wait_old.simps[of _ _ k])
  next
    case (Some c)
    have m: "wf_comet (upd_client c (cl_closed_update (\<lambda>_. True)) s)" "unused_conn conn (upd_client c (cl_closed_update (\<lambda>_. True)) s)"
      using 1 by (auto intro: wf_upd_client simp: unused_conn_def)
    show ?thesis
    proof (cases k)
      case 0
      then show ?thesis using 1 Some by (auto simp: wait_old.simps[of _ _ 0])
    next
      case (Suc k')
      let ?t = "sleep k' (upd_client c (cl_closed_update (\<lambda>_. True)) s)"
      have t: "wf_comet ?t" "unused_conn conn ?t" "apps_grow (upd_client c (cl_closed_update (\<lambda>_. True)) s) ?t"
        using m safe unfolding safe_sleep_def by blast+
      have "wait_old sleep devid k' ?t = (s', ok)" using "1.prems" Some Suc by (simp add: wait_old.simps[of _ _ "Suc k'"])
      from "1.IH"[OF Some Suc safe t(1,2) this] t(3) show ?thesis
        using apps_grow_trans by fastforce
    qed
  qed
qed

lemma good_offline_all:
  "c < client_fresh s \<Longrightarrow> good s t \<Longrightarrow> good s (fold (\<lambda>a. handleOfflineMsgs e c a) as t)"
  by (rule good_fold[where f = "\<lambda>a. handleOfflineMsgs e c a"]) (rule good_offline)

lemma good_LoadAppInfos:
  assumes "good s t" "LoadAppInfosByDevice e devid t = Some (t', infos)"
  shows "good s t' \<and> pending t' infos \<and> finite (dom infos)"
proof -
  obtain w r where c: "call (\<lambda>w. HashGetAll (store e) w (''db_device_'' @ devid)) t = (t\<lparr>world := w\<rparr>, r)" by simp
  show ?thesis
  proof (cases r)
    case (Inl x)
    then show ?thesis using assms c by (auto simp: LoadAppInfosByDevice_def good_world pending_empty)
  next
    case (Inr vals)
    then have "load_infos e vals (t\<lparr>world := w\<rparr>) Map.empty = Some (t', infos)"
      using assms(2) c by (simp add: LoadAppInfosByDevice_def)
    then show ?thesis
      by (intro load_infos_good[OF good_world[OF assms(1)] pending_empty]) auto
  qed
qed

lemma good_start_client:
  assumes it: "iter_ok e" and c: "c < client_fresh s" and g: "good s t"
    and st: "start_client e srv c header request t = Some t'"
  shows "good s t'"
proof -
  define r where "r = (if im_Sync request = 0
              then Some (init_apps e c (case im_Apps request of None \<Rightarrow> [] | Some xs \<Rightarrow> xs) t, None)
              else map_option (\<lambda>(t, infos). map_prod id Some (sync_apps e c infos (iter e (world t) infos) [] t))
                     (LoadAppInfosByDevice e (im_DevId request) t))"
  obtain t1 apps where r: "r = Some (t1, apps)" using st by (auto simp: start_client_def Let_def r_def[symmetric] split: option.splits)
  have g1: "good s t1"
  proof (cases "im_Sync request = 0")
    case True
    then show ?thesis using r init_apps_good[OF c g] by (auto simp: r_def)
  next
    case False
    then obtain u infos where u: "LoadAppInfosByDevice e (im_DevId request) t = Some (u, infos)"
      and t1: "t1 = fst (sync_apps e c infos (iter e (world u) infos) [] u)"
      using r by (auto simp: r_def) (metis fst_conv fst_map_prod id_apply)
    note l = good_LoadAppInfos[OF g u]
    have o: "map_order infos (iter e (world u) infos)" using iter_map_order[OF it] l by blast
    then have "infos |` set (iter e (world u) infos) = infos" by (auto simp: map_order_def restrict_map_def fun_eq_iff)
    then show ?thesis using sync_apps_good[OF c, of u "iter e (world u) infos" infos e "[]"] l o t1 by (simp add: map_order_def)
  qed
  obtain q b where "t' = fold (\<lambda>a. handleOfflineMsgs e c a) (range_values (cl_RegApps (client_heap (fst (SendMessage c MSG_INIT_REPLY q (Some b) None t1)) c))
      (iter e (world (fst (SendMessage c MSG_INIT_REPLY q (Some b) None t1))) (cl_RegApps (client_heap (fst (SendMessage c MSG_INIT_REPLY q (Some b) None t1)) c))))
      (fst (SendMessage c MSG_INIT_REPLY q (Some b) None t1))"
    using st r by (auto simp: start_client_def Let_def r_def[symmetric])
  then show ?thesis using good_offline_all[OF c good_SendMessage[OF g1 c]] by simp
qed

lemma checkBlacklist_world:
  obtains srv1 w1 ok where "checkBlacklist e d t srv s = (srv1, s\<lparr>world := w1\<rparr>, ok)"
proof (cases "sv_blackUpdate srv + BLACK_UPDATE_INTERVAL * second < t")
  case True
  obtain w r where "call (\<lambda>w. SetMembers (store e) w ''db_black_devices'') s = (s\<lparr>world := w\<rparr>, r)" by simp
  then show ?thesis using that True by (cases r) (auto simp: checkBlacklist_def)
next
  case False
  have "s = s\<lparr>world := world s\<rparr>" by simp
  then show ?thesis using that[of srv "world s"] False by (simp add: checkBlacklist_def)
qed

lemma admit_wf:
  assumes it: "iter_ok e" and sl: "safe_sleep conn sleep" and w: "wf_comet s" and u: "unused_conn conn s"
    and ad: "admit e sleep worker conn srv header request s = Some (srv', s', r)"
  shows "wf_comet s' \<and> (\<forall>c. r = Some c \<longrightarrow> c < client_fresh s') \<and> apps_grow s s'"
proof -
  obtain srv1 w1 ok1 where b: "checkBlacklist e (im_DevId request) (now e (world s)) srv s = (srv1, s\<lparr>world := w1\<rparr>, ok1)"
    by (rule checkBlacklist_world)
  obtain s2 ok2 where o: "wait_old sleep (im_DevId request) 5 (s\<lparr>world := w1\<rparr>) = (s2, ok2)" by fastforce
  have s2: "wf_comet s2 \<and> unused_conn conn s2 \<and> (ok2 \<longrightarrow> Get (DevicesMap s2) (im_DevId request) = None) \<and> apps_grow s s2"
    using wait_old_wf[OF sl _ _ o] w u by simp
  obtain w3 x where k: "call (\<lambda>w. CheckDevice (store e) w (im_DevId request)) s2 = (s2\<lparr>world := w3\<rparr>, x)" by simp
  obtain s4 y where cr: "createClient e srv1 worker conn (im_DevId request) (s2\<lparr>world := w3\<rparr>) = (s4, y)" by fastforce
  have eq: "admit e sleep worker conn srv header request s =
    (if \<not> checkDeviceId (im_DevId request) then Some (srv, s, None)
     else if \<not> ok1 then Some (srv1, s\<lparr>world := w1\<rparr>, None)
     else if \<not> ok2 then Some (srv1, s2, None)
     else if x \<noteq> Inr [] then Some (srv1, s2\<lparr>world := w3\<rparr>, None)
     else case y of None \<Rightarrow> Some (srv1, s4, None)
       | Some c \<Rightarrow> map_option (\<lambda>s5. (srv1, s5, Some c)) (start_client e srv1 c header request s4))"
    unfolding admit_def Let_def b using o k cr by (cases ok1; cases ok2; simp del: call_simps)
  show ?thesis
  proof (cases "checkDeviceId (im_DevId request) \<and> ok1 \<and> ok2 \<and> x = Inr []")
    case True
    have c4: "wf_comet s4 \<and> (\<forall>c. y = Some c \<longrightarrow> c < client_fresh s4 \<and> cl_devId (client_heap s4 c) = im_DevId request) \<and> apps_grow s s4"
      using wf_createClient[OF _ _ _ cr] s2 True apps_grow_trans[of s s2 s4] by simp
    show ?thesis
    proof (cases y)
      case None
      then show ?thesis using ad c4 True unfolding eq by simp
    next
      case (Some c)
      then obtain s5 where st: "start_client e srv1 c header request s4 = Some s5" and s': "s' = s5" "r = Some c"
        using ad True unfolding eq by auto
      have g5: "good s4 s5" using good_start_client[OF it _ good_refl st] c4 Some by simp
      then show ?thesis using c4 Some s' apps_grow_trans[OF _ good_apps_grow[OF g5], of s] by (simp add: good_def)
    qed
  next
    case False
    then have "s' = s \<or> s' = s\<lparr>world := w1\<rparr> \<or> s' = s2 \<or> s' = s2\<lparr>world := w3\<rparr>" "r = None"
      using ad unfolding eq by (auto split: if_splits)
    then show ?thesis using w s2 by auto
  qed
qed

lemma waitInit_wf:
  assumes "iter_ok e" "safe_sleep conn sleep" "wf_comet s" "unused_conn conn s"
    and "waitInit e sleep worker conn srv evs s = Some (srv', evs', s', r)"
  shows "wf_comet s' \<and> (\<forall>c. r = Some c \<longrightarrow> c < client_fresh s') \<and> apps_grow s s'"
proof (cases "s' = s \<and> r = None")
  case False
  then obtain header request where "admit e sleep worker conn srv header request s = Some (srv', s', r)"
    using assms(5) by (auto simp: waitInit_def split: prod.splits option.splits if_splits bool.splits)
  then show ?thesis using admit_wf[OF assms(1-4)] by blast
qed (use assms in simp)

subsection \<open>Closing\<close>

lemma close_apps_good: "good s t \<Longrightarrow> good s (close_apps c ks t)"
  unfolding close_apps_def
  by (rule good_fold) (auto split: option.splits intro!: good_set_regapp good_DelApp)

lemma close_apps_conns: "close_apps c ks (s\<lparr>closed_conns := X\<rparr>) = (close_apps c ks s)\<lparr>closed_conns := X\<rparr>"
proof (induction ks arbitrary: s)
  case (Cons k ks)
  have "(case cl_RegApps (client_heap (s\<lparr>closed_conns := X\<rparr>) c) k of None \<Rightarrow> s\<lparr>closed_conns := X\<rparr>
      | Some a \<Rightarrow> set_regapp c k None (DelApp (ap_RegId (app_heap (s\<lparr>closed_conns := X\<rparr>) a)) (s\<lparr>closed_conns := X\<rparr>))) =
    (case cl_RegApps (client_heap s c) k of None \<Rightarrow> s
      | Some a \<Rightarrow> set_regapp c k None (DelApp (ap_RegId (app_heap s a)) s))\<lparr>closed_conns := X\<rparr>"
    by (simp add: set_regapp_def upd_client_def DelApp_def split: option.split)
  then show ?case using Cons.IH by (simp add: close_apps_def)
qed (simp add: close_apps_def)

lemma wf_disconnect:
  assumes w: "wf_comet t" and c: "c < client_fresh t" "Get (DevicesMap t) (cl_devId (client_heap t c)) = Some c"
  shows "wf_comet (t\<lparr>closed_conns := insert (cl_conn (client_heap t c)) (closed_conns t),
    DevicesMap := Delete (DevicesMap t) (cl_devId (client_heap t c))\<rparr>)"
proof -
  let ?t = "t\<lparr>closed_conns := insert (cl_conn (client_heap t c)) (closed_conns t),
    DevicesMap := Delete (DevicesMap t) (cl_devId (client_heap t c))\<rparr>"
  have j: "wf_job ?t n i = wf_job t n i" for n i by (simp add: wf_job_def split: Job.split)
  have "wf_jobs ?t" using w unfolding wf_jobs_def j by (simp add: wf_comet_def wf_jobs_def)
  moreover have "one_client_per_device ?t"
  proof -
    have o: "one_client_per_device t" using w by (simp add: wf_comet_def)
    have "(cl_conn (client_heap t d) \<notin> closed_conns ?t) = (Get (DevicesMap ?t) (cl_devId (client_heap t d)) = Some d)"
      if d: "d < client_fresh t" for d
    proof (cases "d = c")
      case True
      then show ?thesis by (simp add: Get_Delete)
    next
      case False
      have "cl_conn (client_heap t d) \<noteq> cl_conn (client_heap t c)" using o False c d by (auto simp: one_client_per_device_def)
      moreover have "cl_conn (client_heap t d) \<notin> closed_conns t \<longleftrightarrow> Get (DevicesMap t) (cl_devId (client_heap t d)) = Some d"
        using o d by (simp add: one_client_per_device_def)
      ultimately show ?thesis using c False by (auto simp: Get_Delete)
    qed
    then show ?thesis using o by (auto simp: one_client_per_device_def Get_Delete split: if_splits)
  qed
  ultimately show ?thesis using w by (simp add: wf_comet_def wf_apps_def own_arrays_def wf_wire_def)
qed

lemma closeClient_wf:
  assumes w: "wf_comet s" and c: "c < client_fresh s" "Get (DevicesMap s) (cl_devId (client_heap s c)) = Some c"
  shows "wf_comet (closeClient e srv c s)" "client_fresh (closeClient e srv c s) = client_fresh s"
    "apps_grow s (closeClient e srv c s)"
proof -
  define s1 where "s1 = upd_client c (cl_closed_update (\<lambda>_. True)) s"
  define ks where "ks = iter e (world s1) (cl_RegApps (client_heap s1 c))"
  define t where "t = close_apps c ks s1"
  have "good s s1" unfolding s1_def by (rule good_upd_client[OF good_refl[OF w]]) simp
  then have g: "good s t" unfolding t_def by (rule close_apps_good)
  have "\<exists>w'. closeClient e srv c s = t\<lparr>closed_conns := insert (cl_conn (client_heap t c)) (closed_conns t),
      DevicesMap := Delete (DevicesMap t) (cl_devId (client_heap t c)), world := w'\<rparr>"
  proof -
    have "cl_conn (client_heap t c) = cl_conn (client_heap s1 c)" "closed_conns t = closed_conns s1"
      using g \<open>good s s1\<close> by (simp_all add: good_def)
    then show ?thesis
      by (simp add: closeClient_def Let_def s1_def[symmetric] close_apps_conns ks_def[symmetric] t_def[symmetric])
        (rule exI, rule refl)
  qed
  moreover have "wf_comet (t\<lparr>closed_conns := insert (cl_conn (client_heap t c)) (closed_conns t),
      DevicesMap := Delete (DevicesMap t) (cl_devId (client_heap t c))\<rparr>)"
    using wf_disconnect[of t c] g c by (simp add: good_def)
  ultimately show "wf_comet (closeClient e srv c s)" "client_fresh (closeClient e srv c s) = client_fresh s"
    "apps_grow s (closeClient e srv c s)"
    using g by (auto simp: good_def apps_grow_def)
qed

subsection \<open>The step relation\<close>

lemma good_conn_turn:
  assumes w: "wf_comet s" and c: "c < client_fresh s" and t: "conn_turn e srv c st evs s = Some (s', r)"
  shows "good s s'"
proof -
  have g0: "good s s" by (rule good_refl[OF w])
  have gl: "good s (upd_client c (cl_lastActive_update (\<lambda>_. now e (world s))) s)"
    by (rule good_upd_client[OF g0]) simp
  have h: "good s u" if "funcMap ty = Some f" "f e c h b (upd_client c (cl_lastActive_update (\<lambda>_. now e (world s))) s) = Some (u, x)"
    for ty f h b u x
  proof -
    have "good (upd_client c (cl_lastActive_update (\<lambda>_. now e (world s))) s) u"
      using funcMap_keeps[OF that(1), unfolded keeps_def, rule_format, OF goodD(1)[OF gl] _ that(2)] c by simp
    then show ?thesis by (rule good_trans[OF gl])
  qed
  show ?thesis
  proof (cases "cl_closed (client_heap s c) \<or> cl_lastActive (client_heap s c) + sv_hbTimeout srv * second < now e (world s)")
    case True
    then show ?thesis using t g0 by (auto simp: conn_turn_def Let_def split: if_splits)
  next
    case False
    obtain o1 st1 evs1 where rt: "read_turn (sv_maxBodyLen srv) (now e (world s)) st evs = (o1, st1, evs1)" by (metis prod_cases3)
    show ?thesis
    proof (cases o1)
      case (Frame hd body)
      then show ?thesis using t False rt g0
        by (cases "funcMap (hd_Type hd) :: 'a handler option") (auto simp: conn_turn_def Let_def dest: h)
    qed (use t False rt g0 gl in \<open>auto simp: conn_turn_def Let_def handleHeartbeat_def\<close>)
  qed
qed

text \<open>The server before its first connection.\<close>

definition comet_init :: "'w \<Rightarrow> 'w comet" where
  "comet_init w = \<lparr>world = w, slices = empty_sheap,
     app_heap = (\<lambda>_. \<lparr>ap_DevId = [], ap_RegId = [], ap_AppInfo = \<lparr>ai_AppId = [], ai_RegTime = 0, ai_UserId = [],
                    ai_LastMsgId = 0, ai_Topics = SNil, ai_SendIds = SNil\<rparr>\<rparr>),
     app_fresh = 0, regappMap = Map.empty,
     client_heap = (\<lambda>_. \<lparr>cl_devId = [], cl_conn = 0, cl_closed = True, cl_nextSeq = 0, cl_lastActive = 0,
                       cl_RegApps = Map.empty, cl_jobChannel = 0, cl_replyChannels = Map.empty\<rparr>),
     client_fresh = 0, DevicesMap = NewSafeMap, worker_jobs = (\<lambda>_. []), wire = (\<lambda>_. []),
     closed_conns = {}, delivered = []\<rparr>"

lemma wf_comet_init: "wf_comet (comet_init w)"
  by (simp add: wf_defs comet_init_def)

text \<open>\<open>open_client s c\<close>: the goroutine of the client's connection is running.\<close>

definition open_client :: "'w comet \<Rightarrow> nat \<Rightarrow> bool" where
  "open_client s c \<longleftrightarrow> c < client_fresh s \<and> cl_conn (client_heap s c) \<notin> closed_conns s"

inductive comet_step :: "'w env \<Rightarrow> 'w comet \<Rightarrow> 'w comet \<Rightarrow> bool" for e where
  connect: "unused_conn conn s \<Longrightarrow>
      (\<forall>i t. unused_conn conn t \<longrightarrow> (comet_step e)\<^sup>*\<^sup>* t (sleep i t) \<and> unused_conn conn (sleep i t)) \<Longrightarrow>
      waitInit e sleep worker conn srv evs s = Some (srv', evs', s', r) \<Longrightarrow> comet_step e s s'"
| refuse: "unused_conn conn s \<Longrightarrow> comet_step e s (s\<lparr>closed_conns := insert conn (closed_conns s)\<rparr>)"
| turn: "open_client s c \<Longrightarrow> conn_turn e srv c st evs s = Some (s', r) \<Longrightarrow> comet_step e s s'"
| job: "Worker_turn e n s = Some s' \<Longrightarrow> comet_step e s s'"
| push: "PushMessages e k appId m s = Some (s', fin) \<Longrightarrow> comet_step e s s'"
| command: "open_client s c \<Longrightarrow> SendMessage c MSG_CMD 0 (Some body) (Some ch) s = (s', r) \<Longrightarrow> comet_step e s s'"
| timeout: "comet_step e s (MsgTimeout c seq s)"
| close: "open_client s c \<Longrightarrow> comet_step e s (closeClient e srv c s)"
| tick: "comet_step e s (s\<lparr>world := w\<rparr>)"

inductive_cases comet_stepE: "comet_step e s s'"

definition reachable :: "'w env \<Rightarrow> 'w \<Rightarrow> 'w comet \<Rightarrow> bool" where
  "reachable e w s \<longleftrightarrow> (comet_step e)\<^sup>*\<^sup>* (comet_init w) s"

lemma open_client_mapped:
  "wf_comet s \<Longrightarrow> open_client s c \<longleftrightarrow> c < client_fresh s \<and> Get (DevicesMap s) (cl_devId (client_heap s c)) = Some c"
  by (auto simp: open_client_def wf_comet_def one_client_per_device_def)

lemma wf_refuse: "wf_comet s \<Longrightarrow> unused_conn n s \<Longrightarrow> wf_comet (s\<lparr>closed_conns := insert n (closed_conns s)\<rparr>)"
proof -
  assume w: "wf_comet s" and u: "unused_conn n s"
  let ?s = "s\<lparr>closed_conns := insert n (closed_conns s)\<rparr>"
  have j: "wf_job ?s m i = wf_job s m i" for m i by (simp add: wf_job_def split: Job.split)
  have "wf_jobs ?s" using w unfolding wf_jobs_def j by (simp add: wf_comet_def wf_jobs_def)
  then show ?thesis using w u
    by (simp add: wf_comet_def wf_apps_def own_arrays_def wf_wire_def one_client_per_device_def unused_conn_def)
qed

lemma steps_wf: "(\<lambda>x y. comet_step e x y \<and> (wf_comet x \<longrightarrow> wf_comet y \<and> apps_grow x y))\<^sup>*\<^sup>* s t \<Longrightarrow> wf_comet s \<Longrightarrow>
    wf_comet t \<and> apps_grow s t"
  by (induction rule: rtranclp_induct) (auto intro: apps_grow_trans)

lemma comet_step_wf_grow:
  assumes "iter_ok e" "comet_step e s s'" "wf_comet s"
  shows "wf_comet s' \<and> apps_grow s s'"
  using assms(2,3)
proof (induction rule: comet_step.induct)
  case (connect conn s sleep worker srv evs srv' evs' s' r)
  have "safe_sleep conn sleep" unfolding safe_sleep_def
  proof (intro allI impI, goal_cases)
    case (1 i t)
    then have "(\<lambda>x y. comet_step e x y \<and> (wf_comet x \<longrightarrow> wf_comet y \<and> apps_grow x y))\<^sup>*\<^sup>* t (sleep i t)" "unused_conn conn (sleep i t)"
      using connect.IH by blast+
    then show ?case using steps_wf 1(1) by blast
  qed
  then show ?case using waitInit_wf[OF assms(1) _ connect.prems connect.hyps(1)] connect.hyps by blast
next
  case (turn s c srv st evs s' r)
  then have "good s s'" by (intro good_conn_turn) (auto simp: open_client_def)
  then show ?case by (simp add: goodD good_apps_grow)
next
  case (job n s s')
  then have "good s s'" by (intro good_Worker_turn)
  then show ?case by (simp add: goodD good_apps_grow)
next
  case (push k appId m s s' fin)
  then have "good s s'" by (intro good_PushMessages[OF good_refl])
  then show ?case by (simp add: goodD good_apps_grow)
next
  case (command s c body ch s' r)
  then show ?case using wf_SendMessage[OF _ _ command.hyps(2)] SendMessage_frame(4,5)[OF command.hyps(2)]
    by (auto simp: open_client_def apps_grow_def)
next
  case (timeout s c seq)
  then have "good s (MsgTimeout c seq s)" by (intro good_MsgTimeout good_refl)
  then show ?case by (simp add: goodD good_apps_grow)
next
  case (close s c srv)
  then show ?case using closeClient_wf open_client_mapped by blast
next
  case (refuse conn s)
  then show ?case by (simp add: wf_refuse apps_grow_def)
qed simp

lemmas comet_step_wf = comet_step_wf_grow[THEN conjunct1]

lemma reachable_wf:
  assumes "iter_ok e" "reachable e w s"
  shows "wf_comet s"
  using assms(2) unfolding reachable_def
  by (induction rule: rtranclp_induct) (auto intro: wf_comet_init comet_step_wf[OF assms(1)])

end
