(* ===== verification/Comet_Spec.thy ===== *)
theory Comet_Spec
  imports Comet_Steps Redis_Memory
begin

text \<open>
  What the operations of the comet server do beyond the invariant: acknowledgements advance the last
  message of a registration, sequence numbers count up per client, closing a client removes its
  registrations, an admitted client passed the checks, a push to a group ends only when the first
  page of the scan is the last, and what offline messages a client gets.
\<close>

subsection \<open>Acknowledgements\<close>

definition ack_request :: "string \<Rightarrow> PushReplyMessage \<Rightarrow> bool" where
  "ack_request body q \<longleftrightarrow> Unmarshal dec_PushReplyMessage body zero_PushReplyMessage = (q, True) \<and>
     pr_AppId q \<noteq> [] \<and> pr_RegId q \<noteq> []"

text \<open>An acknowledgement of a newer message is recorded and its storing enqueued; of an older one, or
  of the same again, nothing happens.\<close>

lemma handlePushReply_acks:
  assumes "ack_request body q" "cl_RegApps (client_heap s c) (pr_AppId q) = Some a" "ap_RegId (app_heap s a) = pr_RegId q"
  shows "handlePushReply e c hr body s =
    Some (if ai_LastMsgId (app_info s a) < pr_MsgId q
          then put_job c (UpdateJob (cl_devId (client_heap s c)) (pr_RegId q)
                 ((app_info s a)\<lparr>ai_LastMsgId := pr_MsgId q\<rparr>)) (set_app a (ai_LastMsgId_update (\<lambda>_. pr_MsgId q)) s)
          else s, 0)"
  using assms by (simp add: handlePushReply_def ack_request_def Let_def set_app_def)

subsection \<open>Sequence numbers\<close>

text \<open>A list of messages that expect no reply, sent with the next number each.\<close>

definition send_all :: "nat \<Rightarrow> (8 word \<times> string) list \<Rightarrow> 'w comet \<Rightarrow> 'w comet" where
  "send_all c ms s = fold (\<lambda>(ty, b) s. fst (SendMessage c ty 0 (Some b) None s)) ms s"

lemma send_all_jobs:
  "worker_jobs (send_all c ms s) (cl_jobChannel (client_heap s c)) =
    worker_jobs s (cl_jobChannel (client_heap s c)) @
      map (\<lambda>(i, ty, b). reply_job c ty (cl_nextSeq (client_heap s c) + 1 + word_of_nat i) b) (List.enumerate 0 ms)"
proof -
  have "worker_jobs (send_all c ms s) (cl_jobChannel (client_heap s c)) =
    worker_jobs s (cl_jobChannel (client_heap s c)) @
      map (\<lambda>(i, ty, b). reply_job c ty (cl_nextSeq (client_heap s c) + 1 + word_of_nat i - word_of_nat n) b) (List.enumerate n ms)" for n
  proof (induction ms arbitrary: s n)
    case (Cons m ms)
    obtain ty b where m: "m = (ty, b)" by (cases m)
    define t where "t = fst (SendMessage c ty 0 (Some b) None s)"
    have t: "cl_nextSeq (client_heap t c) = cl_nextSeq (client_heap s c) + 1"
      "cl_jobChannel (client_heap t c) = cl_jobChannel (client_heap s c)"
      "worker_jobs t (cl_jobChannel (client_heap s c)) =
        worker_jobs s (cl_jobChannel (client_heap s c)) @ [reply_job c ty (cl_nextSeq (client_heap s c) + 1) b]"
      by (simp_all add: t_def SendMessage_no_reply NextSeq_def Let_def)
    show ?case using Cons.IH[of t "Suc n"] t m by (simp add: send_all_def t_def[symmetric] algebra_simps)
  qed (simp add: send_all_def)
  from this[of 0] show ?thesis by simp
qed

subsection \<open>Closing\<close>

lemma close_apps_effect:
  "cl_RegApps (client_heap (close_apps c ks s) c) = cl_RegApps (client_heap s c) |` (- set ks)"
    "regappMap (close_apps c ks s) = regappMap s |`
       (- {ap_RegId (app_heap s a) | a. \<exists>k \<in> set ks. cl_RegApps (client_heap s c) k = Some a})"
    "app_heap (close_apps c ks s) = app_heap s"
    "DevicesMap (close_apps c ks s) = DevicesMap s"
    "cl_devId (client_heap (close_apps c ks s) c) = cl_devId (client_heap s c)"
    "cl_closed (client_heap (close_apps c ks s) c) = cl_closed (client_heap s c)"
    "cl_conn (client_heap (close_apps c ks s) c) = cl_conn (client_heap s c)"
    "d \<noteq> c \<Longrightarrow> client_heap (close_apps c ks s) d = client_heap s d"
    "closed_conns (close_apps c ks s) = closed_conns s"
proof -
  have "cl_RegApps (client_heap (close_apps c ks s) c) = cl_RegApps (client_heap s c) |` (- set ks) \<and>
    regappMap (close_apps c ks s) = regappMap s |`
       (- {ap_RegId (app_heap s a) | a. \<exists>k \<in> set ks. cl_RegApps (client_heap s c) k = Some a}) \<and>
    app_heap (close_apps c ks s) = app_heap s \<and> DevicesMap (close_apps c ks s) = DevicesMap s \<and>
    cl_devId (client_heap (close_apps c ks s) c) = cl_devId (client_heap s c) \<and>
    cl_closed (client_heap (close_apps c ks s) c) = cl_closed (client_heap s c) \<and>
    cl_conn (client_heap (close_apps c ks s) c) = cl_conn (client_heap s c) \<and>
    (d \<noteq> c \<longrightarrow> client_heap (close_apps c ks s) d = client_heap s d) \<and>
    closed_conns (close_apps c ks s) = closed_conns s"
  proof (induction ks arbitrary: s)
    case Nil
    show ?case by (auto simp: close_apps_def)
  next
    case (Cons k ks)
    show ?case
    proof (cases "cl_RegApps (client_heap s c) k")
      case None
      then have "close_apps c (k # ks) s = close_apps c ks s" by (simp add: close_apps_def)
      then show ?thesis using Cons.IH[of s] None by (auto simp: restrict_map_def fun_eq_iff)
    next
      case (Some a)
      define t where "t = set_regapp c k None (DelApp (ap_RegId (app_heap s a)) s)"
      have t: "cl_RegApps (client_heap t c) = (cl_RegApps (client_heap s c))(k := None)"
        "regappMap t = (regappMap s)(ap_RegId (app_heap s a) := None)" "app_heap t = app_heap s"
        "DevicesMap t = DevicesMap s" "cl_devId (client_heap t c) = cl_devId (client_heap s c)"
        "cl_closed (client_heap t c) = cl_closed (client_heap s c)" "cl_conn (client_heap t c) = cl_conn (client_heap s c)"
        "d \<noteq> c \<longrightarrow> client_heap t d = client_heap s d" "closed_conns t = closed_conns s"
        by (simp_all add: t_def set_regapp_def DelApp_def)
      have r0: "close_apps c (k # ks) s = close_apps c ks t" using Some by (simp add: close_apps_def t_def)
      have r1: "(regappMap s)(ap_RegId (app_heap s a) := None) |`
          (- {ap_RegId (app_heap s b) | b. \<exists>j \<in> set ks. ((cl_RegApps (client_heap s c))(k := None)) j = Some b}) =
        regappMap s |` (- {ap_RegId (app_heap s b) | b. \<exists>j \<in> set (k # ks). cl_RegApps (client_heap s c) j = Some b})"
        using Some by (auto simp: restrict_map_def fun_eq_iff) (metis option.inject)
      have r2: "(cl_RegApps (client_heap s c))(k := None) |` (- set ks) = cl_RegApps (client_heap s c) |` (- set (k # ks))"
        by (auto simp: restrict_map_def fun_eq_iff)
      show ?thesis using Cons.IH[of t] t(8) unfolding r0 t(1-7,9) r1 r2 by simp
    qed
  qed
  then show "cl_RegApps (client_heap (close_apps c ks s) c) = cl_RegApps (client_heap s c) |` (- set ks)"
    "regappMap (close_apps c ks s) = regappMap s |`
       (- {ap_RegId (app_heap s a) | a. \<exists>k \<in> set ks. cl_RegApps (client_heap s c) k = Some a})"
    "app_heap (close_apps c ks s) = app_heap s" "DevicesMap (close_apps c ks s) = DevicesMap s"
    "cl_devId (client_heap (close_apps c ks s) c) = cl_devId (client_heap s c)"
    "cl_closed (client_heap (close_apps c ks s) c) = cl_closed (client_heap s c)"
    "cl_conn (client_heap (close_apps c ks s) c) = cl_conn (client_heap s c)"
    "d \<noteq> c \<Longrightarrow> client_heap (close_apps c ks s) d = client_heap s d"
    "closed_conns (close_apps c ks s) = closed_conns s"
    by blast+
qed

text \<open>Closing a client: its connection is closed, the device is free, all its registrations are gone from
  the map of registrations, and nothing else is.\<close>

lemma closeClient_effect:
  fixes s :: "'w comet" and srv :: Server
  assumes it: "iter_ok e" and w: "wf_comet s" and c: "c < client_fresh s"
  defines "gone \<equiv> {ap_RegId (app_heap s a) | a. \<exists>k. cl_RegApps (client_heap s c) k = Some a}"
    and "s' \<equiv> closeClient e srv c s"
  shows "cl_closed (client_heap s' c)" "cl_conn (client_heap s c) \<in> closed_conns s'"
    "DevicesMap s' = Delete (DevicesMap s) (cl_devId (client_heap s c))"
    "cl_RegApps (client_heap s' c) = Map.empty" "regappMap s' = regappMap s |` (- gone)"
    "d \<noteq> c \<Longrightarrow> client_heap s' d = client_heap s d"
proof -
  define s2 where "s2 = (upd_client c (cl_closed_update (\<lambda>_. True)) s)\<lparr>closed_conns := insert (cl_conn (client_heap s c)) (closed_conns s)\<rparr>"
  have s2: "cl_RegApps (client_heap s2 c) = cl_RegApps (client_heap s c)" "regappMap s2 = regappMap s" "app_heap s2 = app_heap s"
    "DevicesMap s2 = DevicesMap s" "cl_closed (client_heap s2 c)" "cl_devId (client_heap s2 c) = cl_devId (client_heap s c)"
    "d \<noteq> c \<Longrightarrow> client_heap s2 d = client_heap s d" "closed_conns s2 = insert (cl_conn (client_heap s c)) (closed_conns s)"
    by (simp_all add: s2_def)
  define ks where "ks = iter e (world s2) (cl_RegApps (client_heap s2 c))"
  have "finite (dom (cl_RegApps (client_heap s c)))" using w c by (simp add: wf_comet_def wf_apps_def)
  then have ks: "set ks = dom (cl_RegApps (client_heap s c))"
    using iter_map_order[OF it, of "cl_RegApps (client_heap s c)" "world s2"] by (simp add: ks_def s2 map_order_def)
  have u: "\<And>f :: Client \<Rightarrow> Client. (upd_client c f s)\<lparr>closed_conns := insert (cl_conn (f (client_heap s c))) (closed_conns s)\<rparr> =
    (upd_client c f s)\<lparr>closed_conns := insert (cl_conn (f (client_heap s c))) (closed_conns (upd_client c f s))\<rparr>" by simp
  have s': "\<exists>wo. s' = (close_apps c ks s2)\<lparr>DevicesMap := Delete (DevicesMap (close_apps c ks s2)) (cl_devId (client_heap (close_apps c ks s2) c)), world := wo\<rparr>"
    unfolding s'_def closeClient_def Let_def ks_def s2_def by (simp, rule exI, rule refl)
  have none: "m |` (- dom m) = Map.empty" for m :: "string \<Rightarrow> nat option" by (auto simp: restrict_map_def fun_eq_iff)
  have g: "{ap_RegId (app_heap s a) | a. \<exists>k \<in> set ks. cl_RegApps (client_heap s c) k = Some a} = gone"
    by (auto simp: gone_def ks dom_def)
  show "cl_closed (client_heap s' c)" "cl_conn (client_heap s c) \<in> closed_conns s'"
    "DevicesMap s' = Delete (DevicesMap s) (cl_devId (client_heap s c))"
    "cl_RegApps (client_heap s' c) = Map.empty" "regappMap s' = regappMap s |` (- gone)"
    "d \<noteq> c \<Longrightarrow> client_heap s' d = client_heap s d"
    using s' by (auto simp: close_apps_effect s2 none ks g[unfolded ks])
qed

subsection \<open>Admission\<close>

text \<open>A client that \<open>waitInit\<close> admits: its device has a non-empty id that is not on the blacklist, is now
  this client's alone, and no other server had it.\<close>

lemma admit_checks:
  assumes it: "iter_ok e" and sl: "safe_sleep conn sleep" and w: "wf_comet s" and u: "unused_conn conn s"
    and ad: "admit e sleep worker conn srv header request s = Some (srv', s', Some c)"
  shows "im_DevId request \<noteq> []" "im_DevId request \<notin> set (sv_blackDevices srv')"
    "Get (DevicesMap s') (im_DevId request) = Some c" "cl_conn (client_heap s' c) = conn" "open_client s' c"
    "\<exists>w w'. CheckDevice (store e) w (im_DevId request) = (w', Inr [])"
proof -
  obtain srv1 s1 ok1 where b: "checkBlacklist e (im_DevId request) (now e (world s)) srv s = (srv1, s1, ok1)" by (metis prod_cases3)
  obtain s2 ok2 where k: "wait_old sleep (im_DevId request) 5 s1 = (s2, ok2)" by fastforce
  obtain w3 x where ch: "CheckDevice (store e) (world s2) (im_DevId request) = (w3, x)" by fastforce
  obtain s4 y where cr: "createClient e srv1 worker conn (im_DevId request) (s2\<lparr>world := w3\<rparr>) = (s4, y)" by fastforce
  have eq: "admit e sleep worker conn srv header request s =
    (if im_DevId request = [] then Some (srv, s, None)
     else if \<not> ok1 then Some (srv1, s1, None)
     else if \<not> ok2 then Some (srv1, s2, None)
     else if x \<noteq> Inr [] then Some (srv1, s2\<lparr>world := w3\<rparr>, None)
     else case y of None \<Rightarrow> Some (srv1, s4, None)
       | Some c \<Rightarrow> map_option (\<lambda>s5. (srv1, s5, Some c)) (start_client e srv1 c header request s4))"
    unfolding admit_def Let_def b using k ch cr by (cases ok1; cases ok2; simp add: checkDeviceId_def)
  have d: "im_DevId request \<noteq> []" and ok: "ok1" "ok2" "x = Inr []" and y: "y = Some c"
    and st: "start_client e srv1 c header request s4 = Some s'" and srv: "srv' = srv1"
    using ad unfolding eq by (auto split: if_splits option.splits)
  obtain w1 where s1: "s1 = s\<lparr>world := w1\<rparr>"
    using b that[of "world s"] by (auto simp: checkBlacklist_def Let_def split: prod.splits sum.splits if_splits)
  have s2: "wf_comet s2" "unused_conn conn s2" "Get (DevicesMap s2) (im_DevId request) = None"
    using wait_old_wf[OF sl _ _ k] w u s1 ok by simp_all
  have c4: "wf_comet s4" "c < client_fresh s4" using wf_createClient[OF _ _ _ cr] s2 y by simp_all
  have g: "good s4 s'" using good_start_client[OF it c4(2) good_refl[OF c4(1)] st] .
  have s4: "Get (DevicesMap s4) (im_DevId request) = Some c" "cl_conn (client_heap s4 c) = conn" "closed_conns s4 = closed_conns s2"
    using cr y by (auto simp: createClient_def NewClient_def Let_def Get_Set split: option.splits prod.splits)
  show "im_DevId request \<noteq> []" by (rule d)
  show "im_DevId request \<notin> set (sv_blackDevices srv')"
    using b srv ok by (auto simp: checkBlacklist_def Let_def split: prod.splits)
  show "Get (DevicesMap s') (im_DevId request) = Some c" "cl_conn (client_heap s' c) = conn" "open_client s' c"
    using g s4 s2(2) c4(2) by (simp_all add: good_def open_client_def unused_conn_def)
  show "\<exists>w w'. CheckDevice (store e) w (im_DevId request) = (w', Inr [])" using ch ok by blast
qed

subsection \<open>Pushing to a group\<close>

text \<open>A storage whose scan of the group always returns the next cursor \<open>n\<close>, whatever the cursor and the
  state of the world: what the implementation of \<open>SetScan\<close> does, as it ignores the cursor, while the
  set of the group does not change.\<close>

definition scans_to :: "'w env \<Rightarrow> string \<Rightarrow> int \<Rightarrow> bool" where
  "scans_to e grp n \<longleftrightarrow>
    (\<forall>w cursor count. \<exists>w' items. SetScan (store e) w (''db_group_'' @ grp) cursor count = Some (w', Inr (n, items)))"

lemma push_group_ends:
  assumes "scans_to e grp n"
  shows "\<exists>s'. push_group e appId m h b grp (Suc k) start stop s = Some (s', n = 0)"
proof (induction k arbitrary: start stop s)
  case 0
  obtain w' items where "SetScan (store e) (world s) (''db_group_'' @ grp) start stop = Some (w', Inr (n, items))"
    using assms unfolding scans_to_def by blast
  then show ?case by (simp add: GetDevicesByGroup_def Let_def)
next
  case (Suc k)
  obtain w' items where sc: "SetScan (store e) (world s) (''db_group_'' @ grp) start stop = Some (w', Inr (n, items))"
    using assms unfolding scans_to_def by blast
  define t where "t = push_devices e appId m h b items (s\<lparr>world := w'\<rparr>)"
  have "push_group e appId m h b grp (Suc (Suc k)) start stop s =
    (if n = 0 then Some (t, True) else push_group e appId m h b grp (Suc k) n (n + 1000) t)"
    using sc by (simp add: GetDevicesByGroup_def Let_def t_def del: push_group.simps(2) add: push_group.simps(2)[of _ _ _ _ _ _ "Suc k"])
  then show ?case using Suc.IH[of n "n + 1000" t] by (cases "n = 0") (simp_all del: push_group.simps)
qed

text \<open>\<open>RedisStorage.SetScan\<close> sends the same command for every cursor.\<close>

lemma SetScan_ignores_cursor: "RedisStorage_SetScan r w key cursor count = RedisStorage_SetScan r w key 0 0"
  by (simp add: RedisStorage_SetScan_def)

subsection \<open>Offline messages\<close>

text \<open>Which of the stored messages a registration gets when its client connects, for the types that do
  not ask storage.\<close>

definition offline_wanted :: "'w comet \<Rightarrow> nat \<Rightarrow> nat \<Rightarrow> RawMessage \<Rightarrow> bool" where
  "offline_wanted s c a m \<longleftrightarrow>
    (let p = rm_PushParams m; info = app_info s a in
     (rm_PushType m = PUSH_TYPE_ALL \<or>
      (rm_PushType m = PUSH_TYPE_REGID \<and> ap_RegId (app_heap s a) \<in> set (elems (pp_RegId p))) \<or>
      (rm_PushType m = PUSH_TYPE_USERID \<and> ai_UserId info \<noteq> [] \<and> ai_UserId info \<in> set (elems (pp_UserId p))) \<or>
      (rm_PushType m = PUSH_TYPE_DEVID \<and> cl_devId (client_heap s c) \<in> set (elems (pp_DevId p))) \<or>
      (rm_PushType m = PUSH_TYPE_TOPIC \<and>
         matchTopics (slice_list (slices s) (ai_Topics info)) (elems (pp_Topic p)) (pp_TopicOp p))) \<and>
     sendid_ok (slice_list (slices s) (ai_SendIds info)) (rm_SendId m))"

lemma offline_match_pure:
  "rm_PushType m \<noteq> PUSH_TYPE_GROUP \<Longrightarrow> fst (offline_match e c a m s) = s \<and>
    (snd (offline_match e c a m s) \<and> sendid_ok (slice_list (slices s) (ai_SendIds (app_info s a))) (rm_SendId m)
      \<longleftrightarrow> offline_wanted s c a m)"
  by (auto simp: offline_match_def offline_wanted_def Let_def push_type_defs)

lemma offline_msg_pure:
  assumes "rm_PushType m \<noteq> PUSH_TYPE_GROUP"
  shows "offline_msg e c a m s =
    (if offline_wanted s c a m then send_all c [(MSG_PUSH, push_body (rm_AppId m) m)] s else s)"
  using offline_match_pure[OF assms, of e c a s]
  by (cases "offline_match e c a m s") (simp add: offline_msg_def send_all_def)

lemma offline_wanted_send: "offline_wanted (send_all c ms s) d a m = offline_wanted s d a m"
proof (induction ms arbitrary: s)
  case (Cons x ms)
  obtain ty b where x: "x = (ty, b)" by (cases x)
  have "offline_wanted (fst (SendMessage c ty 0 (Some b) None s)) d a m = offline_wanted s d a m"
    by (simp add: SendMessage_no_reply NextSeq_def Let_def offline_wanted_def)
  then show ?case using Cons x by (simp add: send_all_def)
qed (simp add: send_all_def)

lemma send_all_append: "send_all c (xs @ ys) s = send_all c ys (send_all c xs s)"
  by (simp add: send_all_def)

text \<open>The wanted ones, in the order storage returns them, numbered from the client's next number.\<close>

lemma handleOfflineMsgs_sends:
  assumes "GetOfflineMsgs (store e) (world s) (ai_AppId (app_info s a)) (ap_RegId (app_heap s a))
      (ai_RegTime (app_info s a)) (ai_LastMsgId (app_info s a)) = (w, ms)"
    and "\<forall>m \<in> set ms. rm_PushType m \<noteq> PUSH_TYPE_GROUP"
  shows "handleOfflineMsgs e c a s =
    send_all c (map (\<lambda>m. (MSG_PUSH, push_body (rm_AppId m) m)) (filter (offline_wanted s c a) ms)) (s\<lparr>world := w\<rparr>)"
proof -
  have "fold (offline_msg e c a) ms (send_all c xs t) =
      send_all c (xs @ map (\<lambda>m. (MSG_PUSH, push_body (rm_AppId m) m)) (filter (offline_wanted t c a) ms)) t"
    if "\<forall>m \<in> set ms. rm_PushType m \<noteq> PUSH_TYPE_GROUP" for xs and t :: "'a comet"
    using that
  proof (induction ms arbitrary: xs)
    case (Cons m ms)
    have s: "offline_msg e c a m (send_all c xs t) =
      (if offline_wanted t c a m then send_all c (xs @ [(MSG_PUSH, push_body (rm_AppId m) m)]) t else send_all c xs t)"
      using Cons.prems by (simp add: offline_msg_pure offline_wanted_send send_all_append)
    then show ?case using Cons.IH[of xs] Cons.IH[of "xs @ [(MSG_PUSH, push_body (rm_AppId m) m)]"] Cons.prems by simp
  qed simp
  from this[OF assms(2), of "[]" "s\<lparr>world := w\<rparr>"]
  have "fold (offline_msg e c a) ms (s\<lparr>world := w\<rparr>) =
    send_all c (map (\<lambda>m. (MSG_PUSH, push_body (rm_AppId m) m)) (filter (offline_wanted (s\<lparr>world := w\<rparr>) c a) ms)) (s\<lparr>world := w\<rparr>)"
    by (simp add: send_all_def)
  moreover have "offline_wanted (s\<lparr>world := w\<rparr>) c a = offline_wanted s c a"
    by (simp add: offline_wanted_def fun_eq_iff)
  ultimately show ?thesis using assms(1) by (simp add: handleOfflineMsgs_def Let_def)
qed

subsection \<open>Registrations across servers\<close>

text \<open>What one server wrote about a registration, another server (or the same after a restart) loads when
  the device connects there; its slices get new arrays.\<close>

context hash_storage
begin

lemma stored_then_loaded:
  assumes st: "store e = st" and v: "hview (world s) (''db_app_'' @ appId) regId = Some (json_text (enc_StoredInfo x))"
    and n: "int64_range (si_RegTime x)" "int64_range (si_LastMsgId x)"
    and ld: "RegisterApp2 e devId regId appId userId s = (s', Some a)"
  shows "info_view (slices s') (app_info s' a) = stored_norm x"
proof -
  obtain u y where "hview (world s) (''db_app_'' @ appId) regId = Some u" "AppInfo_parse u = Some y"
    "info_view (slices s') (app_info s' a) = y" using RegisterApp2_reads[OF st ld] by metis
  then show ?thesis using v AppInfo_parse_text[of x] n by simp
qed

lemma register_then_load:
  assumes "store e = st" "store e2 = st"
    and rg: "RegisterApp e devId regId appId userId s = (s1, Some a)"
    and n: "int64_range (now e (world s) div 1000000000)"
    and w: "hview (world t) = hview (world s1)"
    and ld: "RegisterApp2 e2 devId2 regId appId userId2 t = (t1, Some b)"
  shows "info_view (slices t1) (app_info t1 b) = info_view (slices s1) (app_info s1 a)"
proof -
  obtain w' info where i: "app_info s1 a = info" "info = \<lparr>ai_AppId = appId, ai_RegTime = now e (world s) div 1000000000,
      ai_UserId = userId, ai_LastMsgId = -1, ai_Topics = SNil, ai_SendIds = SNil\<rparr>"
    using rg by (rule RegisterApp_cases) auto
  have v: "hview (world t) (''db_app_'' @ appId) regId = Some (json_text (enc_StoredInfo (info_view (slices s1) (app_info s1 a))))"
    using RegisterApp_stored(1)[OF assms(1) rg] w by (simp add: AppInfo_text_def)
  have "info_view (slices t1) (app_info t1 b) = stored_norm (info_view (slices s1) (app_info s1 a))"
    by (rule stored_then_loaded[OF assms(2) v _ _ ld]) (use n i in \<open>simp_all add: info_view_def int64_range_def\<close>)
  then show ?thesis using i by (simp add: info_view_def stored_norm_def)
qed

lemma update_then_load:
  assumes "store e = st" "store e2 = st"
    and up: "UpdateAppInfo e devId regId info s = (s1, True)"
    and n: "int64_range (ai_RegTime info)" "int64_range (ai_LastMsgId info)"
    and w: "hview (world t) = hview (world s1)"
    and ld: "RegisterApp2 e2 devId2 regId (ai_AppId info) userId2 t = (t1, Some b)"
  shows "info_view (slices t1) (app_info t1 b) = stored_norm (info_view (slices s) info)"
proof -
  have v: "hview (world t) (''db_app_'' @ ai_AppId info) regId = Some (json_text (enc_StoredInfo (info_view (slices s) info)))"
    using UpdateAppInfo_cases[OF assms(1) up] w by (simp add: AppInfo_text_def)
  show ?thesis by (rule stored_then_loaded[OF assms(2) v _ _ ld]) (use n in \<open>simp_all add: info_view_def\<close>)
qed

end

end
