(* ===== verification/Push_Spec.thy ===== *)
theory Push_Spec
  imports Comet_Steps
begin

text \<open>
  Whom \<open>PushMessages\<close> reaches: for the types \<open>ALL\<close>, \<open>REGID\<close> and \<open>TOPIC\<close> exactly the registrations that the
  type wants (\<open>PushMessages_selects\<close>), for every type only registrations of this server (\<open>PushMessages_sound\<close>).
\<close>

text \<open>The registrations of the app that a message of these types is for.\<close>

definition push_wanted :: "'w comet \<Rightarrow> RawMessage \<Rightarrow> nat \<Rightarrow> bool" where
  "push_wanted s m a \<longleftrightarrow>
    rm_PushType m = PUSH_TYPE_ALL \<or>
    (rm_PushType m = PUSH_TYPE_REGID \<and> ap_RegId (app_heap s a) \<in> set (elems (pp_RegId (rm_PushParams m)))) \<or>
    (rm_PushType m = PUSH_TYPE_TOPIC \<and> matchTopics (slice_list (slices s) (ai_Topics (app_info s a)))
       (elems (pp_Topic (rm_PushParams m))) (pp_TopicOp (rm_PushParams m)))"

text \<open>The pushes to registration ids: each lookup gives what it gave at the start.\<close>

lemma push_regids_pushes:
  assumes "pushes h b (recipients s m bs) s t"
  shows "pushes h b (recipients s m (bs @ List.map_filter (\<lambda>r. GetApp appId r s) regids)) s
    (fold (\<lambda>regid s. push_found e m h b (GetApp appId regid s) s) regids t)"
  using assms
proof (induction regids arbitrary: bs t)
  case (Cons r rs)
  have g: "GetApp appId r t = GetApp appId r s" using Cons.prems by (auto simp: pushes_def GetApp_def split: option.split)
  have "pushes h b (recipients s m (bs @ (case GetApp appId r t of None \<Rightarrow> [] | Some a \<Rightarrow> [a]))) s
      (push_found e m h b (GetApp appId r t) t)" by (rule push_found_pushes[OF Cons.prems])
  from Cons.IH[OF this] show ?case using g by (auto simp: List.map_filter_simps split: option.splits)
qed (simp add: List.map_filter_simps)

lemma set_map_filter: "set (List.map_filter f xs) = {y. \<exists>x \<in> set xs. f x = Some y}"
  by (induction xs) (auto simp: List.map_filter_simps split: option.splits)

lemma GetApp_Some: "wf_comet s \<Longrightarrow> GetApp appId r s = Some a \<longleftrightarrow>
    regappMap s r = Some a \<and> ai_AppId (app_info s a) = appId"
  by (auto simp: GetApp_def split: option.splits)

lemma PushMessages_selects:
  assumes it: "iter_ok e" and w: "wf_comet s" and ty: "rm_PushType m \<in> {PUSH_TYPE_ALL, PUSH_TYPE_REGID, PUSH_TYPE_TOPIC}"
  obtains s' as where "PushMessages e k appId m s = Some (s', True)"
    "pushes (makeHeader MSG_PUSH 0 (word_of_nat (length (push_body appId m)))) (push_body appId m) (recipients s m as) s s'"
    "set as = {a. (\<exists>r. regappMap s r = Some a) \<and> ai_AppId (app_info s a) = appId \<and> push_wanted s m a}"
proof -
  let ?h = "makeHeader MSG_PUSH 0 (word_of_nat (length (push_body appId m)))" and ?b = "push_body appId m"
  have o: "map_order (regappMap s) (iter e (world s) (regappMap s))"
    by (rule iter_map_order[OF it]) (use w in \<open>simp add: wf_comet_def wf_apps_def\<close>)
  have all: "pushes ?h ?b (recipients s m as) s (push_all e m ?h ?b as s)" for as
    using push_all_pushes[where bs = "[]" and as = as, of ?h ?b s m s e] pushes_refl[of ?h ?b s] by simp
  have key: "\<And>r a. regappMap s r = Some a \<Longrightarrow> ap_RegId (app_heap s a) = r" using w by (auto simp: wf_comet_def wf_apps_def)
  consider "rm_PushType m = PUSH_TYPE_ALL" | "rm_PushType m = PUSH_TYPE_REGID" | "rm_PushType m = PUSH_TYPE_TOPIC" using ty by blast
  then show ?thesis
  proof cases
    case 1
    show ?thesis
      by (rule that[of "push_all e m ?h ?b (GetApps e appId s) s" "GetApps e appId s"])
        (use 1 all GetApps_set[OF o, of appId] in \<open>auto simp: PushMessages_def Let_def push_wanted_def push_type_defs\<close>)
  next
    case 2
    let ?as = "List.map_filter (\<lambda>r. GetApp appId r s) (elems (pp_RegId (rm_PushParams m)))"
    have "pushes ?h ?b (recipients s m ?as) s
        (fold (\<lambda>regid s. push_found e m ?h ?b (GetApp appId regid s) s) (elems (pp_RegId (rm_PushParams m))) s)"
      using push_regids_pushes[of ?h ?b s m "[]" s appId "elems (pp_RegId (rm_PushParams m))" e] pushes_refl[of ?h ?b s] by simp
    moreover have "set ?as = {a. (\<exists>r. regappMap s r = Some a) \<and> ai_AppId (app_info s a) = appId \<and> push_wanted s m a}"
      using key by (force simp: set_map_filter GetApp_Some[OF w] push_wanted_def 2 push_type_defs)
    ultimately show ?thesis using 2 that by (simp add: PushMessages_def Let_def push_type_defs)
  next
    case 3
    show ?thesis
      by (rule that[of "push_all e m ?h ?b (GetAppsByTopic e appId (elems (pp_Topic (rm_PushParams m))) (pp_TopicOp (rm_PushParams m)) s) s"
            "GetAppsByTopic e appId (elems (pp_Topic (rm_PushParams m))) (pp_TopicOp (rm_PushParams m)) s"])
        (use 3 all GetAppsByTopic_set[OF o] GetApps_set[OF o, of appId] in \<open>auto simp: PushMessages_def Let_def push_wanted_def push_type_defs\<close>)
  qed
qed

text \<open>For every type of push: only registrations of this server for the app get it (for \<open>USERID\<close>, those
  that storage lists for the user), and the state changes in nothing else.\<close>

lemma PushMessages_sound:
  assumes it: "iter_ok e" and w: "wf_comet s" and p: "PushMessages e k appId m s = Some (s', fin)"
  shows "pushes_some (makeHeader MSG_PUSH 0 (word_of_nat (length (push_body appId m)))) (push_body appId m) m
    (\<lambda>a. (\<exists>r. regappMap s r = Some a) \<or> (\<exists>d. on_device s appId d a)) s s'"
proof -
  let ?h = "makeHeader MSG_PUSH 0 (word_of_nat (length (push_body appId m)))" and ?b = "push_body appId m"
  let ?Q = "\<lambda>a. (\<exists>r. regappMap s r = Some a) \<or> (\<exists>d. on_device s appId d a)"
  have r: "pushes_some ?h ?b m ?Q s s" by (rule pushes_some_refl)
  show ?thesis
  proof (cases "rm_PushType m \<in> {PUSH_TYPE_ALL, PUSH_TYPE_REGID, PUSH_TYPE_TOPIC}")
    case True
    obtain t as where t: "PushMessages e k appId m s = Some (t, True)" "pushes ?h ?b (recipients s m as) s t"
      and as: "set as = {a. (\<exists>r. regappMap s r = Some a) \<and> ai_AppId (app_info s a) = appId \<and> push_wanted s m a}"
      by (rule PushMessages_selects[OF it w True, of k appId])
    have "s' = t" using p t(1) by simp
    moreover have "\<forall>a \<in> set as. ?Q a" unfolding as by blast
    ultimately show ?thesis using t(2) unfolding pushes_some_def by blast
  next
    case False
    then consider "rm_PushType m = PUSH_TYPE_USERID" | "rm_PushType m = PUSH_TYPE_DEVID" | "rm_PushType m = PUSH_TYPE_GROUP"
      | (other) "rm_PushType m \<notin> {PUSH_TYPE_USERID, PUSH_TYPE_DEVID, PUSH_TYPE_GROUP}" by blast
    then show ?thesis
    proof cases
      case 1
      then obtain u where "push_users e appId m ?h ?b (elems (pp_UserId (rm_PushParams m))) s = Some u" "s' = u"
        using p by (auto simp: PushMessages_def Let_def push_type_defs)
      then show ?thesis using push_users_some[OF r] by blast
    next
      case 2
      then have "s' = push_devices e appId m ?h ?b (elems (pp_DevId (rm_PushParams m))) s"
        using p by (auto simp: PushMessages_def Let_def push_type_defs)
      then show ?thesis using push_devices_some[OF r] by blast
    next
      case 3
      then have "push_groups e appId m ?h ?b k (elems (pp_Group (rm_PushParams m))) s = Some (s', fin)"
        using p by (auto simp: PushMessages_def Let_def push_type_defs)
      then show ?thesis using push_groups_some[OF r] by blast
    next
      case other
      then have "s' = s" using p False by (simp add: PushMessages_def Let_def)
      then show ?thesis using r by simp
    qed
  qed
qed

end
