(* ===== verification/Comet_Example.thy ===== *)
theory Comet_Example
  imports Server_Spec Handlers_Spec Comet_Spec Push_Spec Storage_Spec
begin

text \<open>
  A concrete environment for the comet server (the in-memory Redis, an authentication service that
  accepts every token, a network that takes every byte) and a small state of it with two devices,
  one registration each. The theorems of \<open>Spec2Isabelle\<close> are applied to them.
\<close>

definition ex_sha1 :: "string \<Rightarrow> string" where
  "ex_sha1 s = take 20 (s @ replicate 20 (CHR 0x00))"

definition mem_env :: "mem env" where
  "mem_env = \<lparr>store = mem_store, auth_Instance = Some (\<lambda>w token. Some (w, True, token)), now = clk, sha1 = ex_sha1,
     spare = (\<lambda>_. 0), map_iter = (\<lambda>w S. sorted_list_of_set S), conn_write = (\<lambda>w c b. (w, None))\<rparr>"

lemma mem_env_simps [simp]:
  "store mem_env = mem_store" "now mem_env = clk" "sha1 mem_env = ex_sha1" "spare mem_env = (\<lambda>_. 0)"
  "auth_Instance mem_env = Some (\<lambda>w token. Some (w, True, token))" "conn_write mem_env = (\<lambda>w c b. (w, None))"
  by (simp_all add: mem_env_def)

lemma mem_env_iter_ok: "iter_ok mem_env"
  by (simp add: iter_ok_def mem_env_def)

definition ex_info :: "string \<Rightarrow> slice \<Rightarrow> slice \<Rightarrow> AppInfo" where
  "ex_info app t u = \<lparr>ai_AppId = app, ai_RegTime = 7, ai_UserId = ''ann'', ai_LastMsgId = 3, ai_Topics = t, ai_SendIds = u\<rparr>"

definition ex_client :: "string \<Rightarrow> nat \<Rightarrow> (string \<Rightarrow> nat option) \<Rightarrow> Client" where
  "ex_client dev conn apps = \<lparr>cl_devId = dev, cl_conn = conn, cl_closed = False, cl_nextSeq = 1, cl_lastActive = 0,
     cl_RegApps = apps, cl_jobChannel = conn, cl_replyChannels = Map.empty\<rparr>"

text \<open>Registration 0 (app \<open>a\<close>, id \<open>r0\<close>, topics \<open>x\<close> and \<open>y\<close>) on device \<open>d0\<close>, registration 1 (app \<open>a\<close>, id
  \<open>r1\<close>, no topics) on device \<open>d1\<close>.\<close>

definition ex_comet :: "mem comet" where
  "ex_comet = \<lparr>world = mem_empty,
     slices = \<lparr>cells = (\<lambda>_. [])(0 := [''x'', ''y'']), fresh = 1\<rparr>,
     app_heap = (\<lambda>_. \<lparr>ap_DevId = ''d1'', ap_RegId = ''r1'', ap_AppInfo = ex_info ''a'' SNil SNil\<rparr>)
       (0 := \<lparr>ap_DevId = ''d0'', ap_RegId = ''r0'', ap_AppInfo = ex_info ''a'' (Slice 0 2) SNil\<rparr>),
     app_fresh = 2, regappMap = [''r0'' \<mapsto> 0, ''r1'' \<mapsto> 1],
     client_heap = (\<lambda>_. ex_client ''d1'' 1 [''a'' \<mapsto> 1])(0 := ex_client ''d0'' 0 [''a'' \<mapsto> 0]),
     client_fresh = 2, DevicesMap = \<lparr>mp = [''d0'' \<mapsto> 0, ''d1'' \<mapsto> 1]\<rparr>,
     worker_jobs = (\<lambda>_. []), wire = (\<lambda>_. []), closed_conns = {}, delivered = []\<rparr>"

lemmas ex_simps = ex_comet_def ex_info_def ex_client_def

lemma framed_Nil [simp]: "framed c []"
  unfolding framed_def by (rule exI[of _ "[]"], rule exI[of _ "[]"]) simp

lemma less_two: "(a::nat) < 2 \<longleftrightarrow> a = 0 \<or> a = 1"
  by auto

lemma wf_ex_comet: "wf_comet ex_comet"
proof -
  have "wf_apps ex_comet" by (auto simp: wf_apps_def ex_simps split: if_splits)
  moreover have "own_arrays ex_comet"
    by (simp add: own_arrays_def less_two wf_info_def info_arrays_def ex_simps)
  moreover have "one_client_per_device ex_comet"
    by (auto simp: one_client_per_device_def less_two Get_mp ex_simps split: if_splits)
  moreover have "wf_jobs ex_comet" by (simp add: wf_jobs_def ex_simps)
  moreover have "wf_wire ex_comet" by (simp add: wf_wire_def ex_simps)
  ultimately show ?thesis by (simp add: wf_comet_def)
qed

text \<open>A server, and a device that connects to it.\<close>

definition ex_server :: Server where
  "ex_server = (NewServer ''10.0.0.1'' 90 1000 100 2)\<lparr>sv_blackUpdate := 0\<rparr>"

definition ex_quote :: string where "ex_quote = [CHR 0x22]"

definition ex_init_body :: string where
  "ex_init_body = ''{'' @ ex_quote @ ''devid'' @ ex_quote @ '':'' @ ex_quote @ ''d9'' @ ex_quote @ ''}''"

definition ex_init_bytes :: string where
  "ex_init_bytes = Serialize \<lparr>hd_Type = MSG_INIT, hd_Ver = 1, hd_Seq = 7, hd_Len = word_of_nat (length ex_init_body)\<rparr> @ ex_init_body"

lemma ex_init_parses: "Unmarshal dec_InitMessage ex_init_body zero_InitMessage = (zero_InitMessage\<lparr>im_DevId := ''d9''\<rparr>, True)"
  by code_simp

lemma ex_init_header: "Deserialize (take 10 ex_init_bytes) = Some \<lparr>hd_Type = MSG_INIT, hd_Ver = 1, hd_Seq = 7, hd_Len = 14\<rparr>"
  by code_simp

lemma ex_check_device: "fst (CheckDevice mem_store mem_empty ''d9'') = mem_empty" "snd (CheckDevice mem_store mem_empty ''d9'') = Inr []"
  by (simp_all add: mem_store_def NewInstance_def RedisStorage_CheckDevice_def RedisStorage_GetServerNames_def do_strings_def RedisStorage_Do_def mem_redigo_def mem_do_def mem_empty_def mem_cmd_def hash_cmd_def other_cmd_def Let_def)

lemma iter_empty: "iter mem_env w Map.empty = []"
  by (simp add: iter_def mem_env_def)

lemma ex_reads_1: "myRead HEADER_SIZE [Bytes ex_init_bytes] = (Some (take 10 ex_init_bytes), [Bytes (drop 10 ex_init_bytes)])" by code_simp
lemma ex_reads_2: "myRead 14 [Bytes (drop 10 ex_init_bytes)] = (Some ex_init_body, [])" by code_simp
lemma ex_reads_3: "put_at (zero_bytes HEADER_SIZE) 0 (take 10 ex_init_bytes) = take 10 ex_init_bytes" by code_simp
lemma ex_reads_4: "put_at (zero_bytes 14) 0 ex_init_body = ex_init_body" by code_simp
lemma ex_reads_5: "ex_init_body \<noteq> []" "ex_init_bytes \<noteq> []" by code_simp+

lemmas ex_reads = ex_reads_1 ex_reads_2 ex_reads_3 ex_reads_4 ex_reads_5

lemma ex_add_device: "snd (AddDevice mem_store mem_empty ''10.0.0.1'' ''d9'') = None"
  by (simp add: mem_store_def NewInstance_def RedisStorage_AddDevice_def do_int_def RedisStorage_Do_def mem_redigo_def mem_do_def mem_empty_def mem_cmd_def hash_cmd_def other_cmd_def Let_def only_err_def)

definition ex_init :: Header where
  "ex_init = \<lparr>hd_Type = MSG_INIT, hd_Ver = 1, hd_Seq = 7, hd_Len = 14\<rparr>"

lemma ex_admits: "\<exists>s. admit mem_env (\<lambda>i t. t) 0 7 ex_server ex_init (zero_InitMessage\<lparr>im_DevId := ''d9''\<rparr>) (comet_init mem_empty) =
  Some (ex_server, s, Some 0) \<and> client_fresh s = 1"
proof -
  define t where "t = comet_init mem_empty"
  have t: "world t = mem_empty" "DevicesMap t = NewSafeMap" "client_fresh t = 0" by (simp_all add: t_def comet_init_def)
  have b: "checkBlacklist mem_env ''d9'' 0 ex_server t = (ex_server, t, True)"
    by (simp add: checkBlacklist_def ex_server_def NewServer_def second_def BLACK_UPDATE_INTERVAL_def)
  have wo: "wait_old (\<lambda>i t. t) ''d9'' 5 t = (t, True)" by (simp add: wait_old.simps t)
  obtain s4 where s4: "createClient mem_env ex_server 0 7 ''d9'' t = (s4, Some 0)" "client_fresh s4 = 1"
    "cl_RegApps (client_heap s4 0) = Map.empty" "cl_jobChannel (client_heap s4 0) = 0"
    using ex_add_device by (simp add: createClient_def NewClient_def t Let_def ex_server_def NewServer_def)
  obtain s5 where s5: "start_client mem_env ex_server 0 ex_init
      (zero_InitMessage\<lparr>im_DevId := ''d9''\<rparr>) s4 = Some s5" "client_fresh s5 = 1"
    using s4 by (simp add: start_client_def Let_def zero_InitMessage_def SendMessage_no_reply iter_empty ex_init_def)
  have n: "clk mem_empty = 0" by (simp add: mem_empty_def)
  have tw: "t\<lparr>world := mem_empty\<rparr> = t" by (simp add: t_def comet_init_def)
  have cr: "createClient mem_env ex_server 0 7 ''d9'' (t\<lparr>world := mem_empty\<rparr>) = (s4, Some 0)" unfolding tw by (rule s4(1))
  show ?thesis using cr s5 ex_check_device t b wo n unfolding t_def[symmetric]
    by (simp add: admit_def Let_def checkDeviceId_def zero_InitMessage_def)
qed

lemma ex_connects: "\<exists>s. waitInit mem_env (\<lambda>i t. t) 0 7 ex_server [Bytes ex_init_bytes] (comet_init mem_empty) = Some (ex_server, [], s, Some 0) \<and> client_fresh s = 1"
proof -
  have w: "waitInit mem_env (\<lambda>i t. t) 0 7 ex_server [Bytes ex_init_bytes] t = map_option (\<lambda>(srv1, s1, r). (srv1, [], s1, r))
    (admit mem_env (\<lambda>i t. t) 0 7 ex_server ex_init (zero_InitMessage\<lparr>im_DevId := ''d9''\<rparr>) t)" for t
    by (simp add: waitInit_def ex_reads ex_init_header ex_init_parses ex_server_def NewServer_def ex_init_def)
  obtain s where s: "admit mem_env (\<lambda>i t. t) 0 7 ex_server ex_init (zero_InitMessage\<lparr>im_DevId := ''d9''\<rparr>) (comet_init mem_empty) =
      Some (ex_server, s, Some 0)" "client_fresh s = 1" using ex_admits by blast
  show ?thesis unfolding w s(1) using s(2) by simp
qed

end
