(* ===== verification/Comet_Properties.thy ===== *)
theory Comet_Properties
  imports Comet_Example Push_Spec
begin

text \<open>
  The properties of the comet server: the invariant of its reachable states and what it says about
  connections, bytes on the wire and acknowledgements, the reading of the byte stream, the delivery
  of messages, registrations across servers, the handlers, and the behaviours that surprise.
\<close>

subsection \<open>Reachable states\<close>


lemma ex_connected: "\<exists>s. reachable mem_env mem_empty s \<and> client_fresh s = 1"
proof -
  obtain s where s: "waitInit mem_env (\<lambda>i t. t) 0 7 ex_server [Bytes ex_init_bytes] (comet_init mem_empty) = Some (ex_server, [], s, Some 0)"
    "client_fresh s = 1" using ex_connects by blast
  have "comet_step mem_env (comet_init mem_empty) s"
    by (rule comet_step.connect[OF _ _ s(1)]) (simp_all add: unused_conn_def comet_init_def)
  then show ?thesis using s(2) by (auto simp: reachable_def)
qed



lemma ex_open: "\<exists>s. reachable mem_env mem_empty s \<and> open_client s 0"
proof -
  obtain s where s: "waitInit mem_env (\<lambda>i t. t) 0 7 ex_server [Bytes ex_init_bytes] (comet_init mem_empty) = Some (ex_server, [], s, Some 0)"
    using ex_connects by blast
  have st: "comet_step mem_env (comet_init mem_empty) s"
    by (rule comet_step.connect[OF _ _ s(1)]) (simp_all add: unused_conn_def comet_init_def)
  obtain header request where ad: "admit mem_env (\<lambda>i t. t) 0 7 ex_server header request (comet_init mem_empty) = Some (ex_server, s, Some 0)"
    using s by (auto simp: waitInit_def split: prod.splits option.splits if_splits bool.splits)
  have "open_client s 0"
    by (rule admit_checks(5)[OF mem_env_iter_ok _ wf_comet_init _ ad])
      (simp_all add: safe_sleep_def unused_conn_def comet_init_def apps_grow_def)
  then show ?thesis using st by (auto simp: reachable_def)
qed


text \<open>C3: What a client's connection was sent is a sequence of whole frames, each a ten-byte header with the
  length of the body that follows; only a connection whose client was closed may end in a part of one.\<close>

theorem wire_has_whole_frames:
  assumes "iter_ok e" "reachable e w s" "c < client_fresh s"
  shows "\<exists>fs p. wire s (cl_conn (client_heap s c)) = concat fs @ p \<and>
    list_all (\<lambda>f. \<exists>h body. f = Serialize h @ body \<and> hd_Len h = word_of_nat (length body)) fs \<and>
    (\<not> cl_closed (client_heap s c) \<longrightarrow> p = [])"
proof -
  have "framed (cl_closed (client_heap s c)) (wire s (cl_conn (client_heap s c)))"
    using reachable_wf[OF assms(1,2)] assms(3) by (simp add: wf_comet_def wf_wire_def)
  then obtain fs p where "wire s (cl_conn (client_heap s c)) = concat fs @ p" "list_all whole_frame fs"
    "p \<noteq> [] \<longrightarrow> cl_closed (client_heap s c)" by (auto simp: framed_def)
  then show ?thesis by (intro exI[of _ fs] exI[of _ p]) (auto simp: whole_frame_def list_all_iff)
qed

theorem wire_has_whole_frames_witness:
  "\<exists>s. reachable mem_env mem_empty s \<and> (\<exists>fs p. wire s (cl_conn (client_heap s 0)) = concat fs @ p \<and>
    list_all (\<lambda>f. \<exists>h body. f = Serialize h @ body \<and> hd_Len h = word_of_nat (length body)) fs \<and>
    (\<not> cl_closed (client_heap s 0) \<longrightarrow> p = []))"
proof -
  obtain s where s: "reachable mem_env mem_empty s" "client_fresh s = 1" using ex_connected by blast
  then show ?thesis using wire_has_whole_frames[OF mem_env_iter_ok s(1), of 0] by auto
qed

text \<open>C12: No step of the server takes an acknowledgement back or gives a registration another identity: once
  allocated it keeps its id, device, app and user, and its last message id never decreases.\<close>

theorem registrations_only_advance:
  assumes "iter_ok e" "wf_comet s" "comet_step e s s'" "a < app_fresh s"
  shows "a < app_fresh s' \<and> ap_RegId (app_heap s' a) = ap_RegId (app_heap s a) \<and>
    ap_DevId (app_heap s' a) = ap_DevId (app_heap s a) \<and> ai_AppId (app_info s' a) = ai_AppId (app_info s a) \<and>
    ai_UserId (app_info s' a) = ai_UserId (app_info s a) \<and> ai_LastMsgId (app_info s a) \<le> ai_LastMsgId (app_info s' a)"
  using comet_step_wf_grow[OF assms(1,3,2)] assms(4) by (auto simp: apps_grow_def app_grows_def)

theorem registrations_only_advance_witness:
  "ap_RegId (app_heap (closeClient mem_env ex_server 0 ex_comet) 0) = ''r0'' \<and>
   3 \<le> ai_LastMsgId (app_info (closeClient mem_env ex_server 0 ex_comet) 0)"
proof -
  have "comet_step mem_env ex_comet (closeClient mem_env ex_server 0 ex_comet)"
    by (rule comet_step.close) (simp add: open_client_def ex_comet_def)
  from registrations_only_advance[OF mem_env_iter_ok wf_ex_comet this, of 0] show ?thesis by (simp add: ex_simps)
qed

subsection \<open>Bytes in and out\<close>


definition ex_jobs :: "mem comet" where
  "ex_jobs = send_all 0 [(MSG_PUSH, ''ab''), (MSG_PUSH, ''c'')] ex_comet"

lemma ex_jobs_simps: "client_heap ex_jobs 0 = (ex_client ''d0'' 0 [''a'' \<mapsto> 0])\<lparr>cl_nextSeq := 3\<rparr>"
  "worker_jobs ex_jobs 0 = [reply_job 0 MSG_PUSH 2 ''ab'', reply_job 0 MSG_PUSH 3 ''c'']"
  "wire ex_jobs 0 = []"
  by (simp_all add: ex_jobs_def send_all_def SendMessage_no_reply NextSeq_def Let_def ex_simps)



definition ex_cut :: "sock_event list" where
  "ex_cut = [Bytes [CHR 0x00, CHR 0x02], Bytes [CHR 0x00, CHR 0x00], Deadline, Bytes [CHR 0x00, CHR 0x00, CHR 0x05, CHR 0x00, CHR 0x00, CHR 0x00],
     Deadline, Bytes [CHR 0x02, CHR ''h''], Bytes ''i'']"


text \<open>C7: The messages that a connection's handlers get, whatever the clock and the other goroutines do, are
  among the first of those that the grammar finds in its stream, in that order, each with a body of the
  announced length, not empty, and within the server's limit.\<close>

theorem handlers_get_the_stream:
  assumes "trace = conn_trace e others srv c k conn_st0 evs s"
  shows "\<exists>rest. frames (parse_stream (sv_maxBodyLen srv) (ev_bytes evs)) = trace @ rest \<and>
    list_all (\<lambda>(h, b). length b = unat (hd_Len h) \<and> b \<noteq> [] \<and> hd_Len h \<le> sv_maxBodyLen srv) trace"
proof -
  have "conn_ok (sv_maxBodyLen srv) 0 (conn_st0\<lparr>startTime := 0\<rparr>)"
    using conn_ok0 by (simp add: conn_ok_def conn_st0_def)
  from conn_trace_prefix[OF this] obtain rest where
    r: "frames (parse_stream (sv_maxBodyLen srv) (taken conn_st0 @ ev_bytes evs)) = trace @ rest" using assms by blast
  have t: "taken conn_st0 = []" by (simp add: taken_def conn_st0_def)
  have "length b = unat (hd_Len h) \<and> b \<noteq> [] \<and> hd_Len h \<le> sv_maxBodyLen srv" if "(h, b) \<in> set trace" for h b
    by (rule parse_stream_frames[of _ _ _ "taken conn_st0 @ ev_bytes evs"]) (use r that in simp)
  then show ?thesis using r t by (auto simp: list_all_iff)
qed

theorem handlers_get_the_stream_witness:
  "\<exists>rest. frames (parse_stream (sv_maxBodyLen ex_server) (ev_bytes ex_cut)) =
    conn_trace mem_env (\<lambda>i s. s) ex_server 0 20 conn_st0 ex_cut ex_comet @ rest"
  using handlers_get_the_stream[OF refl] by blast

text \<open>C8: What \<open>SendJob.Do\<close> writes for a sequence of messages, with any number of heartbeat bytes in front of each,
  the read loop's grammar takes apart into the same headers and bodies.\<close>

theorem stream_round_trip:
  assumes "list_all (sendable mx) xs"
  shows "frames (parse_stream mx (concat (map msg_bytes xs))) = map snd xs"
  by (rule parse_messages[OF assms])

theorem stream_round_trip_witness:
  "frames (parse_stream 100 (concat (map msg_bytes
      [(2, \<lparr>hd_Type = 2, hd_Ver = 0, hd_Seq = 5, hd_Len = 2\<rparr>, ''hi''), (0, \<lparr>hd_Type = 9, hd_Ver = 0, hd_Seq = 0, hd_Len = 1\<rparr>, [CHR 0x00])]))) =
    [(\<lparr>hd_Type = 2, hd_Ver = 0, hd_Seq = 5, hd_Len = 2\<rparr>, ''hi''), (\<lparr>hd_Type = 9, hd_Ver = 0, hd_Seq = 0, hd_Len = 1\<rparr>, [CHR 0x00])]"
  using stream_round_trip[of 100 "[(2, \<lparr>hd_Type = 2, hd_Ver = 0, hd_Seq = 5, hd_Len = 2\<rparr>, ''hi''),
      (0, \<lparr>hd_Type = 9, hd_Ver = 0, hd_Seq = 0, hd_Len = 1\<rparr>, [CHR 0x00])]"]
  by (simp add: sendable_def)

subsection \<open>Pushing\<close>


definition ex_push :: "int \<Rightarrow> RawMessage" where
  "ex_push ty = zero_RawMessage\<lparr>rm_MsgId := 5, rm_AppId := ''a'', rm_PushType := ty,
     rm_PushParams := zero_PushParams\<lparr>pp_Topic := Some [''x''], pp_DevId := Some [''d1'']\<rparr>\<rparr>"

lemma ex_push_wanted: "push_wanted ex_comet (ex_push PUSH_TYPE_TOPIC) a \<longleftrightarrow> a = 0"
  by (auto simp: push_wanted_def ex_push_def push_type_defs ex_simps matchTopics_or zero_RawMessage_def zero_PushParams_def)




text \<open>A topic push with operation \<open>and\<close> selects the subscriptions that have all its topics, with \<open>except\<close>
  those that have the first topic and none of the others, and with any other operation those that have
  some topic of it.\<close>

theorem topics_match:
  "matchTopics subs topics ''and'' = (set topics \<subseteq> set subs) \<and>
   matchTopics subs topics ''except'' = (case topics of [] \<Rightarrow> True | t # ts \<Rightarrow> t \<in> set subs \<and> set ts \<inter> set subs = {}) \<and>
   (op \<noteq> ''and'' \<longrightarrow> op \<noteq> ''except'' \<longrightarrow> matchTopics subs topics op = (set subs \<inter> set topics \<noteq> {}))"
  using matchTopics_and[of subs topics] matchTopics_except[of subs topics] matchTopics_or[of op subs topics] by blast

theorem topics_match_witness: "matchTopics [''x'', ''y''] [''z'', ''y''] ''or''"
  using topics_match[of "[''x'', ''y'']" "[''z'', ''y'']" "''or''"] by simp


definition ex_big_group :: "mem env" where
  "ex_big_group = mem_env\<lparr>store := NewInstance \<lparr>pool = mem_redigo
     \<lparr>conn_do := (\<lambda>w cmd args. (w, Inr (RArr [RBulk ''17'', RArr [RBulk ''d0'']])))\<rparr>, retry = 1\<rparr>\<rparr>"


end
