(* ===== verification/Isolation.thy ===== *)
theory Isolation
  imports Handlers_Spec Comet_Steps
begin

text \<open>
  What one device can change. \<open>confined c s t\<close>: between \<open>s\<close> and \<open>t\<close> only the client \<open>c\<close>, its own
  registrations (with their lists of topics and sender ids), the entries of \<open>regappMap\<close> under its own
  ids and the queue of its worker changed; what was added to \<open>regappMap\<close> is its own, and what was
  queued is for it. Every handler is confined to the client that sent the message, so a turn of its
  read loop is.
\<close>

subsection \<open>What belongs to a client\<close>

definition own_apps :: "'w comet \<Rightarrow> nat \<Rightarrow> nat set" where
  "own_apps s c = ran (cl_RegApps (client_heap s c))"

definition own_ids :: "'w comet \<Rightarrow> nat \<Rightarrow> string set" where
  "own_ids s c = (\<lambda>a. ap_RegId (app_heap s a)) ` own_apps s c"

text \<open>A job that a turn of \<open>c\<close> may queue: a message to \<open>c\<close>, or the storing of a registration of its device.\<close>

definition own_job :: "'w comet \<Rightarrow> nat \<Rightarrow> Job \<Rightarrow> bool" where
  "own_job s c j = (case j of SendJob d _ _ _ _ \<Rightarrow> d = c
     | UpdateJob devid regid _ \<Rightarrow> devid = cl_devId (client_heap s c) \<and> regid \<in> own_ids s c)"

definition only_queued :: "nat \<Rightarrow> 'w comet \<Rightarrow> 'w comet \<Rightarrow> bool" where
  "only_queued c s t \<longleftrightarrow> wire t = wire s \<and> cl_jobChannel (client_heap t c) = cl_jobChannel (client_heap s c) \<and>
     (\<forall>n. n \<noteq> cl_jobChannel (client_heap s c) \<longrightarrow> worker_jobs t n = worker_jobs s n) \<and>
     (\<exists>js. worker_jobs t (cl_jobChannel (client_heap s c)) = worker_jobs s (cl_jobChannel (client_heap s c)) @ js \<and>
        list_all (own_job s c) js)"

definition same_app :: "'w comet \<Rightarrow> 'w comet \<Rightarrow> nat \<Rightarrow> bool" where
  "same_app s t a \<longleftrightarrow> app_heap t a = app_heap s a \<and> topics_of t a = topics_of s a \<and> sendids_of t a = sendids_of s a"

definition confined :: "nat \<Rightarrow> 'w comet \<Rightarrow> 'w comet \<Rightarrow> bool" where
  "confined c s t \<longleftrightarrow> good s t \<and> only_queued c s t \<and> (\<forall>d. d \<noteq> c \<longrightarrow> client_heap t d = client_heap s d) \<and>
     own_apps t c \<subseteq> own_apps s c \<union> {app_fresh s..} \<and>
     (\<forall>a < app_fresh s. a \<notin> own_apps s c \<longrightarrow> same_app s t a) \<and>
     (\<forall>k. k \<notin> own_ids s c \<longrightarrow> regappMap s k \<noteq> None \<longrightarrow> regappMap t k = regappMap s k) \<and>
     (\<forall>k a. regappMap t k = Some a \<longrightarrow> regappMap s k = Some a \<or> a \<in> own_apps t c) \<and>
     (\<forall>a \<in> own_apps t c. ap_RegId (app_heap t a) \<in> own_ids s c \<or> regappMap s (ap_RegId (app_heap t a)) = None)"

lemma same_app_refl [simp]: "same_app s s a"
  by (simp add: same_app_def)

lemma only_queued_refl [simp]: "only_queued c s s"
  by (simp add: only_queued_def)

lemma confined_refl: "wf_comet s \<Longrightarrow> confined c s s"
  by (auto simp: confined_def good_refl own_ids_def)

lemma confined_good: "confined c s t \<Longrightarrow> good s t"
  by (simp add: confined_def)

subsection \<open>Changes outside of the registrations\<close>

text \<open>The parts of a state that \<open>confined\<close> looks at, but for the queues.\<close>

definition same_apps :: "'w comet \<Rightarrow> 'w comet \<Rightarrow> bool" where
  "same_apps t u \<longleftrightarrow> app_heap u = app_heap t \<and> slices u = slices t \<and> regappMap u = regappMap t \<and>
     (\<forall>d. cl_RegApps (client_heap u d) = cl_RegApps (client_heap t d))"

lemma confined_same_apps:
  assumes "confined c s t" "same_apps t u" "good s u" "only_queued c s u" "\<And>d. d \<noteq> c \<Longrightarrow> client_heap u d = client_heap t d"
  shows "confined c s u"
proof -
  have o: "own_apps u c = own_apps t c" using assms(2) by (simp add: own_apps_def same_apps_def)
  have "same_app s u a = same_app s t a" for a
    using assms(2) by (simp add: same_app_def same_apps_def topics_of_def sendids_of_def)
  then show ?thesis using assms unfolding confined_def o by (simp add: same_apps_def)
qed

lemma confined_queued: "confined c s t \<Longrightarrow> only_queued c s t"
  by (simp add: confined_def)

lemma confined_world:
  assumes "confined c s t"
  shows "confined c s (t\<lparr>world := w\<rparr>)"
  by (rule confined_same_apps[OF assms])
    (use confined_good[OF assms] confined_queued[OF assms] in \<open>simp_all add: good_world same_apps_def only_queued_def\<close>)

lemma confined_delivered:
  assumes "confined c s t"
  shows "confined c s (t\<lparr>delivered := d\<rparr>)"
  by (rule confined_same_apps[OF assms])
    (use confined_good[OF assms] confined_queued[OF assms] in \<open>simp_all add: good_def same_apps_def only_queued_def\<close>)

lemma confined_upd_client:
  assumes "confined c s t" "\<And>x. cl_devId (f x) = cl_devId x \<and> cl_conn (f x) = cl_conn x \<and> cl_RegApps (f x) = cl_RegApps x \<and>
     cl_jobChannel (f x) = cl_jobChannel x \<and> (cl_closed x \<longrightarrow> cl_closed (f x))"
  shows "confined c s (upd_client c f t)"
proof (rule confined_same_apps[OF assms(1)])
  show "good s (upd_client c f t)" using assms by (intro good_upd_client) (auto simp: confined_def)
qed (use assms in \<open>auto simp: confined_def same_apps_def only_queued_def\<close>)

lemma confined_put_job:
  assumes "confined c s t" "own_job s c j" "good s (put_job c j t)"
  shows "confined c s (put_job c j t)"
proof (rule confined_same_apps[OF assms(1)])
  show "only_queued c s (put_job c j t)" using assms(1,2) by (auto simp: confined_def only_queued_def)
qed (use assms in \<open>auto simp: same_apps_def\<close>)

lemma confined_sendReply:
  assumes "confined c s t" "c < client_fresh s"
  shows "confined c s (sendReply c ty q v t)"
proof (rule confined_same_apps[OF assms(1)])
  obtain u x where m: "SendMessage c ty q (Some (json_text v)) None t = (u, x)" by (rule prod.exhaust)
  have u: "sendReply c ty q v t = u" using m by (simp add: sendReply_def)
  show "good s (sendReply c ty q v t)" by (rule good_sendReply[OF confined_good[OF assms(1)] assms(2)])
  show "same_apps t (sendReply c ty q v t)" using SendMessage_frame[OF m] by (simp add: u same_apps_def)
  show "d \<noteq> c \<Longrightarrow> client_heap (sendReply c ty q v t) d = client_heap t d" for d
    by (simp add: sendReply_def SendMessage_no_reply NextSeq_def Let_def)
  show "only_queued c s (sendReply c ty q v t)"
    using assms(1) by (auto simp: confined_def only_queued_def sendReply_def SendMessage_no_reply NextSeq_def Let_def own_job_def reply_job_def)
qed

subsection \<open>Changes of registrations\<close>

lemma own_old: "confined c s t \<Longrightarrow> a \<in> own_apps t c \<Longrightarrow> a < app_fresh s \<Longrightarrow> a \<in> own_apps s c"
  by (auto simp: confined_def)

text \<open>A registration of \<open>c\<close> gets another \<open>AppInfo\<close> of the same identity, and the heap of slices changes only in the
  arrays of that registration.\<close>

lemma confined_heap:
  assumes k: "confined c s t" and a: "a \<in> own_apps t c" "a < app_fresh t" and g: "good s (t\<lparr>slices := h, world := w\<rparr>)"
    and h: "\<And>x. x < fresh (slices t) \<Longrightarrow> x \<notin> info_arrays (app_info t a) \<Longrightarrow> cells h x = cells (slices t) x"
  shows "confined c s (t\<lparr>slices := h, world := w\<rparr>)"
proof -
  let ?u = "t\<lparr>slices := h, world := w\<rparr>"
  have w: "wf_comet t" using k by (simp add: confined_def good_def)
  have fr: "app_fresh s \<le> app_fresh t" using k by (simp add: confined_def good_def)
  have "same_app s ?u b" if b: "b < app_fresh s" "b \<notin> own_apps s c" for b
  proof -
    have ne: "b \<noteq> a" using own_old[OF k a(1)] b by auto
    have bt: "b < app_fresh t" using b(1) fr by simp
    have ar: "cells h x = cells (slices t) x" if "x \<in> info_arrays (app_info t b)" for x
      using h[of x] wf_own(4)[OF w bt bt that] wf_own(3)[OF w a(2) bt ne] that by blast
    have "topics_of ?u b = topics_of t b" "sendids_of ?u b = sendids_of t b"
      unfolding topics_of_def sendids_of_def using ar by (auto intro!: slice_list_cells simp: info_arrays_def)
    moreover have "same_app s t b" using k b by (simp add: confined_def)
    ultimately show ?thesis by (simp add: same_app_def)
  qed
  moreover have "own_apps ?u c = own_apps t c" by (simp add: own_apps_def)
  ultimately show ?thesis using k g by (simp add: confined_def only_queued_def)
qed

lemma confined_set_app:
  assumes k: "confined c s t" and a: "a \<in> own_apps t c" and g: "good s (set_app a f t)"
  shows "confined c s (set_app a f t)"
proof -
  have o: "own_apps (set_app a f t) c = own_apps t c" by (simp add: own_apps_def)
  have r: "ap_RegId (app_heap (set_app a f t) b) = ap_RegId (app_heap t b)" for b by simp
  have "same_app s (set_app a f t) b" if b: "b < app_fresh s" "b \<notin> own_apps s c" for b
  proof -
    have "b \<noteq> a" using own_old[OF k a] b by auto
    moreover have "same_app s t b" using k b by (simp add: confined_def)
    ultimately show ?thesis by (auto simp: same_app_def topics_of_def sendids_of_def)
  qed
  then show ?thesis using k g unfolding confined_def o r by (simp add: only_queued_def)
qed

lemma confined_RegisterApp_fails:
  assumes "confined c s t" "RegisterApp e devId regId appId uid t = (t', None)"
  shows "confined c s t'"
  using assms(2) by (cases rule: RegisterApp_cases) (simp_all add: confined_world[OF assms(1)])

text \<open>A registration is made and entered under its app.\<close>

lemma own_allocated: "confined c s t \<Longrightarrow> c < client_fresh s \<Longrightarrow> a \<in> own_apps t c \<Longrightarrow> a < app_fresh t"
  unfolding own_apps_def ran_def using regapp_allocated confined_good by blast

lemma confined_registered:
  assumes k: "confined c s t" and c: "c < client_fresh s"
    and r: "RegisterApp e devId regId appId uid t = (t', Some a)" and n: "cl_RegApps (client_heap t c) appId = None"
  shows "confined c s (set_regapp c appId (Some a) t')" "cl_RegApps (client_heap (set_regapp c appId (Some a) t') c) appId = Some a"
proof -
  let ?u = "set_regapp c appId (Some a) t'"
  have gt: "good s t" by (rule confined_good[OF k])
  have g: "good s ?u" using good_RegisterApp[OF gt r] by (intro good_set_regapp) auto
  obtain w' info where new: "regappMap t regId = None" and a: "a = app_fresh t"
    and t': "t' = t\<lparr>world := w', app_heap := (app_heap t)(a := \<lparr>ap_DevId = devId, ap_RegId = regId, ap_AppInfo = info\<rparr>),
               app_fresh := Suc a, regappMap := (regappMap t)(regId \<mapsto> a)\<rparr>"
    using r by (cases rule: RegisterApp_cases) auto
  have heap: "app_heap ?u = (app_heap t)(a := \<lparr>ap_DevId = devId, ap_RegId = regId, ap_AppInfo = info\<rparr>)"
    and sl: "slices ?u = slices t" and rm: "regappMap ?u = (regappMap t)(regId \<mapsto> a)"
    and cl: "\<And>d. d \<noteq> c \<Longrightarrow> client_heap ?u d = client_heap t d"
    and ra: "cl_RegApps (client_heap ?u c) = (cl_RegApps (client_heap t c))(appId \<mapsto> a)"
    by (simp_all add: t' set_regapp_def)
  show "cl_RegApps (client_heap ?u c) appId = Some a" by (simp add: ra)
  have own: "own_apps ?u c = insert a (own_apps t c)" using n by (simp add: own_apps_def ra)
  have fr: "app_fresh s \<le> a" using gt a by (simp add: good_def)
  have ne: "b \<noteq> a" if "b \<in> own_apps t c" for b using own_allocated[OF k c that] a by simp
  have q: "only_queued c s ?u" using k by (simp add: confined_def only_queued_def t' set_regapp_def)
  have same: "same_app s ?u b" if "b < app_fresh s" "b \<notin> own_apps s c" for b
  proof -
    have "same_app s t b" using k that by (simp add: confined_def)
    then show ?thesis using that fr by (auto simp: same_app_def topics_of_def sendids_of_def heap sl)
  qed
  have key: "regId \<in> own_ids s c \<or> regappMap s regId = None"
    using k new unfolding confined_def by metis
  show "confined c s ?u"
    unfolding confined_def own
  proof (intro conjI allI impI ballI g q same)
    show "insert a (own_apps t c) \<subseteq> own_apps s c \<union> {app_fresh s..}" using k fr by (simp add: confined_def)
    show "client_heap ?u d = client_heap s d" if "d \<noteq> c" for d using k cl[OF that] that by (simp add: confined_def)
    show "regappMap ?u x = regappMap s x" if "x \<notin> own_ids s c" "regappMap s x \<noteq> None" for x
      using k that key by (auto simp: confined_def rm)
    show "regappMap s x = Some b \<or> b \<in> insert a (own_apps t c)" if "regappMap ?u x = Some b" for x b
      using k that by (auto simp: confined_def rm split: if_splits)
    show "ap_RegId (app_heap ?u b) \<in> own_ids s c \<or> regappMap s (ap_RegId (app_heap ?u b)) = None"
      if "b \<in> insert a (own_apps t c)" for b
      using k that key ne[of b] by (auto simp: confined_def heap)
  qed
qed

text \<open>A registration is deleted under its id and its app.\<close>

lemma confined_unregistered:
  assumes k: "confined c s t" and c: "c < client_fresh s" and a: "cl_RegApps (client_heap t c) appId = Some a"
    and r: "ap_RegId (app_heap t a) = regId" "regId \<noteq> []"
  shows "confined c s (set_regapp c appId None (UnregisterApp e devId regId appId2 uid t))"
proof -
  obtain w' where t': "UnregisterApp e devId regId appId2 uid t = t\<lparr>world := w', regappMap := (regappMap t)(regId := None)\<rparr>"
    using UnregisterApp_state[OF r(2), of e devId appId2 uid t] by blast
  let ?u = "set_regapp c appId None (UnregisterApp e devId regId appId2 uid t)"
  have gt: "good s t" by (rule confined_good[OF k])
  have g: "good s ?u" by (intro good_set_regapp good_UnregisterApp gt) simp
  have heap: "app_heap ?u = app_heap t" "slices ?u = slices t" and rm: "regappMap ?u = (regappMap t)(regId := None)"
    and cl: "\<And>d. d \<noteq> c \<Longrightarrow> client_heap ?u d = client_heap t d"
    and ra: "cl_RegApps (client_heap ?u c) = (cl_RegApps (client_heap t c))(appId := None)"
    by (simp_all add: t' set_regapp_def)
  have own: "own_apps ?u c \<subseteq> own_apps t c" "own_apps t c \<subseteq> insert a (own_apps ?u c)"
    using a by (auto simp: own_apps_def ra ran_def) (metis option.inject)
  have ma: "a \<in> own_apps t c" using a by (auto simp: own_apps_def ran_def)
  have key: "regId \<in> own_ids s c \<or> regappMap s regId = None" using k ma r(1) by (auto simp: confined_def)
  have id: "regappMap t x = Some b \<Longrightarrow> ap_RegId (app_heap t b) = x" for x b
    using gt by (auto simp: good_def wf_comet_def wf_apps_def)
  show ?thesis
    unfolding confined_def
  proof (intro conjI allI impI ballI g)
    show "only_queued c s ?u" using k by (simp add: confined_def only_queued_def t' set_regapp_def)
    show "own_apps ?u c \<subseteq> own_apps s c \<union> {app_fresh s..}" using k own(1) by (auto simp: confined_def)
    show "client_heap ?u d = client_heap s d" if "d \<noteq> c" for d using k cl[OF that] that by (simp add: confined_def)
    show "same_app s ?u b" if "b < app_fresh s" "b \<notin> own_apps s c" for b
      using k that by (auto simp: confined_def same_app_def topics_of_def sendids_of_def heap)
    show "regappMap ?u x = regappMap s x" if "x \<notin> own_ids s c" "regappMap s x \<noteq> None" for x
      using k that key by (auto simp: confined_def rm)
    show "regappMap s x = Some b \<or> b \<in> own_apps ?u c" if "regappMap ?u x = Some b" for x b
    proof -
      have b: "regappMap t x = Some b" "x \<noteq> regId" using that by (auto simp: rm split: if_splits)
      then have "b \<noteq> a" using id[OF b(1)] r(1) by auto
      moreover have "regappMap s x = Some b \<or> b \<in> own_apps t c" using k b(1) by (simp add: confined_def)
      ultimately show ?thesis using own(2) by blast
    qed
    show "ap_RegId (app_heap ?u b) \<in> own_ids s c \<or> regappMap s (ap_RegId (app_heap ?u b)) = None"
      if "b \<in> own_apps ?u c" for b
      using k that own(1) by (auto simp: confined_def heap)
  qed
qed

subsection \<open>Lists\<close>

text \<open>A new list of a registration of \<open>c\<close>, stored or not.\<close>

lemma confined_new_list:
  assumes k: "confined c s t" and c: "c < client_fresh s" and a: "a \<in> own_apps t c"
    and l: "new_list (slices t) y h x" "slice_arrays y \<subseteq> info_arrays (app_info t a)"
    and t': "t' = t\<lparr>slices := h, world := w\<rparr> \<or> t' = set_app a f (t\<lparr>slices := h, world := w\<rparr>)" and g: "good s t'"
  shows "confined c s t'"
proof -
  have "good s (t\<lparr>slices := h, world := w\<rparr>)"
    using l(1) by (intro good_world good_heap confined_good[OF k]) (simp add: new_list_def)
  then have u: "confined c s (t\<lparr>slices := h, world := w\<rparr>)"
    using l by (intro confined_heap[OF k a own_allocated[OF k c a]]) (auto simp: new_list_def)
  have "own_apps (t\<lparr>slices := h, world := w\<rparr>) c = own_apps t c" by (simp add: own_apps_def)
  then show ?thesis using t' u a g confined_set_app[OF u, of a f] by auto
qed

lemma own_appI: "cl_RegApps (client_heap t c) k = Some a \<Longrightarrow> a \<in> own_apps t c"
  by (auto simp: own_apps_def ran_def)

lemma confined_addSendids:
  assumes k: "confined c s t" and c: "c < client_fresh s" and a: "cl_RegApps (client_heap t c) app = Some a"
    and f: "addSendids e c r a ids t = (t', ok)"
  shows "confined c s t'"
proof -
  have al: "a < app_fresh t" by (rule own_allocated[OF k c own_appI[OF a]])
  from goodD(1)[OF confined_good[OF k]] al f show ?thesis
  proof (cases rule: addSendids_cases)
    case (list h x w)
    show ?thesis
      by (rule confined_new_list[OF k c own_appI[OF a] list(1) _ list(2)])
        (simp_all add: info_arrays_def good_addSendids[OF confined_good[OF k] al f])
  qed (use k in simp)
qed

lemma confined_delSendid:
  assumes k: "confined c s t" and c: "c < client_fresh s" and a: "cl_RegApps (client_heap t c) app = Some a"
    and f: "delSendid e c r a x t = (t', ok)"
  shows "confined c s t'" "cl_RegApps (client_heap t' c) app = Some a" "ap_RegId (app_heap t' a) = ap_RegId (app_heap t a)"
proof -
  have al: "a < app_fresh t" by (rule own_allocated[OF k c own_appI[OF a]])
  from goodD(1)[OF confined_good[OF k]] al f
  have "confined c s t' \<and> cl_RegApps (client_heap t' c) app = Some a \<and> ap_RegId (app_heap t' a) = ap_RegId (app_heap t a)"
  proof (cases rule: delSendid_cases)
    case (list h x w)
    have "confined c s t'"
      by (rule confined_new_list[OF k c own_appI[OF a] list(1) _ list(2)])
        (simp_all add: info_arrays_def good_delSendid[OF confined_good[OF k] al f])
    then show ?thesis using list(2) a by auto
  qed (use k a in simp)
  then show "confined c s t'" "cl_RegApps (client_heap t' c) app = Some a" "ap_RegId (app_heap t' a) = ap_RegId (app_heap t a)"
    by simp_all
qed

subsection \<open>Handlers\<close>

definition confines :: "'w handler \<Rightarrow> bool" where
  "confines f \<longleftrightarrow> (\<forall>e c h b s s' r. wf_comet s \<longrightarrow> c < client_fresh s \<longrightarrow> f e c h b s = Some (s', r) \<longrightarrow> confined c s s')"

lemma confines_Heartbeat: "confines handleHeartbeat"
  by (auto simp: confines_def handleHeartbeat_def intro!: confined_upd_client confined_refl)

lemma confines_CmdReply: "confines handleCmdReply"
  by (auto simp: confines_def handleCmdReply_def Let_def split: option.splits
      intro!: confined_upd_client confined_refl confined_world confined_delivered)

lemma confines_GetTopics: "confines handleGetTopics"
  by (auto simp: confines_def handleGetTopics_def Let_def reply_defs split: option.splits if_splits prod.splits
      intro!: confined_sendReply confined_refl)

lemma confines_Stats: "confines handleStats"
  by (auto simp: confines_def handleStats_def Let_def reply_defs split: option.splits if_splits prod.splits
      intro!: confined_sendReply confined_world confined_refl)

lemma confines_Unregister: "confines handleUnregister"
  by (auto simp: confines_def handleUnregister_def Let_def reply_defs split: option.splits if_splits prod.splits
      intro!: confined_sendReply confined_unregistered confined_refl)

lemma confines_Subscribe: "confines handleSubscribe"
  unfolding confines_def
proof (intro allI impI)
  fix e c hd b and s s' :: "'w comet" and r
  assume w: "wf_comet s" "c < client_fresh s" and f: "handleSubscribe e c hd b s = Some (s', r)"
  note k = confined_refl[OF w(1)] and g0 = good_refl[OF w(1)]
  from w f show "confined c s s'"
  proof (cases rule: handleSubscribe_cases)
    case (list k' a h x wo t res app reg)
    have "confined c s t"
      by (rule confined_new_list[OF k w(2) own_appI[OF list(1)] list(2) _ list(4)
          good_new_topics[OF g0 regapp_allocated[OF g0 w(2) list(1)] list(2,4)]]) (simp add: info_arrays_def)
    then show ?thesis using w(2) by (simp add: list(3) subscribe_reply_def confined_sendReply)
  qed (use k w(2) in \<open>simp add: subscribe_reply_def confined_sendReply\<close>)
qed

lemma confines_Unsubscribe: "confines handleUnsubscribe"
  unfolding confines_def
proof (intro allI impI)
  fix e c hd b and s s' :: "'w comet" and r
  assume w: "wf_comet s" "c < client_fresh s" and f: "handleUnsubscribe e c hd b s = Some (s', r)"
  note k = confined_refl[OF w(1)] and g0 = good_refl[OF w(1)]
  from w f show "confined c s s'"
  proof (cases rule: handleUnsubscribe_cases)
    case (list k' a h x wo t res app reg)
    have "confined c s t"
      by (rule confined_new_list[OF k w(2) own_appI[OF list(1)] list(2) _ list(4)
          good_new_topics[OF g0 regapp_allocated[OF g0 w(2) list(1)] list(2,4)]]) (simp add: info_arrays_def)
    then show ?thesis using w(2) by (simp add: list(3) unsubscribe_reply_def confined_sendReply)
  qed (use k w(2) in \<open>simp add: unsubscribe_reply_def confined_sendReply\<close>)
qed

lemma confines_PushReply: "confines handlePushReply"
  unfolding confines_def
proof (intro allI impI)
  fix e c h b and s s' :: "'w comet" and r
  assume w: "wf_comet s" "c < client_fresh s" and f: "handlePushReply e c h b s = Some (s', r)"
  have g: "good s s'" using keeps_PushReply f w unfolding keeps_def by blast
  show "confined c s s'"
  proof (cases "s' = s")
    case False
    then obtain q a where q: "Unmarshal dec_PushReplyMessage b zero_PushReplyMessage = (q, True)"
      and a: "cl_RegApps (client_heap s c) (pr_AppId q) = Some a" and id: "ap_RegId (app_heap s a) = pr_RegId q"
      and m: "\<not> pr_MsgId q \<le> ai_LastMsgId (app_info s a)"
      using f by (auto simp: handlePushReply_def Let_def split: prod.splits if_splits option.splits)
    let ?t = "set_app a (ai_LastMsgId_update (\<lambda>_. pr_MsgId q)) s"
    have s': "s' = put_job c (UpdateJob (cl_devId (client_heap s c)) (pr_RegId q) (app_info ?t a)) ?t"
      using f q a id m False by (simp add: handlePushReply_def Let_def split: if_splits)
    have al: "a < app_fresh s" using regapp_allocated[OF good_refl[OF w(1)] w(2) a] .
    have "good s ?t" by (rule good_set_LastMsgId[OF good_refl[OF w(1)] al]) (use m in simp)
    then have t: "confined c s ?t" by (rule confined_set_app[OF confined_refl[OF w(1)] own_appI[OF a]])
    have "own_job s c (UpdateJob (cl_devId (client_heap s c)) (pr_RegId q) (app_info ?t a))"
      using own_appI[OF a] id by (force simp: own_job_def own_ids_def)
    then show ?thesis using confined_put_job[OF t] g unfolding s' by blast
  qed (use w confined_refl in simp)
qed

lemma confined_Auth: "confined c s t \<Longrightarrow> auth_token e tok t = Some (t', ok, u) \<Longrightarrow>
  confined c s t' \<and> client_heap t' = client_heap t"
  by (auto simp: auth_token_def Auth_def confined_world split: if_splits option.splits)

lemma confines_Register: "confines handleRegister"
  unfolding confines_def
proof (intro allI impI)
  fix e c hd b and s s' :: "'w comet" and r
  assume w: "wf_comet s" "c < client_fresh s" and f: "handleRegister e c hd b s = Some (s', r)"
  note k0 = confined_refl[OF w(1)]
  have rep: "confined c s (register_reply c hd res m app pkg reg t)" if "confined c s t" for res m app pkg reg t
    using that w(2) by (simp add: register_reply_def confined_sendReply)
  have auth: "auth_token e tok (s\<lparr>world := w'\<rparr>) = Some (t', ok, u) \<Longrightarrow> confined c s t'" for w' tok t' ok u
    using confined_Auth confined_world[OF k0] by blast
  show "confined c s s'" using f
    by (auto simp: handleRegister_def Let_def split: option.splits if_splits prod.splits sum.splits bool.splits
        intro!: rep k0 confined_world[OF k0] confined_registered(1)[OF _ w(2)]
        intro: confined_RegisterApp_fails dest!: auth)
qed

lemma confines_Register2: "confines handleRegister2"
  unfolding confines_def
proof (intro allI impI)
  fix e c hd b and s s' :: "'w comet" and r
  assume w: "wf_comet s" "c < client_fresh s" and f: "handleRegister2 e c hd b s = Some (s', r)"
  note k0 = confined_refl[OF w(1)]
  have rep: "confined c s (register2_reply c hd res m app pkg reg t)" if "confined c s t" for res m app pkg reg t
    using that w(2) by (simp add: register2_reply_def confined_sendReply)
  have auth: "auth_token e tok (s\<lparr>world := w'\<rparr>) = Some (t', ok, u) \<Longrightarrow> confined c s t'" for w' tok t' ok u
    using confined_Auth confined_world[OF k0] by blast
  have reg: "confined c s t'" if "addSendids e c g a ids (set_regapp c app (Some a) u) = (t', ok)"
    "RegisterApp e d g2 app uid t = (u, Some a)" "confined c s t" "cl_RegApps (client_heap t c) app = None" for g a ids app u t' ok d g2 uid t
    using confined_addSendids[OF _ w(2) _ that(1)] confined_registered[OF that(3) w(2) that(2,4)] by blast
  have add: "confined c s t'" if "addSendids e c g a ids t = (t', ok)" "confined c s t" "cl_RegApps (client_heap t c) app = Some a"
    for g a ids t t' ok app using confined_addSendids[OF that(2) w(2) that(3,1)] .
  show "confined c s s'" using f
    by (auto simp: handleRegister2_def Let_def split: option.splits if_splits prod.splits bool.splits
        intro!: rep k0 confined_world[OF k0]
        intro: confined_RegisterApp_fails reg add dest!: auth)
qed

lemma confines_Unregister2: "confines handleUnregister2"
  unfolding confines_def
proof (intro allI impI)
  fix e c hd b and s s' :: "'w comet" and r
  assume w: "wf_comet s" "c < client_fresh s" and f: "handleUnregister2 e c hd b s = Some (s', r)"
  note k0 = confined_refl[OF w(1)]
  have rep: "confined c s (unregister2_reply c hd res m app pkg n t)" if "confined c s t" for res m app pkg n t
    using that w(2) by (simp add: unregister2_reply_def confined_sendReply)
  have del: "confined c s t' \<and> cl_RegApps (client_heap t' c) app = Some a \<and> ap_RegId (app_heap t' a) = ap_RegId (app_heap s a)"
    if "delSendid e c g a x (s\<lparr>world := w'\<rparr>) = (t', ok)" "cl_RegApps (client_heap s c) app = Some a" for g a x w' t' ok app
    using confined_delSendid[OF confined_world[OF k0] w(2) _ that(1)] that(2) by simp
  have unreg: "confined c s (set_regapp c app None (UnregisterApp e d g app2 uid t'))"
    if "delSendid e c g a x (s\<lparr>world := w'\<rparr>) = (t', ok)"
      "cl_RegApps (client_heap s c) app = Some a" "ap_RegId (app_heap s a) = g" "g \<noteq> []" for g a x w' t' ok app d app2 uid
    using del[OF that(1,2)] that(3,4) by (intro confined_unregistered[OF _ w(2)]) auto
  show "confined c s s'" using f
    by (auto simp: handleUnregister2_def Let_def split: option.splits if_splits prod.splits bool.splits
        intro!: rep k0 confined_world[OF k0] intro: unreg dest: del[THEN conjunct1])
qed

lemma funcMap_confines: "funcMap ty = Some f \<Longrightarrow> confines f"
  using confines_Heartbeat confines_Register confines_Unregister confines_PushReply confines_Subscribe confines_Unsubscribe
    confines_GetTopics confines_CmdReply confines_Register2 confines_Unregister2 confines_Stats
  by (auto simp: funcMap_def split: if_splits)

subsection \<open>A turn of the read loop\<close>

text \<open>The time of the last activity is set before the handler runs.\<close>

lemma confined_after_active:
  assumes "confined c (upd_client c (cl_lastActive_update f) s) t" "good s t"
  shows "confined c s t"
proof -
  let ?s = "upd_client c (cl_lastActive_update f) s"
  have o: "own_apps ?s c = own_apps s c" "own_ids ?s c = own_ids s c" by (simp_all add: own_apps_def own_ids_def)
  have j: "own_job ?s c = own_job s c" by (simp add: own_job_def o fun_eq_iff split: Job.split)
  have a: "same_app ?s t = same_app s t" by (simp add: same_app_def topics_of_def sendids_of_def fun_eq_iff)
  show ?thesis using assms unfolding confined_def o a by (simp add: only_queued_def j)
qed

lemma confined_conn_turn:
  assumes w: "wf_comet s" and c: "c < client_fresh s" and t: "conn_turn e srv c st evs s = Some (s', r)"
  shows "confined c s s'"
proof -
  have k0: "confined c s s" by (rule confined_refl[OF w])
  let ?s = "upd_client c (cl_lastActive_update (\<lambda>_. now e (world s))) s"
  have ws: "wf_comet ?s" by (rule wf_upd_client[OF w]) simp_all
  have h: "confined c s u" if "funcMap ty = Some f" "f e c h b ?s = Some (u, x)" for ty f h b u x
  proof (rule confined_after_active)
    show "confined c ?s u"
      using funcMap_confines[OF that(1), unfolded confines_def, rule_format, OF ws _ that(2)] c by simp
    have "good ?s u" using funcMap_keeps[OF that(1), unfolded keeps_def, rule_format, OF ws _ that(2)] c by simp
    moreover have "good s ?s" by (rule good_upd_client[OF good_refl[OF w]]) simp
    ultimately show "good s u" by (rule good_trans[rotated])
  qed
  have b: "confined c s ?s" by (rule confined_upd_client[OF k0]) simp
  show ?thesis
  proof (cases "cl_closed (client_heap s c) \<or> cl_lastActive (client_heap s c) + sv_hbTimeout srv * second < now e (world s)")
    case True
    then show ?thesis using t k0 by (auto simp: conn_turn_def Let_def split: if_splits)
  next
    case False
    obtain o1 st1 evs1 where rt: "read_turn (sv_maxBodyLen srv) (now e (world s)) st evs = (o1, st1, evs1)" by (metis prod_cases3)
    show ?thesis
    proof (cases o1)
      case (Frame hd body)
      then show ?thesis using t False rt k0
        by (cases "funcMap (hd_Type hd) :: 'a handler option") (auto simp: conn_turn_def Let_def dest: h)
    qed (use t False rt k0 b in \<open>auto simp: conn_turn_def Let_def handleHeartbeat_def\<close>)
  qed
qed

text \<open>What that leaves to another client.\<close>

lemma confined_queue:
  assumes "confined c s t" "d \<noteq> c"
  shows "filter (job_for d) (worker_jobs t n) = filter (job_for d) (worker_jobs s n)"
proof (cases "n = cl_jobChannel (client_heap s c)")
  case True
  obtain js where js: "worker_jobs t n = worker_jobs s n @ js" "list_all (own_job s c) js"
    using confined_queued[OF assms(1)] True by (auto simp: only_queued_def)
  have "\<not> job_for d j" if "j \<in> set js" for j
    using js(2) that assms(2) by (auto simp: list_all_iff own_job_def job_for_def split: Job.splits)
  then have "filter (job_for d) js = []" by (simp add: filter_empty_conv)
  then show ?thesis by (simp add: js(1))
qed (use confined_queued[OF assms(1)] in \<open>simp add: only_queued_def\<close>)

lemma confined_other_app:
  assumes "confined c s t" "a < app_fresh s" "ap_RegId (app_heap s a) \<notin> own_ids s c"
  shows "same_app s t a" "regappMap s (ap_RegId (app_heap s a)) = Some a \<Longrightarrow> regappMap t (ap_RegId (app_heap s a)) = Some a"
proof -
  have "a \<notin> own_apps s c" using assms(3) by (auto simp: own_ids_def)
  then show "same_app s t a" using assms(1,2) by (simp add: confined_def)
  show "regappMap s (ap_RegId (app_heap s a)) = Some a \<Longrightarrow> regappMap t (ap_RegId (app_heap s a)) = Some a"
    using assms(1,3) by (simp add: confined_def)
qed

end
