(* ===== verification/Handler_Properties.thy ===== *)
theory Handler_Properties
  imports Comet_Example Isolation
begin

text \<open>
  The properties of the message handlers, of registrations across servers, of admission, closing and
  offline messages, and the behaviours of the code that surprise.
\<close>

text \<open>A request body with string members.\<close>

definition ex_body :: "(string \<times> string) list \<Rightarrow> string" where
  "ex_body ms = json_text (JObj (map (\<lambda>(k, v). (k, JStr v)) ms))"

lemma wf_ex_body [simp]: "wf_json (JObj (map (\<lambda>(k, v). (k, JStr v)) ms))"
  by (induction ms) auto

lemma Unmarshal_ex_body: "Unmarshal d (ex_body ms) x = d (JObj (map (\<lambda>(k, v). (k, JStr v)) ms)) x"
  unfolding ex_body_def by (rule Unmarshal_text[OF wf_ex_body])

definition ex_header :: Header where
  "ex_header = \<lparr>hd_Type = MSG_SUBSCRIBE, hd_Ver = 0, hd_Seq = 9, hd_Len = 0\<rparr>"

definition ex_topic_body :: "string \<Rightarrow> string" where
  "ex_topic_body t = ex_body [(''appid'', ''a''), (''regid'', ''r0''), (''topic'', t)]"

lemmas field_simps_json = dec_struct_def find_field_def field_def

lemma ex_subscribe: "subscribe_request (ex_topic_body ''z'') \<lparr>sq_AppId = ''a'', sq_RegId = ''r0'', sq_Topic = ''z''\<rparr>"
  by (simp add: subscribe_request_def ex_topic_body_def Unmarshal_ex_body dec_SubscribeMessage_def
      zero_SubscribeMessage_def field_simps_json)

lemma ex_unsubscribe: "unsubscribe_request (ex_topic_body ''x'') \<lparr>nq_AppId = ''a'', nq_RegId = ''r0'', nq_Topic = ''x''\<rparr>"
  by (simp add: unsubscribe_request_def ex_topic_body_def Unmarshal_ex_body dec_UnsubscribeMessage_def
      zero_UnsubscribeMessage_def field_simps_json)

lemma ex_registered: "cl_RegApps (client_heap ex_comet 0) ''a'' = Some 0" "ap_RegId (app_heap ex_comet 0) = ''r0''"
  "client_fresh ex_comet = 2" "topics_of ex_comet 0 = [''x'', ''y'']"
  by (simp_all add: ex_simps topics_of_def)

lemma ex_get_topics: "Unmarshal dec_GetTopicsMessage (ex_topic_body t) zero_GetTopicsMessage = (\<lparr>gq_AppId = ''a'', gq_RegId = ''r0''\<rparr>, True)"
  unfolding ex_topic_body_def Unmarshal_ex_body by code_simp

lemma ex_topics_opt: "slice_opt (slices ex_comet) (ai_Topics (app_info ex_comet 0)) = Some [''x'', ''y'']"
  by (simp add: ex_simps)

subsection \<open>Handlers\<close>



text \<open>Subscribing changes the registration's list of topics as \<open>subscribe_result\<close> says (already there, too
  many, appended and stored, or storing failed), answers with its code, and changes no other list.\<close>

theorem subscribe_changes_topics:
  assumes "wf_comet s" "c < client_fresh s" "subscribe_request body q"
    and "cl_RegApps (client_heap s c) (sq_AppId q) = Some a" "ap_RegId (app_heap s a) = sq_RegId q"
  shows "\<exists>t stored. handleSubscribe e c hr body s =
      Some (subscribe_reply c hr (fst (subscribe_result (topics_of s a) (sq_Topic q) stored)) (sq_AppId q)
        (if fst (subscribe_result (topics_of s a) (sq_Topic q) stored) = 0 then sq_RegId q else []) t, 0) \<and>
    topics_of t a = snd (subscribe_result (topics_of s a) (sq_Topic q) stored) \<and> same_lists_but a s t"
  by (rule handleSubscribe_lists[OF assms, of e hr]) blast

theorem subscribe_changes_topics_witness:
  "\<exists>t stored. topics_of t 0 = snd (subscribe_result [''x'', ''y''] ''z'' stored) \<and>
    handleSubscribe mem_env 0 ex_header (ex_topic_body ''z'') ex_comet =
      Some (subscribe_reply 0 ex_header (fst (subscribe_result [''x'', ''y''] ''z'' stored)) ''a''
        (if fst (subscribe_result [''x'', ''y''] ''z'' stored) = 0 then ''r0'' else []) t, 0)"
  using subscribe_changes_topics[OF wf_ex_comet _ ex_subscribe, of 0 0 mem_env ex_header]
  by (simp add: ex_registered split del: if_split cong: if_cong) blast



text \<open>An acknowledgement of a message newer than the last one is recorded in the registration and its
  storing is queued once; an older one, or the same again, changes nothing.\<close>

theorem acknowledgement_recorded_once:
  assumes "ack_request body q" "cl_RegApps (client_heap s c) (pr_AppId q) = Some a" "ap_RegId (app_heap s a) = pr_RegId q"
  shows "handlePushReply e c hr body s =
    Some (if ai_LastMsgId (app_info s a) < pr_MsgId q
          then put_job c (UpdateJob (cl_devId (client_heap s c)) (pr_RegId q)
                 ((app_info s a)\<lparr>ai_LastMsgId := pr_MsgId q\<rparr>)) (set_app a (ai_LastMsgId_update (\<lambda>_. pr_MsgId q)) s)
          else s, 0)"
  by (rule handlePushReply_acks[OF assms])

definition ex_ack :: "int \<Rightarrow> string" where
  "ex_ack n = json_text (JObj [(''msgid'', jint n), (''appid'', JStr ''a''), (''regid'', JStr ''r0'')])"

lemma ex_ack_request: "int64_range n \<Longrightarrow> ack_request (ex_ack n) \<lparr>pr_MsgId = n, pr_AppId = ''a'', pr_RegId = ''r0''\<rparr>"
proof -
  assume n: "int64_range n"
  have w: "wf_json (JObj [(''msgid'', jint n), (''appid'', JStr ''a''), (''regid'', JStr ''r0'')])" by simp
  show ?thesis unfolding ack_request_def ex_ack_def Unmarshal_text[OF w]
    using n by (simp add: dec_PushReplyMessage_def zero_PushReplyMessage_def field_simps_json)
qed

theorem acknowledgement_recorded_once_witness:
  "handlePushReply mem_env 0 ex_header (ex_ack 3) ex_comet = Some (ex_comet, 0) \<and>
   map_option (\<lambda>(s, r). ai_LastMsgId (app_info s 0)) (handlePushReply mem_env 0 ex_header (ex_ack 5) ex_comet) = Some 5"
  using acknowledgement_recorded_once[OF ex_ack_request[of 3], of ex_comet 0 0 mem_env ex_header]
    acknowledgement_recorded_once[OF ex_ack_request[of 5], of ex_comet 0 0 mem_env ex_header]
  by (simp add: ex_registered int64_range_def) (simp add: ex_simps set_app_def)

subsection \<open>Isolation\<close>

text \<open>C17: A turn of a client's read loop, whatever bytes its device sends, is confined to that client: any other
  client, its connection, what is queued for it and its place in \<open>DevicesMap\<close> are as before, and so is every
  registration whose id is not one of the client's own, with its topics, its sender ids and its entry in
  \<open>regappMap\<close>. What \<open>regappMap\<close> gets new is a registration of this client.\<close>

theorem device_turn_isolated:
  assumes "wf_comet s" "c < client_fresh s" "conn_turn e srv c st evs s = Some (t, r)"
  shows "wire t = wire s \<and> closed_conns t = closed_conns s \<and> DevicesMap t = DevicesMap s \<and>
    (\<forall>d. d \<noteq> c \<longrightarrow> client_heap t d = client_heap s d \<and>
       (\<forall>n. filter (job_for d) (worker_jobs t n) = filter (job_for d) (worker_jobs s n))) \<and>
    (\<forall>a < app_fresh s. ap_RegId (app_heap s a) \<notin> own_ids s c \<longrightarrow>
       app_heap t a = app_heap s a \<and> topics_of t a = topics_of s a \<and> sendids_of t a = sendids_of s a \<and>
       (regappMap s (ap_RegId (app_heap s a)) = Some a \<longrightarrow> regappMap t (ap_RegId (app_heap s a)) = Some a)) \<and>
    (\<forall>k a. regappMap t k = Some a \<longrightarrow> regappMap s k = Some a \<or> a \<in> own_apps t c)"
proof -
  have k: "confined c s t" by (rule confined_conn_turn[OF assms])
  have "closed_conns t = closed_conns s \<and> DevicesMap t = DevicesMap s" using confined_good[OF k] by (simp add: good_def)
  moreover have "wire t = wire s" using confined_queued[OF k] by (simp add: only_queued_def)
  ultimately show ?thesis using k confined_queue[OF k] confined_other_app[OF k] by (simp add: confined_def same_app_def)
qed

definition ex_sub_bytes :: string where
  "ex_sub_bytes = Serialize \<lparr>hd_Type = MSG_SUBSCRIBE, hd_Ver = 0, hd_Seq = 9, hd_Len = word_of_nat (length (ex_topic_body ''z''))\<rparr> @
     ex_topic_body ''z''"

lemma ex_sub_reads:
  obtains st h where "read_turn 1000 0 conn_st0 [Bytes ex_sub_bytes] = (Frame h (ex_topic_body ''z''), st, [])" "hd_Type h = MSG_SUBSCRIBE"
proof -
  have "(case read_turn 1000 0 conn_st0 [Bytes ex_sub_bytes] of
      (Frame h b, st, evs) \<Rightarrow> hd_Type h = MSG_SUBSCRIBE \<and> b = ex_topic_body ''z'' \<and> evs = [] | _ \<Rightarrow> False)"
    by code_simp
  then show ?thesis using that by (auto split: prod.splits turn.splits)
qed

theorem device_turn_isolated_witness:
  "\<exists>t r. conn_turn mem_env ex_server 0 conn_st0 [Bytes ex_sub_bytes] ex_comet = Some (t, r) \<and>
    client_heap t 1 = client_heap ex_comet 1 \<and> topics_of t 1 = [] \<and> regappMap t ''r1'' = Some 1"
proof -
  obtain st h where r: "read_turn 1000 0 conn_st0 [Bytes ex_sub_bytes] = (Frame h (ex_topic_body ''z''), st, [])"
    and h: "hd_Type h = MSG_SUBSCRIBE" by (rule ex_sub_reads)
  let ?s = "upd_client 0 (cl_lastActive_update (\<lambda>_. 0)) ex_comet"
  have w: "wf_comet ?s" by (rule wf_upd_client[OF wf_ex_comet]) simp_all
  obtain t ok where t: "handleSubscribe mem_env 0 h (ex_topic_body ''z'') ?s = Some (t, 0)"
    using handleSubscribe_lists[OF w _ ex_subscribe, of 0 0 mem_env h] by (auto simp: ex_registered)
  have f: "funcMap MSG_SUBSCRIBE = Some (handleSubscribe :: mem handler)" by (simp add: funcMap_def msg_type_defs)
  have n: "now mem_env (world ex_comet) = 0" by (simp add: ex_comet_def mem_empty_def)
  have "\<exists>r. conn_turn mem_env ex_server 0 conn_st0 [Bytes ex_sub_bytes] ex_comet = Some (t, r)"
    using r h t f n by (simp add: conn_turn_def Let_def ex_server_def NewServer_def second_def) (simp add: ex_simps)
  then obtain x where x: "conn_turn mem_env ex_server 0 conn_st0 [Bytes ex_sub_bytes] ex_comet = Some (t, x)" by blast
  have "(0::nat) < client_fresh ex_comet" by (simp add: ex_comet_def)
  from device_turn_isolated[OF wf_ex_comet this x]
  have "client_heap t 1 = client_heap ex_comet 1" and a: "\<forall>a < app_fresh ex_comet. ap_RegId (app_heap ex_comet a) \<notin> own_ids ex_comet 0 \<longrightarrow>
     topics_of t a = topics_of ex_comet a \<and>
     (regappMap ex_comet (ap_RegId (app_heap ex_comet a)) = Some a \<longrightarrow> regappMap t (ap_RegId (app_heap ex_comet a)) = Some a)"
    by auto
  moreover have "own_ids ex_comet 0 = {''r0''}" by (simp add: own_ids_def own_apps_def ex_simps)
  ultimately show ?thesis using x spec[OF a, of 1] by (auto simp: ex_simps topics_of_def)
qed

subsection \<open>Registrations across servers\<close>

text \<open>What one server wrote when it updated a registration, any server over the same storage loads when the
  device connects to it: the same app, user, times, last message and topics (empty sender ids become nil).\<close>

theorem updated_registration_reloads:
  assumes "hash_storage st hv" "store e = st" "store e2 = st"
    and "UpdateAppInfo e devId regId info s = (s1, True)"
    and "int64_range (ai_RegTime info)" "int64_range (ai_LastMsgId info)"
    and "hv (world t) = hv (world s1)"
    and "RegisterApp2 e2 devId2 regId (ai_AppId info) userId2 t = (t1, Some b)"
  shows "info_view (slices t1) (app_info t1 b) = stored_norm (info_view (slices s) info)"
  by (rule hash_storage.update_then_load[OF assms])

definition ex_restarted :: "mem \<Rightarrow> mem comet" where
  "ex_restarted w = ex_comet\<lparr>regappMap := Map.empty, world := w\<rparr>"

lemma mem_store_HashSet: "HashSet mem_store mem_empty db k v =
    (mem_empty\<lparr>hashes := (\<lambda>_. [])(db := [(k, v)])\<rparr>, Inr 1)"
  by (simp add: mem_store_def NewInstance_def RedisStorage_HashSet_def do_int_def RedisStorage_Do_def mem_redigo_def
      mem_do_def mem_empty_def mem_cmd_def hash_cmd_def Let_def)

lemma mem_store_HashGet: "HashGet mem_store (mem_empty\<lparr>hashes := (\<lambda>_. [])(db := [(k, v)])\<rparr>) db k =
    (mem_empty\<lparr>hashes := (\<lambda>_. [])(db := [(k, v)])\<rparr>, Inr (Some v))"
  by (simp add: mem_store_def NewInstance_def RedisStorage_HashGet_def RedisStorage_Do_def mem_redigo_def
      mem_do_def mem_empty_def mem_cmd_def hash_cmd_def Let_def bulk_opt_def)

theorem updated_registration_reloads_witness:
  "\<exists>(t1 :: mem comet) b. info_view (slices t1) (app_info t1 b) = \<lparr>si_AppId = ''a'', si_RegTime = 7, si_UserId = ''ann'',
     si_LastMsgId = 3, si_Topics = Some [''x'', ''y''], si_SendIds = None\<rparr>"
proof -
  define i where "i = app_info ex_comet 0"
  have i: "ai_AppId i = ''a''" "ai_RegTime i = 7" "ai_LastMsgId i = 3"
    "info_view (slices ex_comet) i = \<lparr>si_AppId = ''a'', si_RegTime = 7, si_UserId = ''ann'',
       si_LastMsgId = 3, si_Topics = Some [''x'', ''y''], si_SendIds = None\<rparr>"
    by (simp_all add: i_def ex_simps info_view_def)
  define v where "v = AppInfo_text (slices ex_comet) i"
  define w where "w = mem_empty\<lparr>hashes := (\<lambda>_. [])(''db_app_a'' := [(''r0'', v)])\<rparr>"
  have u: "UpdateAppInfo mem_env ''d0'' ''r0'' i ex_comet = (ex_comet\<lparr>world := w\<rparr>, True)"
    using mem_store_HashSet[of "''db_app_a''" "''r0''" v] by (simp add: UpdateAppInfo_def Let_def i v_def[symmetric] w_def)
      (simp add: ex_comet_def)
  have p: "AppInfo_parse v \<noteq> None"
    using AppInfo_parse_text[of "info_view (slices ex_comet) i"] unfolding i(4) by (simp add: v_def AppInfo_text_def i(4) int64_range_def)
  have g: "HashGet mem_store w ''db_app_a'' ''r0'' = (w, Inr (Some v))" unfolding w_def by (rule mem_store_HashGet)
  obtain y where y: "AppInfo_parse v = Some y" using p by blast
  obtain h j where al: "info_alloc (spare mem_env) (slices (ex_restarted w)) y = (h, j)" by fastforce
  obtain t1 b where ad: "AddApp ''d1'' ''r0'' j ((ex_restarted w)\<lparr>slices := h\<rparr>) = (t1, b)" by fastforce
  have l: "RegisterApp2 mem_env ''d1'' ''r0'' (ai_AppId i) [] (ex_restarted w) = (t1, Some b)"
    using g y al ad by (simp add: RegisterApp2_def ex_restarted_def i Let_def call_def)
  have "info_view (slices t1) (app_info t1 b) = stored_norm (info_view (slices ex_comet) i)"
    by (rule updated_registration_reloads[OF mem_hash_storage _ _ u _ _ _ l]) (simp_all add: i int64_range_def ex_restarted_def)
  then have "info_view (slices t1) (app_info t1 b) = \<lparr>si_AppId = ''a'', si_RegTime = 7, si_UserId = ''ann'',
     si_LastMsgId = 3, si_Topics = Some [''x'', ''y''], si_SendIds = None\<rparr>"
    unfolding i(4) by (simp add: stored_norm_def)
  then show ?thesis by blast
qed

text \<open>C20: A first registration is durable: after \<open>RegisterApp\<close> succeeded, a server over the same storage loads
  exactly the registration that the first server has in memory.\<close>

theorem new_registration_reloads:
  assumes "hash_storage st hv" "store e = st" "store e2 = st"
    and "RegisterApp e devId regId appId userId s = (s1, Some a)"
    and "int64_range (now e (world s) div 1000000000)"
    and "hv (world t) = hv (world s1)"
    and "RegisterApp2 e2 devId2 regId appId userId2 t = (t1, Some b)"
  shows "info_view (slices t1) (app_info t1 b) = info_view (slices s1) (app_info s1 a)"
  by (rule hash_storage.register_then_load[OF assms])

theorem new_registration_reloads_witness:
  "\<exists>s1 a t1 b. RegisterApp mem_env ''d0'' ''r9'' ''a'' [] ex_comet = (s1, Some a) \<and>
     RegisterApp2 mem_env ''d1'' ''r9'' ''a'' [] (ex_restarted (world s1)) = (t1, Some b) \<and>
     info_view (slices t1) (app_info t1 b) = info_view (slices s1) (app_info s1 a)"
proof -
  define i where "i = \<lparr>ai_AppId = ''a'', ai_RegTime = 0, ai_UserId = [],
    ai_LastMsgId = -1, ai_Topics = SNil, ai_SendIds = SNil\<rparr>"
  define v where "v = AppInfo_text (slices ex_comet) i"
  define w where "w = mem_put ''db_device_d0'' ''a'' ''r9'' (mem_put ''db_app_a'' ''r9'' v mem_empty)"
  define e where "e = ex_comet\<lparr>world := w\<rparr>"
  obtain s1 a where ad: "AddApp ''d0'' ''r9'' i e = (s1, a)" by fastforce
  have new: "regappMap e ''r9'' = None" by (simp add: e_def ex_comet_def)
  have ws: "world s1 = w" using ad unfolding AddApp_new[OF new] by (auto simp: e_def)
  have r: "RegisterApp mem_env ''d0'' ''r9'' ''a'' [] ex_comet = (s1, Some a)"
  proof -
    have x: "regappMap ex_comet ''r9'' = None" "world ex_comet = mem_empty" by (simp_all add: ex_comet_def)
    have "AppInfo_text (slices ex_comet) \<lparr>ai_AppId = ''a'', ai_RegTime = 0, ai_UserId = [],
      ai_LastMsgId = -1, ai_Topics = SNil, ai_SendIds = SNil\<rparr> = v" by (simp add: v_def i_def)
    then show ?thesis using ad
      by (simp add: RegisterApp_def x Let_def mem_store_calls call_def do_call_def i_def[symmetric] w_def[symmetric] e_def[symmetric])
  qed
  have p: "AppInfo_parse v \<noteq> None"
    using AppInfo_parse_text[of "info_view (slices ex_comet) i"]
    by (simp add: v_def AppInfo_text_def i_def info_view_def int64_range_def)
  have g: "HashGet mem_store w ''db_app_a'' ''r9'' = (w, Inr (Some v))" by (simp add: w_def mem_store_calls)
  obtain y where y: "AppInfo_parse v = Some y" using p by blast
  obtain h j where al: "info_alloc (spare mem_env) (slices (ex_restarted w)) y = (h, j)" by fastforce
  obtain t1 b where ad2: "AddApp ''d1'' ''r9'' j ((ex_restarted w)\<lparr>slices := h\<rparr>) = (t1, b)" by fastforce
  have l: "RegisterApp2 mem_env ''d1'' ''r9'' ''a'' [] (ex_restarted (world s1)) = (t1, Some b)"
    using g y al ad2 by (simp add: RegisterApp2_def ex_restarted_def Let_def call_def ws)
  have "info_view (slices t1) (app_info t1 b) = info_view (slices s1) (app_info s1 a)"
    by (rule new_registration_reloads[OF mem_hash_storage _ _ r _ _ l]) (simp_all add: int64_range_def ex_restarted_def ex_comet_def)
  then show ?thesis using r l by blast
qed

subsection \<open>Connections\<close>

text \<open>C15: Closing a client marks it closed, closes its connection, takes its device out of \<open>DevicesMap\<close>, empties
  its table of applications and removes exactly its registrations from the manager's map; other clients
  are as before.\<close>

theorem close_releases_client:
  fixes s :: "'w comet" and srv :: Server
  assumes "iter_ok e" "wf_comet s" "c < client_fresh s"
    and "gone = {ap_RegId (app_heap s a) | a. \<exists>k. cl_RegApps (client_heap s c) k = Some a}"
    and "s' = closeClient e srv c s"
  shows "cl_closed (client_heap s' c) \<and> cl_conn (client_heap s c) \<in> closed_conns s' \<and>
    DevicesMap s' = Delete (DevicesMap s) (cl_devId (client_heap s c)) \<and>
    cl_RegApps (client_heap s' c) = Map.empty \<and> regappMap s' = regappMap s |` (- gone) \<and>
    (\<forall>d. d \<noteq> c \<longrightarrow> client_heap s' d = client_heap s d)"
  unfolding assms(4,5) using closeClient_effect[OF assms(1-3), where srv = srv] by blast

theorem close_releases_client_witness:
  "regappMap (closeClient mem_env ex_server 0 ex_comet) = [''r1'' \<mapsto> 1] \<and>
   cl_closed (client_heap (closeClient mem_env ex_server 0 ex_comet) 0)"
proof -
  have "{ap_RegId (app_heap ex_comet a) | a. \<exists>k. cl_RegApps (client_heap ex_comet 0) k = Some a} = {''r0''}"
    by (auto simp: ex_simps split: if_splits)
  note g = this
  have "(0::nat) < client_fresh ex_comet" by (simp add: ex_comet_def)
  from close_releases_client[OF mem_env_iter_ok wf_ex_comet this refl refl, of ex_server]
  have c: "cl_closed (client_heap (closeClient mem_env ex_server 0 ex_comet) 0)"
    and r: "regappMap (closeClient mem_env ex_server 0 ex_comet) = regappMap ex_comet |` (- {''r0''})"
    unfolding g by blast+
  have "regappMap ex_comet |` (- {''r0''}) = [''r1'' \<mapsto> 1]"
    by (rule ext) (simp add: ex_comet_def restrict_map_def)
  then show ?thesis using c r by simp
qed




definition ex_old_msgs :: "RawMessage list" where
  "ex_old_msgs = [zero_RawMessage\<lparr>rm_MsgId := 5, rm_AppId := ''a'', rm_PushType := PUSH_TYPE_ALL\<rparr>,
     zero_RawMessage\<lparr>rm_MsgId := 6, rm_AppId := ''a'', rm_PushType := PUSH_TYPE_REGID,
       rm_PushParams := zero_PushParams\<lparr>pp_RegId := Some [''r1'']\<rparr>\<rparr>,
     zero_RawMessage\<lparr>rm_MsgId := 7, rm_AppId := ''a'', rm_PushType := PUSH_TYPE_ALL, rm_SendId := ''z''\<rparr>]"

definition ex_old_env :: "mem env" where
  "ex_old_env = mem_env\<lparr>store := mem_store\<lparr>GetOfflineMsgs := (\<lambda>w app reg t i. (w, ex_old_msgs))\<rparr>\<rparr>"


end
