(* ===== verification/Http.thy ===== *)
theory Http
  imports Storage "HOL-Library.List_Lexorder"
begin

text \<open>
  What the HTTP handlers of the repository use of Go's library: a request as \<open>net/http\<close> hands it over after
  \<open>ParseForm\<close>, a response as a status and a body, \<open>fmt.Fprintf\<close> without operands (the handlers pass their
  JSON text as the format), the decoding of a \<open>map[string]string\<close>, and \<open>utils.Sign\<close> of
  \<open>utils/utils.go\<close>. HMAC-SHA1 and MD5 are arguments: functions from byte strings to byte strings.
\<close>

record request =
  rq_Method :: string
  rq_Path :: string
  rq_header :: "string \<Rightarrow> string"
  rq_Form :: "(string \<times> string list) list"
  rq_Body :: string
  rq_Body_ok :: bool

record response =
  rs_Code :: int
  rs_Body :: string

text \<open>\<open>r.FormValue(key)\<close>: the first value of the key, or the empty string.\<close>

definition FormValue :: "request \<Rightarrow> string \<Rightarrow> string" where
  "FormValue rq key = (case map_of (rq_Form rq) key of Some (v # _) \<Rightarrow> v | _ \<Rightarrow> [])"

text \<open>\<open>http.Error\<close> ends the text with a newline.\<close>

definition http_Error :: "string \<Rightarrow> int \<Rightarrow> response" where
  "http_Error s code = \<lparr>rs_Code = code, rs_Body = s @ [byte_chr 10]\<rparr>"

subsection \<open>fmt.Fprintf without operands\<close>

text \<open>What follows a \<open>%\<close>: flags, an explicit index in brackets, width and precision, another index, and the
  verb. \<open>arg_number\<close> skips an index and says whether it was one; \<open>skip_number\<close> skips digits, and
  everything when they are more than a million. As there is no operand, a \<open>*\<close> and every verb but \<open>%\<close> report
  an error in the text.\<close>

definition skip_number :: "string \<Rightarrow> string" where
  "skip_number s =
    (if 1000000 < digits_num (takeWhile is_digit s) then [] else dropWhile is_digit s)"

definition arg_number :: "string \<Rightarrow> bool \<times> bool \<times> string" where
  "arg_number s =
    (case s of
       [] \<Rightarrow> (False, False, [])
     | c # cs \<Rightarrow>
         if c \<noteq> CHR ''['' then (False, False, s)
         else if CHR '']'' \<notin> set cs \<or> length cs < 2 then (True, False, cs)
         else let ds = takeWhile (\<lambda>d. d \<noteq> CHR '']'') cs
              in (True, ds \<noteq> [] \<and> list_all is_digit ds \<and> digits_num ds \<le> 1000000, drop (Suc (length ds)) cs))"

definition star_or_number :: "string \<Rightarrow> string \<Rightarrow> bool \<Rightarrow> string \<times> bool \<times> string" where
  "star_or_number bad s after =
    (case s of
       c # cs \<Rightarrow> if c = CHR ''*'' then (bad, False, cs) else ([], after, skip_number s)
     | [] \<Rightarrow> ([], after, []))"

definition verb_text :: "bool \<Rightarrow> string \<Rightarrow> string \<times> string" where
  "verb_text indexed s =
    (case s of
       [] \<Rightarrow> (''%!(NOVERB)'', [])
     | c # cs \<Rightarrow>
         if c = CHR ''%'' then (''%'', cs)
         else let n = (if byte_val c < 128 then 0 else length (takeWhile (\<lambda>d. byte_val d div 64 = 2) cs))
              in (''%!'' @ c # take n cs @ (if indexed then ''(BADINDEX)'' else ''(MISSING)''), drop n cs))"

definition format_verb :: "string \<Rightarrow> string \<times> string" where
  "format_verb s0 =
    (let s1 = dropWhile (\<lambda>c. c \<in> set ''+-# 0'') s0;
         (i1, a1, s2) = arg_number s1;
         (e1, a2, s3) = star_or_number ''%!(BADWIDTH)'' s2 a1;
         (e2, i2, a3, s4) =
           (case s3 of
              c # cs \<Rightarrow>
                if c \<noteq> CHR ''.'' then ([], False, a2, s3)
                else (let (i, a, t) = arg_number cs; (e, a', t') = star_or_number ''%!(BADPREC)'' t a in (e, i, a', t'))
            | [] \<Rightarrow> ([], False, a2, s3));
         (i3, _, s5) = (if a3 then (False, False, s4) else arg_number s4);
         (v, rest) = verb_text (i1 \<or> i2 \<or> i3) s5
     in (e1 @ e2 @ v, rest))"

lemma length_skip_number: "length (skip_number s) \<le> length s"
  by (simp add: skip_number_def length_dropWhile_le)

lemma length_arg_number: "arg_number s = (i, a, t) \<Longrightarrow> length t \<le> length s"
  by (auto simp: arg_number_def Let_def split: list.splits if_splits)

lemma length_star_or_number: "star_or_number b s a = (e, a', t) \<Longrightarrow> length t \<le> length s"
  using length_skip_number[of s] by (auto simp: star_or_number_def split: list.splits if_splits)

lemma length_verb_text: "verb_text i s = (v, t) \<Longrightarrow> length t \<le> length s"
  by (auto simp: verb_text_def Let_def split: list.splits if_splits)

lemma length_format_verb: "length (snd (format_verb s)) \<le> length s"
proof -
  note le = length_arg_number length_star_or_number length_verb_text
  have "format_verb s = (v, rest) \<Longrightarrow> length rest \<le> length s" for v rest
    unfolding format_verb_def Let_def
    by (auto split: prod.splits list.splits if_splits dest!: le
        intro: order_trans[OF _ length_dropWhile_le[of "\<lambda>c. c \<in> set ''+-# 0''" s]])
  then show ?thesis by (cases "format_verb s") simp
qed

function Fprintf :: "string \<Rightarrow> string" where
  "Fprintf [] = []"
| "Fprintf (c # cs) =
    (if c \<noteq> CHR ''%'' then c # Fprintf cs
     else fst (format_verb cs) @ Fprintf (snd (format_verb cs)))"
  by pat_completeness auto
termination by (relation "measure length") (auto simp: le_imp_less_Suc[OF length_format_verb])

lemma Fprintf_plain: "CHR ''%'' \<notin> set s \<Longrightarrow> Fprintf s = s"
  by (induction s) auto

text \<open>\<open>fmt.Fprintf(w, string(b))\<close>: the response has status 200.\<close>

definition http_Fprintf :: "string \<Rightarrow> response" where
  "http_Fprintf b = \<lparr>rs_Code = 200, rs_Body = Fprintf b\<rparr>"

subsection \<open>Decoding\<close>

text \<open>\<open>json.NewDecoder(r.Body).Decode(&x)\<close>: the first value of the text; what follows is not read.\<close>

definition Decode :: "'a decoder \<Rightarrow> string \<Rightarrow> 'a \<Rightarrow> 'a \<times> bool" where
  "Decode d s x = (case parse_value (Suc (length s)) s of None \<Rightarrow> (x, False) | Some (j, _) \<Rightarrow> d j x)"

lemma Decode_text: "wf_json j \<Longrightarrow> Decode d (json_text j) x = d j x"
  using parse_print_all(1)[of j, rule_format, of "Suc (length (json_text j))" "[]"] by (simp add: Decode_def)

definition dec_string_map :: "(string \<Rightarrow> string option) decoder" where
  "dec_string_map j x =
    (case j of
       JObj ms \<Rightarrow> (foldl (\<lambda>m (k, v). m(k \<mapsto> fst (dec_string v []))) x ms, list_all (\<lambda>(k, v). snd (dec_string v [])) ms)
     | JNull \<Rightarrow> (Map.empty, True)
     | _ \<Rightarrow> (x, False))"

subsection \<open>Sign\<close>

text \<open>\<open>range\<close> over the form visits its keys in any order; the strings are sorted afterwards.\<close>

definition form_params :: "(string \<times> string list) list \<Rightarrow> string list" where
  "form_params forms = concat (map (\<lambda>(k, vs). map (\<lambda>v. k @ ''='' @ v) vs) forms)"

definition Sign :: "(string \<Rightarrow> string \<Rightarrow> string) \<Rightarrow> (string \<Rightarrow> string) \<Rightarrow> string \<Rightarrow> string \<Rightarrow> string \<Rightarrow> string \<Rightarrow> string
    \<Rightarrow> (string \<times> string list) list \<Rightarrow> string" where
  "Sign hmac_sha1 md5 key method path body date forms =
    (let paramString = Join (sort (form_params forms)) ''&'';
         bodyMD5 = (if body = [] then [] else EncodeToString (md5 body));
         nl = [byte_chr 10]
     in EncodeToString (hmac_sha1 key (method @ nl @ path @ nl @ bodyMD5 @ nl @ date @ nl @ paramString)))"

end
