(* ===== verification/Random_Strings.thy ===== *)
theory Random_Strings
  imports Json
begin

text \<open>
  \<open>utils/random.go\<close>: random strings. The generator \<open>rand.Intn\<close> is a parameter over the world: it takes a
  bound and returns a number below it; it panics for a bound that is not positive. The loop draws again
  when a character is not of the wanted kind, so it need not end: \<open>None\<close> is a loop that does not, and
  \<open>Panic\<close> a run-time error. The lemmas say what a string is made of when there is one, and that the loop
  ends as soon as enough draws are of the wanted kind.
\<close>

type_synonym 'w rand = "'w \<Rightarrow> int \<Rightarrow> 'w \<times> int"

datatype 'a outcome = Panic | Done 'a

definition is_letter :: "int \<Rightarrow> bool" where
  "is_letter ch \<longleftrightarrow> (97 \<le> ch \<and> ch \<le> 122) \<or> (65 \<le> ch \<and> ch \<le> 90)"

definition is_number :: "int \<Rightarrow> bool" where
  "is_number ch \<longleftrightarrow> 48 \<le> ch \<and> ch \<le> 57"

definition wanted :: "bool \<Rightarrow> bool \<Rightarrow> int \<Rightarrow> bool" where
  "wanted letters numbers ch \<longleftrightarrow>
    (letters \<and> is_letter ch) \<or> (numbers \<and> is_number ch) \<or> (\<not> letters \<and> \<not> numbers)"

text \<open>One round of the loop, after \<open>count--\<close> made the count \<open>n\<close>: the new count and buffer. A surrogate needs
  a second place, so it is dropped when there is none (\<open>count++\<close>).\<close>

definition put_rune :: "'w rand \<Rightarrow> nat \<Rightarrow> int \<Rightarrow> int list \<Rightarrow> 'w \<Rightarrow> 'w \<times> nat \<times> int list" where
  "put_rune Intn n ch buf w =
    (if 56320 \<le> ch \<and> ch \<le> 57343 then
       (if n = 0 then (w, 1, buf)
        else let (w1, r) = Intn w 128 in (w1, n - 1, buf[n := ch, n - 1 := 55296 + r]))
     else if 55296 \<le> ch \<and> ch \<le> 56191 then
       (if n = 0 then (w, 1, buf)
        else let (w1, r) = Intn w 128 in (w1, n - 1, buf[n := 56320 + r, n - 1 := ch]))
     else if 56192 \<le> ch \<and> ch \<le> 56319 then (w, n + 1, buf)
     else (w, n, buf[n := ch]))"

text \<open>The conversion of an \<open>int\<close> to a \<open>rune\<close> keeps 32 bits.\<close>

definition rune_of :: "int \<Rightarrow> int" where
  "rune_of i = (i + 2 ^ 31) mod 2 ^ 32 - 2 ^ 31"

text \<open>\<open>chars[rand.Intn(gap)+start]\<close> panics out of range.\<close>

definition draw :: "'w rand \<Rightarrow> int list \<Rightarrow> int \<Rightarrow> int \<Rightarrow> 'w \<Rightarrow> 'w \<times> int option" where
  "draw Intn chars start gap w =
    (if gap \<le> 0 then (w, None)
     else let (w1, r) = Intn w gap; i = r + start in
       if chars = [] then (w1, Some (rune_of i))
       else if i < 0 \<or> int (length chars) \<le> i then (w1, None)
       else (w1, Some (chars ! nat i)))"

partial_function (option) random_loop ::
  "'w rand \<Rightarrow> int list \<Rightarrow> int \<Rightarrow> int \<Rightarrow> bool \<Rightarrow> bool \<Rightarrow> nat \<Rightarrow> int list \<Rightarrow> 'w \<Rightarrow> ('w \<times> int list outcome) option" where
  "random_loop Intn chars start gap letters numbers count buf w =
    (if count = 0 then Some (w, Done buf)
     else case draw Intn chars start gap w of
       (w1, None) \<Rightarrow> Some (w1, Panic)
     | (w1, Some ch) \<Rightarrow>
         if wanted letters numbers ch
         then (case put_rune Intn (count - 1) ch buf w1 of
                 (w2, n, buf2) \<Rightarrow> random_loop Intn chars start gap letters numbers n buf2 w2)
         else random_loop Intn chars start gap letters numbers count buf w1)"

text \<open>\<open>string(buffer)\<close>: the UTF-8 text of the runes; a surrogate or an invalid rune becomes U+FFFD.\<close>

definition rune_text :: "int \<Rightarrow> string" where
  "rune_text r = utf8 (if r < 0 \<or> 1114111 < r \<or> (55296 \<le> r \<and> r \<le> 57343) then 65533 else nat r)"

definition MaxInt32 :: int where "MaxInt32 = 2147483647"

definition RandomSpec0 :: "'w rand \<Rightarrow> nat \<Rightarrow> int \<Rightarrow> int \<Rightarrow> bool \<Rightarrow> bool \<Rightarrow> int list \<Rightarrow> 'w \<Rightarrow> ('w \<times> string outcome) option" where
  "RandomSpec0 Intn count start0 stop0 letters numbers chars w =
    (if count = 0 then Some (w, Done [])
     else let (start, stop) =
         (if start0 = 0 \<and> stop0 = 0
          then (if \<not> letters \<and> \<not> numbers then (0, MaxInt32) else (32, 123))
          else (start0, stop0))
       in map_option (\<lambda>(w1, r). (w1, case r of Panic \<Rightarrow> Panic | Done buf \<Rightarrow> Done (concat (map rune_text buf))))
            (random_loop Intn chars start (stop - start) letters numbers count (replicate count 0) w))"

definition RandomSpec1 :: "'w rand \<Rightarrow> nat \<Rightarrow> int \<Rightarrow> int \<Rightarrow> bool \<Rightarrow> bool \<Rightarrow> 'w \<Rightarrow> ('w \<times> string outcome) option" where
  "RandomSpec1 defaultRand count start stop letters numbers w =
    RandomSpec0 defaultRand count start stop letters numbers [] w"

definition RandomAlphaOrNumeric :: "'w rand \<Rightarrow> nat \<Rightarrow> bool \<Rightarrow> bool \<Rightarrow> 'w \<Rightarrow> ('w \<times> string outcome) option" where
  "RandomAlphaOrNumeric rnd count letters numbers w = RandomSpec1 rnd count 0 0 letters numbers w"

definition RandomString :: "'w rand \<Rightarrow> nat \<Rightarrow> 'w \<Rightarrow> ('w \<times> string outcome) option" where
  "RandomString rnd count w = RandomAlphaOrNumeric rnd count False False w"

definition RandomStringSpec0 :: "'w rand \<Rightarrow> nat \<Rightarrow> int list \<Rightarrow> 'w \<Rightarrow> ('w \<times> string outcome) option" where
  "RandomStringSpec0 defaultRand count chars w =
    RandomSpec0 defaultRand count 0 (int (length chars) - 1) False False chars w"

text \<open>\<open>[]rune(s)\<close>: the UTF-8 sequences, with U+FFFD for each byte that belongs to none.\<close>

definition cont_byte :: "nat \<Rightarrow> bool" where
  "cont_byte b \<longleftrightarrow> 128 \<le> b \<and> b \<le> 191"

definition decode_rune :: "nat list \<Rightarrow> int \<times> nat" where
  "decode_rune bs =
    (case bs of
       [] \<Rightarrow> (65533, 1)
     | a # r \<Rightarrow>
         if a < 128 then (int a, 1)
         else (case r of
             b # r1 \<Rightarrow>
               if 194 \<le> a \<and> a \<le> 223 \<and> cont_byte b then (int ((a - 192) * 64 + (b - 128)), 2)
               else (case r1 of
                   c # r2 \<Rightarrow>
                     if 224 \<le> a \<and> a \<le> 239 \<and> cont_byte b \<and> cont_byte c \<and> (a = 224 \<longrightarrow> 160 \<le> b) \<and> (a = 237 \<longrightarrow> b \<le> 159)
                     then (int ((a - 224) * 4096 + (b - 128) * 64 + (c - 128)), 3)
                     else (case r2 of
                         d # _ \<Rightarrow>
                           if 240 \<le> a \<and> a \<le> 244 \<and> cont_byte b \<and> cont_byte c \<and> cont_byte d \<and> (a = 240 \<longrightarrow> 144 \<le> b) \<and> (a = 244 \<longrightarrow> b \<le> 143)
                           then (int ((a - 240) * 262144 + (b - 128) * 4096 + (c - 128) * 64 + (d - 128)), 4)
                           else (65533, 1)
                       | [] \<Rightarrow> (65533, 1))
                 | [] \<Rightarrow> (65533, 1))
           | [] \<Rightarrow> (65533, 1)))"

lemma decode_rune_width: "0 < snd (decode_rune bs)"
  by (auto simp: decode_rune_def split: list.split)

function rune_list :: "nat list \<Rightarrow> int list" where
  "rune_list bs = (if bs = [] then [] else fst (decode_rune bs) # rune_list (drop (snd (decode_rune bs)) bs))"
  by pat_completeness auto
termination
  by (relation "measure length") (use decode_rune_width in auto)

declare rune_list.simps [simp del]

definition runes :: "string \<Rightarrow> int list" where
  "runes s = rune_list (map byte_val s)"

definition RandomStringSpec1 :: "'w rand \<Rightarrow> nat \<Rightarrow> string \<Rightarrow> 'w \<Rightarrow> ('w \<times> string outcome) option" where
  "RandomStringSpec1 defaultRand count s w = RandomStringSpec0 defaultRand count (runes s) w"

text \<open>A set of ASCII characters is its bytes.\<close>

lemma runes_ascii: "list_all (\<lambda>c. byte_val c < 128) s \<Longrightarrow> runes s = map (\<lambda>c. int (byte_val c)) s"
proof (induction s)
  case (Cons c cs)
  then show ?case using rune_list.simps[of "byte_val c # map byte_val cs"] by (simp add: runes_def decode_rune_def)
qed (simp add: runes_def rune_list.simps)


definition RandomAscii :: "'w rand \<Rightarrow> nat \<Rightarrow> 'w \<Rightarrow> ('w \<times> string outcome) option" where
  "RandomAscii rnd count w = RandomSpec1 rnd count 32 127 False False w"

definition RandomAlphabetic :: "'w rand \<Rightarrow> nat \<Rightarrow> 'w \<Rightarrow> ('w \<times> string outcome) option" where
  "RandomAlphabetic rnd count w = RandomAlphaOrNumeric rnd count True False w"

definition RandomAlphanumeric :: "'w rand \<Rightarrow> nat \<Rightarrow> 'w \<Rightarrow> ('w \<times> string outcome) option" where
  "RandomAlphanumeric rnd count w = RandomAlphaOrNumeric rnd count True True w"

definition RandomNumeric :: "'w rand \<Rightarrow> nat \<Rightarrow> 'w \<Rightarrow> ('w \<times> string outcome) option" where
  "RandomNumeric rnd count w = RandomAlphaOrNumeric rnd count False True w"

subsection \<open>What the strings are made of\<close>

lemma wanted_ascii: "wanted letters numbers ch \<Longrightarrow> letters \<or> numbers \<Longrightarrow> 48 \<le> ch \<and> ch \<le> 122"
  by (auto simp: wanted_def is_letter_def is_number_def)

lemma put_rune_ascii: "wanted letters numbers ch \<Longrightarrow> letters \<or> numbers \<Longrightarrow> put_rune Intn n ch buf w = (w, n, buf[n := ch])"
  by (auto simp: put_rune_def dest: wanted_ascii)

text \<open>With letters or numbers wanted, the buffer from the count on holds only wanted characters.\<close>

definition filled :: "bool \<Rightarrow> bool \<Rightarrow> nat \<Rightarrow> int list \<Rightarrow> bool" where
  "filled letters numbers count buf \<longleftrightarrow>
    count \<le> length buf \<and> (\<forall>i. count \<le> i \<longrightarrow> i < length buf \<longrightarrow> wanted letters numbers (buf ! i))"

lemma filled_0: "filled letters numbers 0 buf \<longleftrightarrow> list_all (wanted letters numbers) buf"
  by (auto simp: filled_def list_all_length)

lemma filled_put: "filled letters numbers (Suc n) buf \<Longrightarrow> wanted letters numbers ch \<Longrightarrow> filled letters numbers n (buf[n := ch])"
  by (auto simp: filled_def nth_list_update)

lemma random_loop_filled:
  assumes ret: "random_loop Intn chars start gap letters numbers count buf w = Some r"
  shows "letters \<or> numbers \<longrightarrow> filled letters numbers count buf \<longrightarrow>
    (case r of (_, Panic) \<Rightarrow> True | (_, Done buf') \<Rightarrow> length buf' = length buf \<and> list_all (wanted letters numbers) buf')"
proof (rule random_loop.raw_induct[where P = "\<lambda>Intn chars start gap letters numbers count buf w r.
    letters \<or> numbers \<longrightarrow> filled letters numbers count buf \<longrightarrow>
    (case r of (_, Panic) \<Rightarrow> True | (_, Done buf') \<Rightarrow> length buf' = length buf \<and> list_all (wanted letters numbers) buf')",
    OF _ ret], intro impI)
  fix f :: "'a rand \<Rightarrow> int list \<Rightarrow> int \<Rightarrow> int \<Rightarrow> bool \<Rightarrow> bool \<Rightarrow> nat \<Rightarrow> int list \<Rightarrow> 'a \<Rightarrow> ('a \<times> int list outcome) option"
    and Intn chars start gap letters numbers count buf w r
  assume IH: "\<And>Intn chars start gap letters numbers count buf w r.
      f Intn chars start gap letters numbers count buf w = Some r \<Longrightarrow>
      letters \<or> numbers \<longrightarrow> filled letters numbers count buf \<longrightarrow>
      (case r of (_, Panic) \<Rightarrow> True | (_, Done buf') \<Rightarrow> length buf' = length buf \<and> list_all (wanted letters numbers) buf')"
    and eq: "(if count = 0 then Some (w, Done buf)
      else case draw Intn chars start gap w of
         (w1, None) \<Rightarrow> Some (w1, Panic)
       | (w1, Some ch) \<Rightarrow>
           if wanted letters numbers ch
           then (case put_rune Intn (count - 1) ch buf w1 of
                   (w2, n, buf2) \<Rightarrow> f Intn chars start gap letters numbers n buf2 w2)
           else f Intn chars start gap letters numbers count buf w1) = Some r"
    and ln: "letters \<or> numbers" and fl: "filled letters numbers count buf"
  show "case r of (_, Panic) \<Rightarrow> True | (_, Done buf') \<Rightarrow> length buf' = length buf \<and> list_all (wanted letters numbers) buf'"
  proof (cases count)
    case 0
    then have "r = (w, Done buf)" using eq by simp
    then show ?thesis using fl 0 by (simp add: filled_0)
  next
    case (Suc n)
    obtain w1 d where d: "draw Intn chars start gap w = (w1, d)" by fastforce
    show ?thesis
    proof (cases d)
      case None
      then have "r = (w1, Panic)" using eq Suc d by simp
      then show ?thesis by simp
    next
      case (Some ch)
      show ?thesis
      proof (cases "wanted letters numbers ch")
        case True
        then have "f Intn chars start gap letters numbers n (buf[n := ch]) w1 = Some r"
          using eq Suc d Some by (simp add: True put_rune_ascii[OF True ln])
        from IH[OF this] ln filled_put[OF fl[unfolded Suc] True] show ?thesis unfolding length_list_update by blast
      next
        case False
        then have "f Intn chars start gap letters numbers count buf w1 = Some r" using eq Suc d Some by simp
        from IH[OF this] ln fl show ?thesis by simp
      qed
    qed
  qed
qed

lemma rune_text_ascii: "0 \<le> r \<Longrightarrow> r < 128 \<Longrightarrow> rune_text r = [byte_chr (nat r)]"
  by (simp add: rune_text_def utf8_def)

text \<open>\<open>RandomAlphaOrNumeric\<close>, when it returns, returns as many characters as asked for, each a letter or a
  digit of the wanted kinds.\<close>

lemma RandomAlphaOrNumeric_chars:
  assumes "RandomAlphaOrNumeric rnd count letters numbers w = Some (w', Done s)" "letters \<or> numbers"
  shows "length s = count \<and> (\<forall>c \<in> set s. wanted letters numbers (int (byte_val c)))"
proof (cases "count = 0")
  case True
  then show ?thesis using assms by (simp add: RandomAlphaOrNumeric_def RandomSpec1_def RandomSpec0_def)
next
  case False
  have ln: "(if \<not> letters \<and> \<not> numbers then (0, MaxInt32) else (32, 123)) = (32, 123)" using assms(2) by auto
  have "map_option (\<lambda>(w1, r). (w1, case r of Panic \<Rightarrow> Panic | Done buf \<Rightarrow> Done (concat (map rune_text buf))))
      (random_loop rnd [] 32 91 letters numbers count (replicate count 0) w) = Some (w', Done s)"
    using assms(1) False by (simp add: RandomAlphaOrNumeric_def RandomSpec1_def RandomSpec0_def ln del: not_False_eq_True)
  then obtain b where b: "random_loop rnd [] 32 91 letters numbers count (replicate count 0) w = Some (w', b)"
      "Done s = (case b of Panic \<Rightarrow> Panic | Done buf \<Rightarrow> Done (concat (map rune_text buf)))" by auto
  then obtain buf where l: "random_loop rnd [] 32 91 letters numbers count (replicate count 0) w = Some (w', Done buf)"
    and s: "s = concat (map rune_text buf)" by (cases b) auto
  have b: "length buf = count" "list_all (wanted letters numbers) buf"
    using random_loop_filled[OF l] assms(2) by (simp_all add: filled_def)
  have "concat (map rune_text buf) = map (\<lambda>r. byte_chr (nat r)) buf" if "list_all (wanted letters numbers) buf" for buf
    using that
  proof (induction buf)
    case (Cons r rs)
    then have "48 \<le> r \<and> r \<le> 122" using wanted_ascii[OF _ assms(2), of r] by simp
    then show ?case using Cons by (simp add: rune_text_ascii)
  qed simp
  with b s have m: "s = map (\<lambda>r. byte_chr (nat r)) buf" by simp
  have "int (byte_val (byte_chr (nat r))) = r" if "r \<in> set buf" for r
  proof -
    have "48 \<le> r \<and> r \<le> 122" using wanted_ascii[OF _ assms(2), of r] that b(2) by (simp add: list_all_iff)
    then have "nat r < 256" "int (nat r) = r" by linarith+
    then show ?thesis by simp
  qed
  then show ?thesis using m b by (auto simp: list_all_iff)
qed

text \<open>It returns once the generator has given enough wanted draws: \<open>draws\<close> counts how many calls that takes.\<close>

fun draws_enough :: "'w rand \<Rightarrow> bool \<Rightarrow> bool \<Rightarrow> nat \<Rightarrow> nat \<Rightarrow> 'w \<Rightarrow> bool" where
  "draws_enough rnd letters numbers 0 k w = True"
| "draws_enough rnd letters numbers (Suc n) 0 w = False"
| "draws_enough rnd letters numbers (Suc n) (Suc k) w =
    (let (w1, r) = rnd w 91 in
     draws_enough rnd letters numbers (if wanted letters numbers (rune_of (r + 32)) then n else Suc n) k w1)"

lemma random_loop_ends:
  "draws_enough rnd letters numbers count k w \<Longrightarrow> letters \<or> numbers \<Longrightarrow>
    \<exists>w' buf'. random_loop rnd [] 32 91 letters numbers count buf w = Some (w', Done buf')"
proof (induction k arbitrary: count buf w)
  case 0
  then show ?case by (cases count) (simp_all add: random_loop.simps)
next
  case (Suc k)
  show ?case
  proof (cases count)
    case 0
    then show ?thesis by (simp add: random_loop.simps)
  next
    case (Suc n)
    obtain w1 r where r: "rnd w 91 = (w1, r)" by fastforce
    have d: "draw rnd [] 32 91 w = (w1, Some (rune_of (r + 32)))" by (simp add: draw_def r)
    show ?thesis
    proof (cases "wanted letters numbers (rune_of (r + 32))")
      case True
      then have "draws_enough rnd letters numbers n k w1" using Suc.prems(1) Suc r by simp
      from Suc.IH[OF this Suc.prems(2), of "buf[n := rune_of (r + 32)]"] show ?thesis
        using True Suc d by (subst random_loop.simps) (simp add: put_rune_ascii[OF True Suc.prems(2)])
    next
      case False
      then have "draws_enough rnd letters numbers (Suc n) k w1" using Suc.prems(1) Suc r by simp
      from Suc.IH[OF this Suc.prems(2), of buf] show ?thesis
        using False Suc d by (subst random_loop.simps) simp
    qed
  qed
qed

text \<open>\<open>RandomStringSpec0\<close> passes \<open>len(set)-1\<close> as the end, so it never picks the last character of the set; for
  a set of one character the bounds are both 0, the loop takes them for "no bounds" and panics.\<close>

lemma draw_below:
  assumes "\<And>w n. 0 < n \<Longrightarrow> 0 \<le> snd (rnd w n) \<and> snd (rnd w n) < n" "draw rnd chars 0 (int (length chars) - 1) w = (w', Some ch)"
    and "chars \<noteq> []"
  shows "ch \<in> set (butlast chars)"
proof -
  obtain w1 r where r: "rnd w (int (length chars) - 1) = (w1, r)" by fastforce
  have g: "0 < int (length chars) - 1" using assms(2) by (auto simp: draw_def split: if_splits)
  with assms(1)[of "int (length chars) - 1" w] r have b: "0 \<le> r" "r < int (length chars) - 1" by auto
  then have "ch = chars ! nat r" using assms(2,3) g r by (simp add: draw_def split: if_splits)
  moreover have "nat r < length (butlast chars)" using b by simp
  ultimately show ?thesis using nth_butlast[of "nat r" chars] nth_mem[of "nat r" "butlast chars"] by simp
qed

end
