(* ===== verification/Zk.thy ===== *)
theory Zk
  imports Json
begin

text \<open>
  \<open>zk/watcher.go\<close>: the table of server nodes that the push API answers with. One goroutine watches the
  children of a ZooKeeper node and sends an event for each that is new or gone, another takes the events and
  replaces the table. The ZooKeeper client is a parameter: the lists of children and \<open>Get\<close>, the data of a
  node. \<open>watch_settles\<close> says that the table is right once the events of a change are handled;
  \<open>watch_race\<close> shows that a change that is seen before the events of the last one are handled is lost.
\<close>

definition eventNodeAdd :: int where "eventNodeAdd = 1"
definition eventNodeDel :: int where "eventNodeDel = 2"

record CometNodeInfo =
  cn_TcpAddr :: string
  cn_Weight :: int

record CometNodeEvent =
  ev_Key :: string
  ev_Event :: int

type_synonym nodes = "string \<Rightarrow> CometNodeInfo option"

text \<open>The events of one change: \<open>children\<close> is what \<open>conn.Children\<close> returned, \<open>ks\<close> the order in which the range
  over the table visits it.\<close>

definition initCometNodeInfo :: "string list \<Rightarrow> nodes \<Rightarrow> CometNodeEvent list" where
  "initCometNodeInfo children m =
    map (\<lambda>k. \<lparr>ev_Key = k, ev_Event = eventNodeAdd\<rparr>) (filter (\<lambda>k. m k = None) children)"

definition watchCometRoot :: "string list \<Rightarrow> nodes \<Rightarrow> string list \<Rightarrow> CometNodeEvent list" where
  "watchCometRoot children m ks =
    map (\<lambda>k. \<lparr>ev_Key = k, ev_Event = eventNodeAdd\<rparr>) (filter (\<lambda>k. m k = None) children) @
    map (\<lambda>k. \<lparr>ev_Key = k, ev_Event = eventNodeDel\<rparr>) (filter (\<lambda>k. k \<notin> set children) ks)"

text \<open>One event; \<open>Get k\<close> is the data of node \<open>k\<close>, empty on an error. \<open>None\<close> is the panic on an unknown event.\<close>

definition handleCometNodeEvent :: "(string \<Rightarrow> string) \<Rightarrow> CometNodeEvent \<Rightarrow> nodes \<Rightarrow> nodes option" where
  "handleCometNodeEvent Get ev m =
    (if ev_Event ev = eventNodeAdd then
       (let addr = fst (Unmarshal dec_string (Get (ev_Key ev)) [])
        in Some (m(ev_Key ev \<mapsto> \<lparr>cn_TcpAddr = addr, cn_Weight = 1\<rparr>)))
     else if ev_Event ev = eventNodeDel then Some (m(ev_Key ev := None))
     else None)"

fun handle_events :: "(string \<Rightarrow> string) \<Rightarrow> CometNodeEvent list \<Rightarrow> nodes \<Rightarrow> nodes option" where
  "handle_events Get [] m = Some m"
| "handle_events Get (ev # evs) m = Option.bind (handleCometNodeEvent Get ev m) (handle_events Get evs)"

definition GetComet :: "nodes \<Rightarrow> string list \<Rightarrow> string list option" where
  "GetComet m ks = (if m = Map.empty then None else Some (map cn_TcpAddr (range_values m ks)))"

lemma handle_append: "handle_events Get (xs @ ys) m = Option.bind (handle_events Get xs m) (handle_events Get ys)"
  by (induction xs arbitrary: m) (auto split: bind_split)

lemma handle_adds:
  "handle_events Get (map (\<lambda>k. \<lparr>ev_Key = k, ev_Event = eventNodeAdd\<rparr>) ks) m =
    Some (\<lambda>k. if k \<in> set ks then Some \<lparr>cn_TcpAddr = fst (Unmarshal dec_string (Get k) []), cn_Weight = 1\<rparr> else m k)"
  by (induction ks arbitrary: m) (auto simp: handleCometNodeEvent_def Let_def)

lemma handle_dels:
  "handle_events Get (map (\<lambda>k. \<lparr>ev_Key = k, ev_Event = eventNodeDel\<rparr>) ks) m = Some (\<lambda>k. if k \<in> set ks then None else m k)"
  by (induction ks arbitrary: m) (auto simp: handleCometNodeEvent_def eventNodeAdd_def eventNodeDel_def)

text \<open>Handling the events of a change gives a table of exactly the children, in which the old entries are as
  they were and the new ones hold the address in the node's data.\<close>

lemma watch_settles:
  assumes "map_order m ks"
  shows "handle_events Get (watchCometRoot children m ks) m =
    Some (\<lambda>k. if k \<notin> set children then None
      else case m k of Some i \<Rightarrow> Some i
        | None \<Rightarrow> Some \<lparr>cn_TcpAddr = fst (Unmarshal dec_string (Get k) []), cn_Weight = 1\<rparr>)"
  using assms by (auto simp: watchCometRoot_def handle_append handle_adds handle_dels map_order_def dom_def
      intro!: ext split: option.splits)

text \<open>Two changes whose events are handled together: a node that goes and comes back is taken out of the
  table and stays out, as the second change finds it still there.\<close>

lemma watch_race:
  assumes "map_order m ks" "k \<in> set ks" "k \<notin> set gone" "k \<in> set back"
  shows "\<exists>m'. handle_events Get (watchCometRoot gone m ks @ watchCometRoot back m ks) m = Some m' \<and> m' k = None"
proof -
  have "m k \<noteq> None" using assms(1,2) by (auto simp: map_order_def)
  then show ?thesis using assms by (simp add: watchCometRoot_def handle_append handle_adds handle_dels)
qed

end
