(* ===== verification/Auth.thy ===== *)
theory Auth
  imports Json
begin

text \<open>
  \<open>auth/auth.go\<close> and \<open>auth/letv.go\<close>: the account check by an HTTP call to a sign-on service. The call is a
  parameter over the world: it returns the body of the answer or an error. A type assertion that fails
  panics: \<open>None\<close>. The instance is nil (\<open>None\<close>) unless the configured provider is \<open>letv\<close>.
\<close>

type_synonym 'w http_get = "'w \<Rightarrow> string \<Rightarrow> 'w \<times> string result"

type_synonym 'w checker = "'w \<Rightarrow> string \<Rightarrow> ('w \<times> bool \<times> string) option"

record tokenResult =
  tr_Bean :: json
  tr_Status :: string
  tr_ErrCode :: string

text \<open>A field of type \<open>interface{}\<close> takes any value.\<close>

definition dec_any :: "json decoder" where
  "dec_any j x = (j, True)"

definition dec_tokenResult :: "tokenResult decoder" where
  "dec_tokenResult = dec_struct
    [field ''bean'' tr_Bean tr_Bean_update dec_any,
     field ''status'' tr_Status tr_Status_update dec_string,
     field ''errorCode'' tr_ErrCode tr_ErrCode_update dec_string]"

text \<open>\<open>m[k]\<close> of an object decoded into a \<open>map[string]interface{}\<close>: the last member counts.\<close>

definition obj_get :: "(string \<times> json) list \<Rightarrow> string \<Rightarrow> json option" where
  "obj_get ms k = map_of (rev ms) k"

definition LetvAuth_Auth :: "'w http_get \<Rightarrow> string \<Rightarrow> 'w checker" where
  "LetvAuth_Auth get base w token =
    (case get w (base @ ''/'' @ token) of
       (w1, Inl _) \<Rightarrow> Some (w1, False, [])
     | (w1, Inr body) \<Rightarrow>
        (case Unmarshal dec_tokenResult body \<lparr>tr_Bean = JNull, tr_Status = [], tr_ErrCode = []\<rparr> of
           (_, False) \<Rightarrow> Some (w1, False, [])
         | (tr, True) \<Rightarrow>
             if tr_Status tr \<noteq> ''1'' \<or> tr_ErrCode tr \<noteq> ''0'' then Some (w1, False, [])
             else (case tr_Bean tr of
                JObj m \<Rightarrow>
                  (case obj_get m ''result'' of
                     None \<Rightarrow> Some (w1, False, [])
                   | Some (JStr uid) \<Rightarrow> Some (w1, True, ''letv_'' @ uid)
                   | Some _ \<Rightarrow> None)
              | _ \<Rightarrow> None)))"

definition newLetvAuth :: "'w http_get \<Rightarrow> string \<Rightarrow> 'w checker" where
  "newLetvAuth get letvUrl = LetvAuth_Auth get letvUrl"

definition auth_NewInstance :: "'w http_get \<Rightarrow> string \<Rightarrow> string \<Rightarrow> 'w checker option \<times> bool" where
  "auth_NewInstance get provider letvUrl =
    (if provider = ''letv'' then (Some (newLetvAuth get letvUrl), True) else (None, False))"

text \<open>A token is accepted only on the service's word, and the user id is the service's with a prefix.\<close>

lemma LetvAuth_accepts:
  assumes "LetvAuth_Auth get base w token = Some (w', True, uid)"
  shows "\<exists>body tr m u. get w (base @ ''/'' @ token) = (w', Inr body) \<and>
    Unmarshal dec_tokenResult body \<lparr>tr_Bean = JNull, tr_Status = [], tr_ErrCode = []\<rparr> = (tr, True) \<and>
    tr_Status tr = ''1'' \<and> tr_ErrCode tr = ''0'' \<and> tr_Bean tr = JObj m \<and>
    obj_get m ''result'' = Some (JStr u) \<and> uid = ''letv_'' @ u"
  using assms by (auto simp: LetvAuth_Auth_def split: prod.splits sum.splits bool.splits if_splits json.splits option.splits)

end
