(* ===== verification/Push_Api.thy ===== *)
theory Push_Api
  imports Http Random_Strings Zk Auth Redis_Storage
begin

text \<open>
  \<open>pushapi/pushapi.go\<close> and the dispatch loop of \<open>pushapi/main.go\<close>: the HTTP handlers that register
  applications and accept messages, and the goroutine that stores accepted messages and publishes them.
  The state is the world (storage, clock, random numbers, the message queue), \<open>msgBox\<close> (the channel's
  buffer and the senders blocked on it, in order) and the table of server nodes. A handler returns
  \<open>None\<close> where it panics or does not return.
\<close>

record 'w api_env =
  astore :: "'w storage"
  aauth :: "'w checker option"
  anow :: "'w \<Rightarrow> int"
  uuid_New :: "'w \<Rightarrow> 'w \<times> string"
  rand_Intn :: "'w rand"
  hmac :: "string \<Rightarrow> string \<Rightarrow> string"
  md5sum :: "string \<Rightarrow> string"
  publish :: "'w \<Rightarrow> string \<Rightarrow> 'w \<times> go_error option"
  node_iter :: "nodes \<Rightarrow> string list"

record 'w api =
  aworld :: 'w
  msgBox :: "RawMessage list"
  cometNodeInfoMap :: nodes

type_synonym 'w api_handler = "'w api_env \<Rightarrow> request \<Rightarrow> 'w api \<Rightarrow> ('w api \<times> response) option"

definition acall :: "('w \<Rightarrow> 'w \<times> 'r) \<Rightarrow> 'w api \<Rightarrow> 'w api \<times> 'r" where
  "acall f s = (let (w', r) = f (aworld s) in (s\<lparr>aworld := w'\<rparr>, r))"

subsection \<open>Responses\<close>

definition API_ERR_INTERNAL :: int where "API_ERR_INTERNAL = 1000"
definition ERR_METHOD_NOT_ALLOWED :: int where "ERR_METHOD_NOT_ALLOWED = 1001"
definition ERR_BAD_REQUEST :: int where "ERR_BAD_REQUEST = 1002"
definition API_ERR_INVALID_PARAMS :: int where "API_ERR_INVALID_PARAMS = 1003"
definition ERR_AUTHENTICATE :: int where "ERR_AUTHENTICATE = 1004"
definition ERR_AUTHORIZE :: int where "ERR_AUTHORIZE = 1005"
definition ERR_SIGN :: int where "ERR_SIGN = 1006"
definition ERR_EXIST :: int where "ERR_EXIST = 2001"
definition ERR_NOT_EXIST :: int where "ERR_NOT_EXIST = 2002"

definition MsgID :: string where "MsgID = ''msgid''"
definition PappID :: string where "PappID = ''pappid''"
definition ADMIN_SIGN :: string where "ADMIN_SIGN = ''pushtest''"

record Response =
  rp_ErrNo :: int
  rp_ErrMsg :: string
  rp_Data :: "json option"

definition enc_Response :: "Response \<Rightarrow> json" where
  "enc_Response r = JObj
    (member ''errno'' (jint (rp_ErrNo r)) @
     omitempty (rp_ErrMsg r = []) ''errmsg'' (JStr (rp_ErrMsg r)) @
     (case rp_Data r of None \<Rightarrow> [] | Some d \<Rightarrow> member ''data'' d))"

definition errResponse :: "int \<Rightarrow> string \<Rightarrow> int \<Rightarrow> response" where
  "errResponse errno errmsg httpcode =
    http_Error (json_text (enc_Response \<lparr>rp_ErrNo = errno, rp_ErrMsg = errmsg, rp_Data = None\<rparr>)) httpcode"

definition ok_response :: "json option \<Rightarrow> response" where
  "ok_response d = http_Fprintf (json_text (enc_Response \<lparr>rp_ErrNo = 0, rp_ErrMsg = [], rp_Data = d\<rparr>))"

text \<open>A word in single quotes.\<close>

definition qu :: "string \<Rightarrow> string" where
  "qu s = CHR 0x27 # s @ [CHR 0x27]"

subsection \<open>Checking a message\<close>

definition checkMessage :: "RawMessage \<Rightarrow> bool \<times> string" where
  "checkMessage m =
    (let p = rm_PushParams m in
     if rm_AppId m = [] then (False, ''missing '' @ qu ''appid'')
     else if rm_MsgType m < 1 \<or> 2 < rm_MsgType m then (False, ''invalid '' @ qu ''msg_type'')
     else if rm_MsgType m = 2 \<and> rm_Content m = [] then
       (False, ''missing '' @ qu ''content'' @ '' or empty '' @ qu ''content'' @ '' when '' @ qu ''msg_type'' @ ''==2'')
     else if rm_MsgType m \<noteq> 2 \<and> nt_Title (rm_Notification m) = [] then
       (False, ''missing '' @ qu ''notification.title'' @ '' or empty when '' @ qu ''msg_type'' @ ''==1'')
     else if rm_PushType m < 1 \<or> 7 < rm_PushType m then (False, ''invalid '' @ qu ''push_type'')
     else if rm_PushType m = 2 \<and> elems (pp_RegId p) = [] then (False, ''empty '' @ qu ''regid'' @ '' when '' @ qu ''push_type'' @ ''==2'')
     else if rm_PushType m = 3 \<and> elems (pp_UserId p) = [] then (False, ''empty '' @ qu ''userid'' @ '' when '' @ qu ''push_type'' @ ''==3'')
     else if rm_PushType m = 4 \<and> elems (pp_DevId p) = [] then (False, ''empty '' @ qu ''devid'' @ '' when '' @ qu ''push_type'' @ ''==4'')
     else if rm_PushType m = 5 \<and> elems (pp_Topic p) = [] then (False, ''empty '' @ qu ''topic'' @ '' when '' @ qu ''push_type'' @ ''==5'')
     else if rm_PushType m = 7 \<and> elems (pp_Group p) = [] then (False, ''empty '' @ qu ''group'' @ '' when '' @ qu ''push_type'' @ ''==7'')
     else if pp_TopicOp p \<noteq> [] \<and> pp_TopicOp p \<noteq> ''or'' \<and> pp_TopicOp p \<noteq> ''and'' \<and> pp_TopicOp p \<noteq> ''except'' then
       (False, ''invalid '' @ qu ''topic_op'')
     else if 3 * 86400 < op_TTL (rm_Options m) then (False, ''invalid '' @ qu ''options.ttl'')
     else (True, []))"

subsection \<open>Counters\<close>

definition setPappID :: "'w api_env \<Rightarrow> 'w api \<Rightarrow> 'w api \<times> go_error option" where
  "setPappID e s = (let (s1, r) = acall (\<lambda>w. SetNotExist (astore e) w PappID ''0'') s in (s1, drop_value r))"

definition getPappID :: "'w api_env \<Rightarrow> 'w api \<Rightarrow> 'w api \<times> int" where
  "getPappID e s = (let (s1, r) = acall (\<lambda>w. IncrBy (astore e) w PappID 1) s in (s1, value_or 0 r))"

definition setMsgID :: "'w api_env \<Rightarrow> 'w api \<Rightarrow> 'w api \<times> go_error option" where
  "setMsgID e s = (let (s1, r) = acall (\<lambda>w. SetNotExist (astore e) w MsgID ''0'') s in (s1, drop_value r))"

definition getMsgID :: "'w api_env \<Rightarrow> 'w api \<Rightarrow> 'w api \<times> int" where
  "getMsgID e s = (let (s1, r) = acall (\<lambda>w. IncrBy (astore e) w MsgID 1) s in (s1, value_or 0 r))"

subsection \<open>Applications\<close>

definition serverHandler :: "'w api_handler" where
  "serverHandler e rq s =
    (if rq_Method rq \<noteq> ''GET'' then Some (s, errResponse ERR_METHOD_NOT_ALLOWED ''method not allowed'' 405)
     else let node = (case GetComet (cometNodeInfoMap s) (node_iter e (cometNodeInfoMap s)) of None \<Rightarrow> [] | Some xs \<Rightarrow> xs)
          in Some (s, ok_response (Some (JObj [(''servers'', jstrings (Some node))]))))"

definition testHandler :: "'w api_handler" where
  "testHandler e rq s =
    (if rq_Method rq \<noteq> ''POST'' then Some (s, errResponse ERR_METHOD_NOT_ALLOWED ''method not allowed'' 405)
     else Some (s, ok_response None))"

definition getApp :: "'w api_handler" where
  "getApp e rq s =
    (let pkg = FormValue rq ''pkg'' in
     if pkg = [] then Some (s, errResponse API_ERR_INVALID_PARAMS (''missing '' @ qu ''pkg'') 400)
     else (case acall (\<lambda>w. HashGet (astore e) w ''db_packages'' pkg) s of
         (s1, Inl _) \<Rightarrow> Some (s1, errResponse API_ERR_INTERNAL ''storage I/O failed'' 500)
       | (s1, Inr None) \<Rightarrow> Some (s1, errResponse ERR_NOT_EXIST ''app not exist'' 400)
       | (s1, Inr (Some appid)) \<Rightarrow> Some (s1, ok_response (Some (JObj [(''appid'', JStr appid)])))))"

text \<open>\<open>utils.RandomAlphabetic(n)\<close> within a handler.\<close>

definition random_letters :: "'w api_env \<Rightarrow> nat \<Rightarrow> 'w api \<Rightarrow> ('w api \<times> string) option" where
  "random_letters e n s =
    (case RandomAlphabetic (rand_Intn e) n (aworld s) of Some (w, Done r) \<Rightarrow> Some (s\<lparr>aworld := w\<rparr>, r) | _ \<Rightarrow> None)"

text \<open>The end of \<open>addApp\<close> and \<open>addApp2\<close>: the two hashes and the answer.\<close>

definition store_app :: "'w api_env \<Rightarrow> string \<Rightarrow> RawApp \<Rightarrow> 'w api \<Rightarrow> ('w api \<times> response) option" where
  "store_app e appId rawapp s =
    (case acall (\<lambda>w. HashSet (astore e) w ''db_apps'' appId (json_text (enc_RawApp rawapp))) s of
       (s1, Inl _) \<Rightarrow> Some (s1, errResponse API_ERR_INTERNAL (''set '' @ qu ''db_apps'' @ '' failed'') 500)
     | (s1, Inr _) \<Rightarrow>
        (case acall (\<lambda>w. HashSet (astore e) w ''db_packages'' (ra_Pkg rawapp) appId) s1 of
           (s2, Inl _) \<Rightarrow> Some (s2, errResponse API_ERR_INTERNAL (''set '' @ qu ''db_packages'' @ '' failed'') 500)
         | (s2, Inr _) \<Rightarrow>
             Some (s2, ok_response (Some (JObj
               [(''appid'', JStr appId), (''appkey'', JStr (ra_AppKey rawapp)), (''appsec'', JStr (ra_AppSec rawapp))])))))"

text \<open>A new application: its number, the check that the package is free, and the generated names.
  \<open>strings.Replace(uuid.New(), "-", "", -1)\<close> without its last characters, then the number; the slice
  expression panics when the number is longer.\<close>

definition new_app :: "'w api_env \<Rightarrow> string \<Rightarrow> string \<Rightarrow> string \<Rightarrow> (string \<Rightarrow> string \<Rightarrow> RawApp) \<Rightarrow> string \<Rightarrow> 'w api
    \<Rightarrow> ('w api \<times> response) option" where
  "new_app e idp keyp secp mk pkg s =
    (let (s1, tprefix) = getPappID e s in
     if tprefix = 0 then Some (s1, errResponse API_ERR_INTERNAL ''no avaiable appid'' 500)
     else (case acall (\<lambda>w. HashExists (astore e) w ''db_packages'' pkg) s1 of
         (s2, Inl _) \<Rightarrow> Some (s2, errResponse API_ERR_INTERNAL ''storage I/O failed'' 500)
       | (s2, Inr n) \<Rightarrow>
           if 0 < n then Some (s2, errResponse ERR_EXIST ''package exist'' 400)
           else
            (let prefix = FormatInt tprefix;
                 (s3, uuid) = acall (uuid_New e) s2;
                 tappid = filter (\<lambda>c. c \<noteq> CHR ''-'') uuid
             in if length tappid < length prefix then None
                else let appId = idp @ take (length tappid - length prefix) tappid @ prefix in
                  (case random_letters e 20 s3 of
                     None \<Rightarrow> None
                   | Some (s4, k) \<Rightarrow>
                      (case random_letters e 20 s4 of
                         None \<Rightarrow> None
                       | Some (s5, x) \<Rightarrow> store_app e appId (mk (keyp @ k) (secp @ x)) s5)))))"

definition bad_request :: response where
  "bad_request = http_Error (json_text (enc_Response \<lparr>rp_ErrNo = ERR_BAD_REQUEST, rp_ErrMsg = ''Bad request'', rp_Data = None\<rparr>)) 400"

definition addApp :: "'w api_handler" where
  "addApp e rq s =
    (case Decode dec_string_map (rq_Body rq) Map.empty of
       (_, False) \<Rightarrow> Some (s, bad_request)
     | (data, True) \<Rightarrow>
        (case data ''pkg'' of
           None \<Rightarrow> Some (s, errResponse API_ERR_INVALID_PARAMS (''missing '' @ qu ''pkg'') 400)
         | Some pkg \<Rightarrow>
            (case data ''token'' of
               None \<Rightarrow> Some (s, errResponse API_ERR_INVALID_PARAMS (''missing '' @ qu ''token'') 400)
             | Some token \<Rightarrow>
                (case aauth e of
                   None \<Rightarrow> None
                 | Some auth \<Rightarrow>
                    (case auth (aworld s) token of
                       None \<Rightarrow> None
                     | Some (w, ok, uid) \<Rightarrow>
                         (let s1 = s\<lparr>aworld := w\<rparr> in
                          if \<not> ok then Some (s1, errResponse ERR_AUTHENTICATE ''authenticate failed'' 401)
                          else new_app e ''appid_'' ''appkey_'' ''appsec_''
                            (\<lambda>k x. zero_RawApp\<lparr>ra_Pkg := pkg, ra_UserId := uid, ra_AppKey := k, ra_AppSec := x\<rparr>) pkg s1))))))"

definition addApp2 :: "'w api_handler" where
  "addApp2 e rq s =
    (case Decode dec_string_map (rq_Body rq) Map.empty of
       (_, False) \<Rightarrow> Some (s, bad_request)
     | (data, True) \<Rightarrow>
        (case (data ''pkg'', data ''name'', data ''mobile'', data ''email'', data ''desc'') of
           (Some pkg, Some name, Some mobile, Some email, Some desc) \<Rightarrow>
             new_app e ''id_'' ''ak_'' ''sk_''
               (\<lambda>k x. zero_RawApp\<lparr>ra_Pkg := pkg, ra_Name := name, ra_Mobile := mobile, ra_Email := email, ra_Desc := desc,
                  ra_AppKey := k, ra_AppSec := x\<rparr>) pkg s
         | _ \<Rightarrow> Some (s, errResponse API_ERR_INVALID_PARAMS ''missing parameters'' 400)))"

text \<open>The application that signs a request.\<close>

definition sign_ok :: "'w api_env \<Rightarrow> RawApp \<Rightarrow> request \<Rightarrow> string \<Rightarrow> bool" where
  "sign_ok e rawapp rq sign \<longleftrightarrow> sign = ADMIN_SIGN \<or>
    Sign (hmac e) (md5sum e) (ra_AppSec rawapp) (rq_Method rq) (rq_Path rq) (rq_Body rq) (rq_header rq ''Date'') (rq_Form rq) = sign"

definition delApp :: "'w api_handler" where
  "delApp e rq s =
    (let auth = Fields (rq_header rq ''Authorization'') in
     if length auth < 3 then Some (s, errResponse ERR_AUTHORIZE (''invalid '' @ qu ''Authorization'' @ '' header'') 400)
     else let appid = auth ! 1; sign = auth ! 2 in
      (case acall (\<lambda>w. HashGet (astore e) w ''db_apps'' appid) s of
         (s1, Inl _) \<Rightarrow> Some (s1, errResponse API_ERR_INTERNAL ''storage I/O failed'' 500)
       | (s1, Inr None) \<Rightarrow> Some (s1, errResponse ERR_NOT_EXIST ''app not exist'' 400)
       | (s1, Inr (Some b)) \<Rightarrow>
           (let rawapp = fst (Unmarshal dec_RawApp b zero_RawApp) in
            if \<not> sign_ok e rawapp rq sign then Some (s1, errResponse ERR_SIGN ''check sign failed'' 400)
            else (case acall (\<lambda>w. HashDel (astore e) w ''db_apps'' appid) s1 of
               (s2, Inl _) \<Rightarrow> Some (s2, errResponse API_ERR_INTERNAL (''del '' @ qu ''db_apps'' @ '' failed'') 500)
             | (s2, Inr _) \<Rightarrow>
                (case acall (\<lambda>w. HashDel (astore e) w ''db_packages'' (ra_Pkg rawapp)) s2 of
                   (s3, Inl _) \<Rightarrow> Some (s3, errResponse API_ERR_INTERNAL (''del '' @ qu ''db_packages'' @ '' failed'') 500)
                 | (s3, Inr _) \<Rightarrow> Some (s3, ok_response None))))))"

definition method_not_allowed :: response where
  "method_not_allowed = http_Error (json_text (enc_Response
    \<lparr>rp_ErrNo = ERR_METHOD_NOT_ALLOWED, rp_ErrMsg = ''Method not allowed'', rp_Data = None\<rparr>)) 405"

definition appHandler :: "'w api_handler" where
  "appHandler e rq s =
    (if rq_Method rq = ''POST'' then addApp e rq s
     else if rq_Method rq = ''DELETE'' then delApp e rq s
     else if rq_Method rq = ''GET'' then getApp e rq s
     else Some (s, method_not_allowed))"

definition app2Handler :: "'w api_handler" where
  "app2Handler e rq s = (if rq_Method rq = ''POST'' then addApp2 e rq s else Some (s, method_not_allowed))"

subsection \<open>Messages\<close>

definition set_ttl :: "RawMessage \<Rightarrow> RawMessage" where
  "set_ttl m =
    (if op_TTL (rm_Options m) < 0 then m\<lparr>rm_Options := (rm_Options m)\<lparr>op_TTL := 0\<rparr>\<rparr>
     else if op_TTL (rm_Options m) = 0 then m\<lparr>rm_Options := (rm_Options m)\<lparr>op_TTL := 86400\<rparr>\<rparr>
     else m)"

text \<open>After the signature: decode, check, number and queue the message.\<close>

definition accept_message :: "'w api_env \<Rightarrow> string \<Rightarrow> string \<Rightarrow> 'w api \<Rightarrow> 'w api \<times> response" where
  "accept_message e appid body s =
    (case Unmarshal dec_RawMessage body zero_RawMessage of
       (_, False) \<Rightarrow> (s, errResponse ERR_BAD_REQUEST ''json decode body failed'' 400)
     | (m0, True) \<Rightarrow>
        (let m1 = m0\<lparr>rm_AppId := appid\<rparr>; (ok, desc) = checkMessage m1 in
         if \<not> ok then (s, errResponse API_ERR_INVALID_PARAMS desc 400)
         else let (s1, msgid) = getMsgID e s in
           if msgid = 0 then (s1, errResponse API_ERR_INTERNAL ''no avaiable msgid'' 500)
           else let m2 = (set_ttl (m1\<lparr>rm_MsgId := msgid\<rparr>))\<lparr>rm_CTime := unix_time (anow e (aworld s1))\<rparr>;
                    s2 = s1\<lparr>msgBox := msgBox s1 @ [m2]\<rparr>;
                    s3 = fst (acall (\<lambda>w. AppStatsPushApi (astore e) w appid) s2)
                in (s3, ok_response (Some (JObj [(''msgid'', jint msgid)])))))"

definition addMessage :: "'w api_handler" where
  "addMessage e rq s =
    (let auth = Fields (rq_header rq ''Authorization'') in
     if length auth < 3 then Some (s, errResponse ERR_AUTHORIZE (''invalid '' @ qu ''Authorization'' @ '' header'') 400)
     else let appid = auth ! 1; sign = auth ! 2 in
      (case acall (\<lambda>w. HashGet (astore e) w ''db_apps'' appid) s of
         (s1, Inl _) \<Rightarrow> Some (s1, errResponse API_ERR_INTERNAL (''get '' @ qu ''db_apps'' @ '' failed'') 500)
       | (s1, Inr None) \<Rightarrow> Some (s1, errResponse ERR_NOT_EXIST ''app not exist'' 400)
       | (s1, Inr (Some b)) \<Rightarrow>
           (let rawapp = fst (Unmarshal dec_RawApp b zero_RawApp) in
            if \<not> rq_Body_ok rq then Some (s1, errResponse ERR_BAD_REQUEST ''failed read request body'' 400)
            else if \<not> sign_ok e rawapp rq sign then Some (s1, errResponse ERR_SIGN ''check sign failed'' 400)
            else Some (accept_message e appid (rq_Body rq) s1))))"

text \<open>\<open>n, _ := strconv.Atoi(msgid)\<close> is 0 or a bound for a text that is no \<open>int\<close>.\<close>

definition stat_response :: "int \<Rightarrow> int \<Rightarrow> int \<times> int \<times> int \<Rightarrow> json" where
  "stat_response msgId ctime st = (case st of (send, received, click) \<Rightarrow> JObj
    [(''msg_id'', jint msgId), (''create_time'', jint ctime), (''send'', jint send), (''received'', jint received), (''click'', jint click)])"

definition getMessage :: "'w api_handler" where
  "getMessage e rq s =
    (let appid = FormValue rq ''appid''; msgid = FormValue rq ''msgid'' in
     if appid = [] \<or> msgid = [] then
       Some (s, errResponse API_ERR_INVALID_PARAMS (''missing '' @ qu ''appid'' @ '' or '' @ qu ''msgid'') 400)
     else (case acall (\<lambda>w. HashGet (astore e) w (''db_msg_'' @ appid) msgid) s of
         (s1, Inl _) \<Rightarrow> Some (s1, errResponse API_ERR_INTERNAL ''storage I/O failed'' 500)
       | (s1, Inr None) \<Rightarrow> Some (s1, errResponse API_ERR_INTERNAL ''no msgid in this appid'' 500)
       | (s1, Inr (Some b)) \<Rightarrow>
           (let rawmsg = fst (Unmarshal dec_RawMessage b zero_RawMessage); msgId = Atoi_value msgid in
            case GetMsgStats (astore e) (aworld s1) msgId of
              None \<Rightarrow> None
            | Some (w2, Inl _) \<Rightarrow> Some (s1\<lparr>aworld := w2\<rparr>, errResponse API_ERR_INTERNAL ''storage I/O failed'' 500)
            | Some (w2, Inr st) \<Rightarrow> Some (s1\<lparr>aworld := w2\<rparr>, ok_response (Some (stat_response msgId (rm_CTime rawmsg) st))))))"

definition messageHandler :: "'w api_handler" where
  "messageHandler e rq s =
    (if rq_Method rq = ''POST'' then addMessage e rq s
     else if rq_Method rq = ''GET'' then getMessage e rq s
     else Some (s, method_not_allowed))"

subsection \<open>Dispatching\<close>

text \<open>One message taken from \<open>msgBox\<close> by the loop of \<open>main\<close>: stored, stored again for devices that are
  offline, and published by application and number. \<open>Some\<close> is the text that was handed to the queue. The
  expiry is an \<open>int64\<close> sum.\<close>

definition published_text :: "RawMessage \<Rightarrow> string" where
  "published_text m = json_text (JObj [(''appid'', JStr (rm_AppId m)), (''msgid'', jint (rm_MsgId m))])"

definition dispatch :: "'w api_env \<Rightarrow> RawMessage \<Rightarrow> 'w \<Rightarrow> 'w \<times> string option" where
  "dispatch e m w =
    (let v = json_text (enc_RawMessage m) in
     case HashSet (astore e) w (''db_msg_'' @ rm_AppId m) (FormatInt (rm_MsgId m)) v of
       (w1, Inl _) \<Rightarrow> (w1, None)
     | (w1, Inr _) \<Rightarrow>
        (let ttl = op_TTL (rm_Options m);
             (w2, ok) =
               (if 0 < ttl then
                  (case HashSet (astore e) w1 (''db_offline_msg_'' @ rm_AppId m)
                          (format_field3 (rm_MsgId m) (rm_CTime m) (wrap64 (ttl + rm_CTime m))) v of
                     (w', Inl _) \<Rightarrow> (w', False) | (w', Inr _) \<Rightarrow> (w', True))
                else (w1, True))
         in if \<not> ok then (w2, None)
            else case publish e w2 (published_text m) of (w3, err) \<Rightarrow> (w3, if err = None then Some (published_text m) else None)))"

definition dispatch_turn :: "'w api_env \<Rightarrow> 'w api \<Rightarrow> 'w api \<times> string option" where
  "dispatch_turn e s =
    (case msgBox s of
       [] \<Rightarrow> (s, None)
     | m # ms \<Rightarrow> (case dispatch e m (aworld s) of (w, p) \<Rightarrow> (s\<lparr>aworld := w, msgBox := ms\<rparr>, p)))"

end
