(* ===== verification/Message_Store.thy ===== *)
theory Message_Store
  imports Redis_Memory
begin

text \<open>
  What the push API and the message queue rely on: the contract \<open>message_storage\<close> extends the hash and
  counter contracts by what one kind of call leaves alone of the other kind and by the reading of a stored
  message. \<open>RedisStorage\<close> meets it over a Redis whose hash commands leave counters alone
  (\<open>redis_messages\<close>); the in-memory Redis is one.
\<close>

definition stored_message :: "string option \<Rightarrow> RawMessage option" where
  "stored_message v =
    (case v of None \<Rightarrow> None
     | Some t \<Rightarrow> (case Unmarshal dec_RawMessage t zero_RawMessage of (m, True) \<Rightarrow> Some m | (_, False) \<Rightarrow> None))"

lemma stored_message_None [simp]: "stored_message None = None"
  by (simp add: stored_message_def)

text \<open>What reading a stored message back changes: a list that is empty comes back as nil.\<close>

definition norm_strings :: "string list option \<Rightarrow> string list option" where
  "norm_strings x = (if elems x = [] then None else x)"

definition norm_params :: "PushParams \<Rightarrow> PushParams" where
  "norm_params p = \<lparr>pp_RegId = norm_strings (pp_RegId p), pp_UserId = norm_strings (pp_UserId p),
     pp_DevId = norm_strings (pp_DevId p), pp_Topic = norm_strings (pp_Topic p), pp_TopicOp = pp_TopicOp p,
     pp_Group = norm_strings (pp_Group p)\<rparr>"

definition raw_norm :: "RawMessage \<Rightarrow> RawMessage" where
  "raw_norm m = m\<lparr>rm_PushParams := norm_params (rm_PushParams m)\<rparr>"

definition raw_ranges :: "RawMessage \<Rightarrow> bool" where
  "raw_ranges m \<longleftrightarrow> list_all int64_range [rm_MsgId m, rm_CTime m, rm_MsgType m, rm_PushType m,
     nt_Type (rm_Notification m), nt_Action (rm_Notification m), op_TTL (rm_Options m), op_TTS (rm_Options m)]"

lemma elems_norm [simp]: "elems (norm_strings x) = elems x"
  by (cases x) (auto simp: norm_strings_def)

lemma wf_enc_params [simp]: "wf_json (enc_PushParams p)"
  by (simp add: enc_PushParams_def omitempty_def)

lemma wf_enc_notification [simp]: "wf_json (enc_Notification n)"
  by (simp add: enc_Notification_def omitempty_def member_def)

lemma wf_enc_message [simp]: "wf_json (enc_RawMessage m)"
  by (simp add: enc_RawMessage_def omitempty_def member_def)

lemmas struct_simps = dec_struct_def member_def omitempty_def find_field_def field_def

lemma dec_enc_params: "dec_PushParams (enc_PushParams p) zero_PushParams = (norm_params p, True)"
  by (cases p) (auto simp: enc_PushParams_def dec_PushParams_def struct_simps zero_PushParams_def norm_params_def
      norm_strings_def strings_dec_def)

lemma dec_enc_notification:
  "int64_range (nt_Type n) \<Longrightarrow> int64_range (nt_Action n) \<Longrightarrow> dec_Notification (enc_Notification n) zero_Notification = (n, True)"
  by (cases n) (auto simp: enc_Notification_def dec_Notification_def struct_simps zero_Notification_def)

lemma dec_enc_message:
  assumes "raw_ranges m"
  shows "dec_RawMessage (enc_RawMessage m) zero_RawMessage = (raw_norm m, True)"
proof -
  have o: "dec_Options (JObj (omitempty (op_TTL x = 0) ''ttl'' (jint (op_TTL x)) @ omitempty (op_TTS x = 0) ''tts'' (jint (op_TTS x))))
      \<lparr>op_TTL = 0, op_TTS = 0\<rparr> = (x, True)" if "int64_range (op_TTL x)" "int64_range (op_TTS x)" for x
    using that by (cases x) (auto simp: dec_Options_def struct_simps)
  show ?thesis
    using assms o[of "rm_Options m"] dec_enc_params[of "rm_PushParams m"] dec_enc_notification[of "rm_Notification m"]
    unfolding enc_RawMessage_def dec_RawMessage_def raw_ranges_def
    by (cases m) (simp add: struct_simps zero_RawMessage_def raw_norm_def)
qed

lemma stored_message_text: "raw_ranges m \<Longrightarrow> stored_message (Some (json_text (enc_RawMessage m))) = Some (raw_norm m)"
  by (simp add: stored_message_def Unmarshal_text dec_enc_message)

locale message_storage = hash_storage st hview + counter_storage st cview
  for st :: "'w storage" and hview :: "'w \<Rightarrow> string \<Rightarrow> string \<Rightarrow> string option" and cview :: "'w \<Rightarrow> string \<Rightarrow> int option" +
  assumes get_counters: "HashGet st w db k = (w', r) \<Longrightarrow> cview w' = cview w"
    and set_counters: "HashSet st w db k v = (w', i) \<Longrightarrow> cview w' = cview w"
    and del_counters: "HashDel st w db k = (w', i) \<Longrightarrow> cview w' = cview w"
    and hash_exists: "HashExists st w db k = (w', i) \<Longrightarrow> cview w' = cview w \<and> hview w' = hview w \<and>
      (\<forall>n. i = Inr n \<longrightarrow> (0 < n \<longleftrightarrow> hview w db k \<noteq> None))"
    and incr_hashes: "IncrBy st w c n = (w', i) \<Longrightarrow> hview w' = hview w"
    and stats_frame: "AppStatsPushApi st w a = (w', e) \<Longrightarrow> cview w' = cview w \<and> hview w' = hview w"
    and msg_stats: "GetMsgStats st w j = Some (w', q) \<Longrightarrow> cview w' = cview w \<and> hview w' = hview w"
    and raw_message: "GetRawMsg st w a j = (w', m) \<Longrightarrow> cview w' = cview w \<and> hview w' = hview w \<and>
      (\<forall>x. m = Some x \<longrightarrow> stored_message (hview w (''db_msg_'' @ a) (FormatInt j)) = Some x)"
begin

text \<open>A counter never goes back.\<close>

lemma incr_other: "IncrBy st w c n = (w', i) \<Longrightarrow> k \<noteq> c \<Longrightarrow> counter w' k = counter w k"
  by (cases i) (auto dest!: incr_by incr_by_err simp: counter_def)

lemma counter_cong: "cview w' = cview w \<Longrightarrow> counter w' k = counter w k"
  by (simp add: counter_def)

end

locale redis_messages = redis_service rg hview sview cview
  for rg :: "'w redigo" and hview :: "'w \<Rightarrow> string \<Rightarrow> string \<Rightarrow> string option"
    and sview :: "'w \<Rightarrow> string \<Rightarrow> string set" and cview :: "'w \<Rightarrow> string \<Rightarrow> int option" +
  assumes hash_commands: "cmd \<in> {''HGET'', ''HSET'', ''HDEL'', ''HEXISTS''} \<Longrightarrow> conn_do rg w cmd args = (w', r) \<Longrightarrow>
      cview w' = cview w"
    and INCRBY_hashes: "conn_do rg w ''INCRBY'' args = (w', r) \<Longrightarrow> hview w' = hview w"
    and other_commands: "cmd \<in> {''ZINCRBY'', ''HMGET''} \<Longrightarrow> conn_do rg w cmd args = (w', r) \<Longrightarrow> hview w' = hview w \<and> cview w' = cview w"
    and HGET_int: "conn_do rg w ''HGET'' [AStr db, AInt i] = conn_do rg w ''HGET'' [AStr db, AStr (FormatInt i)]"
    and HEXISTS_bit: "conn_do rg w ''HEXISTS'' [AStr db, AStr k] = (w', Inr (RInt n)) \<Longrightarrow> n = 0 \<or> n = 1"
begin

lemma do_counters: "RedisStorage_Do \<lparr>pool = rg, retry = n\<rparr> w cmd args = (w', r) \<Longrightarrow>
  cmd \<in> {''HGET'', ''HSET'', ''HDEL'', ''HEXISTS''} \<Longrightarrow> cview w' = cview w"
  by (erule Do_cases) (auto simp: same_view_def dest: hash_commands[rotated])

lemma do_int_counters: "do_int \<lparr>pool = rg, retry = n\<rparr> w cmd args = (w', r) \<Longrightarrow>
  cmd \<in> {''HGET'', ''HSET'', ''HDEL'', ''HEXISTS''} \<Longrightarrow> cview w' = cview w"
  by (erule do_int_cases) (auto simp: same_view_def dest: hash_commands[rotated])

lemma GetRawMsg_contract:
  assumes "RedisStorage_GetRawMsg \<lparr>pool = rg, retry = n\<rparr> w a j = (w', m)"
  shows "cview w' = cview w \<and> hview w' = hview w \<and>
    (\<forall>x. m = Some x \<longrightarrow> stored_message (hview w (''db_msg_'' @ a) (FormatInt j)) = Some x)"
proof -
  obtain r where d: "RedisStorage_Do \<lparr>pool = rg, retry = n\<rparr> w ''HGET'' [AStr (''db_msg_'' @ a), AInt j] = (w', r)"
    using assms unfolding RedisStorage_GetRawMsg_def Let_def
    by (cases "RedisStorage_Do \<lparr>pool = rg, retry = n\<rparr> w ''HGET'' [AStr (''db_msg_'' @ a), AInt j]")
      (auto split: sum.splits reply.splits prod.splits bool.splits)
  have c: "cview w' = cview w" by (rule do_counters[OF d]) simp
  from d show ?thesis
  proof (cases rule: Do_cases)
    case none
    then show ?thesis using d assms by (auto simp: RedisStorage_GetRawMsg_def same_view_def)
  next
    case (sent w1)
    have h: "hview w' = hview w" "\<And>x. r = Inr x \<Longrightarrow> x = bulk_opt (hview w (''db_msg_'' @ a) (FormatInt j))"
      using HGET[OF sent(2)[unfolded HGET_int]] sent(1) by (auto simp: same_view_def)
    show ?thesis
    proof (cases r)
      case (Inr y)
      then show ?thesis using c h(1) h(2)[OF Inr] d assms bytes_conv
        by (auto simp: RedisStorage_GetRawMsg_def bulk_opt_def stored_message_def split: option.splits prod.splits bool.splits)
    qed (use c h d assms in \<open>auto simp: RedisStorage_GetRawMsg_def\<close>)
  qed
qed

lemma HashExists_contract:
  assumes "RedisStorage_HashExists \<lparr>pool = rg, retry = n\<rparr> w db k = (w', r)"
  shows "cview w' = cview w \<and> hview w' = hview w \<and> (\<forall>i. r = Inr i \<longrightarrow> (0 < i \<longleftrightarrow> hview w db k \<noteq> None))"
proof -
  have d: "do_int \<lparr>pool = rg, retry = n\<rparr> w ''HEXISTS'' [AStr db, AStr k] = (w', r)"
    using assms by (simp add: RedisStorage_HashExists_def)
  have c: "cview w' = cview w" by (rule do_int_counters[OF d]) simp
  from d show ?thesis
  proof (cases rule: do_int_cases)
    case (sent w1 x)
    then show ?thesis using c HEXISTS[OF sent(2)] HEXISTS_bit[of w1 db k w'] int_conv by (cases x) (auto simp: same_view_def)
  qed (use c in \<open>auto simp: same_view_def\<close>)
qed

end

sublocale redis_messages \<subseteq> messages: message_storage "NewInstance \<lparr>pool = rg, retry = n\<rparr>" hview cview for n
proof (unfold_locales, goal_cases)
  case (1 w db k w' r)
  then have "RedisStorage_HashGet \<lparr>pool = rg, retry = n\<rparr> w db k = (w', r)" by (simp add: NewInstance_def)
  then obtain x where "RedisStorage_Do \<lparr>pool = rg, retry = n\<rparr> w ''HGET'' [AStr db, AStr k] = (w', x)"
    by (auto simp: RedisStorage_HashGet_def split: prod.splits sum.splits reply.splits)
  then show ?case by (rule do_counters) simp
next
  case (2 w db k v w' i)
  then show ?case using do_int_counters[of n w "''HSET''" "[AStr db, AStr k, AStr v]" w' i]
    by (simp add: NewInstance_def RedisStorage_HashSet_def)
next
  case (3 w db k w' i)
  then show ?case using do_int_counters[of n w "''HDEL''" "[AStr db, AStr k]" w' i]
    by (simp add: NewInstance_def RedisStorage_HashDel_def)
next
  case (4 w db k w' i)
  then show ?case using HashExists_contract[of n w db k w' i] by (simp add: NewInstance_def)
next
  case (5 w c i w' r)
  then have "do_int64 \<lparr>pool = rg, retry = n\<rparr> w ''INCRBY'' [AStr c, AInt i] = (w', r)"
    by (simp add: NewInstance_def RedisStorage_IncrBy_def)
  then show ?case by (rule do_int64_cases) (auto simp: same_view_def dest: INCRBY_hashes)
next
  case (6 w a w' e)
  then have "w' = fst (RedisStorage_Do \<lparr>pool = rg, retry = n\<rparr> w ''ZINCRBY''
      [AStr (app_key \<lparr>pool = rg, retry = n\<rparr> ''stats_app_pushapi:'' (clock rg w)), AInt 1, AStr a])"
    by (auto simp: NewInstance_def RedisStorage_AppStatsPushApi_def inc_app_def only_err_def)
  then obtain x where "RedisStorage_Do \<lparr>pool = rg, retry = n\<rparr> w ''ZINCRBY''
      [AStr (app_key \<lparr>pool = rg, retry = n\<rparr> ''stats_app_pushapi:'' (clock rg w)), AInt 1, AStr a] = (w', x)"
    by (metis prod.collapse)
  then show ?case by (rule Do_cases) (auto simp: same_view_def dest: other_commands[rotated])
next
  case (7 w j w' q)
  then obtain x where "RedisStorage_Do \<lparr>pool = rg, retry = n\<rparr> w ''HMGET''
      [AStr (msg_stat_key j), AStr ''send'', AStr ''received'', AStr ''click''] = (w', x)"
    by (auto simp: NewInstance_def RedisStorage_GetMsgStats_def split: prod.splits sum.splits list.splits)
  then show ?case by (rule Do_cases) (auto simp: same_view_def dest: other_commands[rotated])
next
  case (8 w a j w' m)
  then show ?case using GetRawMsg_contract[of n w a j w' m] by (simp add: NewInstance_def)
qed

lemma mem_cmd_counters: "mem_cmd w cmd args = (w', r) \<Longrightarrow> cmd \<noteq> ''INCRBY'' \<Longrightarrow> counters w' = counters w"
  by (auto simp: mem_cmd_def hash_cmd_def other_cmd_def Let_def
      split: option.splits list.splits redis_arg.splits if_splits prod.splits)

lemma mem_cmd_hashes: "mem_cmd w cmd args = (w', r) \<Longrightarrow> cmd \<in> {''INCRBY'', ''ZINCRBY'', ''HMGET''} \<Longrightarrow> mem_hview w' = mem_hview w"
  by (auto simp: mem_cmd_def hash_cmd_def other_cmd_def Let_def mem_hview_def[abs_def]
      split: option.splits list.splits redis_arg.splits if_splits prod.splits)

interpretation mem_msgs: redis_messages mem_redigo mem_hview mem_sview counters
proof (unfold_locales, goal_cases)
  case (1 cmd w args w' r)
  then have "mem_do w cmd args = (w', r)" by (simp add: mem_redigo_def)
  then show ?case using 1(1) mem_cmd_counters by (cases rule: mem_do_cases) auto
next
  case (2 w args w' r)
  then have "mem_do w ''INCRBY'' args = (w', r)" by (simp add: mem_redigo_def)
  then show ?case by (cases rule: mem_do_cases) (auto dest: mem_cmd_hashes)
next
  case (3 cmd w args w' r)
  then have "mem_do w cmd args = (w', r)" by (simp add: mem_redigo_def)
  then show ?case using 3(1) mem_cmd_hashes[of _ cmd] mem_cmd_counters[of _ cmd] by (cases rule: mem_do_cases) auto
next
  case (4 w db i)
  then show ?case by (simp add: mem_redigo_def mem_do_def mem_cmd_def hash_cmd_def other_cmd_def split: list.split bool.split)
next
  case (5 w db k w' n)
  then have "mem_do w ''HEXISTS'' [AStr db, AStr k] = (w', Inr (RInt n))" by (simp add: mem_redigo_def)
  then show ?case by (cases rule: mem_do_cases) (auto simp: mem_cmd_def hash_cmd_def split: if_splits)
qed

lemma mem_message_storage: "message_storage mem_store mem_hview counters"
  unfolding mem_store_def by (rule mem_msgs.messages.message_storage_axioms)

end
