(* ===== verification/Push_Api_Spec.thy ===== *)
theory Push_Api_Spec
  imports Push_Api Message_Store
begin

text \<open>
  What the handlers of the push API do over a storage that meets the contract \<open>message_storage\<close>: which
  parts of the state each leaves alone (\<open>keeps\<close>), what an accepted message looks like
  (\<open>addMessage_cases\<close>), what a new application leaves in the two hashes (\<open>new_app_stored\<close>) and what the
  dispatch of a message leaves in storage (\<open>dispatch_stored\<close>).
\<close>

subsection \<open>Texts without percent signs\<close>

lemma percent_digits: "CHR ''%'' \<notin> set (FormatInt i)"
proof -
  have "\<forall>c \<in> set (format_nat n). is_digit c" for n
    using format_nat_digits[of n] by (simp add: list_all_iff)
  moreover have "\<not> is_digit CHR ''%''" by code_simp
  ultimately show ?thesis by (auto simp: FormatInt_def)
qed

lemma ok_msgid: "ok_response (Some (JObj [(''msgid'', jint i)])) =
  \<lparr>rs_Code = 200, rs_Body = json_text (enc_Response \<lparr>rp_ErrNo = 0, rp_ErrMsg = [], rp_Data = Some (JObj [(''msgid'', jint i)])\<rparr>)\<rparr>"
proof -
  have "CHR ''%'' \<notin> set (json_text (enc_Response \<lparr>rp_ErrNo = 0, rp_ErrMsg = [], rp_Data = Some (JObj [(''msgid'', jint i)])\<rparr>))"
    using percent_digits by (simp add: enc_Response_def member_def omitempty_def jint_def str_text_def esc_char_def byte_val_def)
  then show ?thesis by (simp add: ok_response_def http_Fprintf_def Fprintf_plain)
qed

lemma rs_Code_simps [simp]: "rs_Code (ok_response d) = 200" "rs_Code (errResponse n msg code) = code"
  "rs_Code bad_request = 400" "rs_Code method_not_allowed = 405"
  by (simp_all add: ok_response_def http_Fprintf_def errResponse_def http_Error_def bad_request_def method_not_allowed_def)

subsection \<open>Valid messages\<close>

text \<open>What \<open>checkMessage\<close> accepts: an application, a notification with a title or a message with a content, a
  push type with the addressees it needs, a known topic operation, and at most three days to live.\<close>

definition addressed :: "RawMessage \<Rightarrow> bool" where
  "addressed m \<longleftrightarrow> (let p = rm_PushParams m; ty = rm_PushType m in
    1 \<le> ty \<and> ty \<le> 7 \<and> (ty = 2 \<longrightarrow> elems (pp_RegId p) \<noteq> []) \<and> (ty = 3 \<longrightarrow> elems (pp_UserId p) \<noteq> []) \<and>
    (ty = 4 \<longrightarrow> elems (pp_DevId p) \<noteq> []) \<and> (ty = 5 \<longrightarrow> elems (pp_Topic p) \<noteq> []) \<and> (ty = 7 \<longrightarrow> elems (pp_Group p) \<noteq> []) \<and>
    pp_TopicOp p \<in> {[], ''or'', ''and'', ''except''})"

definition valid_message :: "RawMessage \<Rightarrow> bool" where
  "valid_message m \<longleftrightarrow> rm_AppId m \<noteq> [] \<and>
    ((rm_MsgType m = 1 \<and> nt_Title (rm_Notification m) \<noteq> []) \<or> (rm_MsgType m = 2 \<and> rm_Content m \<noteq> [])) \<and>
    addressed m \<and> op_TTL (rm_Options m) \<le> 3 * 86400"

lemma fst_reject: "fst (if b then (False, d) else y) \<longleftrightarrow> \<not> b \<and> fst y"
  by simp

lemma checkMessage_iff: "fst (checkMessage m) \<longleftrightarrow> valid_message m"
proof -
  have t: "\<not> (rm_MsgType m < 1 \<or> 2 < rm_MsgType m) \<longleftrightarrow> rm_MsgType m = 1 \<or> rm_MsgType m = 2" by linarith
  have "fst (checkMessage m) \<longleftrightarrow> rm_AppId m \<noteq> [] \<and> (rm_MsgType m = 1 \<or> rm_MsgType m = 2) \<and>
    \<not> (rm_MsgType m = 2 \<and> rm_Content m = []) \<and> \<not> (rm_MsgType m \<noteq> 2 \<and> nt_Title (rm_Notification m) = []) \<and>
    addressed m \<and> op_TTL (rm_Options m) \<le> 3 * 86400"
    unfolding checkMessage_def Let_def fst_reject fst_conv t addressed_def by (simp add: not_less)
  then show ?thesis unfolding valid_message_def by auto
qed

subsection \<open>Numbers\<close>

text \<open>The value of a counter, 0 before it is set.\<close>

definition count_of :: "('w \<Rightarrow> string \<Rightarrow> int option) \<Rightarrow> 'w \<Rightarrow> string \<Rightarrow> int" where
  "count_of cv w k = (case cv w k of None \<Rightarrow> 0 | Some c \<Rightarrow> c)"

text \<open>An accepted message: checked, numbered by the counter, with a time to live between 0 and three days.\<close>

definition numbered :: "('w \<Rightarrow> string \<Rightarrow> int option) \<Rightarrow> 'w \<Rightarrow> 'w \<Rightarrow> RawMessage \<Rightarrow> bool" where
  "numbered cv w w' m \<longleftrightarrow> valid_message m \<and> 0 \<le> op_TTL (rm_Options m) \<and> op_TTL (rm_Options m) \<le> 3 * 86400 \<and>
    rm_MsgId m = count_of cv w MsgID + 1 \<and> count_of cv w' MsgID = rm_MsgId m \<and> rm_MsgId m \<noteq> 0"

text \<open>A run of the process: requests, dispatches, and what other processes do to the world, which never sets
  the counter back (\<open>cnt\<close> is its value). The list holds the numbers of the messages accepted so far.\<close>

inductive api_run :: "'w api_env \<Rightarrow> ('w \<Rightarrow> int) \<Rightarrow> 'w api \<Rightarrow> int list \<Rightarrow> 'w api \<Rightarrow> bool"
  for e :: "'w api_env" and cnt :: "'w \<Rightarrow> int" and s0 :: "'w api" where
  start: "api_run e cnt s0 [] s0"
| request: "api_run e cnt s0 ids s \<Longrightarrow> h \<in> {appHandler, app2Handler, messageHandler, serverHandler, testHandler} \<Longrightarrow>
    h e rq s = Some (s', r) \<Longrightarrow> msgBox s' = msgBox s @ ms \<Longrightarrow> api_run e cnt s0 (ids @ map rm_MsgId ms) s'"
| dispatched: "api_run e cnt s0 ids s \<Longrightarrow> dispatch_turn e s = (s', p) \<Longrightarrow> api_run e cnt s0 ids s'"
| others: "api_run e cnt s0 ids s \<Longrightarrow> cnt (aworld s) \<le> cnt w \<Longrightarrow> api_run e cnt s0 ids (s\<lparr>aworld := w\<rparr>)"

subsection \<open>What the parameters leave alone\<close>

text \<open>The account check, the random numbers and the message queue do not touch what \<open>view\<close> sees of the
  world.\<close>

definition calm :: "'w api_env \<Rightarrow> ('w \<Rightarrow> 'v) \<Rightarrow> bool" where
  "calm e view \<longleftrightarrow>
    (\<forall>f w t w' r. aauth e = Some f \<longrightarrow> f w t = Some (w', r) \<longrightarrow> view w' = view w) \<and>
    (\<forall>w. view (fst (uuid_New e w)) = view w) \<and> (\<forall>w n. view (fst (rand_Intn e w n)) = view w) \<and>
    (\<forall>w b. view (fst (publish e w b)) = view w)"

lemma random_loop_view:
  assumes ret: "random_loop Intn chars start gap letters numbers count buf w = Some r"
  shows "(\<forall>w n. view (fst (Intn w n)) = view w) \<longrightarrow> view (fst r) = view w"
proof (rule random_loop.raw_induct[where P = "\<lambda>Intn chars start gap letters numbers count buf w r.
    (\<forall>w n. view (fst (Intn w n)) = view w) \<longrightarrow> view (fst r) = view w", OF _ ret], intro impI)
  fix f :: "'a rand \<Rightarrow> int list \<Rightarrow> int \<Rightarrow> int \<Rightarrow> bool \<Rightarrow> bool \<Rightarrow> nat \<Rightarrow> int list \<Rightarrow> 'a \<Rightarrow> ('a \<times> int list outcome) option"
    and Intn :: "'a rand" and chars start gap letters numbers count buf w r
  assume IH: "\<And>Intn chars start gap letters numbers count buf w r.
      f Intn chars start gap letters numbers count buf w = Some r \<Longrightarrow>
      (\<forall>w n. view (fst (Intn w n)) = view w) \<longrightarrow> view (fst r) = view w"
    and eq: "(if count = 0 then Some (w, Done buf)
      else case draw Intn chars start gap w of
         (w1, None) \<Rightarrow> Some (w1, Panic)
       | (w1, Some ch) \<Rightarrow>
           if wanted letters numbers ch
           then (case put_rune Intn (count - 1) ch buf w1 of
                   (w2, n, buf2) \<Rightarrow> f Intn chars start gap letters numbers n buf2 w2)
           else f Intn chars start gap letters numbers count buf w1) = Some r"
    and q: "\<forall>w n. view (fst (Intn w n)) = view w"
  have d: "view w1 = view w" if "draw Intn chars start gap w = (w1, x)" for w1 x
    using that q[rule_format, of w gap] by (auto simp: draw_def Let_def split: if_splits prod.splits)
  have p: "view w2 = view w1" if "put_rune Intn n ch buf w1 = (w2, m, buf2)" for n ch w1 w2 m buf2
    using that q[rule_format, of w1 128] by (auto simp: put_rune_def Let_def split: if_splits prod.splits)
  show "view (fst r) = view w"
  proof (cases "count = 0")
    case True
    then show ?thesis using eq by auto
  next
    case False
    obtain w1 x where dr: "draw Intn chars start gap w = (w1, x)" by fastforce
    show ?thesis
    proof (cases x)
      case None
      then show ?thesis using eq False dr d[OF dr] by auto
    next
      case (Some ch)
      obtain w2 m buf2 where pr: "put_rune Intn (count - 1) ch buf w1 = (w2, m, buf2)" by (metis prod_cases3)
      from eq False dr Some pr have "f Intn chars start gap letters numbers m buf2 w2 = Some r \<or>
        f Intn chars start gap letters numbers count buf w1 = Some r" by (auto split: if_splits)
      then show ?thesis using IH q d[OF dr] p[OF pr] by metis
    qed
  qed
qed

lemma RandomAlphabetic_view:
  assumes "RandomAlphabetic rnd n w = Some (w', r)" "\<And>w n. view (fst (rnd w n)) = view w"
  shows "view w' = view w"
proof (cases "n = 0")
  case False
  then obtain x where "random_loop rnd [] 32 91 True False n (replicate n 0) w = Some (w', x)"
    using assms(1) by (auto simp: RandomAlphabetic_def RandomAlphaOrNumeric_def RandomSpec1_def RandomSpec0_def)
  from random_loop_view[OF this, of view] assms(2) show ?thesis by simp
qed (use assms(1) in \<open>simp add: RandomAlphabetic_def RandomAlphaOrNumeric_def RandomSpec1_def RandomSpec0_def\<close>)

lemma random_letters_view:
  assumes "random_letters e n s = Some (s', r)" "calm e view"
  shows "view (aworld s') = view (aworld s) \<and> msgBox s' = msgBox s \<and> length r = n"
proof -
  obtain w where w: "RandomAlphabetic (rand_Intn e) n (aworld s) = Some (w, Done r)" "s' = s\<lparr>aworld := w\<rparr>"
    using assms(1) by (auto simp: random_letters_def split: option.splits outcome.splits)
  then show ?thesis using RandomAlphabetic_view[OF w(1), of view] assms(2)
      RandomAlphaOrNumeric_chars[of "rand_Intn e" n True False "aworld s" w r]
    by (auto simp: calm_def RandomAlphabetic_def)
qed

subsection \<open>The handlers over a storage\<close>

context message_storage
begin

text \<open>Everything of the world that the contract speaks of.\<close>

definition views :: "'w \<Rightarrow> (string \<Rightarrow> string \<Rightarrow> string option) \<times> (string \<Rightarrow> int option)" where
  "views w = (hview w, cview w)"

lemma views_fun: "views = (\<lambda>w. (hview w, cview w))"
  by (rule ext) (simp add: views_def)

lemma counter_count: "counter w k = count_of cview w k"
  by (simp add: counter_def count_of_def)

text \<open>No message was queued, and the counter of messages is where it was.\<close>

definition keeps :: "'w api \<Rightarrow> 'w api \<Rightarrow> bool" where
  "keeps s s' \<longleftrightarrow> msgBox s' = msgBox s \<and> counter (aworld s') MsgID = counter (aworld s) MsgID"

lemma keeps_refl [simp]: "keeps s s"
  by (simp add: keeps_def)

lemma keeps_trans: "keeps s t \<Longrightarrow> keeps t u \<Longrightarrow> keeps s u"
  by (simp add: keeps_def)

lemma keeps_view: "cview (aworld s') = cview (aworld s) \<Longrightarrow> msgBox s' = msgBox s \<Longrightarrow> keeps s s'"
  by (simp add: keeps_def counter_def)

lemma acall_eq: "acall f s = (s', r) \<longleftrightarrow> (\<exists>w'. f (aworld s) = (w', r) \<and> s' = s\<lparr>aworld := w'\<rparr>)"
  by (auto simp: acall_def split: prod.splits)

lemma keeps_calls:
  "acall (\<lambda>w. HashGet st w db k) s = (s', v) \<Longrightarrow> keeps s s'"
  "acall (\<lambda>w. HashSet st w db k x) s = (s', n) \<Longrightarrow> keeps s s'"
  "acall (\<lambda>w. HashDel st w db k) s = (s', n) \<Longrightarrow> keeps s s'"
  "acall (\<lambda>w. HashExists st w db k) s = (s', n) \<Longrightarrow> keeps s s'"
  "acall (\<lambda>w. IncrBy st w PappID j) s = (s', n) \<Longrightarrow> keeps s s'"
  "acall (\<lambda>w. AppStatsPushApi st w a) s = (s', err) \<Longrightarrow> keeps s s'"
  by (auto simp: acall_eq keeps_def counter_cong[OF get_counters] counter_cong[OF set_counters]
      counter_cong[OF del_counters] PappID_def MsgID_def incr_other
      dest!: hash_exists stats_frame intro: counter_cong incr_other)

lemma keeps_quiet: "calm e views \<Longrightarrow> acall (uuid_New e) s = (s', u) \<Longrightarrow> keeps s s'"
  by (auto simp: calm_def acall_eq views_def keeps_def counter_def) (metis fst_conv prod.inject)

lemma keeps_letters: "calm e views \<Longrightarrow> random_letters e n s = Some (s', r) \<Longrightarrow> keeps s s'"
  by (drule random_letters_view) (auto simp: views_def keeps_def counter_def)

text \<open>The definitions are unfolded with the storage replaced, so that the contract's rules apply.\<close>

lemma store_app_keeps:
  assumes e: "astore e = st" and r: "store_app e appId raw s = Some (s', r)"
  shows "keeps s s'"
  using r unfolding store_app_def e
  by (auto split: prod.splits sum.splits dest!: keeps_calls elim: keeps_trans)

lemma new_app_keeps:
  assumes e: "astore e = st" "calm e views" and n: "new_app e idp keyp secp mk pkg s = Some (s', r)"
  shows "keeps s s'"
proof -
  obtain s1 pre where p: "getPappID e s = (s1, pre)" by fastforce
  have k1: "keeps s s1" using p unfolding getPappID_def e(1) by (auto simp: Let_def split: prod.splits intro: keeps_calls)
  obtain s2 ex where x: "acall (\<lambda>w. HashExists st w ''db_packages'' pkg) s1 = (s2, ex)" by fastforce
  have k2: "keeps s s2" using k1 keeps_calls(4)[OF x] keeps_trans by blast
  obtain s3 u where u: "acall (uuid_New e) s2 = (s3, u)" by fastforce
  have k3: "keeps s s3" using k2 keeps_quiet[OF e(2) u] keeps_trans by blast
  show ?thesis using n p x u k1 k2 k3 unfolding new_app_def e(1)
    by (auto simp: Let_def keeps_def split: if_splits sum.splits option.splits
        dest!: keeps_letters[OF e(2)] store_app_keeps[OF e(1)])
qed

lemma auth_keeps: "calm e views \<Longrightarrow> aauth e = Some f \<Longrightarrow> f (aworld s) t = Some (w, r) \<Longrightarrow> keeps s (s\<lparr>aworld := w\<rparr>)"
proof -
  assume "calm e views" "aauth e = Some f" "f (aworld s) t = Some (w, r)"
  then have "views w = views (aworld s)" unfolding calm_def by blast
  then show ?thesis by (simp add: keeps_def counter_def views_def)
qed

lemma addApp_keeps: "astore e = st \<Longrightarrow> calm e views \<Longrightarrow> addApp e rq s = Some (s', r) \<Longrightarrow> keeps s s'"
  by (auto simp: addApp_def Let_def split: prod.splits bool.splits option.splits if_splits
      intro: keeps_trans[OF auth_keeps new_app_keeps] auth_keeps)

lemma addApp2_keeps: "astore e = st \<Longrightarrow> calm e views \<Longrightarrow> addApp2 e rq s = Some (s', r) \<Longrightarrow> keeps s s'"
  by (auto simp: addApp2_def split: prod.splits bool.splits option.splits intro: new_app_keeps)

lemma delApp_keeps:
  assumes e: "astore e = st" and r: "delApp e rq s = Some (s', r)"
  shows "keeps s s'"
  using r unfolding delApp_def e Let_def
  by (auto simp: keeps_def split: prod.splits sum.splits option.splits if_splits dest!: keeps_calls)

lemma getApp_keeps:
  assumes e: "astore e = st" and r: "getApp e rq s = Some (s', r)"
  shows "keeps s s'"
  using r unfolding getApp_def e Let_def
  by (auto split: prod.splits sum.splits option.splits if_splits dest!: keeps_calls)

lemma getMessage_keeps:
  assumes e: "astore e = st" and r: "getMessage e rq s = Some (s', r)"
  shows "keeps s s'"
  using r unfolding getMessage_def e Let_def
  by (auto simp: keeps_def counter_def split: prod.splits sum.splits option.splits if_splits
      dest!: keeps_calls msg_stats)

lemma valid_set_ttl: "valid_message m \<Longrightarrow>
  valid_message ((set_ttl (m\<lparr>rm_MsgId := i\<rparr>))\<lparr>rm_CTime := t\<rparr>) \<and>
  0 \<le> op_TTL (rm_Options (set_ttl (m\<lparr>rm_MsgId := i\<rparr>))) \<and> op_TTL (rm_Options (set_ttl (m\<lparr>rm_MsgId := i\<rparr>))) \<le> 3 * 86400"
  by (simp add: valid_message_def addressed_def set_ttl_def Let_def)

lemma getMsgID_cases:
  assumes e: "astore e = st" and g: "getMsgID e s = (s1, i)"
  shows "msgBox s1 = msgBox s \<and> counter (aworld s) MsgID \<le> counter (aworld s1) MsgID \<and>
    (i \<noteq> 0 \<longrightarrow> i = counter (aworld s) MsgID + 1 \<and> counter (aworld s1) MsgID = i)"
proof -
  obtain w r where c: "IncrBy st (aworld s) MsgID 1 = (w, r)" "s1 = s\<lparr>aworld := w\<rparr>" "i = value_or 0 r"
    using g unfolding getMsgID_def e by (auto simp: Let_def acall_eq split: prod.splits)
  then show ?thesis using incr_counter[of "aworld s" MsgID w] incr_mono[OF c(1)] by (cases r) auto
qed

lemma accept_message_cases:
  assumes e: "astore e = st" and a: "accept_message e appid body s = (s', r)"
  shows "(msgBox s' = msgBox s \<and> 400 \<le> rs_Code r \<and> counter (aworld s) MsgID \<le> counter (aworld s') MsgID) \<or>
    (\<exists>m0 m. Unmarshal dec_RawMessage body zero_RawMessage = (m0, True) \<and> numbered cview (aworld s) (aworld s') m \<and>
      msgBox s' = msgBox s @ [m] \<and> r = ok_response (Some (JObj [(''msgid'', jint (rm_MsgId m))])) \<and>
      (\<exists>t. m = (set_ttl (m0\<lparr>rm_AppId := appid, rm_MsgId := rm_MsgId m\<rparr>))\<lparr>rm_CTime := t\<rparr>))"
proof -
  obtain m0 ok where u: "Unmarshal dec_RawMessage body zero_RawMessage = (m0, ok)" by fastforce
  obtain c desc where k: "checkMessage (m0\<lparr>rm_AppId := appid\<rparr>) = (c, desc)" by fastforce
  obtain s1 i where g: "getMsgID e s = (s1, i)" by fastforce
  note gc = getMsgID_cases[OF e g]
  show ?thesis
  proof (cases "ok \<and> c \<and> i \<noteq> 0")
    case False
    then have "(s' = s \<or> s' = s1) \<and> 400 \<le> rs_Code r" using a u k g
      by (cases ok; cases c; cases "i = 0"; auto simp: accept_message_def Let_def)
    then show ?thesis using gc by auto
  next
    case True
    define m where "m = (set_ttl (m0\<lparr>rm_AppId := appid, rm_MsgId := i\<rparr>))\<lparr>rm_CTime := unix_time (anow e (aworld s1))\<rparr>"
    obtain w x where st: "AppStatsPushApi st (aworld s1) appid = (w, x)" by fastforce
    have s': "s' = s1\<lparr>msgBox := msgBox s1 @ [m], aworld := w\<rparr>" "r = ok_response (Some (JObj [(''msgid'', jint i)]))"
      using a u k g True st e by (simp_all add: accept_message_def acall_def m_def Let_def)
    have "rm_MsgId m = i" by (simp add: m_def set_ttl_def)
    moreover have "valid_message m \<and> 0 \<le> op_TTL (rm_Options m) \<and> op_TTL (rm_Options m) \<le> 3 * 86400"
      using valid_set_ttl[of "m0\<lparr>rm_AppId := appid\<rparr>" "unix_time (anow e (aworld s1))" i]
        checkMessage_iff[of "m0\<lparr>rm_AppId := appid\<rparr>"] k True by (simp add: m_def)
    moreover have "counter w MsgID = counter (aworld s1) MsgID" using stats_frame[OF st] by (simp add: counter_def)
    ultimately have "numbered cview (aworld s) (aworld s') m" using gc True s' by (simp add: numbered_def counter_count)
    then show ?thesis using s' gc True u \<open>rm_MsgId m = i\<close> m_def by auto
  qed
qed

lemma addMessage_cases:
  assumes e: "astore e = st" and a: "addMessage e rq s = Some (s', r)"
  shows "(msgBox s' = msgBox s \<and> 400 \<le> rs_Code r \<and> counter (aworld s) MsgID \<le> counter (aworld s') MsgID) \<or>
    (\<exists>x appid sign xs b m0 m. Fields (rq_header rq ''Authorization'') = x # appid # sign # xs \<and>
      hview (aworld s) ''db_apps'' appid = Some b \<and> sign_ok e (fst (Unmarshal dec_RawApp b zero_RawApp)) rq sign \<and>
      Unmarshal dec_RawMessage (rq_Body rq) zero_RawMessage = (m0, True) \<and> numbered cview (aworld s) (aworld s') m \<and>
      msgBox s' = msgBox s @ [m] \<and> r = ok_response (Some (JObj [(''msgid'', jint (rm_MsgId m))])) \<and>
      (\<exists>t. m = (set_ttl (m0\<lparr>rm_AppId := appid, rm_MsgId := rm_MsgId m\<rparr>))\<lparr>rm_CTime := t\<rparr>))"
proof -
  let ?auth = "Fields (rq_header rq ''Authorization'')"
  show ?thesis
  proof (cases "length ?auth < 3")
    case True
    then show ?thesis using a by (auto simp: addMessage_def)
  next
    case False
    then obtain x appid sign xs where f: "?auth = x # appid # sign # xs"
      by (cases ?auth; cases "tl ?auth"; cases "tl (tl ?auth)") auto
    obtain s1 g where h: "acall (\<lambda>w. HashGet st w ''db_apps'' appid) s = (s1, g)" by fastforce
    obtain w1 where w1: "HashGet st (aworld s) ''db_apps'' appid = (w1, g)" "s1 = s\<lparr>aworld := w1\<rparr>"
      using h by (auto simp: acall_eq)
    have k: "keeps s s1" by (rule keeps_calls(1)[OF h])
    note hv = hash_get[OF w1(1)]
    show ?thesis
    proof (cases "\<exists>b. g = Inr (Some b) \<and> rq_Body_ok rq \<and> sign_ok e (fst (Unmarshal dec_RawApp b zero_RawApp)) rq sign")
      case False
      then have "s' = s1 \<and> 400 \<le> rs_Code r" using a f h unfolding addMessage_def e
        by (auto simp: Let_def split: sum.splits option.splits if_splits)
      then show ?thesis using k by (simp add: keeps_def)
    next
      case True
      then obtain b where b: "g = Inr (Some b)" "sign_ok e (fst (Unmarshal dec_RawApp b zero_RawApp)) rq sign" "rq_Body_ok rq" by blast
      then have acc: "accept_message e appid (rq_Body rq) s1 = (s', r)" using a f h unfolding addMessage_def e
        by (simp add: Let_def)
      have "hview (aworld s) ''db_apps'' appid = Some b" using hv b(1) by simp
      moreover have "numbered cview (aworld s1) (aworld s') m = numbered cview (aworld s) (aworld s') m" for m
        using k by (simp add: numbered_def keeps_def counter_count)
      ultimately show ?thesis using accept_message_cases[OF e acc] b f k by (auto simp: keeps_def)
    qed
  qed
qed

text \<open>A new application, when the answer is a success: the package was free, and the two hashes now hold the
  application and its package.\<close>

lemma store_app_stored:
  assumes e: "astore e = st" and r: "store_app e appId raw s = Some (s', r)" and c: "rs_Code r = 200"
  shows "hview (aworld s') = hput (hput (hview (aworld s)) ''db_apps'' appId (Some (json_text (enc_RawApp raw))))
    ''db_packages'' (ra_Pkg raw) (Some appId)"
  using r c unfolding store_app_def e
  by (auto simp: acall_eq split: prod.splits sum.splits dest!: hash_set_ok)

lemma new_app_stored:
  assumes e: "astore e = st" "calm e views" and pk: "\<And>k x. ra_Pkg (mk k x) = pkg"
    and n: "new_app e idp keyp secp mk pkg s = Some (s', r)" and c: "rs_Code r = 200"
  shows "\<exists>appId raw. ra_Pkg raw = pkg \<and> hview (aworld s) ''db_packages'' pkg = None \<and>
    hview (aworld s') = hput (hput (hview (aworld s)) ''db_apps'' appId (Some (json_text (enc_RawApp raw))))
      ''db_packages'' pkg (Some appId)"
proof -
  obtain s1 pre where p: "getPappID e s = (s1, pre)" by fastforce
  have k1: "hview (aworld s1) = hview (aworld s)" using p unfolding getPappID_def e(1)
    by (auto simp: Let_def acall_eq split: prod.splits dest: incr_hashes)
  obtain s2 ex where x: "acall (\<lambda>w. HashExists st w ''db_packages'' pkg) s1 = (s2, ex)" by fastforce
  have k2: "hview (aworld s2) = hview (aworld s)" "\<And>j. ex = Inr j \<Longrightarrow> 0 < j \<longleftrightarrow> hview (aworld s) ''db_packages'' pkg \<noteq> None"
    using x k1 by (auto simp: acall_eq dest!: hash_exists)
  obtain s3 u where u: "acall (uuid_New e) s2 = (s3, u)" by fastforce
  have k3: "hview (aworld s3) = hview (aworld s)" using u k2(1) e(2)
    by (auto simp: calm_def acall_def views_def split: prod.splits) (metis fst_conv prod.inject)
  define tapp where "tapp = filter (\<lambda>c. c \<noteq> CHR ''-'') u"
  define appId where "appId = idp @ take (length tapp - length (FormatInt pre)) tapp @ FormatInt pre"
  obtain j s4 k s5 y where ok: "ex = Inr j" "\<not> 0 < j" "random_letters e 20 s3 = Some (s4, k)"
      "random_letters e 20 s4 = Some (s5, y)" "store_app e appId (mk (keyp @ k) (secp @ y)) s5 = Some (s', r)"
    using n p x u c unfolding new_app_def e(1)
    by (auto simp: Let_def tapp_def appId_def split: if_splits sum.splits option.splits)
  have k5: "hview (aworld s5) = hview (aworld s)"
    using random_letters_view[OF ok(3) e(2)] random_letters_view[OF ok(4) e(2)] k3 by (simp add: views_def)
  show ?thesis using store_app_stored[OF e(1) ok(5) c] k5 k2(2)[OF ok(1)] ok(2) pk by auto
qed

lemma addApp_stored:
  assumes e: "astore e = st" "calm e views" and r: "addApp e rq s = Some (s', r)" and c: "rs_Code r = 200"
  shows "\<exists>data pkg appId raw. Decode dec_string_map (rq_Body rq) Map.empty = (data, True) \<and> data ''pkg'' = Some pkg \<and>
    ra_Pkg raw = pkg \<and> hview (aworld s) ''db_packages'' pkg = None \<and>
    hview (aworld s') = hput (hput (hview (aworld s)) ''db_apps'' appId (Some (json_text (enc_RawApp raw))))
      ''db_packages'' pkg (Some appId)"
proof -
  obtain data pkg token f w uid where d: "Decode dec_string_map (rq_Body rq) Map.empty = (data, True)" "data ''pkg'' = Some pkg"
      "aauth e = Some f" "f (aworld s) token = Some (w, True, uid)"
    and n: "new_app e ''appid_'' ''appkey_'' ''appsec_''
      (\<lambda>k x. zero_RawApp\<lparr>ra_Pkg := pkg, ra_UserId := uid, ra_AppKey := k, ra_AppSec := x\<rparr>) pkg (s\<lparr>aworld := w\<rparr>) = Some (s', r)"
    using r c by (auto simp: addApp_def Let_def split: prod.splits bool.splits option.splits if_splits)
  have "views w = views (aworld s)" using e(2) d(3,4) unfolding calm_def by blast
  then have v: "hview w = hview (aworld s)" by (simp add: views_def)
  show ?thesis using new_app_stored[OF e _ n c] d v by (simp add: zero_RawApp_def)
qed

text \<open>The stored package is what \<open>getApp\<close> answers with, and no second application gets it.\<close>

lemma getApp_answers:
  assumes e: "astore e = st" and r: "getApp e rq s = Some (s', r)" and c: "rs_Code r = 200"
  shows "\<exists>appId. hview (aworld s) ''db_packages'' (FormValue rq ''pkg'') = Some appId \<and>
    r = ok_response (Some (JObj [(''appid'', JStr appId)]))"
  using r c unfolding getApp_def e Let_def
  by (auto simp: acall_eq split: if_splits prod.splits sum.splits option.splits dest!: hash_get) metis

lemma delApp_removes:
  assumes e: "astore e = st" and r: "delApp e rq s = Some (s', r)" and c: "rs_Code r = 200"
  shows "\<exists>x appid sign xs b. Fields (rq_header rq ''Authorization'') = x # appid # sign # xs \<and>
    hview (aworld s) ''db_apps'' appid = Some b \<and> sign_ok e (fst (Unmarshal dec_RawApp b zero_RawApp)) rq sign \<and>
    hview (aworld s') = hput (hput (hview (aworld s)) ''db_apps'' appid None) ''db_packages''
      (ra_Pkg (fst (Unmarshal dec_RawApp b zero_RawApp))) None"
proof -
  let ?auth = "Fields (rq_header rq ''Authorization'')"
  have l: "\<not> length ?auth < 3" using r c by (auto simp: delApp_def split: if_splits)
  then obtain x appid sign xs where f: "?auth = x # appid # sign # xs"
    by (cases ?auth; cases "tl ?auth"; cases "tl (tl ?auth)") auto
  obtain w1 g where g: "HashGet st (aworld s) ''db_apps'' appid = (w1, g)" by fastforce
  obtain b where b: "g = Inr (Some b)" "sign_ok e (fst (Unmarshal dec_RawApp b zero_RawApp)) rq sign"
    using r c g f unfolding delApp_def e
    by (auto simp: Let_def acall_def split: sum.splits option.splits if_splits)
  obtain w2 i where d1: "HashDel st w1 ''db_apps'' appid = (w2, Inr i)"
    using r c g f b unfolding delApp_def e
    by (auto simp: Let_def acall_def split: sum.splits prod.splits)
  obtain w3 j where d2: "HashDel st w2 ''db_packages'' (ra_Pkg (fst (Unmarshal dec_RawApp b zero_RawApp))) = (w3, Inr j)" "s' = s\<lparr>aworld := w3\<rparr>"
    using r c g f b d1 unfolding delApp_def e
    by (auto simp: Let_def acall_def split: sum.splits prod.splits)
  have h1: "hview (aworld s) ''db_apps'' appid = Some b" using hash_get[OF g] b(1) by simp
  have h2: "hview (aworld s') = hput (hput (hview (aworld s)) ''db_apps'' appid None) ''db_packages''
      (ra_Pkg (fst (Unmarshal dec_RawApp b zero_RawApp))) None"
    using hash_get[OF g] hash_del_ok[OF d1] hash_del_ok[OF d2(1)] d2(2) by simp
  show ?thesis unfolding h2 using f b(2) h1 by blast
qed

text \<open>A dispatched message is in storage under its number, as it was but for lists that are empty; and under
  its offline field when it has time to live.\<close>

lemma dispatch_stored:
  assumes e: "astore e = st" "calm e views" and m: "raw_ranges m" and d: "dispatch e m w = (w', Some p)"
  shows "p = published_text m \<and> stored_message (hview w' (''db_msg_'' @ rm_AppId m) (FormatInt (rm_MsgId m))) = Some (raw_norm m) \<and>
    (0 < op_TTL (rm_Options m) \<longrightarrow> stored_message (hview w' (''db_offline_msg_'' @ rm_AppId m)
       (format_field3 (rm_MsgId m) (rm_CTime m) (wrap64 (op_TTL (rm_Options m) + rm_CTime m)))) = Some (raw_norm m))"
proof -
  let ?v = "json_text (enc_RawMessage m)" and ?db = "''db_msg_'' @ rm_AppId m" and ?odb = "''db_offline_msg_'' @ rm_AppId m"
  let ?f = "format_field3 (rm_MsgId m) (rm_CTime m) (wrap64 (op_TTL (rm_Options m) + rm_CTime m))"
  obtain w1 n where h1: "HashSet st w ?db (FormatInt (rm_MsgId m)) ?v = (w1, Inr n)"
    using d unfolding dispatch_def e(1) by (auto simp: Let_def split: prod.splits sum.splits)
  obtain w2 r2 where o: "(if 0 < op_TTL (rm_Options m) then HashSet st w1 ?odb ?f ?v else (w1, Inr 0)) = (w2, r2)" by fastforce
  obtain w3 err where pu: "publish e w2 (published_text m) = (w3, err)" by fastforce
  have "dispatch e m w = (if ok_result r2 then (w3, if err = None then Some (published_text m) else None) else (w2, None))"
    using h1 o pu unfolding dispatch_def e(1)
    by (cases "0 < op_TTL (rm_Options m)"; cases r2) (simp_all add: Let_def)
  then have h2: "publish e w2 (published_text m) = (w', None)" "p = published_text m" "ok_result r2"
    using d pu by (auto split: if_splits)
  have h3: "w2 = w1 \<and> \<not> 0 < op_TTL (rm_Options m) \<or> 0 < op_TTL (rm_Options m) \<and> (\<exists>n2. HashSet st w1 ?odb ?f ?v = (w2, Inr n2))"
    using o h2(3) by (auto simp: ok_result_iff split: if_splits)
  have "views w' = views w2" using h2(1) e(2) unfolding calm_def by (metis fst_conv)
  then have v: "hview w' = hview w2" by (simp add: views_def)
  have g1: "hview w1 ?db (FormatInt (rm_MsgId m)) = Some ?v" using hash_set_ok[OF h1] by simp
  show ?thesis
  proof (cases "0 < op_TTL (rm_Options m)")
    case True
    then obtain n2 where "HashSet st w1 ?odb ?f ?v = (w2, Inr n2)" using h3 by blast
    from hash_set_ok[OF this] show ?thesis using v h2(2) stored_message_text[OF m] g1 by simp
  next
    case False
    then show ?thesis using h3 v h2(2) stored_message_text[OF m] g1 by simp
  qed
qed

text \<open>The numbers of the accepted messages grow strictly, whatever happens in between.\<close>

lemma messageHandler_cases:
  assumes e: "astore e = st" and r: "messageHandler e rq s = Some (s', r)"
  shows "(msgBox s' = msgBox s \<and> counter (aworld s) MsgID \<le> counter (aworld s') MsgID) \<or>
    (\<exists>m. msgBox s' = msgBox s @ [m] \<and> rm_MsgId m = counter (aworld s) MsgID + 1 \<and> counter (aworld s') MsgID = rm_MsgId m)"
proof (cases "rq_Method rq = ''POST''")
  case True
  then have "addMessage e rq s = Some (s', r)" using r by (simp add: messageHandler_def)
  from addMessage_cases[OF e this] show ?thesis by (auto simp: numbered_def counter_count)
next
  case False
  then have "getMessage e rq s = Some (s', r) \<or> s' = s" using r by (auto simp: messageHandler_def split: if_splits)
  then show ?thesis using getMessage_keeps[OF e] by (auto simp: keeps_def)
qed

lemma request_cases:
  assumes e: "astore e = st" "calm e views" and h: "h \<in> {appHandler, app2Handler, messageHandler, serverHandler, testHandler}"
    and r: "h e rq s = Some (s', r)"
  shows "(msgBox s' = msgBox s \<and> counter (aworld s) MsgID \<le> counter (aworld s') MsgID) \<or>
    (\<exists>m. msgBox s' = msgBox s @ [m] \<and> rm_MsgId m = counter (aworld s) MsgID + 1 \<and> counter (aworld s') MsgID = rm_MsgId m)"
proof (cases "h = messageHandler")
  case True
  then show ?thesis using messageHandler_cases[OF e(1)] r by blast
next
  case False
  then have "keeps s s'" using h r addApp_keeps[OF e] addApp2_keeps[OF e] delApp_keeps[OF e(1)] getApp_keeps[OF e(1)]
    by (auto simp: appHandler_def app2Handler_def serverHandler_def testHandler_def Let_def split: if_splits)
  then show ?thesis by (simp add: keeps_def)
qed

lemma dispatch_counter:
  assumes e: "astore e = st" "calm e views" and d: "dispatch e m w = (w', p)"
  shows "counter w' MsgID = counter w MsgID"
proof -
  have pu: "cview w2 = cview w1" if "publish e w1 b = (w2, err)" for w1 w2 b err
    using that e(2) unfolding calm_def views_def by (metis fst_conv prod.inject)
  show ?thesis using d unfolding dispatch_def e(1) counter_def Let_def
    by (auto split: prod.splits sum.splits if_splits dest!: set_counters pu)
qed

lemma api_run_ids:
  assumes run: "api_run e (\<lambda>w. count_of cview w MsgID) s0 ids s" and e: "astore e = st" "calm e views"
  shows "sorted_wrt (<) ids \<and> (\<forall>i \<in> set ids. counter (aworld s0) MsgID < i \<and> i \<le> counter (aworld s) MsgID) \<and>
    counter (aworld s0) MsgID \<le> counter (aworld s) MsgID"
  using run
proof induction
  case (request ids s h rq s' r ms)
  from request_cases[OF e request.hyps(2,3)] request.hyps(4) show ?case
  proof (elim disjE exE conjE)
    fix m
    assume "msgBox s' = msgBox s @ [m]" "rm_MsgId m = counter (aworld s) MsgID + 1" "counter (aworld s') MsgID = rm_MsgId m"
    then show ?thesis using request.IH request.hyps(4) by (fastforce simp: sorted_wrt_append)
  qed (use request.IH in fastforce)
next
  case (dispatched ids s s' p)
  have "counter (aworld s') MsgID = counter (aworld s) MsgID"
    using dispatched.hyps(2) dispatch_counter[OF e] by (auto simp: dispatch_turn_def split: list.splits prod.splits)
  then show ?case using dispatched.IH by simp
next
  case (others ids s w)
  then show ?case by (fastforce simp: counter_count)
qed simp

end

end
