(* ===== verification/Api_Properties.thy ===== *)
theory Api_Properties
  imports Push_Api_Spec Storage_Spec
begin

text \<open>
  The properties of the push API, each with an example over the in-memory Redis (\<open>ex_api\<close>: one
  registered application and nothing queued).
\<close>

definition ex_api_env :: "mem api_env" where
  "ex_api_env = \<lparr>astore = mem_store, aauth = Some (\<lambda>w t. Some (w, True, t)), anow = clk,
     uuid_New = (\<lambda>w. (w, ''0123-4567-89ab'')), rand_Intn = (\<lambda>w n. (w, 33)), hmac = (\<lambda>k d. k), md5sum = (\<lambda>b. b),
     publish = (\<lambda>w b. (w, None)), node_iter = (\<lambda>m. [])\<rparr>"

definition ex_rawapp :: RawApp where
  "ex_rawapp = zero_RawApp\<lparr>ra_Pkg := ''com.x'', ra_AppKey := ''k'', ra_AppSec := ''s''\<rparr>"

definition ex_api :: "mem api" where
  "ex_api = \<lparr>aworld = mem_put ''db_apps'' ''id1'' (json_text (enc_RawApp ex_rawapp)) mem_empty, msgBox = [],
     cometNodeInfoMap = Map.empty\<rparr>"

definition ex_msg :: RawMessage where
  "ex_msg = zero_RawMessage\<lparr>rm_MsgType := 1, rm_PushType := 1, rm_Notification := zero_Notification\<lparr>nt_Title := ''hi''\<rparr>\<rparr>"

definition ex_post :: request where
  "ex_post = \<lparr>rq_Method = ''POST'', rq_Path = ''/api/v1/message'',
     rq_header = (\<lambda>k. if k = ''Authorization'' then ''LETV id1 pushtest'' else []), rq_Form = [],
     rq_Body = json_text (enc_RawMessage ex_msg), rq_Body_ok = True\<rparr>"

lemma ex_calm: "calm ex_api_env view"
  by (auto simp: calm_def ex_api_env_def)

lemma ex_env_simps [simp]:
  "astore ex_api_env = mem_store" "anow ex_api_env = clk" "publish ex_api_env = (\<lambda>w b. (w, None))"
  "uuid_New ex_api_env = (\<lambda>w. (w, ''0123-4567-89ab''))" "rand_Intn ex_api_env = (\<lambda>w n. (w, 33))"
  "aauth ex_api_env = Some (\<lambda>w t. Some (w, True, t))"
  by (simp_all add: ex_api_env_def)

lemma mem_push_stats: "script w = [] \<Longrightarrow> fst (AppStatsPushApi mem_store w a) = w"
  by (simp add: mem_run RedisStorage_AppStatsPushApi_def inc_app_def only_err_def app_key_def)

lemma ex_msg_ranges: "raw_ranges ex_msg"
  by (simp add: raw_ranges_def ex_msg_def zero_RawMessage_def zero_Notification_def int64_range_def)

lemma ex_post_body: "Unmarshal dec_RawMessage (rq_Body ex_post) zero_RawMessage = (raw_norm ex_msg, True)"
proof -
  have "rq_Body ex_post = json_text (enc_RawMessage ex_msg)" by (simp add: ex_post_def)
  then show ?thesis using dec_enc_message[OF ex_msg_ranges] by (simp add: Unmarshal_text)
qed

lemma ex_post_accepted:
  assumes "script (aworld s) = []" "mem_hview (aworld s) ''db_apps'' ''id1'' = Some b"
    and that: "count_of counters (aworld s) MsgID \<noteq> -1"
  shows "\<exists>s' r. addMessage ex_api_env ex_post s = Some (s', r) \<and> rs_Code r = 200 \<and>
    aworld s' = mem_inc MsgID 1 (aworld s)"
proof -
  have f: "Fields ''LETV id1 pushtest'' = [''LETV'', ''id1'', ''pushtest'']" by code_simp
  note u = ex_post_body
  have v: "valid_message ((raw_norm ex_msg)\<lparr>rm_AppId := ''id1''\<rparr>)"
    by (simp add: valid_message_def addressed_def raw_norm_def ex_msg_def zero_RawMessage_def zero_Notification_def Let_def
        norm_params_def zero_PushParams_def)
  then obtain d where d: "checkMessage ((raw_norm ex_msg)\<lparr>rm_AppId := ''id1''\<rparr>) = (True, d)"
    using checkMessage_iff[of "(raw_norm ex_msg)\<lparr>rm_AppId := ''id1''\<rparr>"] by (cases "checkMessage ((raw_norm ex_msg)\<lparr>rm_AppId := ''id1''\<rparr>)") auto
  define i where "i = count_of counters (aworld s) MsgID + 1"
  have g: "getMsgID ex_api_env s = (s\<lparr>aworld := mem_inc MsgID 1 (aworld s)\<rparr>, i)" "i \<noteq> 0"
    using assms that by (simp_all add: getMsgID_def acall_def mem_store_calls i_def count_of_def)
  have so: "sign_ok ex_api_env x ex_post ''pushtest''" for x by (simp add: sign_ok_def ADMIN_SIGN_def)
  have hd: "rq_header ex_post ''Authorization'' = ''LETV id1 pushtest''" "rq_Body_ok ex_post" by (simp_all add: ex_post_def)
  have acc: "\<exists>s' r. accept_message ex_api_env ''id1'' (rq_Body ex_post) s = (s', r) \<and> rs_Code r = 200 \<and> aworld s' = mem_inc MsgID 1 (aworld s)"
    using u d g assms(1) by (simp add: accept_message_def Let_def acall_def mem_push_stats split: prod.split)
      (metis fst_conv mem_push_stats mem_script(3))
  have h: "acall (\<lambda>w. HashGet mem_store w ''db_apps'' ''id1'') s = (s, Inr (Some b))"
    using assms by (simp add: acall_def mem_store_calls)
  show ?thesis using acc h f so hd by (simp add: addMessage_def Let_def del: mem_script)
qed

lemma mset_form_params: "mset (form_params forms) = sum_list (map (\<lambda>(k, vs). mset (map (\<lambda>v. k @ ''='' @ v) vs)) forms)"
  by (induction forms) (auto simp: form_params_def)

text \<open>The signature of a request does not depend on the order in which Go visits the form's keys.\<close>

theorem signature_order:
  assumes "mset f = mset g"
  shows "Sign h m5 key meth path body date f = Sign h m5 key meth path body date g"
proof -
  have "mset (form_params f) = mset (form_params g)"
    unfolding mset_form_params using assms by (metis (no_types, lifting) mset_map sum_mset_sum_list)
  then have "sort (form_params f) = sort (form_params g)" by (metis mset_sort properties_for_sort sorted_sort)
  then show ?thesis by (simp add: Sign_def)
qed

theorem signature_order_witness:
  "Sign (\<lambda>k d. d) (\<lambda>b. b) ''k'' ''GET'' ''/x'' [] ''d'' [(''b'', [''2'']), (''a'', [''1'', ''3''])] =
   Sign (\<lambda>k d. d) (\<lambda>b. b) ''k'' ''GET'' ''/x'' [] ''d'' [(''a'', [''1'', ''3'']), (''b'', [''2''])]"
  by (rule signature_order) simp

text \<open>C33: A request to push a message is refused without queueing anything, or accepted: then its sender named a
  registered application and signed with its secret (or with the administrator's fixed word), the message
  is valid, its number is one more than the last and not 0, its time to live is between 0 and three days,
  it is queued last, and the answer holds the number.\<close>

theorem message_accepted:
  assumes "message_storage st hv cv" "astore e = st" "addMessage e rq s = Some (s', r)"
  shows "(msgBox s' = msgBox s \<and> 400 \<le> rs_Code r) \<or>
    (\<exists>x appid sign xs b m0 m. Fields (rq_header rq ''Authorization'') = x # appid # sign # xs \<and>
      hv (aworld s) ''db_apps'' appid = Some b \<and> sign_ok e (fst (Unmarshal dec_RawApp b zero_RawApp)) rq sign \<and>
      Unmarshal dec_RawMessage (rq_Body rq) zero_RawMessage = (m0, True) \<and> numbered cv (aworld s) (aworld s') m \<and>
      msgBox s' = msgBox s @ [m] \<and> r = ok_response (Some (JObj [(''msgid'', jint (rm_MsgId m))])) \<and>
      (\<exists>t. m = (set_ttl (m0\<lparr>rm_AppId := appid, rm_MsgId := rm_MsgId m\<rparr>))\<lparr>rm_CTime := t\<rparr>))"
  using message_storage.addMessage_cases[OF assms] by blast

lemma ex_api_simps: "script (aworld ex_api) = []" "\<exists>b. mem_hview (aworld ex_api) ''db_apps'' ''id1'' = Some b"
  "msgBox ex_api = []" "count_of counters (aworld ex_api) MsgID = 0"
  by (simp_all add: ex_api_def count_of_def)

theorem message_accepted_witness:
  "\<exists>s' r m. addMessage ex_api_env ex_post ex_api = Some (s', r) \<and> msgBox s' = [m] \<and> rm_MsgId m = 1 \<and>
    rm_AppId m = ''id1'' \<and> op_TTL (rm_Options m) = 86400"
proof -
  obtain b where "mem_hview (aworld ex_api) ''db_apps'' ''id1'' = Some b" using ex_api_simps(2) by blast
  from ex_post_accepted[OF ex_api_simps(1) this] ex_api_simps(4) obtain s' r where a: "addMessage ex_api_env ex_post ex_api = Some (s', r)"
      "rs_Code r = 200" by auto
  have f: "Fields (rq_header ex_post ''Authorization'') = [''LETV'', ''id1'', ''pushtest'']"
    unfolding ex_post_def by code_simp
  note u = ex_post_body
  from message_accepted[OF mem_message_storage _ a(1)] a(2) obtain m t where m: "msgBox s' = [m]"
      "numbered counters (aworld ex_api) (aworld s') m"
      "m = (set_ttl ((raw_norm ex_msg)\<lparr>rm_AppId := ''id1'', rm_MsgId := rm_MsgId m\<rparr>))\<lparr>rm_CTime := t\<rparr>"
    unfolding f u by (auto simp: ex_api_simps)
  have "rm_AppId m = ''id1''" "op_TTL (rm_Options m) = 86400"
    by (subst m(3), simp add: set_ttl_def raw_norm_def ex_msg_def zero_RawMessage_def)+
  then show ?thesis using a m by (auto simp: numbered_def ex_api_simps)
qed


lemma ex_request_run:
  assumes "api_run ex_api_env (\<lambda>w. count_of counters w MsgID) ex_api ids s" "script (aworld s) = []"
    and "mem_hview (aworld s) ''db_apps'' ''id1'' = Some b" "count_of counters (aworld s) MsgID = n" "0 \<le> n"
  shows "\<exists>s'. api_run ex_api_env (\<lambda>w. count_of counters w MsgID) ex_api (ids @ [n + 1]) s' \<and> script (aworld s') = [] \<and>
    mem_hview (aworld s') ''db_apps'' ''id1'' = Some b \<and> count_of counters (aworld s') MsgID = n + 1"
proof -
  have "count_of counters (aworld s) MsgID \<noteq> -1" using assms(4,5) by simp
  from ex_post_accepted[OF assms(2,3) this] obtain s' r where a: "addMessage ex_api_env ex_post s = Some (s', r)"
      "rs_Code r = 200" "aworld s' = mem_inc MsgID 1 (aworld s)" by blast
  from message_accepted[OF mem_message_storage _ a(1)] a(2) obtain m where m: "msgBox s' = msgBox s @ [m]"
      "numbered counters (aworld s) (aworld s') m" by auto
  have h: "messageHandler ex_api_env ex_post s = Some (s', r)" using a(1) by (simp add: messageHandler_def ex_post_def)
  have "rm_MsgId m = n + 1" "count_of counters (aworld s') MsgID = n + 1" using m(2) assms(4) by (simp_all add: numbered_def)
  moreover have "api_run ex_api_env (\<lambda>w. count_of counters w MsgID) ex_api (ids @ map rm_MsgId [m]) s'"
    by (rule api_run.request[where h = messageHandler and ms = "[m]" and e = ex_api_env, OF assms(1) _ h m(1)]) simp
  ultimately show ?thesis using a(3) assms(2,3) by auto
qed


text \<open>A package gets one application: when one is added for it the package was free, the two hashes then name
  the application and the package, \<open>getApp\<close> answers with that application, and adding another one for the
  package does not succeed.\<close>

theorem package_registered_once:
  assumes "message_storage st hv cv" "astore e = st" "calm e (\<lambda>w. (hv w, cv w))"
    and "addApp e rq s = Some (s1, r1)" "rs_Code r1 = 200"
  shows "\<exists>data pkg appId raw. Decode dec_string_map (rq_Body rq) Map.empty = (data, True) \<and> data ''pkg'' = Some pkg \<and>
    hv (aworld s) ''db_packages'' pkg = None \<and> ra_Pkg raw = pkg \<and>
    hv (aworld s1) = hput (hput (hv (aworld s)) ''db_apps'' appId (Some (json_text (enc_RawApp raw)))) ''db_packages'' pkg (Some appId) \<and>
    (\<forall>rq2 s2 r2. FormValue rq2 ''pkg'' = pkg \<longrightarrow> getApp e rq2 s1 = Some (s2, r2) \<longrightarrow> rs_Code r2 = 200 \<longrightarrow>
       r2 = ok_response (Some (JObj [(''appid'', JStr appId)]))) \<and>
    (\<forall>rq2 data2 s2 r2. Decode dec_string_map (rq_Body rq2) Map.empty = (data2, True) \<longrightarrow> data2 ''pkg'' = Some pkg \<longrightarrow>
       addApp e rq2 s1 = Some (s2, r2) \<longrightarrow> rs_Code r2 \<noteq> 200)"
proof -
  note v = assms(3)[folded message_storage.views_fun[OF assms(1)]]
  from message_storage.addApp_stored[OF assms(1,2) v assms(4,5)] obtain data pkg appId raw where
    a: "Decode dec_string_map (rq_Body rq) Map.empty = (data, True)" "data ''pkg'' = Some pkg" "ra_Pkg raw = pkg"
      "hv (aworld s) ''db_packages'' pkg = None"
      "hv (aworld s1) = hput (hput (hv (aworld s)) ''db_apps'' appId (Some (json_text (enc_RawApp raw)))) ''db_packages'' pkg (Some appId)"
    by blast
  have p: "hv (aworld s1) ''db_packages'' pkg = Some appId" unfolding a(5) by simp
  have "r2 = ok_response (Some (JObj [(''appid'', JStr appId)]))"
    if "FormValue rq2 ''pkg'' = pkg" "getApp e rq2 s1 = Some (s2, r2)" "rs_Code r2 = 200" for rq2 s2 r2
    using message_storage.getApp_answers[OF assms(1,2) that(2,3)] that(1) p by auto
  moreover have "rs_Code r2 \<noteq> 200"
    if "Decode dec_string_map (rq_Body rq2) Map.empty = (data2, True)" "data2 ''pkg'' = Some pkg" "addApp e rq2 s1 = Some (s2, r2)"
    for rq2 data2 s2 r2
    using message_storage.addApp_stored[OF assms(1,2) v that(3)] that(1,2) p by auto
  ultimately show ?thesis using a by blast
qed

definition ex_add_app :: request where
  "ex_add_app = ex_post\<lparr>rq_Body := json_text (JObj [(''pkg'', JStr ''com.y''), (''token'', JStr ''t'')])\<rparr>"

lemma ex_decode: "Decode dec_string_map (rq_Body ex_add_app) Map.empty = ([''pkg'' \<mapsto> ''com.y'', ''token'' \<mapsto> ''t''], True)"
proof -
  have "rq_Body ex_add_app = json_text (JObj [(''pkg'', JStr ''com.y''), (''token'', JStr ''t'')])" unfolding ex_add_app_def by simp
  moreover have "wf_json (JObj [(''pkg'', JStr ''com.y''), (''token'', JStr ''t'')])" by simp
  ultimately show ?thesis by (simp only: Decode_text) (simp add: dec_string_map_def)
qed

lemma ex_letters: "\<exists>k. random_letters ex_api_env 20 s = Some (s, k)"
proof -
  have d: "draws_enough (\<lambda>w n. (w, 33)) True False n n w" for n and w :: mem
    by (induction n) (simp_all add: wanted_def is_letter_def rune_of_def)
  have "\<exists>w' b. random_loop (\<lambda>w n. (w, 33)) [] 32 91 True False 20 (replicate 20 0) (aworld s) = Some (w', Done b)"
    by (rule random_loop_ends[OF d]) simp
  then obtain w' b where "random_loop (\<lambda>w n. (w, 33)) [] 32 91 True False 20 (replicate 20 0) (aworld s) = Some (w', Done b)" by blast
  then obtain k where k: "random_letters ex_api_env 20 s = Some (s\<lparr>aworld := w'\<rparr>, k)"
    by (simp add: random_letters_def RandomAlphabetic_def RandomAlphaOrNumeric_def RandomSpec1_def RandomSpec0_def)
  from random_letters_view[OF k ex_calm, of "\<lambda>w. w"] have "w' = aworld s" by simp
  then show ?thesis using k by simp
qed

lemma ex_adds:
  assumes "script (aworld s) = []" "mem_hview (aworld s) ''db_packages'' ''com.y'' = None" "counters (aworld s) PappID = None"
  shows "\<exists>s1 r1. addApp ex_api_env ex_add_app s = Some (s1, r1) \<and> rs_Code r1 = 200"
proof -
  define t where "t = s\<lparr>aworld := mem_inc PappID 1 (aworld s)\<rparr>"
  obtain k where k: "random_letters ex_api_env 20 t = Some (t, k)" using ex_letters by blast
  have g: "getPappID ex_api_env s = (t, 1)" using assms by (simp add: getPappID_def acall_def mem_store_calls t_def)
  have x: "acall (\<lambda>w. HashExists mem_store w ''db_packages'' ''com.y'') t = (t, Inr 0)"
    using assms by (simp add: acall_def mem_store_calls t_def)
  have u: "acall (uuid_New ex_api_env) t = (t, ''0123-4567-89ab'')" by (simp add: acall_def)
  have sc: "script (aworld t) = []" using assms(1) by (simp add: t_def)
  have f: "FormatInt 1 = ''1''" by code_simp
  have st: "\<exists>s1 r1. store_app ex_api_env appId raw t = Some (s1, r1) \<and> rs_Code r1 = 200" for appId raw
    using sc by (simp add: store_app_def acall_def mem_store_calls)
  have "\<exists>s1 r1. new_app ex_api_env idp kp sp mk ''com.y'' s = Some (s1, r1) \<and> rs_Code r1 = 200" for idp kp sp mk
    using g x u k st by (simp add: new_app_def f)
  then show ?thesis using ex_decode by (simp add: addApp_def)
qed

theorem package_registered_once_witness:
  "\<exists>s1 r1 appId. addApp ex_api_env ex_add_app ex_api = Some (s1, r1) \<and> mem_hview (aworld s1) ''db_packages'' ''com.y'' = Some appId \<and>
    (\<forall>s2 r2. addApp ex_api_env ex_add_app s1 = Some (s2, r2) \<longrightarrow> rs_Code r2 \<noteq> 200)"
proof -
  have "mem_hview (aworld ex_api) ''db_packages'' ''com.y'' = None" "counters (aworld ex_api) PappID = None"
    by (simp_all add: ex_api_def)
  from ex_adds[OF ex_api_simps(1) this] obtain s1 r1 where a: "addApp ex_api_env ex_add_app ex_api = Some (s1, r1)" "rs_Code r1 = 200" by blast
  from package_registered_once[OF mem_message_storage _ ex_calm a] ex_decode show ?thesis using a(1) by fastforce
qed

text \<open>A message that was dispatched is in storage: reading the text under its application and number gives
  the message back (empty lists as nil), and with time to live it is also among the offline messages, under
  a field that \<open>GetOfflineMsgs\<close> keeps exactly while the message is due.\<close>

theorem dispatched_message_found:
  assumes "message_storage st hv cv" "astore e = st" "calm e (\<lambda>w. (hv w, cv w))" "raw_ranges m"
    and "dispatch e m w = (w', Some p)"
    and "0 \<le> rm_MsgId m" "0 \<le> rm_CTime m" "rm_CTime m < 2 ^ 62" "op_TTL (rm_Options m) \<le> 3 * 86400"
  shows "p = published_text m \<and> stored_message (hv w' (''db_msg_'' @ rm_AppId m) (FormatInt (rm_MsgId m))) = Some (raw_norm m) \<and>
    (0 < op_TTL (rm_Options m) \<longrightarrow> (\<exists>field. stored_message (hv w' (''db_offline_msg_'' @ rm_AppId m) field) = Some (raw_norm m) \<and>
       (\<forall>t regTime last. offline_field t regTime last field =
          (if regTime < rm_CTime m \<and> last < rm_MsgId m \<and> t < rm_CTime m + op_TTL (rm_Options m) then Some (rm_MsgId m) else None))))"
proof -
  note v = assms(3)[folded message_storage.views_fun[OF assms(1)]]
  let ?x = "wrap64 (op_TTL (rm_Options m) + rm_CTime m)"
  note d = message_storage.dispatch_stored[OF assms(1,2) v assms(4,5)]
  have "offline_field t regTime last (format_field3 (rm_MsgId m) (rm_CTime m) ?x) =
      (if regTime < rm_CTime m \<and> last < rm_MsgId m \<and> t < rm_CTime m + op_TTL (rm_Options m) then Some (rm_MsgId m) else None)"
    if "0 < op_TTL (rm_Options m)" for t regTime last
  proof -
    have x: "?x = rm_CTime m + op_TTL (rm_Options m)" using assms(7-9) that by (simp add: wrap64_def)
    have "rm_MsgId m < 2 ^ 63" using assms(4) by (simp add: raw_ranges_def int64_range_def)
    then show ?thesis unfolding x using assms(6-9) that by (subst offline_field_format) simp_all
  qed
  then show ?thesis using d by blast
qed

theorem dispatched_message_found_witness:
  "\<exists>w' p field. dispatch ex_api_env (ex_msg\<lparr>rm_AppId := ''id1'', rm_MsgId := 7, rm_CTime := 100, rm_Options := \<lparr>op_TTL = 60, op_TTS = 0\<rparr>\<rparr>) mem_empty =
      (w', Some p) \<and> stored_message (mem_hview w' ''db_msg_id1'' ''7'') \<noteq> None \<and>
    stored_message (mem_hview w' ''db_offline_msg_id1'' field) \<noteq> None \<and> offline_field 159 50 6 field = Some 7 \<and> offline_field 160 50 6 field = None"
proof -
  let ?m = "ex_msg\<lparr>rm_AppId := ''id1'', rm_MsgId := 7, rm_CTime := 100, rm_Options := \<lparr>op_TTL = 60, op_TTS = 0\<rparr>\<rparr>"
  have r: "raw_ranges ?m" by (simp add: raw_ranges_def ex_msg_def zero_RawMessage_def zero_Notification_def int64_range_def)
  have f: "FormatInt 7 = ''7''" by code_simp
  obtain w' p where d: "dispatch ex_api_env ?m mem_empty = (w', Some p)"
    by (simp add: dispatch_def mem_store_calls Let_def)
  have b: "0 \<le> rm_MsgId ?m" "0 \<le> rm_CTime ?m" "rm_CTime ?m < 2 ^ 62" "op_TTL (rm_Options ?m) \<le> 3 * 86400" by simp_all
  from dispatched_message_found[OF mem_message_storage _ ex_calm r d b] f show ?thesis using d by auto
qed

end
