(* ===== verification/Go_Float.thy ===== *)
theory Go_Float
  imports Json "HOL-Library.Log_Nat"
begin

text \<open>
  JSON numbers that are decoded into an \<open>interface{}\<close> are \<open>float64\<close>: the literal's exact value \<open>a / b\<close> is
  rounded to a multiple of a power of 2 with at most 53 bits, ties to even, and one too large is an error. \<open>int64(f)\<close>
  truncates; what it gives out of range is left to the implementation by the language, and amd64 gives
  the least \<open>int64\<close>. Integers below \<open>2 ^ 53\<close> come back as they are (\<open>float_int64_small\<close>).
\<close>

subsection \<open>Value of a literal\<close>

text \<open>Sign, digits as a number, and decimal exponent.\<close>

definition lit_parts :: "string \<Rightarrow> bool \<times> nat \<times> int" where
  "lit_parts n =
    (let (neg, s0) = (case n of c # cs \<Rightarrow> if c = CHR ''-'' then (True, cs) else (False, n) | [] \<Rightarrow> (False, []));
         (i, s1) = span_digits s0;
         (f, s2) = (case s1 of c # cs \<Rightarrow> if c = CHR ''.'' then span_digits cs else ([], s1) | [] \<Rightarrow> ([], []));
         e = (case s2 of [] \<Rightarrow> 0
              | _ # es \<Rightarrow> (case es of c # cs \<Rightarrow> if c = CHR ''-'' then - int (digits_num cs)
                                             else if c = CHR ''+'' then int (digits_num cs) else int (digits_num es)
                         | [] \<Rightarrow> 0))
     in (neg, digits_num (i @ f), e - int (length f)))"

text \<open>\<open>a / b\<close> times \<open>base ^ e\<close> as a fraction.\<close>

definition scaled :: "nat \<Rightarrow> nat \<Rightarrow> nat \<Rightarrow> int \<Rightarrow> nat \<times> nat" where
  "scaled base a b e = (if 0 \<le> e then (a * base ^ nat e, b) else (a, b * base ^ nat (- e)))"

subsection \<open>Rounding\<close>

definition round_even :: "nat \<Rightarrow> nat \<Rightarrow> nat" where
  "round_even a b =
    (let q = a div b; r = a mod b in if b < 2 * r \<or> (2 * r = b \<and> odd q) then q + 1 else q)"

text \<open>The exponent of the last bit: 53 bits, and not below that of the smallest subnormal number.\<close>

definition last_bit :: "nat \<Rightarrow> nat \<Rightarrow> int" where
  "last_bit a b =
    (let g = int (floorlog 2 a) - int (floorlog 2 b);
         (x, y) = scaled 2 a b (- g)
     in max (- 1074) ((if y \<le> x then g else g - 1) - 52))"

text \<open>The nearest \<open>float64\<close> to \<open>a / b\<close> as \<open>m * 2 ^ e\<close>; \<open>None\<close> is out of range.\<close>

definition nearest_float :: "nat \<Rightarrow> nat \<Rightarrow> (nat \<times> int) option" where
  "nearest_float a b =
    (let e = last_bit a b; (x, y) = scaled 2 a b (- e); m = round_even x y
     in if 0 \<le> e \<and> 2 ^ 1024 \<le> m * 2 ^ nat e then None else Some (m, e))"

definition ParseFloat :: "string \<Rightarrow> (bool \<times> nat \<times> int) option" where
  "ParseFloat n =
    (let (neg, a, e) = lit_parts n; (x, y) = scaled 10 a 1 e
     in map_option (\<lambda>(m, k). (neg, m, k)) (nearest_float x y))"

definition float_int64 :: "bool \<times> nat \<times> int \<Rightarrow> int" where
  "float_int64 f =
    (case f of (neg, m, e) \<Rightarrow>
       let v = (if 0 \<le> e then m * 2 ^ nat e else m div 2 ^ nat (- e));
           i = (if neg then - int v else int v)
       in if int64_range i then i else - (2 ^ 63))"

text \<open>A document is decoded into an \<open>interface{}\<close> without error if all its numbers are in range.\<close>

fun floats_ok :: "json \<Rightarrow> bool" where
  "floats_ok (JNum n) = (ParseFloat n \<noteq> None)"
| "floats_ok (JArr js) = list_all floats_ok js"
| "floats_ok (JObj ms) = list_all (\<lambda>(k, j). floats_ok j) ms"
| "floats_ok _ = True"

subsection \<open>Integers\<close>

lemma round_even_whole: "0 < b \<Longrightarrow> round_even (a * b) b = a"
  by (simp add: round_even_def)

lemma round_even_one [simp]: "round_even a (Suc 0) = a"
  using round_even_whole[of 1 a] by simp

lemma last_bit_nat:
  assumes "a < 2 ^ 53"
  shows "last_bit a 1 \<le> 0"
proof -
  have f: "floorlog 2 a \<le> 53" using assms by (simp add: floorlog_leI)
  have "floorlog 2 (Suc 0) = 1" by (simp add: floorlog_def)
  then show ?thesis using f by (auto simp: last_bit_def Let_def split: prod.split)
qed

lemma nearest_float_nat:
  assumes "a < 2 ^ 53"
  obtains e where "nearest_float a 1 = Some (a * 2 ^ nat (- e), e)" "e \<le> 0"
proof -
  note l = last_bit_nat[OF assms]
  have s: "scaled 2 a 1 (- last_bit a 1) = (a * 2 ^ nat (- last_bit a 1), 1)" using l by (simp add: scaled_def)
  have "a < 2 ^ 1024" using assms by (rule less_le_trans) (simp add: power_increasing)
  then have "nearest_float a 1 = Some (a * 2 ^ nat (- last_bit a 1), last_bit a 1)"
    using l s by (auto simp: nearest_float_def Let_def not_le)
  with l that show ?thesis by blast
qed

lemma digit_not_mark: "is_digit c \<Longrightarrow> c \<noteq> CHR ''-''"
  using not_digit_sign by metis

lemma span_format: "span_digits (format_nat k) = (format_nat k, [])"
  using format_nat_digits[of k] by (simp add: span_digits_def takeWhile_eq_all_conv dropWhile_eq_Nil_conv list_all_iff)

lemma lit_parts_FormatInt: "lit_parts (FormatInt i) = (i < 0, nat \<bar>i\<bar>, 0)"
proof (cases "i < 0")
  case True
  then show ?thesis by (simp add: lit_parts_def FormatInt_def span_format)
next
  case False
  obtain c cs where f: "format_nat (nat i) = c # cs" by (cases "format_nat (nat i)") auto
  then have "c \<noteq> CHR ''-''" using format_nat_hd digit_not_mark by blast
  then show ?thesis using False f span_format[of "nat i"] digits_num_format[of "nat i"] by (simp add: lit_parts_def FormatInt_def)
qed

lemma ParseFloat_small:
  assumes "\<bar>i\<bar> < 2 ^ 53"
  shows "\<exists>f. ParseFloat (FormatInt i) = Some f \<and> float_int64 f = i"
proof -
  have a: "nat \<bar>i\<bar> < 2 ^ 53" using assms by (simp add: nat_less_iff)
  obtain e where e: "nearest_float (nat \<bar>i\<bar>) 1 = Some (nat \<bar>i\<bar> * 2 ^ nat (- e), e)" "e \<le> 0" by (rule nearest_float_nat[OF a])
  have v: "(if 0 \<le> e then nat \<bar>i\<bar> * 2 ^ nat (- e) * 2 ^ nat e else nat \<bar>i\<bar> * 2 ^ nat (- e) div 2 ^ nat (- e)) = nat \<bar>i\<bar>"
    using e(2) by simp
  have r: "int64_range i" using assms by (auto simp: int64_range_def abs_less_iff)
  have "float_int64 (i < 0, nat \<bar>i\<bar> * 2 ^ nat (- e), e) = i"
    using r unfolding float_int64_def prod.case Let_def v by simp
  then show ?thesis using e(1) by (simp add: ParseFloat_def lit_parts_FormatInt scaled_def)
qed

text \<open>The first integer that does not come back.\<close>

lemma ParseFloat_not_exact: "map_option float_int64 (ParseFloat (FormatInt (2 ^ 53 + 1))) = Some (2 ^ 53)"
proof -
  let ?a = "9007199254740993 :: nat"
  have "floorlog 2 ?a \<le> 54" by (rule floorlog_leI) simp_all
  moreover have "\<not> floorlog 2 ?a \<le> 53" by (rule notI, drule floorlog_leD) simp_all
  ultimately have f: "floorlog 2 ?a = 54" by simp
  have "floorlog 2 (Suc 0) = 1" by (simp add: floorlog_def)
  then have "last_bit ?a 1 = 1" using f by (simp add: last_bit_def scaled_def)
  then have "nearest_float ?a 1 = Some (4503599627370496, 1)"
    by (simp add: nearest_float_def scaled_def round_even_def)
  then show ?thesis by (simp add: ParseFloat_def lit_parts_FormatInt scaled_def float_int64_def int64_range_def)
qed

end
