(* ===== verification/Consumer.thy ===== *)
theory Consumer
  imports Comet_Push Go_Float Auth
begin

text \<open>
  \<open>mq/consumer.go\<close>: the goroutine \<open>handle\<close> that takes the deliveries of the message queue. A delivery is a
  tag and a body; \<open>ack\<close> stands for \<open>d.Ack\<close>, whose result is dropped. The body is decoded into a map;
  \<open>handle_delivery\<close> is one turn of the loop, \<open>handle\<close> the loop over the deliveries of a channel that is
  then closed. \<open>None\<close> is a panic of a type assertion, which ends the process; the flag is False when a
  push to a group has used up its fuel.
\<close>

definition int_of_number :: "json \<Rightarrow> int option" where
  "int_of_number j =
    (case j of JNum n \<Rightarrow> map_option float_int64 (ParseFloat n) | _ \<Rightarrow> None)"

text \<open>\<open>m["appid"].(string)\<close> and \<open>int64(m["msgid"].(float64))\<close>.\<close>

definition delivery_key :: "(string \<times> json) list \<Rightarrow> (string \<times> int) option" where
  "delivery_key m =
    (case obj_get m ''appid'' of
       Some (JStr appid) \<Rightarrow>
         (case Option.bind (obj_get m ''msgid'') int_of_number of
            Some msgid \<Rightarrow> Some (appid, msgid)
          | None \<Rightarrow> None)
     | _ \<Rightarrow> None)"

definition push_stored :: "'w env \<Rightarrow> nat \<Rightarrow> string \<Rightarrow> int \<Rightarrow> 'w comet \<Rightarrow> ('w comet \<times> bool) option" where
  "push_stored e k appid msgid s =
    (case call (\<lambda>w. GetRawMsg (store e) w appid msgid) s of
       (s1, None) \<Rightarrow> Some (s1, True)
     | (s1, Some rmsg) \<Rightarrow> PushMessages e k appid rmsg s1)"

definition handle_delivery :: "('w \<Rightarrow> nat \<Rightarrow> 'w) \<Rightarrow> 'w env \<Rightarrow> nat \<Rightarrow> nat \<times> string \<Rightarrow> 'w comet \<Rightarrow> ('w comet \<times> bool) option" where
  "handle_delivery ack e k d s =
    (let s1 = s\<lparr>world := ack (world s) (fst d)\<rparr>
     in case json_parse (snd d) of
          Some (JObj m) \<Rightarrow>
            if \<not> floats_ok (JObj m) then Some (s1, True)
            else (case delivery_key m of
                    None \<Rightarrow> None
                  | Some (appid, msgid) \<Rightarrow> push_stored e k appid msgid s1)
        | Some JNull \<Rightarrow> None
        | _ \<Rightarrow> Some (s1, True))"

fun handle :: "('w \<Rightarrow> nat \<Rightarrow> 'w) \<Rightarrow> 'w env \<Rightarrow> nat \<Rightarrow> (nat \<times> string) list \<Rightarrow> 'w comet \<Rightarrow> ('w comet \<times> bool) option" where
  "handle ack e k [] s = Some (s, True)"
| "handle ack e k (d # ds) s =
    (case handle_delivery ack e k d s of
       None \<Rightarrow> None
     | Some (s1, False) \<Rightarrow> Some (s1, False)
     | Some (s1, True) \<Rightarrow> handle ack e k ds s1)"

subsection \<open>What a delivery does\<close>

text \<open>The text that names a message, as a server of the push API publishes it.\<close>

definition message_name :: "string \<Rightarrow> int \<Rightarrow> string" where
  "message_name appid msgid = json_text (JObj [(''appid'', JStr appid), (''msgid'', jint msgid)])"

lemma handle_named:
  assumes "0 \<le> i" "i < 2 ^ 53"
  shows "handle_delivery ack e k (tag, message_name a i) s = push_stored e k a i (s\<lparr>world := ack (world s) tag\<rparr>)"
proof -
  obtain f where f: "ParseFloat (FormatInt i) = Some f" "float_int64 f = i"
    using ParseFloat_small[of i] assms by auto
  have "json_parse (message_name a i) = Some (JObj [(''appid'', JStr a), (''msgid'', jint i)])"
    unfolding message_name_def by (rule json_parse_text) simp
  then show ?thesis
    using f by (simp add: handle_delivery_def delivery_key_def obj_get_def int_of_number_def jint_def Let_def)
qed

text \<open>A body that is not an object, or has a number out of range, is acknowledged and dropped.\<close>

lemma handle_dropped:
  assumes "json_parse b = None \<or> (\<exists>j. json_parse b = Some j \<and> j \<noteq> JNull \<and> (\<forall>m. j = JObj m \<longrightarrow> \<not> floats_ok j))"
  shows "handle_delivery ack e k (tag, b) s = Some (s\<lparr>world := ack (world s) tag\<rparr>, True)"
  using assms by (auto simp: handle_delivery_def Let_def split: json.splits)

text \<open>The loop panics exactly at a delivery that panics.\<close>

lemma deliveries_append:
  "handle ack e k (ds @ es) s =
    (case handle ack e k ds s of
       None \<Rightarrow> None | Some (s1, False) \<Rightarrow> Some (s1, False) | Some (s1, True) \<Rightarrow> handle ack e k es s1)"
  by (induction ds arbitrary: s) (auto split: option.splits prod.splits bool.splits)

end
