(* ===== verification/Comet_Progress.thy ===== *)
theory Comet_Progress
  imports Handlers_Spec Comet_Steps "HOL-Library.Sublist"
begin

text \<open>
  Progress of the workers of \<open>comet/job.go\<close>. A worker's channel is a queue: steps put jobs at its end, only a
  turn of the worker takes one, and then the oldest. So a queued job is done at the worker's turn whose
  number is its place, however these turns are interleaved with other steps (\<open>queued_job_done\<close>).
\<close>

subsection \<open>Steps that only queue jobs\<close>

definition grows :: "'w comet \<Rightarrow> 'w comet \<Rightarrow> bool" where
  "grows s t \<longleftrightarrow> (\<forall>n. prefix (worker_jobs s n) (worker_jobs t n)) \<and> wire t = wire s"

lemma grows_refl [simp]: "grows s s"
  by (simp add: grows_def)

lemma grows_trans: "grows s t \<Longrightarrow> grows t u \<Longrightarrow> grows s u"
  unfolding grows_def by (auto intro: prefix_order.trans)

lemma grows_simps [simp]:
  "grows s (t\<lparr>world := w\<rparr>) = grows s t" "grows s (t\<lparr>slices := h\<rparr>) = grows s t" "grows s (t\<lparr>delivered := d\<rparr>) = grows s t"
  "grows s (t\<lparr>closed_conns := x\<rparr>) = grows s t" "grows s (t\<lparr>DevicesMap := m\<rparr>) = grows s t"
  "grows s (upd_client c f t) = grows s t" "grows s (set_app a g t) = grows s t" "grows s (set_regapp c k y t) = grows s t"
  "grows s (DelApp r t) = grows s t" "grows s (snd (k, t)) = grows s t"
  by (simp_all add: grows_def set_app_def set_regapp_def DelApp_def)

lemma grows_put_job: "grows s t \<Longrightarrow> grows s (put_job c j t)"
  unfolding grows_def by (simp add: prefix_def) (metis append_assoc)

lemma grows_SendMessage: "SendMessage c ty q0 b r t = (t', x) \<Longrightarrow> grows s t \<Longrightarrow> grows s t'"
  by (auto simp: SendMessage_def NextSeq_def Let_def split: if_splits intro!: grows_put_job)

lemma grows_SendMessage_fst: "grows s t \<Longrightarrow> grows s (fst (SendMessage c ty q0 b r t))"
  by (rule grows_SendMessage) (simp_all add: prod_eq_iff)

lemma grows_fold: "(\<And>x t. grows s t \<Longrightarrow> grows s (f x t)) \<Longrightarrow> grows s t \<Longrightarrow> grows s (fold f xs t)"
  by (induction xs arbitrary: t) auto

lemma grows_AddApp: "AddApp d r i t = (t', a) \<Longrightarrow> grows s t \<Longrightarrow> grows s t'"
  by (auto simp: AddApp_def grows_def Let_def split: option.splits)

subsection \<open>Handlers\<close>

lemma answers_grow: "answers c ty hr s t \<Longrightarrow> grows s t"
  by (auto simp: answers_def quiet_def sendReply_def intro!: grows_SendMessage_fst) (simp add: grows_def)

lemma handler_grows: "funcMap ty = Some f \<Longrightarrow> f e c hr b s = Some (t, r) \<Longrightarrow> grows s t"
  unfolding funcMap_def
  by (auto split: if_splits dest!: Register_answers Unregister_answers Register2_answers Unregister2_answers
      Subscribe_answers Unsubscribe_answers GetTopics_answers Stats_answers intro: answers_grow)
    (auto simp: handlePushReply_def handleCmdReply_def handleHeartbeat_def Let_def
      split: prod.splits bool.splits option.splits if_splits intro!: grows_put_job)

lemma conn_turn_grows: "conn_turn e srv c st evs s = Some (t, r) \<Longrightarrow> grows s t"
proof -
  assume ct: "conn_turn e srv c st evs s = Some (t, r)"
  have h: "grows s u" if "funcMap ty = Some f" "f e c h b (upd_client c g s) = Some (u, x)" for ty f h b g u x
    using handler_grows[OF that] by (simp add: grows_def)
  obtain o1 st1 evs1 where rt: "read_turn (sv_maxBodyLen srv) (now e (world s)) st evs = (o1, st1, evs1)" by (metis prod_cases3)
  show ?thesis
  proof (cases o1)
    case (Frame hd body)
    then show ?thesis using ct rt
      by (cases "funcMap (hd_Type hd) :: 'a handler option") (auto simp: conn_turn_def Let_def dest: h split: if_splits)
  qed (use ct rt in \<open>auto simp: conn_turn_def Let_def handleHeartbeat_def split: if_splits\<close>)
qed

subsection \<open>Pushing\<close>

lemma pushes_grow: "pushes h b cs s t \<Longrightarrow> grows s t"
  unfolding pushes_def grows_def prefix_def by blast

lemma some_grow: "pushes_some h b m Q s t \<Longrightarrow> grows s t"
  by (auto simp: pushes_some_def intro: pushes_grow)

lemma push_founds_some:
  "pushes_some h b m (\<lambda>_. True) s t \<Longrightarrow> pushes_some h b m (\<lambda>_. True) s (fold (\<lambda>r s. push_found e m h b (f r s) s) rs t)"
  by (induction rs arbitrary: t) (auto intro: push_found_some)

lemma PushMessages_grows: "PushMessages e k appId m s = Some (t, fin) \<Longrightarrow> grows s t"
  using pushes_some_refl[where Q = "\<lambda>_. True" and m = m and s = s]
  by (auto simp: PushMessages_def Let_def split: if_splits intro!: some_grow[where Q = "\<lambda>_. True" and m = m]
      push_all_some push_founds_some push_devices_some elim!: push_groups_some[rotated 2] push_users_some[rotated 2])

subsection \<open>Connections\<close>

lemma closeClient_grows: "grows s (closeClient e srv c s)"
proof -
  have "grows s (close_apps c ks t)" if "grows s t" for ks t
    unfolding close_apps_def using that by (intro grows_fold) (auto split: option.splits)
  then show ?thesis by (simp add: closeClient_def Let_def)
qed

lemma RegisterApp2_grows: "RegisterApp2 e d r g u t = (t', x) \<Longrightarrow> grows s t \<Longrightarrow> grows s t'"
  by (erule RegisterApp2_cases) (auto simp: grows_def)

lemma init_apps_grows: "grows s t \<Longrightarrow> grows s (init_apps e c infos t)"
  by (induction infos arbitrary: t) (auto split: prod.splits option.splits dest: RegisterApp2_grows)

lemma sync_apps_grows: "sync_apps e c infos ks apps t = (t', as) \<Longrightarrow> grows s t \<Longrightarrow> grows s t'"
  by (induction e c infos ks apps t arbitrary: t' as rule: sync_apps.induct)
    (fastforce simp: Let_def split: option.splits sum.splits prod.splits if_splits dest: grows_AddApp)+

lemma load_infos_grows: "load_infos e vals t m = Some (t', m') \<Longrightarrow> grows s t \<Longrightarrow> grows s t'"
  by (induction e vals t m rule: load_infos.induct)
    (fastforce simp: Let_def split: option.splits sum.splits prod.splits)+

lemma start_client_grows:
  assumes st: "start_client e srv c header request t = Some t'" and g: "grows s t"
  shows "grows s t'"
proof -
  define r where "r = (if im_Sync request = 0
              then Some (init_apps e c (case im_Apps request of None \<Rightarrow> [] | Some xs \<Rightarrow> xs) t, None)
              else map_option (\<lambda>(t, infos). map_prod id Some (sync_apps e c infos (iter e (world t) infos) [] t))
                     (LoadAppInfosByDevice e (im_DevId request) t))"
  obtain t1 apps where r: "r = Some (t1, apps)" using st by (auto simp: start_client_def Let_def r_def[symmetric] split: option.splits)
  have g1: "grows s t1"
  proof (cases "im_Sync request = 0")
    case True
    then show ?thesis using r init_apps_grows[OF g] by (auto simp: r_def)
  next
    case False
    then obtain u infos where u: "LoadAppInfosByDevice e (im_DevId request) t = Some (u, infos)"
      and t1: "t1 = fst (sync_apps e c infos (iter e (world u) infos) [] u)"
      using r by (auto simp: r_def) (metis fst_conv fst_map_prod id_apply)
    have "grows s u" using u g
      by (auto simp: LoadAppInfosByDevice_def Let_def split: sum.splits elim!: load_infos_grows)
    then show ?thesis using t1 sync_apps_grows[OF prod.collapse[symmetric]] by metis
  qed
  have m: "grows s (offline_msg e c a m u)" if "grows s u" for a m u
  proof -
    obtain u1 ok where o: "offline_match e c a m u = (u1, ok)" by fastforce
    obtain w where "u1 = u\<lparr>world := w\<rparr>" using offline_match_world[OF o] by blast
    then show ?thesis using that o by (simp add: offline_msg_def grows_SendMessage_fst)
  qed
  have "grows s (handleOfflineMsgs e c a u)" if "grows s u" for a u
    unfolding handleOfflineMsgs_def Let_def using that m by (auto intro!: grows_fold)
  then have "grows s (fold (\<lambda>a. handleOfflineMsgs e c a) as u)" if "grows s u" for as u
    using that by (intro grows_fold)
  then show ?thesis using st r g1
    by (auto simp: start_client_def Let_def r_def[symmetric] grows_SendMessage_fst)
qed

subsection \<open>Steps without a turn of a worker\<close>

text \<open>The steps of the server in which the workers of the set \<open>N\<close> take no turn, not even while a new connection waits.\<close>

inductive other_step :: "'w env \<Rightarrow> nat set \<Rightarrow> 'w comet \<Rightarrow> 'w comet \<Rightarrow> bool" for e N where
  other_connect: "unused_conn conn s \<Longrightarrow>
      (\<forall>i t. unused_conn conn t \<longrightarrow> (other_step e N)\<^sup>*\<^sup>* t (sleep i t) \<and> unused_conn conn (sleep i t)) \<Longrightarrow>
      waitInit e sleep worker conn srv evs s = Some (srv', evs', s', r) \<Longrightarrow> other_step e N s s'"
| other_refuse: "unused_conn conn s \<Longrightarrow> other_step e N s (s\<lparr>closed_conns := insert conn (closed_conns s)\<rparr>)"
| other_turn: "open_client s c \<Longrightarrow> conn_turn e srv c st evs s = Some (s', r) \<Longrightarrow> other_step e N s s'"
| other_job: "Worker_turn e i s = Some s' \<Longrightarrow> i \<notin> N \<Longrightarrow> other_step e N s s'"
| other_push: "PushMessages e k appId m s = Some (s', fin) \<Longrightarrow> other_step e N s s'"
| other_command: "open_client s c \<Longrightarrow> SendMessage c MSG_CMD 0 (Some body) (Some ch) s = (s', r) \<Longrightarrow> other_step e N s s'"
| other_timeout: "other_step e N s (MsgTimeout c seq s)"
| other_close: "open_client s c \<Longrightarrow> other_step e N s (closeClient e srv c s)"
| other_tick: "other_step e N s (s\<lparr>world := w\<rparr>)"

lemma other_step_comet_step: "other_step e N s t \<Longrightarrow> comet_step e s t"
proof (induction rule: other_step.induct)
  case (other_connect conn s sleep worker srv evs srv' evs' s' r)
  have "(comet_step e)\<^sup>*\<^sup>* t (sleep i t) \<and> unused_conn conn (sleep i t)" if "unused_conn conn t" for i t
  proof -
    have "(\<lambda>x y. other_step e N x y \<and> comet_step e x y)\<^sup>*\<^sup>* t (sleep i t)" using that other_connect by blast
    then show ?thesis using that other_connect mono_rtranclp[of "\<lambda>x y. other_step e N x y \<and> comet_step e x y" "comet_step e"] by blast
  qed
  then show ?case using other_connect comet_step.connect by blast
qed (blast intro: comet_step.intros)+

text \<open>The queues of these workers only grow, and when no worker takes a turn nothing is written.\<close>

definition idles :: "nat set \<Rightarrow> 'w comet \<Rightarrow> 'w comet \<Rightarrow> bool" where
  "idles N s t \<longleftrightarrow> (\<forall>n \<in> N. prefix (worker_jobs s n) (worker_jobs t n)) \<and> (N = UNIV \<longrightarrow> wire t = wire s)"

lemma idles_refl [simp]: "idles N s s"
  by (simp add: idles_def)

lemma idles_trans: "idles N s t \<Longrightarrow> idles N t u \<Longrightarrow> idles N s u"
  unfolding idles_def by (auto intro: prefix_order.trans)

lemma grows_queue: "grows s t \<Longrightarrow> idles N s t"
  by (simp add: grows_def idles_def)

lemma wait_old_queue:
  assumes "\<forall>i t. unused_conn conn t \<longrightarrow> idles N t (sleep i t) \<and> unused_conn conn (sleep i t)"
  shows "unused_conn conn s \<Longrightarrow> idles N s (fst (wait_old sleep devid k s))"
proof (induction k arbitrary: s)
  case (Suc k)
  show ?case
  proof (cases "Get (DevicesMap s) devid")
    case (Some c)
    let ?u = "upd_client c (cl_closed_update (\<lambda>_. True)) s"
    have "unused_conn conn ?u" using Suc.prems by (simp add: unused_conn_def)
    then have t: "idles N ?u (sleep k ?u)" "unused_conn conn (sleep k ?u)" using assms by blast+
    have "idles N s (sleep k ?u)" using t(1) by (simp add: idles_def)
    from idles_trans[OF this Suc.IH[OF t(2)]] show ?thesis using Some by (simp add: wait_old.simps[of _ _ "Suc k"])
  qed (simp add: wait_old.simps[of _ _ "Suc k"])
qed (auto simp: wait_old.simps[of _ _ 0] split: option.splits)

lemma createClient_grows: "createClient e srv worker conn devid s = (t, r) \<Longrightarrow> grows s t"
  by (auto simp: createClient_def NewClient_def Let_def grows_def split: prod.splits option.splits)

lemma waitInit_queue:
  assumes "\<forall>i t. unused_conn conn t \<longrightarrow> idles N t (sleep i t) \<and> unused_conn conn (sleep i t)"
    and "unused_conn conn s" "waitInit e sleep worker conn srv evs s = Some (srv', evs', s', r)"
  shows "idles N s s'"
proof (cases "s' = s")
  case False
  then obtain header request where ad: "admit e sleep worker conn srv header request s = Some (srv', s', r)"
    using assms(3) by (auto simp: waitInit_def split: prod.splits option.splits if_splits bool.splits)
  obtain srv1 w1 ok1 where b: "checkBlacklist e (im_DevId request) (now e (world s)) srv s = (srv1, s\<lparr>world := w1\<rparr>, ok1)"
    by (rule checkBlacklist_world)
  obtain s2 ok2 where o: "wait_old sleep (im_DevId request) 5 (s\<lparr>world := w1\<rparr>) = (s2, ok2)" by fastforce
  have g: "idles N s s2"
    using wait_old_queue[OF assms(1), of "s\<lparr>world := w1\<rparr>" "im_DevId request" 5] assms(2) o by (simp add: idles_def)
  have c: "idles N s2 t" if "createClient e srv1 worker conn (im_DevId request) (s2\<lparr>world := w\<rparr>) = (t, y)" for w t y
    using createClient_grows[OF that] by (simp add: grows_def idles_def)
  have st: "idles N t u" if "start_client e srv1 x header request t = Some u" for x t u
    using start_client_grows[OF that grows_refl] by (rule grows_queue)
  have w: "idles N s (s2\<lparr>world := w\<rparr>)" "idles N s (s\<lparr>world := w\<rparr>)" for w
    using g by (simp_all add: idles_def)
  show ?thesis using ad b o w g
    by (auto simp: admit_def Let_def split: if_splits bool.splits prod.splits option.splits
        intro: idles_trans[OF g c] idles_trans[OF idles_trans[OF g c] st])
qed simp

lemma other_step_queue: "other_step e N s t \<Longrightarrow> idles N s t"
proof (induction rule: other_step.induct)
  case (other_connect conn s sleep worker srv evs srv' evs' s' r)
  have "idles N t (sleep i t) \<and> unused_conn conn (sleep i t)" if "unused_conn conn t" for i t
  proof -
    have "(\<lambda>x y. other_step e N x y \<and> idles N x y)\<^sup>*\<^sup>* t (sleep i t)" using that other_connect by blast
    then have "idles N t (sleep i t)" by (induction rule: rtranclp_induct) (auto intro: idles_trans)
    then show ?thesis using that other_connect by blast
  qed
  then show ?case using waitInit_queue other_connect by blast
next
  case (other_job i s s')
  then show ?case by (auto simp: Worker_turn_def idles_def frame_simps split: list.splits)
next
  case (other_command s c body ch s' r)
  then show ?case by (metis grows_SendMessage grows_queue grows_refl)
qed (simp_all add: idles_def MsgTimeout_def grows_queue[unfolded idles_def] conn_turn_grows PushMessages_grows closeClient_grows)

subsection \<open>Runs\<close>

text \<open>\<open>run e n k s t\<close>: from \<open>s\<close> to \<open>t\<close>, worker \<open>n\<close> takes \<open>k\<close> turns, with any other steps between them.\<close>

inductive run :: "'w env \<Rightarrow> nat \<Rightarrow> nat \<Rightarrow> 'w comet \<Rightarrow> 'w comet \<Rightarrow> bool" for e n where
  run_start: "run e n 0 s s"
| run_turn: "run e n k s t \<Longrightarrow> Worker_turn e n t = Some u \<Longrightarrow> run e n (Suc k) s u"
| run_other: "run e n k s t \<Longrightarrow> other_step e {n} t u \<Longrightarrow> run e n k s u"

lemma run_comet_steps: "run e n k s t \<Longrightarrow> (comet_step e)\<^sup>*\<^sup>* s t"
  by (induction rule: run.induct) (blast intro: rtranclp.rtrancl_into_rtrancl comet_step.job other_step_comet_step)+

lemma Worker_turn_queue: "Worker_turn e n s = Some t \<Longrightarrow> \<exists>j. worker_jobs s n = j # worker_jobs t n"
  by (auto simp: Worker_turn_def frame_simps split: list.splits)

text \<open>The job at place \<open>length pre\<close>: still waiting, or done in the turn of that number.\<close>

definition job_done :: "'w env \<Rightarrow> nat \<Rightarrow> nat \<Rightarrow> Job \<Rightarrow> nat \<Rightarrow> 'w comet \<Rightarrow> 'w comet \<Rightarrow> bool" where
  "job_done e n i j k s t \<longleftrightarrow>
    (\<exists>s1 s2 js. run e n i s s1 \<and> worker_jobs s1 n = j # js \<and> Worker_turn e n s1 = Some s2 \<and> run e n (k - Suc i) s2 t)"

lemma job_done_turn: "job_done e n i j k s t \<Longrightarrow> i < k \<Longrightarrow> Worker_turn e n t = Some u \<Longrightarrow> job_done e n i j (Suc k) s u"
  unfolding job_done_def by (metis Suc_diff_Suc diff_Suc_Suc run_turn)

lemma job_done_other: "job_done e n i j k s t \<Longrightarrow> other_step e {n} t u \<Longrightarrow> job_done e n i j k s u"
  unfolding job_done_def using run_other by blast

lemma run_queue:
  assumes "run e n k s t" "worker_jobs s n = pre @ j # post"
  shows "if k \<le> length pre then \<exists>js. worker_jobs t n = drop k pre @ j # js else job_done e n (length pre) j k s t"
  using assms
proof (induction rule: run.induct)
  case (run_turn k s t u)
  show ?case
  proof (cases "k \<le> length pre")
    case True
    then obtain js where t: "worker_jobs t n = drop k pre @ j # js" using run_turn by auto
    show ?thesis
    proof (cases "k = length pre")
      case True
      then have "job_done e n (length pre) j (Suc k) s u"
        unfolding job_done_def using run_turn.hyps t run_start by fastforce
      then show ?thesis using True by simp
    next
      case False
      then have "drop k pre = pre ! k # drop (Suc k) pre" using True by (simp add: Cons_nth_drop_Suc)
      then have "worker_jobs u n = drop (Suc k) pre @ j # js" using t Worker_turn_queue[OF run_turn.hyps(2)] by auto
      then show ?thesis using True False by simp
    qed
  next
    case False
    then show ?thesis using run_turn job_done_turn by fastforce
  qed
next
  case (run_other k s t u)
  then show ?case using other_step_queue[OF run_other.hyps(2)]
    by (auto simp: idles_def prefix_def intro: job_done_other split: if_splits)
qed simp

end
