(* ===== verification/Delivery_Properties.thy ===== *)
theory Delivery_Properties
  imports Api_Properties Consumer Comet_Example Comet_Progress
begin

text \<open>
  The path of a message through the system: the push API stores it and publishes its name, the consumer of
  each comet server takes the name from the queue, reads the message and pushes it.
\<close>

lemma published_name: "published_text m = message_name (rm_AppId m) (rm_MsgId m)"
  by (simp add: published_text_def message_name_def)

text \<open>A message that was stored and read again (empty lists as nil) is pushed like the original.\<close>

lemma raw_norm_push [simp]:
  "push_wanted s (raw_norm m) a = push_wanted s m a"
  "recipients s (raw_norm m) as = recipients s m as"
  "push_body appId (raw_norm m) = push_body appId m"
  "rm_PushType (raw_norm m) = rm_PushType m"
proof -
  have r: "recipient s (raw_norm m) = recipient s m"
    by (rule ext) (simp add: recipient_def raw_norm_def)
  show "recipients s (raw_norm m) as = recipients s m as" by (simp add: recipients_def r)
qed (simp_all add: push_wanted_def raw_norm_def norm_params_def push_body_def)

lemma pushes_from_world: "pushes h b cs (s\<lparr>world := w\<rparr>) s' = pushes h b cs s s'"
  by (simp add: pushes_def)

lemma wf_selected_world:
  "wf_comet (s\<lparr>world := w\<rparr>) = wf_comet s" "push_wanted (s\<lparr>world := w\<rparr>) m a = push_wanted s m a"
  "recipients (s\<lparr>world := w\<rparr>) m as = recipients s m as"
proof -
  have "recipient (s\<lparr>world := w\<rparr>) m = recipient s m" by (rule ext) (simp add: recipient_def)
  then show "recipients (s\<lparr>world := w\<rparr>) m as = recipients s m as" by (simp add: recipients_def)
qed (simp_all add: wf_world push_wanted_def)

text \<open>\<open>delivered_push m x s s'\<close>: with the answer \<open>x\<close> of the storage, message \<open>m\<close> of its application was pushed
  from \<open>s\<close> to \<open>s'\<close> to the registrations that it selects; without one only the world changed.\<close>

definition delivered_push :: "RawMessage \<Rightarrow> RawMessage option \<Rightarrow> 'w comet \<Rightarrow> 'w comet \<Rightarrow> bool" where
  "delivered_push m x s s' \<longleftrightarrow>
    (case x of
       None \<Rightarrow> s' = s\<lparr>world := world s'\<rparr>
     | Some y \<Rightarrow> y = raw_norm m \<and>
        (\<exists>as. pushes (makeHeader MSG_PUSH 0 (word_of_nat (length (push_body (rm_AppId m) m)))) (push_body (rm_AppId m) m)
            (recipients s m as) s s' \<and>
          set as = {r. (\<exists>g. regappMap s g = Some r) \<and> ai_AppId (app_info s r) = rm_AppId m \<and> push_wanted s m r}))"

lemma delivered_push_world: "delivered_push m x (s\<lparr>world := w\<rparr>) s' = delivered_push m x s s'"
  unfolding delivered_push_def wf_selected_world pushes_from_world by (cases x) simp_all

text \<open>What the consumer does with the name of a stored message.\<close>

lemma stored_message_pushed:
  assumes "message_storage (store e) hv cv"
    and "stored_message (hv (world s) (''db_msg_'' @ rm_AppId m) (FormatInt i)) = Some (raw_norm m)"
    and "iter_ok e" "wf_comet s" "rm_PushType m \<in> {PUSH_TYPE_ALL, PUSH_TYPE_REGID, PUSH_TYPE_TOPIC}"
  shows "\<exists>s'. push_stored e k (rm_AppId m) i s = Some (s', True) \<and>
    delivered_push m (snd (GetRawMsg (store e) (world s) (rm_AppId m) i)) s s'"
proof -
  obtain w x where g: "GetRawMsg (store e) (world s) (rm_AppId m) i = (w, x)" by (rule prod.exhaust)
  show ?thesis
  proof (cases x)
    case None
    then show ?thesis using g by (simp add: push_stored_def call_def delivered_push_def)
  next
    case (Some y)
    let ?t = "s\<lparr>world := w\<rparr>"
    have y: "y = raw_norm m" using message_storage.raw_message[OF assms(1) g] Some assms(2) by auto
    have t: "rm_PushType (raw_norm m) \<in> {PUSH_TYPE_ALL, PUSH_TYPE_REGID, PUSH_TYPE_TOPIC}" "wf_comet ?t"
      using assms(4,5) by (simp_all add: wf_selected_world)
    show ?thesis
    proof (rule PushMessages_selects[OF assms(3) t(2,1), of k "rm_AppId m"])
      fix s' as
      assume p: "PushMessages e k (rm_AppId m) (raw_norm m) ?t = Some (s', True)"
        "pushes (makeHeader MSG_PUSH 0 (word_of_nat (length (push_body (rm_AppId m) (raw_norm m))))) (push_body (rm_AppId m) (raw_norm m))
          (recipients ?t (raw_norm m) as) ?t s'"
        "set as = {r. (\<exists>g. regappMap ?t g = Some r) \<and> ai_AppId (app_info ?t r) = rm_AppId m \<and> push_wanted ?t (raw_norm m) r}"
      have "delivered_push m (Some y) ?t s'" unfolding delivered_push_def
        using p(2,3) y unfolding raw_norm_push by auto
      then show ?thesis using g Some y p(1) by (auto simp: push_stored_def call_def delivered_push_world)
    qed
  qed
qed

lemma dispatched_pushed:
  assumes "message_storage st hv cv" "astore ea = st" "calm ea (\<lambda>w. (hv w, cv w))" "raw_ranges m"
    and "dispatch ea m w = (w', Some p)" "0 \<le> rm_MsgId m" "rm_MsgId m < 2 ^ 53"
    and "store e = st" "iter_ok e" "wf_comet s" "hv (ack (world s) tag) = hv w'"
    and "rm_PushType m \<in> {PUSH_TYPE_ALL, PUSH_TYPE_REGID, PUSH_TYPE_TOPIC}"
  shows "\<exists>s'. handle_delivery ack e k (tag, p) s = Some (s', True) \<and>
    delivered_push m (snd (GetRawMsg st (ack (world s) tag) (rm_AppId m) (rm_MsgId m))) s s'"
proof -
  let ?s = "s\<lparr>world := ack (world s) tag\<rparr>"
  note v = assms(3)[folded message_storage.views_fun[OF assms(1)]]
  note d = message_storage.dispatch_stored[OF assms(1,2) v assms(4,5)]
  have p: "p = message_name (rm_AppId m) (rm_MsgId m)" using d published_name by blast
  have "stored_message (hv (world ?s) (''db_msg_'' @ rm_AppId m) (FormatInt (rm_MsgId m))) = Some (raw_norm m)"
    using d assms(11) by simp
  moreover have "wf_comet ?s" using assms(10) by (simp add: wf_selected_world)
  ultimately have "\<exists>s'. push_stored e k (rm_AppId m) (rm_MsgId m) ?s = Some (s', True) \<and>
      delivered_push m (snd (GetRawMsg st (world ?s) (rm_AppId m) (rm_MsgId m))) ?s s'"
    using stored_message_pushed[OF assms(1)[folded assms(8)] _ assms(9) _ assms(12), of ?s] assms(8) by simp
  then show ?thesis unfolding p handle_named[OF assms(6,7)] delivered_push_world by simp
qed


text \<open>A message with number 7 for the subscribers of topic \<open>x\<close>, dispatched over the empty store and taken from
  the queue by the server \<open>ex_comet\<close>.\<close>

definition ex_topic_push :: RawMessage where
  "ex_topic_push = ex_msg\<lparr>rm_AppId := ''a'', rm_MsgId := 7, rm_PushType := PUSH_TYPE_TOPIC, rm_Options := \<lparr>op_TTL = 60, op_TTS = 0\<rparr>,
     rm_PushParams := zero_PushParams\<lparr>pp_Topic := Some [''x'']\<rparr>\<rparr>"


subsection \<open>From the API to the bytes on a connection\<close>

text \<open>\<open>frame_written e n i c h b q k s t\<close>: in a run from \<open>s\<close> to \<open>t\<close> with \<open>k\<close> turns of worker \<open>n\<close>, turn number \<open>i\<close>
  writes the frame of \<open>b\<close> to the connection of client \<open>c\<close>, unless \<open>c\<close> is closed before or in this turn.\<close>

definition frame_written ::
  "'w env \<Rightarrow> nat \<Rightarrow> nat \<Rightarrow> nat \<Rightarrow> Header \<Rightarrow> string \<Rightarrow> 32 word \<Rightarrow> nat \<Rightarrow> 'w comet \<Rightarrow> 'w comet \<Rightarrow> bool" where
  "frame_written e n i c h b q k s t \<longleftrightarrow>
    (\<exists>s1 s2. run e n i s s1 \<and> Worker_turn e n s1 = Some s2 \<and> run e n (k - Suc i) s2 t \<and>
      (\<not> cl_closed (client_heap s2 c) \<longrightarrow>
         wire s2 (cl_conn (client_heap s1 c)) = wire s1 (cl_conn (client_heap s1 c)) @ frame_bytes h q (Some b)))"

lemma Do_writes:
  assumes "\<not> cl_closed (client_heap (Do e (SendJob c h b q None) s) c)"
  shows "wire (Do e (SendJob c h b q None) s) (cl_conn (client_heap s c)) = wire s (cl_conn (client_heap s c)) @ frame_bytes h q b"
proof (cases "cl_closed (client_heap s c)")
  case True
  then show ?thesis using assms by (simp add: Do_def SendJob_Do_def)
next
  case False
  then show ?thesis using assms
    by (cases rule: SendJob_Do_cases[where e = e and h = h and body = b and seq = q and reply = None]) (simp_all add: Do_def)
qed

lemma done_written: "job_done e n i (SendJob c h (Some b) q None) k s t \<Longrightarrow> frame_written e n i c h b q k s t"
  unfolding job_done_def frame_written_def
proof (elim exE conjE)
  fix s1 s2 js
  assume q: "worker_jobs s1 n = SendJob c h (Some b) q None # js" and w: "Worker_turn e n s1 = Some s2"
    and r: "run e n i s s1" "run e n (k - Suc i) s2 t"
  let ?u = "s1\<lparr>worker_jobs := (worker_jobs s1)(n := js)\<rparr>"
  have "s2 = Do e (SendJob c h (Some b) q None) ?u" using q w by (simp add: Worker_turn_def)
  then show "\<exists>s1 s2. run e n i s s1 \<and> Worker_turn e n s1 = Some s2 \<and> run e n (k - Suc i) s2 t \<and>
      (\<not> cl_closed (client_heap s2 c) \<longrightarrow>
         wire s2 (cl_conn (client_heap s1 c)) = wire s1 (cl_conn (client_heap s1 c)) @ frame_bytes h q (Some b))"
    using Do_writes[of e c h "Some b" q ?u] w r by (intro exI[of _ s1] exI[of _ s2]) simp
qed

text \<open>Every recipient of a push has a place in the queue of its worker.\<close>

lemma pushes_place:
  assumes "pushes h b cs s t" "c \<in> set cs"
  obtains pre q post where "worker_jobs t (cl_jobChannel (client_heap s c)) = pre @ SendJob c h (Some b) q None # post"
proof -
  let ?n = "cl_jobChannel (client_heap s c)"
  obtain js where js: "worker_jobs t ?n = worker_jobs s ?n @ js"
    "map (push_job h b) js = map Some (filter (\<lambda>d. cl_jobChannel (client_heap s d) = ?n) cs)"
    using assms(1) unfolding pushes_def by blast
  have "Some c \<in> set (map (push_job h b) js)" unfolding js(2) using assms(2) by simp
  then obtain j where j: "j \<in> set js" "push_job h b j = Some c" by auto
  obtain xs ys where "js = xs @ j # ys" using split_list[OF j(1)] by blast
  moreover obtain q where "j = SendJob c h (Some b) q None"
    using j(2) by (auto simp: push_job_def split: Job.splits option.splits if_splits)
  ultimately show ?thesis using js(1) that[of "worker_jobs s ?n @ xs" q ys] by simp
qed

lemma delivered_written:
  assumes "delivered_push m (Some y) s s'" "regappMap s g = Some r" "ai_AppId (app_info s r) = rm_AppId m"
    and "push_wanted s m r" "recipient s m r = Some c"
  shows "\<exists>i q. i < length (worker_jobs s' (cl_jobChannel (client_heap s c))) \<and>
    (\<forall>k t. run e (cl_jobChannel (client_heap s c)) k s' t \<and> i < k \<longrightarrow>
    frame_written e (cl_jobChannel (client_heap s c)) i c
      (makeHeader MSG_PUSH 0 (word_of_nat (length (push_body (rm_AppId m) m)))) (push_body (rm_AppId m) m) q k s' t)"
proof -
  obtain as where p: "pushes (makeHeader MSG_PUSH 0 (word_of_nat (length (push_body (rm_AppId m) m)))) (push_body (rm_AppId m) m)
      (recipients s m as) s s'" and a: "r \<in> set as"
    using assms unfolding delivered_push_def by auto
  have "c \<in> set (recipients s m as)" using a assms(5) set_recipients by blast
  from pushes_place[OF p this] obtain pre q post where
    "worker_jobs s' (cl_jobChannel (client_heap s c)) = pre @
      SendJob c (makeHeader MSG_PUSH 0 (word_of_nat (length (push_body (rm_AppId m) m)))) (Some (push_body (rm_AppId m) m)) q None # post" .
  from run_queue[OF _ this] this show ?thesis
    by (intro exI[of _ "length pre"] exI[of _ q]) (auto intro: done_written split: if_splits)
qed


lemma run_after_turn: "run e n k u t \<Longrightarrow> Worker_turn e n s = Some u \<Longrightarrow> run e n (Suc k) s t"
  by (induction rule: run.induct) (blast intro: run.intros)+

lemma run_Worker_run: "k \<le> length (worker_jobs s n) \<Longrightarrow> run e n k s (Worker_run e n k s)"
proof (induction k arbitrary: s)
  case (Suc k)
  then obtain u where u: "Worker_turn e n s = Some u" by (cases "worker_jobs s n") (auto simp: Worker_turn_def)
  then have "k \<le> length (worker_jobs u n)" using Worker_turn_queue[OF u] Suc.prems by auto
  then show ?case using run_after_turn[OF Suc.IH u] u by simp
qed (simp add: run_start)

lemma mem_GetRawMsg:
  "script w = [] \<Longrightarrow> snd (GetRawMsg mem_store w a j) = stored_message (mem_hview w (''db_msg_'' @ a) (FormatInt j))"
  by (simp add: mem_run RedisStorage_GetRawMsg_def stored_message_def mem_hview_def bulk_opt_def split: option.splits prod.splits bool.splits)


end
