(* ===== verification/Rpc_Client.thy ===== *)
theory Rpc_Client
  imports Storage
begin

text \<open>
  \<open>mq/rpc_client.go\<close> and \<open>mq/rpc_msg.go\<close>: remote calls over the message queue. \<open>Control\<close> publishes a command
  with a request id, registers a reply channel under the id, and waits for a reply or 10 seconds;
  \<open>handleResponse\<close> looks the channel of a reply up and sends on it. Calls and the response loop run in
  goroutines of their own, so each is a sequence of atomic steps: \<open>calls\<close> holds how far every call has got
  and \<open>handler\<close> whether the loop is between its lookup and its send. The channel that call \<open>i\<close> makes is
  named \<open>i\<close>; it is unbuffered, and closed once the call has returned. Sending on a closed channel
  panics, which ends the process. \<open>got\<close> is the history of the responses taken from the queue.
\<close>

record MQ_Msg_Crtl =
  mc_DeviceId :: string
  mc_Service :: string
  mc_Cmd :: string

record MQ_Msg_CtrlReply =
  mr_Status :: int
  mr_Result :: string

definition STATUS_SUCCESS :: int where "STATUS_SUCCESS = 0"
definition STATUS_INVALID_SERVICE :: int where "STATUS_INVALID_SERVICE = 1"
definition STATUS_EXCEPTION :: int where "STATUS_EXCEPTION = 2"
definition STATUS_NO_DEVICE :: int where "STATUS_NO_DEVICE = -1"
definition STATUS_SEND_FAILED :: int where "STATUS_SEND_FAILED = -2"
definition STATUS_SEND_TIMEOUT :: int where "STATUS_SEND_TIMEOUT = -3"

lemmas status_defs = STATUS_SUCCESS_def STATUS_INVALID_SERVICE_def STATUS_EXCEPTION_def
  STATUS_NO_DEVICE_def STATUS_SEND_FAILED_def STATUS_SEND_TIMEOUT_def

definition enc_MQ_Msg_Crtl :: "MQ_Msg_Crtl \<Rightarrow> json" where
  "enc_MQ_Msg_Crtl m = JObj
    (member ''dev_id'' (JStr (mc_DeviceId m)) @ member ''svc'' (JStr (mc_Service m)) @ member ''cmd'' (JStr (mc_Cmd m)))"

definition dec_MQ_Msg_Crtl :: "MQ_Msg_Crtl decoder" where
  "dec_MQ_Msg_Crtl = dec_struct
    [field ''dev_id'' mc_DeviceId mc_DeviceId_update dec_string,
     field ''svc'' mc_Service mc_Service_update dec_string,
     field ''cmd'' mc_Cmd mc_Cmd_update dec_string]"

definition enc_MQ_Msg_CtrlReply :: "MQ_Msg_CtrlReply \<Rightarrow> json" where
  "enc_MQ_Msg_CtrlReply r = JObj
    (member ''status'' (jint (mr_Status r)) @ omitempty (mr_Result r = []) ''result'' (JStr (mr_Result r)))"

definition dec_MQ_Msg_CtrlReply :: "MQ_Msg_CtrlReply decoder" where
  "dec_MQ_Msg_CtrlReply = dec_struct
    [field ''status'' mr_Status mr_Status_update dec_int64,
     field ''result'' mr_Result mr_Result_update dec_string]"

lemma command_text: "wf_json (enc_MQ_Msg_Crtl m)" "dec_MQ_Msg_Crtl (enc_MQ_Msg_Crtl m) x = (m, True)"
  by (simp_all add: enc_MQ_Msg_Crtl_def dec_MQ_Msg_Crtl_def dec_struct_def member_def find_field_def field_def dec_string_def)

lemma reply_text: "wf_json (enc_MQ_Msg_CtrlReply r)"
  by (simp add: enc_MQ_Msg_CtrlReply_def member_def omitempty_def)

lemma reply_decoded:
  assumes "int64_range (mr_Status r)" "mr_Result x = []"
  shows "dec_MQ_Msg_CtrlReply (enc_MQ_Msg_CtrlReply r) x = (r, True)"
  using assms by (simp add: enc_MQ_Msg_CtrlReply_def dec_MQ_Msg_CtrlReply_def dec_struct_def member_def omitempty_def
      find_field_def field_def dec_string_def dec_int64_def jint_def ParseInt_FormatInt)

subsection \<open>Results of a call\<close>

text \<open>The errors of \<open>Control\<close>: the four types of this package, and those that it passes on (of the storage, of
  the publisher, of the decoder, an unknown status).\<close>

datatype rpc_error =
    NoDeviceError | TimeoutError | InvalidServiceError | SdkError
  | StorageFailed go_error | PublishFailed go_error | BadReply string | OtherStatus int

type_synonym rpc_result = "rpc_error + string"

definition control_reply :: "string \<Rightarrow> rpc_result" where
  "control_reply replyData =
    (case Unmarshal dec_MQ_Msg_CtrlReply replyData \<lparr>mr_Status = 0, mr_Result = []\<rparr> of
       (_, False) \<Rightarrow> Inl (BadReply replyData)
     | (reply, True) \<Rightarrow>
         if mr_Status reply = STATUS_SUCCESS then Inr (mr_Result reply)
         else if mr_Status reply = STATUS_INVALID_SERVICE then Inl InvalidServiceError
         else if mr_Status reply = STATUS_EXCEPTION then Inl SdkError
         else Inl (OtherStatus (mr_Status reply)))"

subsection \<open>State\<close>

datatype control =
    Published "32 word"
  | Waiting "32 word"
  | Leaving "32 word" rpc_result
  | Returned "32 word" rpc_result

fun call_id :: "control \<Rightarrow> 32 word" where
  "call_id (Published r) = r" | "call_id (Waiting r) = r" | "call_id (Leaving r _) = r" | "call_id (Returned r _) = r"

datatype response_loop = Idle | Holding nat string | Crashed

record 'w rpc_client =
  rworld :: 'w
  requestId :: "32 word"
  requestTable :: "32 word \<Rightarrow> nat option"
  calls :: "control list"
  handler :: response_loop
  got :: "(string \<times> string) list"

text \<open>\<open>rpublish w routingKey correlationId body\<close> stands for the channel's \<open>Publish\<close>.\<close>

record 'w rpc_env =
  rstore :: "'w storage"
  rpublish :: "'w \<Rightarrow> string \<Rightarrow> string \<Rightarrow> string \<Rightarrow> 'w \<times> go_error option"

definition NewRpcClient :: "'w \<Rightarrow> 'w rpc_client" where
  "NewRpcClient w = \<lparr>rworld = w, requestId = 0, requestTable = Map.empty, calls = [], handler = Idle, got = []\<rparr>"

definition set_call :: "nat \<Rightarrow> control \<Rightarrow> 'w rpc_client \<Rightarrow> 'w rpc_client" where
  "set_call i c s = s\<lparr>calls := (calls s)[i := c]\<rparr>"

definition nextReqeustId :: "'w rpc_client \<Rightarrow> 'w rpc_client \<times> 32 word" where
  "nextReqeustId s = (s\<lparr>requestId := requestId s + 1\<rparr>, requestId s + 1)"

subsection \<open>Steps of a call\<close>

text \<open>Up to and with the publication: an error before the id is taken, or a call of its own.\<close>

definition Control :: "'w rpc_env \<Rightarrow> string \<Rightarrow> string \<Rightarrow> string \<Rightarrow> 'w rpc_client \<Rightarrow> 'w rpc_client \<times> rpc_error option" where
  "Control e deviceId service cmd s =
    (case CheckDevice (rstore e) (rworld s) deviceId of
       (w1, Inl err) \<Rightarrow> (s\<lparr>rworld := w1\<rparr>, Some (StorageFailed err))
     | (w1, Inr serverName) \<Rightarrow>
         if serverName = [] then (s\<lparr>rworld := w1\<rparr>, Some NoDeviceError)
         else
          let (s1, rid) = nextReqeustId (s\<lparr>rworld := w1\<rparr>);
              msgData = json_text (enc_MQ_Msg_Crtl \<lparr>mc_DeviceId = deviceId, mc_Service = service, mc_Cmd = cmd\<rparr>)
          in (case rpublish e w1 serverName (FormatInt (uint rid)) msgData of
                (w2, Some err) \<Rightarrow>
                  (s1\<lparr>rworld := w2, calls := calls s1 @ [Returned rid (Inl (PublishFailed err))]\<rparr>, Some (PublishFailed err))
              | (w2, None) \<Rightarrow> (s1\<lparr>rworld := w2, calls := calls s1 @ [Published rid]\<rparr>, None)))"

definition Control_register :: "nat \<Rightarrow> 'w rpc_client \<Rightarrow> 'w rpc_client option" where
  "Control_register i s =
    (if i < length (calls s)
     then case calls s ! i of
            Published rid \<Rightarrow> Some (set_call i (Waiting rid) (s\<lparr>requestTable := (requestTable s)(rid \<mapsto> i)\<rparr>))
          | _ \<Rightarrow> None
     else None)"

definition Control_timeout :: "nat \<Rightarrow> 'w rpc_client \<Rightarrow> 'w rpc_client option" where
  "Control_timeout i s =
    (if i < length (calls s)
     then case calls s ! i of
            Waiting rid \<Rightarrow> Some (set_call i (Leaving rid (Inl TimeoutError)) s)
          | _ \<Rightarrow> None
     else None)"

text \<open>The loop's send and the call's receive happen together.\<close>

definition Control_receive :: "nat \<Rightarrow> 'w rpc_client \<Rightarrow> 'w rpc_client option" where
  "Control_receive i s =
    (case handler s of
       Holding j b \<Rightarrow>
         if i = j \<and> i < length (calls s)
         then case calls s ! i of
                Waiting rid \<Rightarrow> Some (set_call i (Leaving rid (control_reply b)) (s\<lparr>handler := Idle\<rparr>))
              | _ \<Rightarrow> None
         else None
     | _ \<Rightarrow> None)"

text \<open>The deferred function: the id is deleted from the table and the channel is closed.\<close>

definition Control_leave :: "nat \<Rightarrow> 'w rpc_client \<Rightarrow> 'w rpc_client option" where
  "Control_leave i s =
    (if i < length (calls s)
     then case calls s ! i of
            Leaving rid r \<Rightarrow> Some (set_call i (Returned rid r) (s\<lparr>requestTable := (requestTable s)(rid := None)\<rparr>))
          | _ \<Rightarrow> None
     else None)"

subsection \<open>Steps of the response loop\<close>

definition handleResponse :: "string \<times> string \<Rightarrow> 'w rpc_client \<Rightarrow> 'w rpc_client option" where
  "handleResponse d s =
    (if handler s \<noteq> Idle then None
     else Some ((case ParseInt (fst d) of
            None \<Rightarrow> s
          | Some rid \<Rightarrow>
              (case requestTable s (word_of_int rid) of
                 Some i \<Rightarrow> s\<lparr>handler := Holding i (snd d)\<rparr>
               | None \<Rightarrow> s))\<lparr>got := got s @ [d]\<rparr>))"

definition is_returned :: "control \<Rightarrow> bool" where
  "is_returned c = (case c of Returned _ _ \<Rightarrow> True | _ \<Rightarrow> False)"

definition send_on_closed :: "'w rpc_client \<Rightarrow> 'w rpc_client option" where
  "send_on_closed s =
    (case handler s of
       Holding i b \<Rightarrow> if i < length (calls s) \<and> is_returned (calls s ! i) then Some (s\<lparr>handler := Crashed\<rparr>) else None
     | _ \<Rightarrow> None)"

text \<open>Any of these, in any order, until the process has crashed; other processes may act on the world.\<close>

inductive rpc_step :: "'w rpc_env \<Rightarrow> 'w rpc_client \<Rightarrow> 'w rpc_client \<Rightarrow> bool" for e where
  start: "handler s \<noteq> Crashed \<Longrightarrow> Control e dev svc cmd s = (s', r) \<Longrightarrow> rpc_step e s s'"
| register: "handler s \<noteq> Crashed \<Longrightarrow> Control_register i s = Some s' \<Longrightarrow> rpc_step e s s'"
| timeout: "handler s \<noteq> Crashed \<Longrightarrow> Control_timeout i s = Some s' \<Longrightarrow> rpc_step e s s'"
| receive: "Control_receive i s = Some s' \<Longrightarrow> rpc_step e s s'"
| leave: "handler s \<noteq> Crashed \<Longrightarrow> Control_leave i s = Some s' \<Longrightarrow> rpc_step e s s'"
| response: "handleResponse d s = Some s' \<Longrightarrow> rpc_step e s s'"
| panic: "send_on_closed s = Some s' \<Longrightarrow> rpc_step e s s'"
| other: "rpc_step e s (s\<lparr>rworld := w\<rparr>)"

inductive_cases rpc_stepE: "rpc_step e s s'"

end
