(* ===== verification/Rpc_Client_Spec.thy ===== *)
theory Rpc_Client_Spec
  imports Rpc_Client
begin

text \<open>
  What holds in every state that the RPC client reaches (\<open>rpc_inv\<close>): the table and the response loop only
  refer to calls that carry the id, a call leaves with the reply of a response that names its id or with a
  timeout, and the process has crashed only when a response came for a call that had timed out or
  had been answered before. \<open>answered_in_time\<close> is the run in which the reply comes in time.
\<close>

text \<open>A response names an id by its correlation id; \<open>responses ds rid\<close> counts those of the history \<open>ds\<close>.\<close>

definition names :: "string \<Rightarrow> 32 word \<Rightarrow> bool" where
  "names c rid \<longleftrightarrow> (\<exists>n. ParseInt c = Some n \<and> word_of_int n = rid)"

definition responses :: "(string \<times> string) list \<Rightarrow> 32 word \<Rightarrow> nat" where
  "responses ds rid = length (filter (\<lambda>d. names (fst d) rid) ds)"

definition answered :: "(string \<times> string) list \<Rightarrow> 32 word \<Rightarrow> rpc_result \<Rightarrow> bool" where
  "answered ds rid r \<longleftrightarrow> (\<exists>c b. (c, b) \<in> set ds \<and> names c rid \<and> r = control_reply b)"

lemma control_reply_not [simp]:
  "control_reply b \<noteq> Inl TimeoutError" "control_reply b \<noteq> Inl (PublishFailed err)"
  by (auto simp: control_reply_def split: prod.splits bool.splits)

text \<open>How many responses a call has used, and what it may have left with.\<close>

definition used :: "control \<Rightarrow> nat" where
  "used c = (case c of
     Leaving _ r \<Rightarrow> if r = Inl TimeoutError then 0 else 1
   | Returned _ r \<Rightarrow> (case r of Inl TimeoutError \<Rightarrow> 0 | Inl (PublishFailed _) \<Rightarrow> 0 | _ \<Rightarrow> 1)
   | _ \<Rightarrow> 0)"

lemma used_simps [simp]:
  "used (Published r) = 0" "used (Waiting r) = 0" "used (Leaving r (Inl TimeoutError)) = 0"
  "used (Returned r (Inl TimeoutError)) = 0" "used (Returned r (Inl (PublishFailed err))) = 0"
  "used (Leaving r (control_reply b)) = 1"
  by (simp_all add: used_def)

definition left_with :: "(string \<times> string) list \<Rightarrow> control \<Rightarrow> bool" where
  "left_with ds c \<longleftrightarrow> (case c of
     Leaving rid r \<Rightarrow> r = Inl TimeoutError \<or> answered ds rid r
   | Returned rid r \<Rightarrow> r = Inl TimeoutError \<or> (\<exists>err. r = Inl (PublishFailed err)) \<or> answered ds rid r
   | _ \<Rightarrow> True)"

definition holds :: "response_loop \<Rightarrow> nat \<Rightarrow> nat" where
  "holds h i = (case h of Holding j _ \<Rightarrow> if i = j then 1 else 0 | _ \<Rightarrow> 0)"

text \<open>The id of call \<open>i\<close>.\<close>

definition nth_id :: "nat \<Rightarrow> 32 word" where
  "nth_id i = word_of_nat (Suc i)"

definition rpc_inv :: "'w rpc_client \<Rightarrow> bool" where
  "rpc_inv s \<longleftrightarrow>
    requestId s = word_of_nat (length (calls s)) \<and>
    (\<forall>i < length (calls s). call_id (calls s ! i) = nth_id i \<and> left_with (got s) (calls s ! i) \<and>
       holds (handler s) i + used (calls s ! i) \<le> responses (got s) (nth_id i)) \<and>
    (\<forall>rid i. requestTable s rid = Some i \<longrightarrow>
       i < length (calls s) \<and> (calls s ! i = Waiting rid \<or> (\<exists>r. calls s ! i = Leaving rid r))) \<and>
    (\<forall>i b. handler s = Holding i b \<longrightarrow> i < length (calls s) \<and>
       (\<exists>c. (c, b) \<in> set (got s) \<and> names c (nth_id i)) \<and>
       (\<forall>rid. calls s ! i \<noteq> Published rid) \<and> (\<forall>rid err. calls s ! i \<noteq> Returned rid (Inl (PublishFailed err)))) \<and>
    (handler s = Crashed \<longrightarrow> (\<exists>i < length (calls s). \<exists>rid r. calls s ! i = Returned rid r \<and>
       (r = Inl TimeoutError \<or> 2 \<le> responses (got s) rid)))"

lemma rpc_inv_init: "rpc_inv (NewRpcClient w)"
  by (simp add: rpc_inv_def NewRpcClient_def)

lemma left_with_simps [simp]:
  "left_with ds (Published r)" "left_with ds (Waiting r)" "left_with ds (Leaving rid (Inl TimeoutError))"
  "left_with ds (Returned rid (Inl (PublishFailed err)))" "left_with ds (Leaving rid x) \<Longrightarrow> left_with ds (Returned rid x)"
  by (auto simp: left_with_def)

lemma holds_simps [simp]:
  "holds Idle i = 0" "holds Crashed i = 0" "holds (Holding j b) i = (if i = j then 1 else 0)"
  by (simp_all add: holds_def)

lemma rpc_inv_world: "rpc_inv s \<Longrightarrow> rpc_inv (s\<lparr>rworld := w\<rparr>)"
  unfolding rpc_inv_def by simp

text \<open>Starting a call appends it; the other steps of a call change it in place.\<close>

lemma rpc_inv_new_call:
  assumes "rpc_inv s" "handler s \<noteq> Crashed" "c = Published (requestId s + 1) \<or> (\<exists>err. c = Returned (requestId s + 1) (Inl (PublishFailed err)))"
  shows "rpc_inv (s\<lparr>requestId := requestId s + 1, rworld := w, calls := calls s @ [c]\<rparr>)"
proof -
  let ?s = "s\<lparr>requestId := requestId s + 1, rworld := w, calls := calls s @ [c]\<rparr>"
  have c: "call_id c = requestId s + 1" "left_with (got s) c" "used c = 0" using assms(3) by auto
  have h: "holds (handler s) (length (calls s)) = 0" using assms(1) by (cases "handler s") (auto simp: rpc_inv_def)
  have "\<forall>i < length (calls ?s). call_id (calls ?s ! i) = nth_id i \<and> left_with (got ?s) (calls ?s ! i) \<and>
       holds (handler ?s) i + used (calls ?s ! i) \<le> responses (got ?s) (nth_id i)"
    using assms(1) c h by (auto simp: rpc_inv_def nth_append less_Suc_eq nth_id_def)
  moreover have "\<forall>rid i. requestTable ?s rid = Some i \<longrightarrow>
       i < length (calls ?s) \<and> (calls ?s ! i = Waiting rid \<or> (\<exists>r. calls ?s ! i = Leaving rid r))"
    using assms(1) unfolding rpc_inv_def by (fastforce simp: nth_append)
  ultimately show ?thesis using assms(1,2) unfolding rpc_inv_def by (auto simp: nth_append)
qed

lemma rpc_inv_set_call:
  assumes "rpc_inv s" "i < length (calls s)" "handler s \<noteq> Crashed"
    and "call_id c = call_id (calls s ! i)" "left_with (got s) c" "used c = used (calls s ! i)"
    and "\<And>rid. c \<noteq> Published rid" "\<And>rid err. c = Returned rid (Inl (PublishFailed err)) \<Longrightarrow> False"
    and "\<And>rid j. t rid = Some j \<Longrightarrow> j < length (calls s) \<and>
       (if j = i then c = Waiting rid \<or> (\<exists>r. c = Leaving rid r) else requestTable s rid = Some j)"
  shows "rpc_inv (set_call i c (s\<lparr>requestTable := t\<rparr>))"
proof -
  let ?s = "set_call i c (s\<lparr>requestTable := t\<rparr>)"
  have "\<forall>j < length (calls ?s). call_id (calls ?s ! j) = nth_id j \<and> left_with (got ?s) (calls ?s ! j) \<and>
       holds (handler ?s) j + used (calls ?s ! j) \<le> responses (got ?s) (nth_id j)"
    using assms(1,2,4-6) by (auto simp: rpc_inv_def set_call_def nth_list_update)
  moreover have "\<forall>rid j. requestTable ?s rid = Some j \<longrightarrow>
       j < length (calls ?s) \<and> (calls ?s ! j = Waiting rid \<or> (\<exists>r. calls ?s ! j = Leaving rid r))"
  proof (intro allI impI)
    fix rid j
    assume "requestTable ?s rid = Some j"
    then have *: "t rid = Some j" by (simp add: set_call_def)
    show "j < length (calls ?s) \<and> (calls ?s ! j = Waiting rid \<or> (\<exists>r. calls ?s ! j = Leaving rid r))"
      using assms(9)[OF *] assms(1) by (cases "j = i") (auto simp: rpc_inv_def set_call_def)
  qed
  moreover have "\<forall>j b. handler ?s = Holding j b \<longrightarrow> j < length (calls ?s) \<and>
       (\<exists>x. (x, b) \<in> set (got ?s) \<and> names x (nth_id j)) \<and>
       (\<forall>rid. calls ?s ! j \<noteq> Published rid) \<and> (\<forall>rid err. calls ?s ! j \<noteq> Returned rid (Inl (PublishFailed err)))"
    using assms(1,2,4,7,8) by (auto simp: rpc_inv_def set_call_def nth_list_update)
  moreover have "requestId ?s = word_of_nat (length (calls ?s))" "handler ?s \<noteq> Crashed"
    using assms(1,3) by (simp_all add: rpc_inv_def set_call_def)
  ultimately show ?thesis unfolding rpc_inv_def by blast
qed

lemma rpc_inv_receive:
  assumes "rpc_inv s" "handler s = Holding i b" "i < length (calls s)" "calls s ! i = Waiting rid"
  shows "rpc_inv (set_call i (Leaving rid (control_reply b)) (s\<lparr>handler := Idle\<rparr>))"
proof -
  let ?c = "Leaving rid (control_reply b)"
  let ?s = "set_call i ?c (s\<lparr>handler := Idle\<rparr>)"
  obtain x where x: "(x, b) \<in> set (got s)" "names x rid" using assms by (force simp: rpc_inv_def)
  have l: "left_with (got s) ?c" using x by (auto simp: left_with_def answered_def)
  have "\<forall>j < length (calls ?s). call_id (calls ?s ! j) = nth_id j \<and> left_with (got ?s) (calls ?s ! j) \<and>
       holds (handler ?s) j + used (calls ?s ! j) \<le> responses (got ?s) (nth_id j)"
    using assms l by (auto simp: rpc_inv_def set_call_def nth_list_update)
  moreover have "\<forall>q j. requestTable ?s q = Some j \<longrightarrow>
       j < length (calls ?s) \<and> (calls ?s ! j = Waiting q \<or> (\<exists>r. calls ?s ! j = Leaving q r))"
    using assms(1,3,4) unfolding rpc_inv_def by (fastforce simp: set_call_def nth_list_update)
  ultimately show ?thesis using assms unfolding rpc_inv_def by (auto simp: set_call_def nth_list_update)
qed

lemma responses_got: "responses (ds @ [d]) rid = responses ds rid + (if names (fst d) rid then 1 else 0)"
  by (simp add: responses_def)

lemma left_with_got: "left_with ds c \<Longrightarrow> left_with (ds @ [d]) c"
  by (auto simp: left_with_def answered_def split: control.splits)

lemma rpc_inv_response:
  assumes "rpc_inv s" "handleResponse d s = Some s'"
  shows "rpc_inv s'"
proof -
  let ?t = "s\<lparr>got := got s @ [d]\<rparr>"
  have idle: "handler s = Idle" using assms(2) by (simp add: handleResponse_def split: if_splits)
  have t: "rpc_inv ?t" using assms(1) idle
    unfolding rpc_inv_def responses_got by (auto simp: left_with_got responses_got intro: le_trans)
  have "s' = ?t \<or> (\<exists>i. s' = ?t\<lparr>handler := Holding i (snd d)\<rparr> \<and> (\<exists>rid. requestTable s rid = Some i \<and> names (fst d) rid))"
    using assms(2) idle by (auto simp: handleResponse_def names_def split: option.splits)
  then consider "s' = ?t" | i rid where "s' = ?t\<lparr>handler := Holding i (snd d)\<rparr>" "requestTable s rid = Some i" "names (fst d) rid" by blast
  then show ?thesis
  proof cases
    case 1
    then show ?thesis using t by simp
  next
    case 2
    have c: "i < length (calls s)" "calls s ! i = Waiting rid \<or> (\<exists>r. calls s ! i = Leaving rid r)"
      using assms(1) 2(2) by (auto simp: rpc_inv_def)
    then have id: "rid = nth_id i" using assms(1) by (auto simp: rpc_inv_def)
    have "holds (handler s') j + used (calls s ! j) \<le> responses (got s') (nth_id j)" if "j < length (calls s)" for j
      using assms(1) idle that 2 id by (cases "j = i") (auto simp: rpc_inv_def responses_got)
    moreover have "\<forall>j < length (calls s). call_id (calls s ! j) = nth_id j \<and> left_with (got s') (calls s ! j)"
      "requestId s = word_of_nat (length (calls s))"
      "\<forall>q j. requestTable s q = Some j \<longrightarrow> j < length (calls s) \<and> (calls s ! j = Waiting q \<or> (\<exists>r. calls s ! j = Leaving q r))"
      using t 2(1) by (simp_all add: rpc_inv_def)
    moreover have "\<exists>c. (c, snd d) \<in> set (got s') \<and> names c (nth_id i)" using 2 id by (intro exI[of _ "fst d"]) simp
    moreover have "\<forall>q. calls s ! i \<noteq> Published q" "\<forall>q err. calls s ! i \<noteq> Returned q (Inl (PublishFailed err))" using c(2) by auto
    moreover have "calls s' = calls s" "handler s' = Holding i (snd d)" "requestId s' = requestId s" "requestTable s' = requestTable s"
      using 2(1) by simp_all
    ultimately show ?thesis using c(1) unfolding rpc_inv_def by auto
  qed
qed

lemma rpc_inv_panic:
  assumes "rpc_inv s" "send_on_closed s = Some s'"
  shows "rpc_inv s'"
proof -
  obtain i b where h: "handler s = Holding i b" "i < length (calls s)" "is_returned (calls s ! i)" "s' = s\<lparr>handler := Crashed\<rparr>"
    using assms(2) by (auto simp: send_on_closed_def split: response_loop.splits if_splits)
  then obtain rid r where r: "calls s ! i = Returned rid r" by (auto simp: is_returned_def split: control.splits)
  have "r = Inl TimeoutError \<or> used (calls s ! i) = 1"
    using assms(1) h(1) r by (auto simp: rpc_inv_def used_def split: sum.splits rpc_error.splits)
  moreover have "holds (handler s) i + used (calls s ! i) \<le> responses (got s) rid" using assms(1) h(1,2) r by (force simp: rpc_inv_def)
  ultimately have "r = Inl TimeoutError \<or> 2 \<le> responses (got s) rid" using h(1) by auto
  then show ?thesis using assms(1) h r unfolding rpc_inv_def by (auto intro: order_trans[OF le_add2])
qed

lemma table_call: "rpc_inv s \<Longrightarrow> requestTable s q = Some j \<Longrightarrow>
    j < length (calls s) \<and> (calls s ! j = Waiting q \<or> (\<exists>r. calls s ! j = Leaving q r))"
  by (simp add: rpc_inv_def)

lemma rpc_inv_start:
  assumes "rpc_inv s" "handler s \<noteq> Crashed" "Control e dev svc cmd s = (s', r)"
  shows "rpc_inv s'"
proof -
  obtain w1 x where d: "CheckDevice (rstore e) (rworld s) dev = (w1, x)" by (rule prod.exhaust)
  let ?b = "json_text (enc_MQ_Msg_Crtl \<lparr>mc_DeviceId = dev, mc_Service = svc, mc_Cmd = cmd\<rparr>)"
  show ?thesis
  proof (cases "x = Inr [] \<or> (\<exists>err. x = Inl err)")
    case True
    then have "s' = s\<lparr>rworld := w1\<rparr>" using assms(3) d by (auto simp: Control_def)
    then show ?thesis using rpc_inv_world[OF assms(1)] by simp
  next
    case False
    then obtain n where n: "x = Inr n" "n \<noteq> []" by (cases x) auto
    obtain w2 y where p: "rpublish e w1 n (FormatInt (uint (requestId s + 1))) ?b = (w2, y)" by (rule prod.exhaust)
    have "s' = s\<lparr>requestId := requestId s + 1, rworld := w2, calls := calls s @
        [case y of None \<Rightarrow> Published (requestId s + 1) | Some err \<Rightarrow> Returned (requestId s + 1) (Inl (PublishFailed err))]\<rparr>"
      using assms(3) d n p by (cases y) (simp_all add: Control_def nextReqeustId_def)
    then show ?thesis using rpc_inv_new_call[OF assms(1,2)] by (simp split: option.split)
  qed
qed

lemma rpc_inv_step:
  assumes "rpc_step e s s'" "rpc_inv s"
  shows "rpc_inv s'"
  using assms
proof (induction rule: rpc_step.induct)
  case (start s dev svc cmd s' r)
  show ?case by (rule rpc_inv_start[OF start.prems start.hyps])
next
  case (register s i s')
  then obtain rid where c: "i < length (calls s)" "calls s ! i = Published rid"
    "s' = set_call i (Waiting rid) (s\<lparr>requestTable := (requestTable s)(rid \<mapsto> i)\<rparr>)"
    by (auto simp: Control_register_def split: if_splits control.splits)
  note t = table_call[OF register.prems]
  show ?case unfolding c(3)
    by (rule rpc_inv_set_call[OF register.prems c(1) register.hyps(1)]) (use c in \<open>auto dest: t split: if_splits\<close>)
next
  case (timeout s i s')
  then obtain rid where c: "i < length (calls s)" "calls s ! i = Waiting rid"
    "s' = set_call i (Leaving rid (Inl TimeoutError)) (s\<lparr>requestTable := requestTable s\<rparr>)"
    by (auto simp: Control_timeout_def split: if_splits control.splits)
  note t = table_call[OF timeout.prems]
  show ?case unfolding c(3)
    by (rule rpc_inv_set_call[OF timeout.prems c(1) timeout.hyps(1)]) (use c in \<open>auto dest: t\<close>)
next
  case (receive i s s')
  then show ?case by (auto simp: Control_receive_def intro: rpc_inv_receive split: response_loop.splits if_splits control.splits)
next
  case (leave s i s')
  then obtain rid r where c: "i < length (calls s)" "calls s ! i = Leaving rid r"
    "s' = set_call i (Returned rid r) (s\<lparr>requestTable := (requestTable s)(rid := None)\<rparr>)"
    by (auto simp: Control_leave_def split: if_splits control.splits)
  have l: "left_with (got s) (Leaving rid r)" using leave.prems c(1,2) by (force simp: rpc_inv_def)
  then have u: "left_with (got s) (Returned rid r)" "used (Returned rid r) = used (Leaving rid r)" "r \<noteq> Inl (PublishFailed err)" for err
    by (auto simp: left_with_def answered_def used_def control_reply_not[symmetric] split: sum.split rpc_error.split dest: sym)
  note t = table_call[OF leave.prems]
  show ?case unfolding c(3)
    by (rule rpc_inv_set_call[OF leave.prems c(1) leave.hyps(1)]) (use c u in \<open>auto dest: t split: if_splits\<close>)
next
  case (response d s s')
  show ?case by (rule rpc_inv_response[OF response.prems response.hyps])
next
  case (panic s s')
  show ?case by (rule rpc_inv_panic[OF panic.prems panic.hyps])
next
  case (other s w)
  then show ?case by (simp add: rpc_inv_world)
qed

definition rpc_reachable :: "'w rpc_env \<Rightarrow> 'w \<Rightarrow> 'w rpc_client \<Rightarrow> bool" where
  "rpc_reachable e w s \<longleftrightarrow> (rpc_step e)\<^sup>*\<^sup>* (NewRpcClient w) s"

lemma rpc_reachable_inv: "rpc_reachable e w s \<Longrightarrow> rpc_inv s"
  unfolding rpc_reachable_def
  by (induction rule: rtranclp_induct) (auto intro: rpc_inv_init rpc_inv_step)

lemma rpc_reachable_init: "rpc_reachable e w (NewRpcClient w)"
  by (simp add: rpc_reachable_def)

lemma rpc_reachable_step: "rpc_reachable e w s \<Longrightarrow> rpc_step e s s' \<Longrightarrow> rpc_reachable e w s'"
  by (simp add: rpc_reachable_def)

text \<open>No two of the first \<open>2 ^ 32\<close> calls have the same id.\<close>

lemma nth_id_inj: "nth_id i = nth_id j \<Longrightarrow> i < 2 ^ 32 \<Longrightarrow> j < 2 ^ 32 \<Longrightarrow> i = j"
proof -
  assume e: "nth_id i = nth_id j" and i: "i < 2 ^ 32" and j: "j < 2 ^ 32"
  have "(word_of_nat i :: 32 word) = word_of_nat j" using e by (simp add: nth_id_def)
  then have "unat (word_of_nat i :: 32 word) = unat (word_of_nat j :: 32 word)" by simp
  then show "i = j" using i j by (simp add: unat_of_nat take_bit_nat_eq_self)
qed

end
