(* ===== verification/Rpc_Server.thy ===== *)
theory Rpc_Server
  imports Rpc_Client Comet_Push
begin

text \<open>
  \<open>mq/rpc_server.go\<close>: commands from the message queue to the devices of this server. Every request runs in a
  goroutine of its own: \<open>handleRpcRequest\<close> up to its wait (it queues the command for the device with a
  reply channel), \<open>rpc_reply\<close> when the reply arrives on the channel, \<open>rpc_timeout\<close> when it does not.
  \<open>sv_waits\<close> holds the waiting requests by their channels (client, sequence number, reply queue and
  correlation id), \<open>sv_sent\<close> the responses handed to the publisher, whose errors are only logged. A message
  that a handler sends on a channel is in \<open>delivered\<close> until it is received; channels are unbuffered, so
  the handler waits for that.
\<close>

record 'w rpc_server =
  sv_comet :: "'w comet"
  sv_waits :: "nat \<Rightarrow> (nat \<times> 32 word \<times> string \<times> string) option"
  sv_fresh :: nat
  sv_sent :: "(string \<times> string \<times> string) list"

definition SendRpcResponse :: "string \<Rightarrow> string \<Rightarrow> MQ_Msg_CtrlReply \<Rightarrow> 'w rpc_server \<Rightarrow> 'w rpc_server" where
  "SendRpcResponse callbackQueue correlationId resp s =
    s\<lparr>sv_sent := sv_sent s @ [(callbackQueue, correlationId, json_text (enc_MQ_Msg_CtrlReply resp))]\<rparr>"

definition rpc_status :: "int \<Rightarrow> MQ_Msg_CtrlReply" where
  "rpc_status st = \<lparr>mr_Status = st, mr_Result = []\<rparr>"

definition handleRpcRequest :: "MQ_Msg_Crtl \<Rightarrow> string \<Rightarrow> string \<Rightarrow> 'w rpc_server \<Rightarrow> 'w rpc_server" where
  "handleRpcRequest msg replyTo correlationId s =
    (case Get (DevicesMap (sv_comet s)) (mc_DeviceId msg) of
       None \<Rightarrow> SendRpcResponse replyTo correlationId (rpc_status STATUS_NO_DEVICE) s
     | Some client \<Rightarrow>
         (let ch = sv_fresh s; s1 = s\<lparr>sv_fresh := Suc ch\<rparr>;
              bCmd = json_text (enc_CommandMessage \<lparr>cm_Service = mc_Service msg, cm_Cmd = mc_Cmd msg\<rparr>)
          in case SendMessage client MSG_CMD 0 (Some bCmd) (Some ch) (sv_comet s) of
               (c1, seq, False) \<Rightarrow> SendRpcResponse replyTo correlationId (rpc_status STATUS_SEND_FAILED) (s1\<lparr>sv_comet := c1\<rparr>)
             | (c1, seq, True) \<Rightarrow>
                 s1\<lparr>sv_comet := c1, sv_waits := (sv_waits s)(ch \<mapsto> (client, seq, replyTo, correlationId))\<rparr>))"

text \<open>One delivery: a body that is no command is dropped.\<close>

definition handleDeliveries_turn :: "string \<times> string \<times> string \<Rightarrow> 'w rpc_server \<Rightarrow> 'w rpc_server" where
  "handleDeliveries_turn d s =
    (case d of (replyTo, correlationId, body) \<Rightarrow>
      case Unmarshal dec_MQ_Msg_Crtl body \<lparr>mc_DeviceId = [], mc_Service = [], mc_Cmd = []\<rparr> of
        (_, False) \<Rightarrow> s
      | (msg, True) \<Rightarrow> handleRpcRequest msg replyTo correlationId s)"

text \<open>The first case of the \<open>select\<close>; a reply that cannot be decoded counts with what was decoded of it.\<close>

definition rpc_reply :: "nat \<Rightarrow> Message \<Rightarrow> 'w rpc_server \<Rightarrow> 'w rpc_server option" where
  "rpc_reply ch reply s =
    (case sv_waits s ch of
       Some (client, seq, replyTo, correlationId) \<Rightarrow>
         if (ch, reply) \<in> set (delivered (sv_comet s))
         then let resp = fst (Unmarshal dec_CommandReplyMessage (mg_Data reply) zero_CommandReplyMessage)
              in Some (SendRpcResponse replyTo correlationId \<lparr>mr_Status = cr_Status resp, mr_Result = cr_Result resp\<rparr>
                   (s\<lparr>sv_comet := (sv_comet s)\<lparr>delivered := remove1 (ch, reply) (delivered (sv_comet s))\<rparr>,
                      sv_waits := (sv_waits s)(ch := None)\<rparr>))
         else None
     | None \<Rightarrow> None)"

definition rpc_timeout :: "nat \<Rightarrow> 'w rpc_server \<Rightarrow> 'w rpc_server option" where
  "rpc_timeout ch s =
    (case sv_waits s ch of
       Some (client, seq, replyTo, correlationId) \<Rightarrow>
         Some (SendRpcResponse replyTo correlationId (rpc_status STATUS_SEND_TIMEOUT)
           (s\<lparr>sv_comet := MsgTimeout client seq (sv_comet s), sv_waits := (sv_waits s)(ch := None)\<rparr>))
     | None \<Rightarrow> None)"

subsection \<open>A command that reaches its device\<close>

text \<open>The client of a device that a command can be sent to at once: open, with room for a reply, nothing
  queued before it, and a socket that takes what is written.\<close>

definition sendable_now :: "'w env \<Rightarrow> nat \<Rightarrow> 'w comet \<Rightarrow> bool" where
  "sendable_now e c s \<longleftrightarrow>
    \<not> cl_closed (client_heap s c) \<and> card (dom (cl_replyChannels (client_heap s c))) < MAX_WAITING_MSGS \<and>
    worker_jobs s (cl_jobChannel (client_heap s c)) = [] \<and> cl_conn (client_heap s c) \<notin> closed_conns s \<and>
    (\<forall>w b. snd (conn_write e w (cl_conn (client_heap s c)) b) = None)"

lemma conn_Write_whole:
  assumes "cn \<notin> closed_conns s" "snd (conn_write e (world s) cn b) = None"
  obtains w where "conn_Write e cn b s = (s\<lparr>world := w, wire := (wire s)(cn := wire s cn @ b)\<rparr>, True)"
proof -
  obtain w r where "conn_write e (world s) cn b = (w, r)" by (rule prod.exhaust)
  then have "conn_Write e cn b s = (s\<lparr>world := w, wire := (wire s)(cn := wire s cn @ b)\<rparr>, True)"
    using assms by (simp add: conn_Write_def)
  then show ?thesis by (rule that)
qed

text \<open>The request queues one command, and the worker writes it and then registers the channel under its
  sequence number, whether or not the request still waits.\<close>

lemma handleRpcRequest_sends:
  assumes "Get (DevicesMap (sv_comet s)) (mc_DeviceId msg) = Some c" "sendable_now e c (sv_comet s)"
  shows "\<exists>b seq. handleRpcRequest msg q cid s = s\<lparr>sv_fresh := Suc (sv_fresh s),
      sv_waits := (sv_waits s)(sv_fresh s \<mapsto> (c, seq, q, cid)),
      sv_comet := put_job c (SendJob c \<lparr>hd_Type = MSG_CMD, hd_Ver = 0, hd_Seq = seq, hd_Len = word_of_nat (length b)\<rparr>
        (Some b) seq (Some (sv_fresh s))) (upd_client c (cl_nextSeq_update (\<lambda>_. seq)) (sv_comet s))\<rparr> \<and>
    seq = cl_nextSeq (client_heap (sv_comet s) c) + 1 \<and>
    b = json_text (enc_CommandMessage \<lparr>cm_Service = mc_Service msg, cm_Cmd = mc_Cmd msg\<rparr>)"
  using assms by (simp add: handleRpcRequest_def SendMessage_def NextSeq_def sendable_now_def Let_def)

lemma SendJob_registers:
  assumes "\<not> cl_closed (client_heap s c)" "cl_conn (client_heap s c) \<notin> closed_conns s"
    "\<forall>w b. snd (conn_write e w (cl_conn (client_heap s c)) b) = None"
  shows "\<exists>w. SendJob_Do e c h (Some b) seq (Some ch) s =
    upd_client c (cl_replyChannels_update (\<lambda>m. m(seq \<mapsto> ch)))
      (s\<lparr>world := w, wire := (wire s)(cl_conn (client_heap s c) := wire s (cl_conn (client_heap s c)) @ Serialize (h\<lparr>hd_Seq := seq\<rparr>) @ b)\<rparr>)"
proof -
  let ?cn = "cl_conn (client_heap s c)" and ?h = "Serialize (h\<lparr>hd_Seq := seq\<rparr>)"
  obtain w1 where 1: "conn_Write e ?cn ?h s = (s\<lparr>world := w1, wire := (wire s)(?cn := wire s ?cn @ ?h)\<rparr>, True)"
    by (rule conn_Write_whole[OF assms(2)]) (use assms(3) in blast)
  let ?s = "s\<lparr>world := w1, wire := (wire s)(?cn := wire s ?cn @ ?h)\<rparr>"
  obtain w2 where 2: "conn_Write e ?cn b ?s = (?s\<lparr>world := w2, wire := (wire ?s)(?cn := wire ?s ?cn @ b)\<rparr>, True)"
    by (rule conn_Write_whole[of ?cn ?s e b]) (use assms(2,3) in simp_all)
  show ?thesis using assms(1) by (intro exI[of _ w2]) (simp add: SendJob_Do_def Let_def 1 2[simplified])
qed

end
