(* ===== verification/Rpc_Properties.thy ===== *)
theory Rpc_Properties
  imports Rpc_Client_Spec Rpc_Server Comet_Example
begin

text \<open>
  The properties of remote calls, with runs of the RPC client over a small storage as examples.
\<close>

text \<open>An environment in which every device is connected to server \<open>s1\<close> and publishing succeeds.\<close>

definition ex_rpc_env :: "mem rpc_env" where
  "ex_rpc_env = \<lparr>rstore = mem_store\<lparr>CheckDevice := \<lambda>w d. (w, Inr ''s1'')\<rparr>, rpublish = \<lambda>w k c b. (w, None)\<rparr>"

definition ex_called :: "mem rpc_client" where
  "ex_called = (NewRpcClient mem_empty)\<lparr>requestId := 1, calls := [Waiting 1], requestTable := [1 \<mapsto> 0]\<rparr>"

lemma ex_called_reachable: "rpc_reachable ex_rpc_env mem_empty ex_called"
proof -
  let ?s = "(NewRpcClient mem_empty)\<lparr>requestId := 1, calls := [Published 1]\<rparr>"
  have "rpc_step ex_rpc_env (NewRpcClient mem_empty) ?s"
    by (rule rpc_step.start[where dev = "[]" and svc = "[]" and cmd = "[]" and r = None])
      (simp_all add: Control_def ex_rpc_env_def NewRpcClient_def nextReqeustId_def)
  moreover have "rpc_step ex_rpc_env ?s ex_called"
    by (rule rpc_step.register[where i = 0]) (simp_all add: Control_register_def set_call_def ex_called_def NewRpcClient_def)
  ultimately show ?thesis by (blast intro: rpc_reachable_step rpc_reachable_init)
qed

lemma ex_number: "ParseInt ''1'' = Some 1"
  by code_simp

text \<open>C30: Every call of \<open>Control\<close> gets its own answer: what a returned call brings back is what a response
  says that carries the call's own request id, unless the call timed out or its command was not published; the ids of
  the first \<open>2 ^ 32\<close> calls are distinct.\<close>

theorem call_gets_its_answer:
  assumes "rpc_reachable e w s" "i < length (calls s)" "calls s ! i = Returned rid r"
  shows "rid = nth_id i \<and> (r = Inl TimeoutError \<or> (\<exists>err. r = Inl (PublishFailed err)) \<or>
      (\<exists>c b. (c, b) \<in> set (got s) \<and> names c rid \<and> r = control_reply b)) \<and>
    (\<forall>j < length (calls s). length (calls s) \<le> 2 ^ 32 \<longrightarrow> call_id (calls s ! j) = rid \<longrightarrow> j = i)"
proof -
  have inv: "rpc_inv s" by (rule rpc_reachable_inv[OF assms(1)])
  have id: "call_id (calls s ! j) = nth_id j" if "j < length (calls s)" for j using inv that by (simp add: rpc_inv_def)
  have "left_with (got s) (Returned rid r)" using inv assms(2,3) by (force simp: rpc_inv_def)
  then show ?thesis using id[OF assms(2)] assms(2,3) id nth_id_inj[of _ i]
    by (auto simp: left_with_def answered_def)
qed

text \<open>A call that is answered with status 0 and result \<open>ok\<close>.\<close>

definition ex_reply :: string where
  "ex_reply = json_text (enc_MQ_Msg_CtrlReply \<lparr>mr_Status = 0, mr_Result = ''ok''\<rparr>)"

lemma ex_reply_ok: "control_reply ex_reply = Inr ''ok''"
  by (simp add: control_reply_def ex_reply_def Unmarshal_text reply_text reply_decoded int64_range_def status_defs)

definition ex_returned :: "rpc_result \<Rightarrow> mem rpc_client" where
  "ex_returned r = ex_called\<lparr>calls := [Returned 1 r], requestTable := Map.empty\<rparr>"

lemma ex_answered: "rpc_reachable ex_rpc_env mem_empty (ex_returned (Inr ''ok'')\<lparr>got := [(''1'', ex_reply)]\<rparr>)"
proof -
  let ?t = "ex_called\<lparr>got := [(''1'', ex_reply)], handler := Holding 0 ex_reply\<rparr>"
  let ?u = "ex_called\<lparr>got := [(''1'', ex_reply)], calls := [Leaving 1 (Inr ''ok'')]\<rparr>"
  have "rpc_step ex_rpc_env ex_called ?t"
    by (rule rpc_step.response[where d = "(''1'', ex_reply)"]) (simp add: handleResponse_def ex_called_def NewRpcClient_def ex_number)
  moreover have "rpc_step ex_rpc_env ?t ?u"
    by (rule rpc_step.receive[where i = 0])
      (simp add: Control_receive_def ex_called_def NewRpcClient_def set_call_def ex_reply_ok)
  moreover have "rpc_step ex_rpc_env ?u (ex_returned (Inr ''ok'')\<lparr>got := [(''1'', ex_reply)]\<rparr>)"
    by (rule rpc_step.leave[where i = 0]) (simp_all add: Control_leave_def ex_called_def NewRpcClient_def set_call_def ex_returned_def)
  ultimately show ?thesis using ex_called_reachable by (blast intro: rpc_reachable_step)
qed

theorem call_gets_its_answer_witness:
  "\<exists>c b. (c, b) \<in> set [(''1'', ex_reply)] \<and> names c 1 \<and> Inr ''ok'' = control_reply b"
  using call_gets_its_answer[OF ex_answered, of 0 1 "Inr ''ok''"] by (simp add: ex_returned_def ex_called_def)


text \<open>A run that ends so: the response is looked up, the call times out and closes its channel, the loop sends.\<close>

definition ex_crashed :: "mem rpc_client" where
  "ex_crashed = ex_returned (Inl TimeoutError)\<lparr>got := [(''1'', ex_reply)], handler := Crashed\<rparr>"

lemma ex_crash: "rpc_reachable ex_rpc_env mem_empty ex_crashed"
proof -
  let ?t = "ex_called\<lparr>got := [(''1'', ex_reply)], handler := Holding 0 ex_reply\<rparr>"
  let ?u = "?t\<lparr>calls := [Leaving 1 (Inl TimeoutError)]\<rparr>"
  let ?v = "ex_crashed\<lparr>handler := Holding 0 ex_reply\<rparr>"
  have "rpc_step ex_rpc_env ex_called ?t"
    by (rule rpc_step.response[where d = "(''1'', ex_reply)"]) (simp add: handleResponse_def ex_called_def NewRpcClient_def ex_number)
  moreover have "rpc_step ex_rpc_env ?t ?u"
    by (rule rpc_step.timeout[where i = 0]) (simp_all add: Control_timeout_def ex_called_def NewRpcClient_def set_call_def)
  moreover have "rpc_step ex_rpc_env ?u ?v"
    by (rule rpc_step.leave[where i = 0])
      (simp_all add: Control_leave_def ex_called_def NewRpcClient_def set_call_def ex_returned_def ex_crashed_def)
  moreover have "rpc_step ex_rpc_env ?v ex_crashed"
    by (rule rpc_step.panic)
      (simp add: send_on_closed_def is_returned_def ex_called_def NewRpcClient_def ex_returned_def ex_crashed_def)
  ultimately show ?thesis using ex_called_reachable by (blast intro: rpc_reachable_step)
qed


subsection \<open>Commands to a device\<close>

text \<open>The state after a request for a device that is ready, and its command job.\<close>

definition cmd_body :: "MQ_Msg_Crtl \<Rightarrow> string" where
  "cmd_body msg = json_text (enc_CommandMessage \<lparr>cm_Service = mc_Service msg, cm_Cmd = mc_Cmd msg\<rparr>)"

definition cmd_header :: "MQ_Msg_Crtl \<Rightarrow> 32 word \<Rightarrow> Header" where
  "cmd_header msg seq = \<lparr>hd_Type = MSG_CMD, hd_Ver = 0, hd_Seq = seq, hd_Len = word_of_nat (length (cmd_body msg))\<rparr>"

lemma cmd_header_seq [simp]: "(cmd_header msg seq)\<lparr>hd_Seq := seq\<rparr> = cmd_header msg seq"
  by (simp add: cmd_header_def)

lemma request_queued:
  assumes "Get (DevicesMap (sv_comet s)) (mc_DeviceId msg) = Some c" "sendable_now e c (sv_comet s)"
    and "seq = cl_nextSeq (client_heap (sv_comet s) c) + 1"
  shows "handleRpcRequest msg q cid s = s\<lparr>sv_fresh := Suc (sv_fresh s),
      sv_waits := (sv_waits s)(sv_fresh s \<mapsto> (c, seq, q, cid)),
      sv_comet := put_job c (SendJob c (cmd_header msg seq) (Some (cmd_body msg)) seq (Some (sv_fresh s)))
        (upd_client c (cl_nextSeq_update (\<lambda>_. seq)) (sv_comet s))\<rparr>"
  using handleRpcRequest_sends[OF assms(1,2), of q cid] assms(3) by (simp add: cmd_header_def cmd_body_def)

lemma command_written:
  assumes "sendable_now e c s" "n = cl_jobChannel (client_heap s c)" "cn = cl_conn (client_heap s c)"
    and "t = put_job c (SendJob c (cmd_header msg seq) (Some (cmd_body msg)) seq (Some ch)) (upd_client c f s)"
    and "\<And>x. cl_closed (f x) = cl_closed x \<and> cl_conn (f x) = cl_conn x \<and> cl_jobChannel (f x) = cl_jobChannel x"
  shows "\<exists>t'. Worker_turn e n t = Some t' \<and> wire t' cn = wire s cn @ Serialize (cmd_header msg seq) @ cmd_body msg \<and>
    cl_replyChannels (client_heap t' c) seq = Some ch \<and> delivered t' = delivered s"
proof -
  let ?j = "SendJob c (cmd_header msg seq) (Some (cmd_body msg)) seq (Some ch)"
  let ?u = "t\<lparr>worker_jobs := (worker_jobs t)(n := [])\<rparr>"
  have j: "worker_jobs t n = [?j]" using assms(1,2,4,5) by (simp add: sendable_now_def)
  have c: "client_heap ?u c = f (client_heap s c)" "closed_conns ?u = closed_conns s" "wire ?u = wire s" "delivered ?u = delivered s"
    using assms(4) by simp_all
  have "\<exists>w. SendJob_Do e c (cmd_header msg seq) (Some (cmd_body msg)) seq (Some ch) ?u =
    upd_client c (cl_replyChannels_update (\<lambda>m. m(seq \<mapsto> ch)))
      (?u\<lparr>world := w, wire := (wire ?u)(cl_conn (client_heap ?u c) := wire ?u (cl_conn (client_heap ?u c)) @
        Serialize ((cmd_header msg seq)\<lparr>hd_Seq := seq\<rparr>) @ cmd_body msg)\<rparr>)"
    by (rule SendJob_registers) (use assms(1,5) c in \<open>simp_all add: sendable_now_def\<close>)
  then obtain w where "SendJob_Do e c (cmd_header msg seq) (Some (cmd_body msg)) seq (Some ch) ?u =
    upd_client c (cl_replyChannels_update (\<lambda>m. m(seq \<mapsto> ch)))
      (?u\<lparr>world := w, wire := (wire s)(cn := wire s cn @ Serialize (cmd_header msg seq) @ cmd_body msg)\<rparr>)"
    using c assms(3,5) by auto
  then have "Worker_turn e n t = Some (upd_client c (cl_replyChannels_update (\<lambda>m. m(seq \<mapsto> ch)))
      (?u\<lparr>world := w, wire := (wire s)(cn := wire s cn @ Serialize (cmd_header msg seq) @ cmd_body msg)\<rparr>))"
    using j by (simp add: Worker_turn_def Do_def)
  then show ?thesis using c(4) by simp
qed

lemma cmd_reply_decoded: "int64_range st \<Longrightarrow> Unmarshal dec_CommandReplyMessage (json_text (enc_CommandReplyMessage \<lparr>cr_Status = st, cr_Result = res\<rparr>)) x =
    (x\<lparr>cr_Status := st, cr_Result := res\<rparr>, True)"
proof -
  have w: "wf_json (enc_CommandReplyMessage \<lparr>cr_Status = st, cr_Result = res\<rparr>)"
    by (simp add: enc_CommandReplyMessage_def member_def)
  show "int64_range st \<Longrightarrow> ?thesis"
    unfolding Unmarshal_text[OF w] by (simp add: enc_CommandReplyMessage_def dec_CommandReplyMessage_def dec_struct_def member_def
      find_field_def field_def dec_string_def dec_int64_def jint_def ParseInt_FormatInt)
qed

text \<open>C27: A command goes to its device and the device's reply comes back: for a client that is ready the request
  queues one job, the worker writes the command's header and body to the device, and a reply with the
  command's sequence number is answered on the caller's queue with the caller's correlation id,
  as what \<open>Control\<close> returns: the result for status 0, and the error of the status otherwise.\<close>

theorem command_round_trip:
  assumes "Get (DevicesMap (sv_comet s)) (mc_DeviceId msg) = Some c" "sendable_now e c (sv_comet s)"
    and "seq = cl_nextSeq (client_heap (sv_comet s) c) + 1" "cn = cl_conn (client_heap (sv_comet s) c)"
    and "hd_Seq h = seq" "body = json_text (enc_CommandReplyMessage \<lparr>cr_Status = st, cr_Result = res\<rparr>)" "int64_range st"
    and "s1 = handleRpcRequest msg q cid s"
  shows "\<exists>c2 c3 s4 text. Worker_turn e (cl_jobChannel (client_heap (sv_comet s) c)) (sv_comet s1) = Some c2 \<and>
    wire c2 cn = wire (sv_comet s) cn @ Serialize (cmd_header msg seq) @ cmd_body msg \<and>
    handleCmdReply e c h body c2 = Some (c3, 0) \<and>
    rpc_reply (sv_fresh s) \<lparr>mg_Header = Some h, mg_Data = body\<rparr> (s1\<lparr>sv_comet := c3\<rparr>) = Some s4 \<and>
    sv_sent s4 = sv_sent s @ [(q, cid, text)] \<and>
    control_reply text = (if st = 0 then Inr res else if st = 1 then Inl InvalidServiceError
      else if st = 2 then Inl SdkError else Inl (OtherStatus st))"
proof -
  note s1 = assms(8)[unfolded request_queued[OF assms(1,2,3)]]
  have s1c: "sv_comet s1 = put_job c (SendJob c (cmd_header msg seq) (Some (cmd_body msg)) seq (Some (sv_fresh s)))
      (upd_client c (cl_nextSeq_update (\<lambda>_. seq)) (sv_comet s))" using s1 by simp
  obtain c2 where c2: "Worker_turn e (cl_jobChannel (client_heap (sv_comet s) c)) (sv_comet s1) = Some c2"
    "wire c2 cn = wire (sv_comet s) cn @ Serialize (cmd_header msg seq) @ cmd_body msg"
    "cl_replyChannels (client_heap c2 c) seq = Some (sv_fresh s)"
    using command_written[OF assms(2) refl assms(4) s1c] by auto
  let ?m = "\<lparr>mg_Header = Some h, mg_Data = body\<rparr>"
  obtain c3 where c3: "handleCmdReply e c h body c2 = Some (c3, 0)" "(sv_fresh s, ?m) \<in> set (delivered c3)"
    using c2(3) assms(5) by (simp add: handleCmdReply_def Let_def)
  let ?t = "json_text (enc_MQ_Msg_CtrlReply \<lparr>mr_Status = st, mr_Result = res\<rparr>)"
  obtain s4 where s4: "rpc_reply (sv_fresh s) ?m (s1\<lparr>sv_comet := c3\<rparr>) = Some s4" "sv_sent s4 = sv_sent s @ [(q, cid, ?t)]"
    using c3(2) s1 assms(6) cmd_reply_decoded[OF assms(7), of res zero_CommandReplyMessage]
    by (simp add: rpc_reply_def SendRpcResponse_def)
  have "control_reply ?t = (if st = 0 then Inr res else if st = 1 then Inl InvalidServiceError
      else if st = 2 then Inl SdkError else Inl (OtherStatus st))"
    by (simp add: control_reply_def Unmarshal_text reply_text reply_decoded assms(7) status_defs)
  then show ?thesis using c2(1,2) c3(1) s4 by blast
qed

text \<open>The server \<open>ex_comet\<close> and a command for device \<open>d1\<close>.\<close>

definition ex_rpc_server :: "mem rpc_server" where
  "ex_rpc_server = \<lparr>sv_comet = ex_comet, sv_waits = Map.empty, sv_fresh = 0, sv_sent = []\<rparr>"

definition ex_cmd :: MQ_Msg_Crtl where
  "ex_cmd = \<lparr>mc_DeviceId = ''d1'', mc_Service = ''svc'', mc_Cmd = ''reboot''\<rparr>"

lemma ex_cmd_ready: "Get (DevicesMap (sv_comet ex_rpc_server)) (mc_DeviceId ex_cmd) = Some 1" "sendable_now mem_env 1 (sv_comet ex_rpc_server)"
  "cl_nextSeq (client_heap (sv_comet ex_rpc_server) 1) = 1"
  by (simp_all add: ex_rpc_server_def ex_cmd_def ex_simps Get_mp sendable_now_def MAX_WAITING_MSGS_def)

theorem command_round_trip_witness:
  "\<exists>c2 c3 (s4 :: mem rpc_server) text. handleCmdReply mem_env 1 (makeHeader MSG_CMD_REPLY 2 0) (json_text (enc_CommandReplyMessage \<lparr>cr_Status = 0, cr_Result = ''ok''\<rparr>)) c2 = Some (c3, 0) \<and>
    sv_sent s4 = [(''queue'', ''1'', text)] \<and> control_reply text = Inr ''ok''"
proof -
  have r: "int64_range 0" by (simp add: int64_range_def)
  have h: "hd_Seq (makeHeader MSG_CMD_REPLY 2 0) = cl_nextSeq (client_heap (sv_comet ex_rpc_server) 1) + 1"
    unfolding ex_cmd_ready(3) by (simp add: makeHeader_def)
  have sent: "sv_sent ex_rpc_server @ [x] = [x]" for x by (simp add: ex_rpc_server_def)
  show ?thesis
    using command_round_trip[OF ex_cmd_ready(1,2) refl refl h refl r refl, where res = "''ok''" and q = "''queue''" and cid = "''1''"]
    unfolding sent if_P[OF refl] by blast
qed



end
