(* ===== verification/Devcenter.thy ===== *)
theory Devcenter
  imports Auth
begin

text \<open>
  \<open>devcenter/devcenter.go\<close>: questions to the device centre over HTTP. The call is the parameter \<open>get\<close>, as in
  \<open>auth\<close>; \<open>centre\<close> is the configured host. The text of an error of \<open>encoding/json\<close> is the function
  \<open>jerr\<close> of the text that was decoded.
\<close>

definition DEV_ROUTER :: int where "DEV_ROUTER = 3"

definition ERR_NOERROR :: int where "ERR_NOERROR = 10000"

record Device =
  dv_Id :: string
  dv_Type :: int
  dv_Title :: string

record devicesResult =
  dr_ErrNo :: int
  dr_ErrMsg :: string
  dr_UserOpenId :: int
  dr_DeviceList :: "Device list option"

definition dec_Device :: "Device decoder" where
  "dec_Device = dec_struct
    [field ''id'' dv_Id dv_Id_update dec_string,
     field ''type'' dv_Type dv_Type_update dec_int64,
     field ''title'' dv_Title dv_Title_update dec_string]"

definition zero_Device :: Device where
  "zero_Device = \<lparr>dv_Id = [], dv_Type = 0, dv_Title = []\<rparr>"

text \<open>The struct \<open>Data\<close> is part of its parent, so its decoder works on the parent.\<close>

definition dec_devicesResult :: "devicesResult decoder" where
  "dec_devicesResult = dec_struct
    [field ''errno'' dr_ErrNo dr_ErrNo_update dec_int64,
     field ''errmsg'' dr_ErrMsg dr_ErrMsg_update dec_string,
     (''data'', dec_struct
       [field ''userOpenId'' dr_UserOpenId dr_UserOpenId_update dec_int64,
        field ''device'' dr_DeviceList dr_DeviceList_update (dec_slice dec_Device zero_Device)])]"

definition zero_devicesResult :: devicesResult where
  "zero_devicesResult = \<lparr>dr_ErrNo = 0, dr_ErrMsg = [], dr_UserOpenId = 0, dr_DeviceList = None\<rparr>"

record BindingResp =
  br_ErrNo :: int
  br_ErrMsg :: string
  br_BindStatus :: bool

text \<open>The fields of the embedded \<open>cloud.ApiStatus\<close> are fields of the struct.\<close>

definition dec_BindingResp :: "BindingResp decoder" where
  "dec_BindingResp = dec_struct
    [field ''errno'' br_ErrNo br_ErrNo_update dec_int64,
     field ''errmsg'' br_ErrMsg br_ErrMsg_update dec_string,
     (''data'', dec_struct [field ''bindStatus'' br_BindStatus br_BindStatus_update dec_bool])]"

definition IsBinding :: "'w http_get \<Rightarrow> string \<Rightarrow> (string \<Rightarrow> string) \<Rightarrow> string \<Rightarrow> string \<Rightarrow> 'w \<Rightarrow> 'w \<times> bool result" where
  "IsBinding get centre jerr sso_tk devId w =
    (case get w (''http://'' @ centre @ ''/api/v1/device/bind/'' @ devId @ ''/status?sso_tk='' @ sso_tk) of
       (w1, Inl err) \<Rightarrow> (w1, Inl err)
     | (w1, Inr body) \<Rightarrow>
         (case Unmarshal dec_BindingResp body \<lparr>br_ErrNo = 0, br_ErrMsg = [], br_BindStatus = False\<rparr> of
            (_, False) \<Rightarrow> (w1, Inl (GoErr (jerr body)))
          | (result, True) \<Rightarrow>
              if br_ErrNo result \<noteq> ERR_NOERROR then (w1, Inl (GoErr (br_ErrMsg result)))
              else (w1, Inr (br_BindStatus result))))"

definition devices_answer :: "(string \<Rightarrow> string) \<Rightarrow> 'w \<times> string result \<Rightarrow> 'w \<times> Device list result" where
  "devices_answer jerr a =
    (case a of
       (w1, Inl err) \<Rightarrow> (w1, Inl err)
     | (w1, Inr body) \<Rightarrow>
         (case Unmarshal dec_devicesResult body zero_devicesResult of
            (_, False) \<Rightarrow> (w1, Inl (GoErr (jerr body)))
          | (result, True) \<Rightarrow>
              if dr_ErrNo result \<noteq> ERR_NOERROR then (w1, Inl (GoErr (dr_ErrMsg result)))
              else (w1, Inr (case dr_DeviceList result of None \<Rightarrow> [] | Some ds \<Rightarrow> ds))))"

definition GetDeviceList :: "'w http_get \<Rightarrow> string \<Rightarrow> (string \<Rightarrow> string) \<Rightarrow> string \<Rightarrow> int \<Rightarrow> 'w \<Rightarrow> 'w \<times> Device list result" where
  "GetDeviceList get centre jerr sso_tk devType w =
    devices_answer jerr (get w (''http://'' @ centre @ ''/api/v1/device/bind/?sso_tk='' @ sso_tk @ ''&type='' @ FormatInt devType))"

definition GetDevices :: "'w http_get \<Rightarrow> string \<Rightarrow> (string \<Rightarrow> string) \<Rightarrow> string \<Rightarrow> int \<Rightarrow> 'w \<Rightarrow> 'w \<times> Device list result" where
  "GetDevices get centre jerr uid devType w =
    devices_answer jerr (get w (''http://'' @ centre @ ''/api/v1/device/bind/?user_id='' @ uid @ ''&type='' @ FormatInt devType))"

text \<open>A binding is confirmed only by the centre's own word.\<close>

lemma IsBinding_confirmed:
  assumes "IsBinding get centre jerr tk dev w = (w', Inr True)"
  shows "\<exists>body r. get w (''http://'' @ centre @ ''/api/v1/device/bind/'' @ dev @ ''/status?sso_tk='' @ tk) = (w', Inr body) \<and>
    Unmarshal dec_BindingResp body \<lparr>br_ErrNo = 0, br_ErrMsg = [], br_BindStatus = False\<rparr> = (r, True) \<and>
    br_ErrNo r = ERR_NOERROR \<and> br_BindStatus r"
  using assms by (auto simp: IsBinding_def split: prod.splits sum.splits bool.splits if_splits)

end
