(* ===== verification/Stats.thy ===== *)
theory Stats
  imports Storage "HOL-Library.List_Lexorder" "HOL-Library.Char_ord"
begin

text \<open>
  \<open>stats/stats.go\<close>: the counters of remote commands behind the storage interface, and the report
  \<open>GetStats\<close> that gathers them with the devices of every comet server. A map of the report is a partial
  function. The counting functions drop the error of the storage.
\<close>

record CtrlStats =
  cs_Cmd :: int
  cs_CmdSuccess :: int
  cs_CmdTimeout :: int
  cs_CmdOffline :: int
  cs_CmdInvalidService :: int
  cs_CmdOtherError :: int

record Stats =
  st_CtrlStatistics :: "string \<Rightarrow> CtrlStats option"
  st_ReplyTooLate :: int
  st_QueryOnlineDevices :: int
  st_QueryDeviceInfo :: int
  st_Devices :: "string \<Rightarrow> int option"
  st_Comets :: "string \<Rightarrow> int option"

subsection \<open>Counting\<close>

definition stats_ClearStats :: "'w storage \<Rightarrow> 'w \<Rightarrow> 'w \<times> go_error option" where
  "stats_ClearStats st w = ClearStats st w"

definition stats_Cmd :: "'w storage \<Rightarrow> string \<Rightarrow> 'w \<Rightarrow> 'w" where
  "stats_Cmd st service w = fst (IncCmd st w service)"

definition stats_CmdSuccess :: "'w storage \<Rightarrow> string \<Rightarrow> 'w \<Rightarrow> 'w" where
  "stats_CmdSuccess st service w = fst (IncCmdSuccess st w service)"

definition stats_CmdTimeout :: "'w storage \<Rightarrow> string \<Rightarrow> 'w \<Rightarrow> 'w" where
  "stats_CmdTimeout st service w = fst (IncCmdTimeout st w service)"

definition stats_CmdOffline :: "'w storage \<Rightarrow> string \<Rightarrow> 'w \<Rightarrow> 'w" where
  "stats_CmdOffline st service w = fst (IncCmdOffline st w service)"

definition stats_CmdInvalidService :: "'w storage \<Rightarrow> string \<Rightarrow> 'w \<Rightarrow> 'w" where
  "stats_CmdInvalidService st service w = fst (IncCmdInvalidService st w service)"

definition stats_CmdOtherError :: "'w storage \<Rightarrow> string \<Rightarrow> 'w \<Rightarrow> 'w" where
  "stats_CmdOtherError st service w = fst (IncCmdOtherError st w service)"

definition stats_QueryOnlineDevices :: "'w storage \<Rightarrow> 'w \<Rightarrow> 'w" where
  "stats_QueryOnlineDevices st w = fst (IncQueryOnlineDevices st w)"

definition stats_QueryDeviceInfo :: "'w storage \<Rightarrow> 'w \<Rightarrow> 'w" where
  "stats_QueryDeviceInfo st w = fst (IncQueryDeviceInfo st w)"

definition stats_GetStatsCmd :: "'w storage \<Rightarrow> string \<Rightarrow> 'w \<Rightarrow> 'w \<times> int result" where
  "stats_GetStatsCmd st service w = GetStatsCmd st w service"

definition stats_GetStatsCmdSuccess :: "'w storage \<Rightarrow> string \<Rightarrow> 'w \<Rightarrow> 'w \<times> int result" where
  "stats_GetStatsCmdSuccess st service w = GetStatsCmdSuccess st w service"

definition stats_GetStatsCmdTimeout :: "'w storage \<Rightarrow> string \<Rightarrow> 'w \<Rightarrow> 'w \<times> int result" where
  "stats_GetStatsCmdTimeout st service w = GetStatsCmdTimeout st w service"

definition stats_GetStatsCmdOffline :: "'w storage \<Rightarrow> string \<Rightarrow> 'w \<Rightarrow> 'w \<times> int result" where
  "stats_GetStatsCmdOffline st service w = GetStatsCmdOffline st w service"

definition stats_GetStatsCmdInvalidService :: "'w storage \<Rightarrow> string \<Rightarrow> 'w \<Rightarrow> 'w \<times> int result" where
  "stats_GetStatsCmdInvalidService st service w = GetStatsCmdInvalidService st w service"

definition stats_GetStatsCmdOtherError :: "'w storage \<Rightarrow> string \<Rightarrow> 'w \<Rightarrow> 'w \<times> int result" where
  "stats_GetStatsCmdOtherError st service w = GetStatsCmdOtherError st w service"

definition stats_GetStatsQueryOnlineDevices :: "'w storage \<Rightarrow> 'w \<Rightarrow> 'w \<times> int result" where
  "stats_GetStatsQueryOnlineDevices st w = GetStatsQueryOnlineDevices st w"

definition stats_GetStatsQueryDeviceInfo :: "'w storage \<Rightarrow> 'w \<Rightarrow> 'w \<times> int result" where
  "stats_GetStatsQueryDeviceInfo st w = GetStatsQueryDeviceInfo st w"

definition stats_GetStatsReplyTooLate :: "'w storage \<Rightarrow> 'w \<Rightarrow> 'w \<times> int result" where
  "stats_GetStatsReplyTooLate st w = GetStatsReplyTooLate st w"

definition stats_ReplyTooLate :: "'w storage \<Rightarrow> 'w \<Rightarrow> 'w" where
  "stats_ReplyTooLate st w = fst (IncReplyTooLate st w)"

definition stats_GetStatsServices :: "'w storage \<Rightarrow> 'w \<Rightarrow> 'w \<times> string list result" where
  "stats_GetStatsServices st w = GetStatsServices st w"

subsection \<open>The report\<close>

text \<open>\<open>v, _ = f()\<close> for a counter.\<close>

definition count_or_0 :: "('w \<Rightarrow> 'w \<times> int result) \<Rightarrow> 'w \<Rightarrow> 'w \<times> int" where
  "count_or_0 f w = (case f w of (w', r) \<Rightarrow> (w', value_or 0 r))"

definition ctrl_stats :: "'w storage \<Rightarrow> string \<Rightarrow> 'w \<Rightarrow> 'w \<times> CtrlStats" where
  "ctrl_stats st svc w0 =
    (let (w1, a) = count_or_0 (\<lambda>w. GetStatsCmd st w svc) w0;
         (w2, b) = count_or_0 (\<lambda>w. GetStatsCmdSuccess st w svc) w1;
         (w3, c) = count_or_0 (\<lambda>w. GetStatsCmdTimeout st w svc) w2;
         (w4, d) = count_or_0 (\<lambda>w. GetStatsCmdOffline st w svc) w3;
         (w5, f) = count_or_0 (\<lambda>w. GetStatsCmdInvalidService st w svc) w4;
         (w6, g) = count_or_0 (\<lambda>w. GetStatsCmdOtherError st w svc) w5
     in (w6, \<lparr>cs_Cmd = a, cs_CmdSuccess = b, cs_CmdTimeout = c, cs_CmdOffline = d,
              cs_CmdInvalidService = f, cs_CmdOtherError = g\<rparr>))"

fun services_stats :: "'w storage \<Rightarrow> string list \<Rightarrow> (string \<Rightarrow> CtrlStats option) \<Rightarrow> 'w \<Rightarrow> 'w \<times> (string \<Rightarrow> CtrlStats option)" where
  "services_stats st [] m w = (w, m)"
| "services_stats st (svc # svcs) m w =
    (case ctrl_stats st svc w of (w1, c) \<Rightarrow> services_stats st svcs (m(svc \<mapsto> c)) w1)"

text \<open>The type of a device is what its id has before the first \<open>-\<close>. \<open>m[k]++\<close>.\<close>

definition device_type :: "string \<Rightarrow> string" where
  "device_type i = (if CHR ''-'' \<in> set i then Split (CHR ''-'') i ! 0 else ''Unknown'')"

definition count_device :: "string \<Rightarrow> (string \<Rightarrow> int option) \<Rightarrow> string \<Rightarrow> int option" where
  "count_device i m = m(device_type i \<mapsto> (case m (device_type i) of None \<Rightarrow> 0 | Some n \<Rightarrow> n) + 1)"

fun servers_stats :: "'w storage \<Rightarrow> string list \<Rightarrow> (string \<Rightarrow> int option) \<times> (string \<Rightarrow> int option) \<Rightarrow> 'w
    \<Rightarrow> 'w \<times> (string \<Rightarrow> int option) \<times> (string \<Rightarrow> int option)" where
  "servers_stats st [] m w = (w, m)"
| "servers_stats st (server # servers) (comets, devices) w =
    (case GetDeviceIds st w server of (w1, r) \<Rightarrow>
      let ids = value_or [] r
      in servers_stats st servers (comets(server \<mapsto> int (length ids)), fold count_device ids devices) w1)"

definition GetStats :: "'w storage \<Rightarrow> 'w \<Rightarrow> 'w \<times> Stats result" where
  "GetStats st w0 =
    (case GetStatsServices st w0 of
       (w1, Inl err) \<Rightarrow> (w1, Inl err)
     | (w1, Inr services) \<Rightarrow>
         (let (w2, ctrl) = services_stats st services Map.empty w1;
              (w3, online) = count_or_0 (GetStatsQueryOnlineDevices st) w2;
              (w4, info) = count_or_0 (GetStatsQueryDeviceInfo st) w3;
              (w5, late) = count_or_0 (GetStatsReplyTooLate st) w4;
              (w6, servers) = GetServerNames st w5;
              (w7, comets, devices) = servers_stats st (value_or [] servers) (Map.empty, Map.empty) w6
          in (w7, Inr \<lparr>st_CtrlStatistics = ctrl, st_ReplyTooLate = late, st_QueryOnlineDevices = online,
                st_QueryDeviceInfo = info, st_Devices = devices, st_Comets = comets\<rparr>)))"

subsection \<open>JSON of the report\<close>

text \<open>\<open>encoding/json\<close> writes the keys of a map in order.\<close>

definition jmap :: "('v \<Rightarrow> json) \<Rightarrow> (string \<Rightarrow> 'v option) \<Rightarrow> json" where
  "jmap f m = JObj (map (\<lambda>k. (k, case m k of Some v \<Rightarrow> f v | None \<Rightarrow> JNull)) (sorted_list_of_set (dom m)))"

definition enc_CtrlStats :: "CtrlStats \<Rightarrow> json" where
  "enc_CtrlStats c = JObj
    [(''Cmd'', jint (cs_Cmd c)), (''CmdSuccess'', jint (cs_CmdSuccess c)), (''CmdTimeout'', jint (cs_CmdTimeout c)),
     (''CmdOffline'', jint (cs_CmdOffline c)), (''CmdInvalidService'', jint (cs_CmdInvalidService c)),
     (''CmdOtherError'', jint (cs_CmdOtherError c))]"

definition enc_Stats :: "Stats \<Rightarrow> json" where
  "enc_Stats s = JObj
    [(''CtrlStatistics'', jmap enc_CtrlStats (st_CtrlStatistics s)), (''ReplyTooLate'', jint (st_ReplyTooLate s)),
     (''QueryOnlineDevices'', jint (st_QueryOnlineDevices s)), (''QueryDeviceInfo'', jint (st_QueryDeviceInfo s)),
     (''Devices'', jmap jint (st_Devices s)), (''Comets'', jmap jint (st_Comets s))]"

subsection \<open>Every device is counted once\<close>

text \<open>\<open>total m\<close>: the sum of a map's values; a device adds 1 to the total, under its type.\<close>

definition total :: "(string \<Rightarrow> int option) \<Rightarrow> int" where
  "total m = (\<Sum>k \<in> dom m. the (m k))"

lemma total_upd: "finite (dom m) \<Longrightarrow> total (m(k \<mapsto> v)) = total m - (case m k of None \<Rightarrow> 0 | Some x \<Rightarrow> x) + v"
proof -
  assume f: "finite (dom m)"
  have "(\<Sum>x \<in> dom m - {k}. the ((m(k \<mapsto> v)) x)) = (\<Sum>x \<in> dom m - {k}. the (m x))" by (rule sum.cong) auto
  then have "total (m(k \<mapsto> v)) = v + (\<Sum>x \<in> dom m - {k}. the (m x))"
    using f by (simp add: total_def sum.insert_remove)
  moreover have "total m = (case m k of None \<Rightarrow> 0 | Some x \<Rightarrow> x) + (\<Sum>x \<in> dom m - {k}. the (m x))"
  proof (cases "m k")
    case None
    then have "dom m - {k} = dom m" by auto
    then show ?thesis using None by (simp add: total_def)
  next
    case (Some a)
    then show ?thesis using sum.remove[OF f, of k "\<lambda>x. the (m x)"] by (simp add: total_def domI)
  qed
  ultimately show ?thesis by simp
qed

lemma count_device_total:
  "finite (dom m) \<Longrightarrow> finite (dom (count_device i m)) \<and> total (count_device i m) = total m + 1"
  by (simp add: count_device_def total_upd split: option.split)

lemma count_devices_total:
  "finite (dom m) \<Longrightarrow> finite (dom (fold count_device is m)) \<and> total (fold count_device is m) = total m + int (length is)"
proof (induction "is" arbitrary: m)
  case (Cons i ids)
  then show ?case using count_device_total[of m i] Cons.IH[of "count_device i m"] by simp
qed simp

lemma device_type_dash: "device_type (t @ CHR ''-'' # r) = t" if "CHR ''-'' \<notin> set t"
  using that by (simp add: device_type_def Split_append_sep)

text \<open>Over distinct servers the devices add up to the servers' totals.\<close>

lemma servers_stats_total:
  assumes "servers_stats st servers (comets, devices) w = (w', comets', devices')"
    and "distinct servers" "set servers \<inter> dom comets = {}" "finite (dom comets)" "finite (dom devices)"
    and "total devices = total comets"
  shows "total devices' = total comets' \<and> dom comets' = dom comets \<union> set servers"
  using assms
proof (induction servers arbitrary: comets devices w)
  case (Cons x xs)
  obtain w1 r where g: "GetDeviceIds st w x = (w1, r)" by (rule prod.exhaust)
  let ?ids = "value_or [] r"
  have f: "finite (dom (fold count_device ?ids devices))" "total (fold count_device ?ids devices) = total devices + int (length ?ids)"
    using count_devices_total Cons.prems(5) by blast+
  have "x \<notin> dom comets" using Cons.prems(3) by simp
  then have t: "total (comets(x \<mapsto> int (length ?ids))) = total comets + int (length ?ids)"
    using Cons.prems(4) by (simp add: total_upd domIff)
  have "total devices' = total comets' \<and> dom comets' = dom (comets(x \<mapsto> int (length ?ids))) \<union> set xs"
  proof (rule Cons.IH[of "comets(x \<mapsto> int (length ?ids))" "fold count_device ?ids devices" w1])
    show "total (fold count_device ?ids devices) = total (comets(x \<mapsto> int (length ?ids)))" using f t Cons.prems(6) by simp
    show "servers_stats st xs (comets(x \<mapsto> int (length ?ids)), fold count_device ?ids devices) w1 = (w', comets', devices')"
      using Cons.prems(1) g by (simp add: Let_def)
    show "set xs \<inter> dom (comets(x \<mapsto> int (length ?ids))) = {}" using Cons.prems(2,3) by auto
    show "finite (dom (comets(x \<mapsto> int (length ?ids))))" unfolding dom_fun_upd using Cons.prems(4) by simp
  qed (use Cons.prems(2) f in simp_all)
  then show ?case by auto
qed simp

text \<open>The report counts every device once under its type and once under its server.\<close>

lemma GetStats_devices:
  assumes "GetStats st w = (w', Inr s)" "\<And>w v xs. GetServerNames st w = (v, Inr xs) \<Longrightarrow> distinct xs"
  shows "total (st_Devices s) = total (st_Comets s)"
proof -
  obtain servers w6 w5 w7 c d where g: "GetServerNames st w5 = (w6, servers)"
    "servers_stats st (value_or [] servers) (Map.empty, Map.empty) w6 = (w7, c, d)" "st_Devices s = d" "st_Comets s = c"
    using assms(1) by (auto simp: GetStats_def Let_def split: prod.splits sum.splits)
  have "distinct (value_or [] servers)" using assms(2) g(1) by (cases servers) auto
  then show ?thesis using servers_stats_total[OF g(2)] g(3,4) by (simp add: total_def)
qed

end
