(* ===== verification/Control_Api.thy ===== *)
theory Control_Api
  imports Http Devcenter Stats Rpc_Client
begin

text \<open>
  \<open>pushapi/controlapi.go\<close>: the HTTP interface for commands to devices. A handler of the \<open>rest\<close> package gets the
  request (and a path parameter, and the body that the middleware has read) and answers once; what it hands
  to that package is a \<open>rest_response\<close>, and how the package writes it is not modelled. \<open>cControl\<close> stands for
  a whole call of \<open>rpcClient.Control\<close> (\<open>Rpc_Client\<close>), \<open>date_ok\<close> for the success of \<open>time.Parse\<close>,
  \<open>permutations\<close> for the list that the permutation package generates at start-up.
\<close>

record 'w ctl_env =
  cstore :: "'w storage"
  cget :: "'w http_get"
  centre :: string
  cControl :: "'w \<Rightarrow> string \<Rightarrow> string \<Rightarrow> string \<Rightarrow> 'w \<times> rpc_result"
  chmac :: "string \<Rightarrow> string \<Rightarrow> string"
  cmd5 :: "string \<Rightarrow> string"
  jerr :: "string \<Rightarrow> string"
  date_ok :: "string \<Rightarrow> bool"
  permutations :: "nat list list"

datatype rest_response =
    RestError string int
  | RestNotFound
  | RestJson json
  | RestRaw string

type_synonym 'w rest_handler = "'w ctl_env \<Rightarrow> request \<Rightarrow> string option \<Rightarrow> 'w \<Rightarrow> 'w \<times> rest_response"

definition ERR_CMD_TIMEOUT :: int where "ERR_CMD_TIMEOUT = 20000"
definition ERR_CMD_INVALID_SERVICE :: int where "ERR_CMD_INVALID_SERVICE = 20001"
definition ERR_CMD_SDK_ERROR :: int where "ERR_CMD_SDK_ERROR = 20002"
definition ERR_CMD_OTHER :: int where "ERR_CMD_OTHER = 20040"

record ApiResponse =
  ar_ErrNo :: int
  ar_ErrMsg :: string
  ar_Data :: "json option"

definition enc_ApiResponse :: "ApiResponse \<Rightarrow> json" where
  "enc_ApiResponse r = JObj
    (member ''errno'' (jint (ar_ErrNo r)) @
     omitempty (ar_ErrMsg r = []) ''errmsg'' (JStr (ar_ErrMsg r)) @
     (case ar_Data r of None \<Rightarrow> [] | Some d \<Rightarrow> member ''data'' d))"

definition api_ok :: "json \<Rightarrow> rest_response" where
  "api_ok d = RestJson (enc_ApiResponse \<lparr>ar_ErrNo = ERR_NOERROR, ar_ErrMsg = [], ar_Data = Some d\<rparr>)"

definition api_err :: "int \<Rightarrow> string \<Rightarrow> rest_response" where
  "api_err n msg = RestJson (enc_ApiResponse \<lparr>ar_ErrNo = n, ar_ErrMsg = msg, ar_Data = None\<rparr>)"

fun rpc_error_text :: "(string \<Rightarrow> string) \<Rightarrow> rpc_error \<Rightarrow> string" where
  "rpc_error_text je NoDeviceError = ''No device''"
| "rpc_error_text je TimeoutError = ''RPC timeout''"
| "rpc_error_text je InvalidServiceError = ''Invalid service name''"
| "rpc_error_text je SdkError = ''Exception on calling service''"
| "rpc_error_text je (StorageFailed err) = error_text err"
| "rpc_error_text je (PublishFailed err) = error_text err"
| "rpc_error_text je (BadReply b) = je b"
| "rpc_error_text je (OtherStatus n) = ''MQ RPC error '' @ FormatInt n"

subsection \<open>Who may do what\<close>

definition checkAuthz :: "'w ctl_env \<Rightarrow> string \<Rightarrow> string \<Rightarrow> 'w \<Rightarrow> 'w \<times> bool" where
  "checkAuthz e token devid w =
    (if token = ''000000000'' then (w, True)
     else case IsBinding (cget e) (centre e) (jerr e) token devid w of
       (w1, Inl _) \<Rightarrow> (w1, False)
     | (w1, Inr binding) \<Rightarrow> (w1, binding))"

definition checkAuthzUid :: "'w ctl_env \<Rightarrow> string \<Rightarrow> string \<Rightarrow> 'w \<Rightarrow> 'w \<times> bool" where
  "checkAuthzUid e uid devid w =
    (if uid = ''000000000'' then (w, True)
     else case GetDevices (cget e) (centre e) (jerr e) uid DEV_ROUTER w of
       (w1, Inl _) \<Rightarrow> (w1, False)
     | (w1, Inr devices) \<Rightarrow> (w1, list_ex (\<lambda>d. devid = dv_Id d) devices))"

definition controlAK :: string where "controlAK = ''820b4376bad3486199e13a7ada104106''"
definition secretKey :: string where "secretKey = ''EwYmYyqdChgitRcrInBg''"

definition request_sign :: "'w ctl_env \<Rightarrow> request \<Rightarrow> string" where
  "request_sign e rq =
    Sign (chmac e) (cmd5 e) secretKey (rq_Method rq) (''/api/v1'' @ rq_Path rq) (rq_Body rq) (rq_header rq ''Date'') (rq_Form rq)"

definition AuthMiddlewareFunc :: "'w rest_handler \<Rightarrow> 'w rest_handler" where
  "AuthMiddlewareFunc h e rq body0 w =
    (let auth = Fields (rq_header rq ''Authorization'') in
     if length auth \<noteq> 3 then (w, RestError ''Invalid 'Authorization' header'' 400)
     else if auth ! 1 \<noteq> controlAK then (w, RestError ''Invalid AccessKey'' 403)
     else if \<not> date_ok e (rq_header rq ''Date'') then (w, RestError ''Invalid 'Date' header'' 400)
     else if auth ! 2 \<noteq> ''supersignature'' \<and> request_sign e rq \<noteq> auth ! 2
       then (w, RestError ''Signature varification failed'' 403)
     else h e rq (Some (rq_Body rq)) w)"

subsection \<open>Devices\<close>

definition enc_devInfo :: "string \<Rightarrow> json" where
  "enc_devInfo i = JObj [(''id'', JStr i)]"

fun online_devices :: "'w ctl_env \<Rightarrow> string list \<Rightarrow> 'w \<Rightarrow> 'w \<times> string list" where
  "online_devices e [] w = (w, [])"
| "online_devices e (i # is) w =
    (case CheckDevice (cstore e) w i of (w1, r) \<Rightarrow>
      case online_devices e is w1 of (w2, xs) \<Rightarrow>
        (w2, (case r of Inr n \<Rightarrow> if n \<noteq> [] then i # xs else xs | Inl _ \<Rightarrow> xs)))"

definition getDeviceList :: "'w rest_handler" where
  "getDeviceList e rq body w0 =
    (let w = stats_QueryOnlineDevices (cstore e) w0; dev_ids = FormValue rq ''dev_ids'' in
     if dev_ids \<noteq> [] then
       (case online_devices e (Split (CHR '','') dev_ids) w of (w1, xs) \<Rightarrow> (w1, api_ok (JArr (map enc_devInfo xs))))
     else (w, RestError (''Missing '' @ [CHR 0x22] @ ''dev_ids'' @ [CHR 0x22]) 400))"

definition getDevice :: "string \<Rightarrow> 'w rest_handler" where
  "getDevice devId e rq body w =
    (let token = FormValue rq ''token'' in
     if token = [] then (w, RestError (''Missing '' @ [CHR 0x22] @ ''token'' @ [CHR 0x22]) 400)
     else case checkAuthz e token devId w of
       (w1, False) \<Rightarrow> (w1, RestError ''Authorization failed'' 403)
     | (w1, True) \<Rightarrow>
         (case CheckDevice (cstore e) (stats_QueryDeviceInfo (cstore e) w1) devId of
            (w2, Inr n) \<Rightarrow> if n \<noteq> [] then (w2, api_ok (enc_devInfo devId)) else (w2, RestNotFound)
          | (w2, Inl _) \<Rightarrow> (w2, RestNotFound)))"

record ControlParam =
  cp_Token :: string
  cp_Service :: string
  cp_Cmd :: string

definition dec_ControlParam :: "ControlParam decoder" where
  "dec_ControlParam = dec_struct
    [field ''token'' cp_Token cp_Token_update dec_string,
     field ''service'' cp_Service cp_Service_update dec_string,
     field ''cmd'' cp_Cmd cp_Cmd_update dec_string]"

definition control_response :: "'w ctl_env \<Rightarrow> string \<Rightarrow> string \<Rightarrow> rpc_result \<Rightarrow> 'w \<Rightarrow> 'w \<times> rest_response" where
  "control_response e devId service r w =
    (let st = cstore e in
     case r of
       Inr result \<Rightarrow> (stats_CmdSuccess st service w, api_ok (JStr result))
     | Inl NoDeviceError \<Rightarrow> (stats_CmdOffline st service w, RestNotFound)
     | Inl TimeoutError \<Rightarrow> (stats_CmdTimeout st service w, api_err ERR_CMD_TIMEOUT (''recv response timeout ['' @ devId @ '']''))
     | Inl InvalidServiceError \<Rightarrow> (stats_CmdInvalidService st service w,
         api_err ERR_CMD_INVALID_SERVICE (''Device ['' @ devId @ ''] has no service ['' @ service @ '']''))
     | Inl SdkError \<Rightarrow> (stats_CmdOtherError st service w,
         api_err ERR_CMD_SDK_ERROR (''Error when calling service ['' @ service @ ''] on ['' @ devId @ '']''))
     | Inl err \<Rightarrow> (stats_CmdOtherError st service w, api_err ERR_CMD_OTHER (rpc_error_text (jerr e) err)))"

definition controlDevice :: "string \<Rightarrow> 'w rest_handler" where
  "controlDevice devId e rq body w =
    (case body of
       None \<Rightarrow> (w, RestError ''Empty body'' 400)
     | Some b \<Rightarrow>
        (case Unmarshal dec_ControlParam b \<lparr>cp_Token = [], cp_Service = [], cp_Cmd = []\<rparr> of
           (_, False) \<Rightarrow> (w, RestError (jerr e b) 400)
         | (param, True) \<Rightarrow>
            (case checkAuthz e (cp_Token param) devId w of
               (w1, False) \<Rightarrow> (w1, RestError ''Authorization failed'' 403)
             | (w1, True) \<Rightarrow>
                (case cControl e (stats_Cmd (cstore e) (cp_Service param) w1) devId (cp_Service param) (cp_Cmd param) of
                   (w2, r) \<Rightarrow> control_response e devId (cp_Service param) r w2))))"

text \<open>An error of \<open>GetStats\<close> is dropped: the report is then a nil pointer.\<close>

definition getStats :: "'w rest_handler" where
  "getStats e rq body w =
    (case GetStats (cstore e) w of
       (w1, Inr s) \<Rightarrow> (w1, api_ok (enc_Stats s))
     | (w1, Inl _) \<Rightarrow> (w1, api_ok JNull))"

definition deleteStats :: "'w rest_handler" where
  "deleteStats e rq body w =
    (case stats_ClearStats (cstore e) w of
       (w1, Some err) \<Rightarrow> (w1, RestError (error_text err) 500)
     | (w1, None) \<Rightarrow> (w1, api_err ERR_NOERROR []))"

subsection \<open>The compatible interface for routers\<close>

definition STATUS_OK :: int where "STATUS_OK = 0"
definition STATUS_OTHER_ERR :: int where "STATUS_OTHER_ERR = -1"
definition STATUS_INVALID_PARAM :: int where "STATUS_INVALID_PARAM = -5"
definition STATUS_ROUTER_OFFLINE :: int where "STATUS_ROUTER_OFFLINE = -6"

definition command_response :: "int \<Rightarrow> string \<Rightarrow> rest_response" where
  "command_response st err = RestJson (JObj [(''status'', jint st), (''error'', JStr err)])"

definition router_key :: string where "router_key = ''xnRzFxoCDRVRU2mNQ7AoZ5MCxpAR7ntnmlgRGYav''"

text \<open>\<open>initPermutation\<close>: the permutation package's list for seven values, as \<open>NewPerm\<close> and \<open>NextN\<close> give it.\<close>

definition initPermutation :: "(nat list \<Rightarrow> nat list list result) \<Rightarrow> nat list list \<Rightarrow> nat list list \<times> go_error option" where
  "initPermutation new_perm old =
    (case new_perm [0, 1, 2, 3, 4, 5, 6] of Inl err \<Rightarrow> (old, Some err) | Inr ps \<Rightarrow> (ps, None))"

text \<open>The query is its six values; \<open>None\<close> is an index of a permutation that is out of range.\<close>

definition sign_calc :: "'w ctl_env \<Rightarrow> string \<Rightarrow> string \<Rightarrow> string \<Rightarrow> string \<Rightarrow> string \<Rightarrow> string \<Rightarrow> string \<Rightarrow> string option" where
  "sign_calc e path uid rid tid src tm pmtt =
    (let raw = [path, uid, rid, tid, src, tm, pmtt] in
     case ParseInt pmtt of
       None \<Rightarrow> Some []
     | Some i \<Rightarrow>
         if i < 0 \<or> int (length (permutations e)) \<le> i then Some []
         else let perm = permutations e ! nat i in
              if \<forall>k \<in> set perm. k < length raw
              then Some (EncodeToString (chmac e router_key (concat (map (\<lambda>k. raw ! k) perm))))
              else None)"

definition value_or_name :: "request \<Rightarrow> string \<Rightarrow> string" where
  "value_or_name rq k = (if FormValue rq k = [] then k else FormValue rq k)"

definition missing :: "string \<Rightarrow> string" where
  "missing k = ''missing '' @ [CHR 0x27] @ k @ [CHR 0x27]"

definition SignMiddleware_MiddlewareFunc :: "'w rest_handler \<Rightarrow> 'w ctl_env \<Rightarrow> request \<Rightarrow> string option \<Rightarrow> 'w \<Rightarrow> ('w \<times> rest_response) option" where
  "SignMiddleware_MiddlewareFunc h e rq body w =
    (if rq_Path rq = ''/list'' \<or> rq_Path rq = ''/command'' then
       (case find (\<lambda>k. FormValue rq k = []) [''uid'', ''sign'', ''tm'', ''pmtt''] of
          Some k \<Rightarrow> Some (w, command_response STATUS_INVALID_PARAM (missing k))
        | None \<Rightarrow>
           if FormValue rq ''sign'' \<noteq> ''supersign'' then
             (case sign_calc e (''/router'' @ rq_Path rq) (FormValue rq ''uid'') (value_or_name rq ''rid'') (value_or_name rq ''tid'')
                     (value_or_name rq ''src'') (FormValue rq ''tm'') (FormValue rq ''pmtt'') of
                None \<Rightarrow> None
              | Some mysign \<Rightarrow>
                  if mysign \<noteq> FormValue rq ''sign'' then Some (w, command_response STATUS_INVALID_PARAM ''sign valication failed'')
                  else Some (h e rq body w))
           else Some (h e rq body w))
     else Some (h e rq body w))"

text \<open>An id of 12 characters is a router with the old agent, which takes the body as it is.\<close>

definition old_agent :: "string \<Rightarrow> bool" where
  "old_agent rid \<longleftrightarrow> length rid = length ''c80e774a1e78''"

definition router_service :: "string \<Rightarrow> string" where
  "router_service rid = (if old_agent rid then ''gibbon_agent'' else ''com.letv.letvroutersettingservice'')"

definition router_command :: "string \<Rightarrow> string \<Rightarrow> rest_response + string" where
  "router_command rid body =
    (if old_agent rid then Inr (json_text (JObj [(''cmd'', JStr body)]))
     else case Unmarshal (dec_struct [(''forward'', dec_string)]) body [] of
       (_, False) \<Rightarrow> Inl (command_response (-2000) ''Request body is not JSON'')
     | (fwd, True) \<Rightarrow>
         if fwd = [] then Inl (command_response (-2001) (CHR 0x27 # ''forward'' @ [CHR 0x27] @ '' is empty'')) else Inr fwd)"

definition router_response :: "'w ctl_env \<Rightarrow> string \<Rightarrow> rpc_result \<Rightarrow> 'w \<Rightarrow> 'w \<times> rest_response" where
  "router_response e rid r w =
    (let st = cstore e; service = router_service rid in
     case r of
       Inr result \<Rightarrow> (stats_CmdSuccess st service w,
         if old_agent rid then RestRaw result
         else RestJson (JObj [(''status'', jint 0), (''descr'', JStr ''OK''), (''result'', JStr result)]))
     | Inl NoDeviceError \<Rightarrow> (stats_CmdOffline st service w, command_response STATUS_ROUTER_OFFLINE (''device ('' @ rid @ '') offline''))
     | Inl TimeoutError \<Rightarrow> (stats_CmdTimeout st service w, command_response STATUS_OTHER_ERR (''recv response timeout ['' @ rid @ '']''))
     | Inl InvalidServiceError \<Rightarrow> (stats_CmdInvalidService st service w,
         command_response STATUS_OTHER_ERR (''Device ['' @ rid @ ''] has no service ['' @ service @ '']''))
     | Inl err \<Rightarrow> (stats_CmdOtherError st service w, command_response STATUS_OTHER_ERR (rpc_error_text (jerr e) err)))"

text \<open>The body of a request to a server is never nil.\<close>

definition postRouterCommand :: "'w rest_handler" where
  "postRouterCommand e rq body w =
    (let uid = FormValue rq ''uid''; rid = FormValue rq ''rid'' in
     if uid = [] then (w, command_response STATUS_INVALID_PARAM (missing ''uid''))
     else if rid = [] then (w, command_response STATUS_INVALID_PARAM (missing ''rid''))
     else case checkAuthzUid e uid rid w of
       (w1, False) \<Rightarrow> (w1, command_response STATUS_OTHER_ERR ''authorization failed'')
     | (w1, True) \<Rightarrow>
         if \<not> rq_Body_ok rq then (w1, command_response STATUS_INVALID_PARAM ''invalid POST body'')
         else case router_command rid (rq_Body rq) of
           Inl r \<Rightarrow> (w1, r)
         | Inr cmd \<Rightarrow>
             (case cControl e (stats_Cmd (cstore e) (router_service rid) w1) rid (router_service rid) cmd of
                (w2, r) \<Rightarrow> router_response e rid r w2))"

definition enc_RouterList :: "int \<Rightarrow> string \<Rightarrow> Device list option \<Rightarrow> rest_response" where
  "enc_RouterList st descr ds = RestJson (JObj
    [(''status'', jint st), (''descr'', JStr descr),
     (''list'', case ds of None \<Rightarrow> JNull
        | Some xs \<Rightarrow> JArr (map (\<lambda>d. JObj [(''rid'', JStr (dv_Id d)), (''rname'', JStr (dv_Title d))]) xs))])"

text \<open>\<open>append\<close> to a nil slice: without devices it stays nil.\<close>

definition getRouterList :: "'w rest_handler" where
  "getRouterList e rq body w =
    (let uid = FormValue rq ''uid'' in
     if uid = [] then (w, enc_RouterList STATUS_INVALID_PARAM (missing ''uid'') None)
     else case GetDevices (cget e) (centre e) (jerr e) uid DEV_ROUTER w of
       (w1, Inl err) \<Rightarrow> (w1, enc_RouterList STATUS_OTHER_ERR (error_text err) None)
     | (w1, Inr devices) \<Rightarrow> (w1, enc_RouterList 0 ''OK'' (if devices = [] then None else Some devices)))"

subsection \<open>What the checks let through\<close>

text \<open>A request gets past the signature check only with the access key and a signature of its contents
  (or the fixed word).\<close>

lemma AuthMiddlewareFunc_cases:
  assumes "AuthMiddlewareFunc h e rq body w = (w', r)"
  obtains (refused) msg code where "w' = w" "r = RestError msg code"
  | (passed) k s where "Fields (rq_header rq ''Authorization'') = [k, controlAK, s]" "date_ok e (rq_header rq ''Date'')"
      "s = ''supersignature'' \<or> s = request_sign e rq" "h e rq (Some (rq_Body rq)) w = (w', r)"
proof (cases "\<exists>msg code. w' = w \<and> r = RestError msg code")
  case True
  then show ?thesis using refused by blast
next
  case False
  define auth where "auth = Fields (rq_header rq ''Authorization'')"
  have a: "length auth = 3" "auth ! 1 = controlAK" "date_ok e (rq_header rq ''Date'')"
    "auth ! 2 = ''supersignature'' \<or> auth ! 2 = request_sign e rq" "h e rq (Some (rq_Body rq)) w = (w', r)"
    using assms False unfolding AuthMiddlewareFunc_def Let_def auth_def[symmetric] by (auto split: if_splits)
  then have "auth = [auth ! 0, controlAK, auth ! 2]"
    by (intro nth_equalityI) (auto simp: less_Suc_eq numeral_3_eq_3 numeral_2_eq_2)
  then show ?thesis using passed a(3-5) unfolding auth_def by blast
qed

lemma controlDevice_cases:
  assumes "controlDevice devId e rq (Some b) w = (w', r)"
  obtains (refused) msg code where "w' = w" "r = RestError msg code"
  | (unauthorized) param where "Unmarshal dec_ControlParam b \<lparr>cp_Token = [], cp_Service = [], cp_Cmd = []\<rparr> = (param, True)"
      "checkAuthz e (cp_Token param) devId w = (w', False)" "r = RestError ''Authorization failed'' 403"
  | (sent) param w1 w2 res where "Unmarshal dec_ControlParam b \<lparr>cp_Token = [], cp_Service = [], cp_Cmd = []\<rparr> = (param, True)"
      "checkAuthz e (cp_Token param) devId w = (w1, True)"
      "cControl e (stats_Cmd (cstore e) (cp_Service param) w1) devId (cp_Service param) (cp_Cmd param) = (w2, res)"
      "control_response e devId (cp_Service param) res w2 = (w', r)"
proof -
  obtain param ok where p: "Unmarshal dec_ControlParam b \<lparr>cp_Token = [], cp_Service = [], cp_Cmd = []\<rparr> = (param, ok)"
    by (rule prod.exhaust)
  obtain w1 a where a: "checkAuthz e (cp_Token param) devId w = (w1, a)" by (rule prod.exhaust)
  obtain w2 res where c: "cControl e (stats_Cmd (cstore e) (cp_Service param) w1) devId (cp_Service param) (cp_Cmd param) = (w2, res)"
    by (rule prod.exhaust)
  show ?thesis
  proof (cases ok)
    case False
    then show ?thesis using assms p refused by (auto simp: controlDevice_def)
  next
    case True
    then show ?thesis using assms p a c unauthorized sent by (cases a) (simp_all add: controlDevice_def)
  qed
qed

lemma checkAuthz_granted:
  assumes "checkAuthz e token devid w = (w', True)"
  shows "token = ''000000000'' \<or> IsBinding (cget e) (centre e) (jerr e) token devid w = (w', Inr True)"
  using assms by (auto simp: checkAuthz_def split: if_splits prod.splits sum.splits)

text \<open>The values are signed one after the other without separators: with the first permutation in order, moving
  a part of the user id to the router id does not change the signature.\<close>

lemma sign_calc_ambiguous:
  assumes "permutations e = [0, 1, 2, 3, 4, 5, 6] # ps"
  shows "sign_calc e path (u @ v) rid tid src tm ''0'' = sign_calc e path u (v @ rid) tid src tm ''0''"
proof -
  have "ParseInt ''0'' = Some 0" by code_simp
  then show ?thesis using assms by (simp add: sign_calc_def)
qed

end
