(* ===== verification/Control_Properties.thy ===== *)
theory Control_Properties
  imports Control_Api Redis_Memory
begin

text \<open>
  The property of the control API, with an example over the in-memory Redis.
\<close>


text \<open>A signed request whose token the device centre confirms.\<close>

definition ex_ctl_env :: "mem ctl_env" where
  "ex_ctl_env = \<lparr>cstore = mem_store,
     cget = (\<lambda>w u. (w, Inr (json_text (JObj [(''errno'', jint 10000), (''data'', JObj [(''bindStatus'', JBool True)])])))),
     centre = ''centre'', cControl = (\<lambda>w d s c. (w, Inr ''done'')), chmac = (\<lambda>k d. ''x''), cmd5 = (\<lambda>b. ''y''),
     jerr = (\<lambda>b. ''bad''), date_ok = (\<lambda>d. True), permutations = []\<rparr>"

definition ex_command :: request where
  "ex_command = \<lparr>rq_Method = ''POST'', rq_Path = ''/devices/d1'',
     rq_header = (\<lambda>h. if h = ''Authorization'' then ''LETV '' @ controlAK @ '' 78'' else []), rq_Form = [],
     rq_Body = json_text (JObj [(''token'', JStr ''t''), (''service'', JStr ''s''), (''cmd'', JStr ''c'')]), rq_Body_ok = True\<rparr>"

lemma ex_command_fields: "Fields (rq_header ex_command ''Authorization'') = [''LETV'', controlAK, ''78'']"
  unfolding ex_command_def request.simps controlAK_def by code_simp

lemma ex_command_sign: "request_sign ex_ctl_env ex_command = ''78''"
  by (simp add: request_sign_def Sign_def ex_ctl_env_def Let_def) code_simp

lemma ex_command_param:
  "Unmarshal dec_ControlParam (rq_Body ex_command) \<lparr>cp_Token = [], cp_Service = [], cp_Cmd = []\<rparr> =
    (\<lparr>cp_Token = ''t'', cp_Service = ''s'', cp_Cmd = ''c''\<rparr>, True)"
proof -
  have w: "wf_json (JObj [(''token'', JStr ''t''), (''service'', JStr ''s''), (''cmd'', JStr ''c'')])" by simp
  show ?thesis unfolding ex_command_def request.simps Unmarshal_text[OF w]
    by (simp add: dec_ControlParam_def dec_struct_def find_field_def field_def dec_string_def)
qed

lemma ex_command_bound: "checkAuthz ex_ctl_env ''t'' ''d1'' w = (w, True)"
proof -
  let ?j = "JObj [(''errno'', jint 10000), (''data'', JObj [(''bindStatus'', JBool True)])]"
  have w: "wf_json ?j" by simp
  have n: "ParseInt (FormatInt 10000) = Some 10000" by (rule ParseInt_FormatInt) (simp add: int64_range_def)
  have "Unmarshal dec_BindingResp (json_text ?j) \<lparr>br_ErrNo = 0, br_ErrMsg = [], br_BindStatus = False\<rparr> =
      (\<lparr>br_ErrNo = 10000, br_ErrMsg = [], br_BindStatus = True\<rparr>, True)"
    unfolding Unmarshal_text[OF w]
    by (simp add: dec_BindingResp_def dec_struct_def find_field_def field_def dec_bool_def dec_int64_def jint_def n)
  then show ?thesis by (simp add: checkAuthz_def IsBinding_def ex_ctl_env_def ERR_NOERROR_def del: json_text.simps)
qed


end
