(* ===== verification/Test_Client.thy ===== *)
theory Test_Client
  imports Server Http
begin

text \<open>
  \<open>pushtest/pushtest.go\<close>: the client side of the protocol as the load test has it. A client reads frames
  from its connection (\<open>HandleMessage\<close>), answers pushes and the reply to its INIT message, and a second
  goroutine writes what is queued on \<open>outMsgs\<close>. What a connection delivers is a list of socket events, as on
  the server's side. Sleeps and log output are left out.
\<close>

record TestRegApp =
  tr_RegId :: string
  tr_Pkg :: string

record TestClient =
  tc_broken :: bool
  tc_Init :: bool
  tc_DevId :: string
  tc_outMsgs :: "Message list"
  tc_RegApps :: "string \<Rightarrow> TestRegApp option"

definition TestNewClient :: "string \<Rightarrow> TestClient" where
  "TestNewClient devId = \<lparr>tc_broken = False, tc_Init = False, tc_DevId = devId, tc_outMsgs = [], tc_RegApps = Map.empty\<rparr>"

subsection \<open>Messages in the other direction\<close>

text \<open>What the client encodes and the server decodes, and the other way round.\<close>

text \<open>The elements of a slice; nil has none.\<close>

definition nil_list :: "'a list option \<Rightarrow> 'a list" where
  "nil_list s = (case s of None \<Rightarrow> [] | Some xs \<Rightarrow> xs)"

definition enc_Base1 :: "Base1 \<Rightarrow> json" where
  "enc_Base1 b = JObj (member ''appid'' (JStr (b1_AppId b)) @ member ''regid'' (JStr (b1_RegId b)))"

definition enc_InitMessage :: "InitMessage \<Rightarrow> json" where
  "enc_InitMessage m = JObj
    (member ''devid'' (JStr (im_DevId m)) @
     omitempty (im_Sync m = 0) ''sync'' (jint (im_Sync m)) @
     omitempty (nil_list (im_Apps m) = []) ''apps'' (JArr (map enc_Base1 (nil_list (im_Apps m)))))"

definition enc_RegisterMessage :: "RegisterMessage \<Rightarrow> json" where
  "enc_RegisterMessage m = JObj
    (member ''appid'' (JStr (rq_AppId m)) @ member ''appkey'' (JStr (rq_AppKey m)) @ member ''regid'' (JStr (rq_RegId m)) @
     omitempty (rq_Token m = []) ''token'' (JStr (rq_Token m)) @ omitempty (rq_Uid m = []) ''uid'' (JStr (rq_Uid m)))"

definition enc_UnregisterMessage :: "UnregisterMessage \<Rightarrow> json" where
  "enc_UnregisterMessage m = JObj
    (member ''appid'' (JStr (uq_AppId m)) @ member ''appkey'' (JStr (uq_AppKey m)) @ member ''regid'' (JStr (uq_RegId m)))"

definition enc_PushReplyMessage :: "PushReplyMessage \<Rightarrow> json" where
  "enc_PushReplyMessage m = JObj
    (member ''msgid'' (jint (pr_MsgId m)) @ member ''appid'' (JStr (pr_AppId m)) @ member ''regid'' (JStr (pr_RegId m)))"

definition dec_Base2 :: "Base2 decoder" where
  "dec_Base2 = dec_struct
    [field ''appid'' b2_AppId b2_AppId_update dec_string,
     field ''regid'' b2_RegId b2_RegId_update dec_string,
     field ''pkg'' b2_Pkg b2_Pkg_update dec_string]"

definition dec_InitReplyMessage :: "InitReplyMessage decoder" where
  "dec_InitReplyMessage = dec_struct
    [field ''result'' ir_Result ir_Result_update dec_int64,
     field ''errinfo'' ir_ErrInfo ir_ErrInfo_update dec_string,
     field ''apps'' ir_Apps ir_Apps_update (dec_slice dec_Base2 zero_Base2),
     field ''hb'' ir_HB ir_HB_update dec_uint32,
     field ''reconn'' ir_Reconn ir_Reconn_update dec_uint32]"

definition dec_RegisterReplyMessage :: "RegisterReplyMessage decoder" where
  "dec_RegisterReplyMessage = dec_struct
    [field ''result'' rr_Result rr_Result_update dec_int64,
     field ''errinfo'' rr_ErrInfo rr_ErrInfo_update dec_string,
     field ''appid'' rr_AppId rr_AppId_update dec_string,
     field ''pkg'' rr_Pkg rr_Pkg_update dec_string,
     field ''regid'' rr_RegId rr_RegId_update dec_string]"

subsection \<open>Sending\<close>

definition TestSendMessage :: "8 word \<Rightarrow> 32 word \<Rightarrow> string \<Rightarrow> TestClient \<Rightarrow> TestClient" where
  "TestSendMessage msgType seq body t =
    t\<lparr>tc_outMsgs := tc_outMsgs t @
        [\<lparr>mg_Header = Some \<lparr>hd_Type = msgType, hd_Ver = 0, hd_Seq = seq, hd_Len = word_of_nat (length body)\<rparr>,
          mg_Data = body\<rparr>]\<rparr>"

definition sendInit :: "TestClient \<Rightarrow> TestClient" where
  "sendInit t = TestSendMessage MSG_INIT 0
    (json_text (enc_InitMessage \<lparr>im_DevId = tc_DevId t, im_Sync = 1, im_Apps = None\<rparr>)) t"

definition sendRegister :: "string \<Rightarrow> string \<Rightarrow> string \<Rightarrow> TestClient \<Rightarrow> TestClient" where
  "sendRegister appid regid token t = TestSendMessage MSG_REGISTER 0
    (json_text (enc_RegisterMessage \<lparr>rq_AppId = appid, rq_AppKey = [], rq_RegId = regid, rq_Token = token, rq_Uid = []\<rparr>)) t"

definition sendUnregister :: "string \<Rightarrow> string \<Rightarrow> TestClient \<Rightarrow> TestClient" where
  "sendUnregister appid regid t = TestSendMessage MSG_UNREGISTER 0
    (json_text (enc_UnregisterMessage \<lparr>uq_AppId = appid, uq_AppKey = [], uq_RegId = regid\<rparr>)) t"

subsection \<open>Receiving\<close>

definition on_register_reply :: "string \<Rightarrow> TestClient \<Rightarrow> TestClient" where
  "on_register_reply data t =
    (case Unmarshal dec_RegisterReplyMessage data zero_RegisterReplyMessage of
       (_, False) \<Rightarrow> t
     | (reply, True) \<Rightarrow>
         if tc_RegApps t (rr_AppId reply) = None
         then t\<lparr>tc_RegApps := (tc_RegApps t)(rr_AppId reply \<mapsto> \<lparr>tr_RegId = rr_RegId reply, tr_Pkg = rr_Pkg reply\<rparr>)\<rparr>
         else t)"

definition on_push :: "32 word \<Rightarrow> string \<Rightarrow> TestClient \<Rightarrow> TestClient" where
  "on_push seq data t =
    (case Unmarshal dec_PushMessage data zero_PushMessage of
       (_, False) \<Rightarrow> t
     | (request, True) \<Rightarrow>
         (case tc_RegApps t (pm_AppId request) of
            None \<Rightarrow> t
          | Some regapp \<Rightarrow> TestSendMessage MSG_PUSH_REPLY seq (json_text (enc_PushReplyMessage
              \<lparr>pr_MsgId = pm_MsgId request, pr_AppId = pm_AppId request, pr_RegId = tr_RegId regapp\<rparr>)) t))"

text \<open>The error of \<open>Unmarshal\<close> is ignored here.\<close>

definition on_init_reply :: "string \<Rightarrow> TestClient \<Rightarrow> TestClient" where
  "on_init_reply data t =
    (let reply = fst (Unmarshal dec_InitReplyMessage data zero_InitReplyMessage)
     in (fold (\<lambda>app. sendUnregister (b2_AppId app) (b2_RegId app)) (nil_list (ir_Apps reply)) t)\<lparr>tc_Init := True\<rparr>)"

text \<open>\<open>HandleMessage\<close>, with its result. A header that a deadline cuts short is dropped.\<close>

definition HandleMessage :: "sock_event list \<Rightarrow> TestClient \<Rightarrow> sock_event list \<times> TestClient \<times> bool" where
  "HandleMessage evs t =
    (case myRead 10 evs of
       (None, evs1) \<Rightarrow> (evs1, t, False)
     | (Some buf, evs1) \<Rightarrow>
         if length buf < 10 then (evs1, t, True)
         else (case Deserialize buf of
                 None \<Rightarrow> (evs1, t, False)
               | Some header \<Rightarrow>
                   if hd_Len header \<le> 0 then (evs1, t, True)
                   else (case myRead (unat (hd_Len header)) evs1 of
                           (None, evs2) \<Rightarrow> (evs2, t, False)
                         | (Some data, evs2) \<Rightarrow>
                             if length data < unat (hd_Len header) then (evs2, t, False)
                             else (evs2,
                                   if hd_Type header = MSG_REGISTER_REPLY then on_register_reply data t
                                   else if hd_Type header = MSG_PUSH then on_push (hd_Seq header) data t
                                   else if hd_Type header = MSG_INIT_REPLY then on_init_reply data t
                                   else t,
                                   True))))"

subsection \<open>The goroutines\<close>

text \<open>The output routine takes one message. \<open>fail_head\<close> and \<open>fail_body\<close> say how much of a write went out
  before it failed, if it did. The result is what went out.\<close>

definition output_turn :: "nat option \<Rightarrow> nat option \<Rightarrow> TestClient \<Rightarrow> TestClient \<times> string" where
  "output_turn fail_head fail_body t =
    (case tc_outMsgs t of
       [] \<Rightarrow> (t, [])
     | msg # ms \<Rightarrow>
         (let t1 = t\<lparr>tc_outMsgs := ms\<rparr>;
              b = (case mg_Header msg of Some h \<Rightarrow> Serialize h | None \<Rightarrow> [])
          in case fail_head of
               Some n \<Rightarrow> (t1\<lparr>tc_broken := True\<rparr>, take n b)
             | None \<Rightarrow>
                 (case fail_body of
                    Some n \<Rightarrow> (t1\<lparr>tc_broken := True\<rparr>, b @ take n (mg_Data msg))
                  | None \<Rightarrow> (t1, b @ mg_Data msg))))"

definition heartbeat :: string where
  "heartbeat = [CHR 0x00]"

text \<open>One turn of the main loop of \<open>runClient\<close>: whether it registered, the client, whether it goes on. The
  other goroutine works between the turns.\<close>

definition main_turn :: "bool \<Rightarrow> string list \<Rightarrow> sock_event list \<Rightarrow> bool \<times> TestClient \<Rightarrow> sock_event list \<times> (bool \<times> TestClient) \<times> bool" where
  "main_turn stop appIds evs rt =
    (case rt of (registered, t) \<Rightarrow>
      if stop \<or> tc_broken t then (evs, (registered, t), False)
      else
       (let reg = \<not> registered \<and> tc_Init t;
            t1 = (if reg then fold (\<lambda>appid. sendRegister appid [] []) appIds t else t);
            (evs1, t2, ok) = HandleMessage evs t1
        in (evs1, (registered \<or> reg, t2), ok)))"

definition test_devid :: "string \<Rightarrow> int \<Rightarrow> string" where
  "test_devid name index = ''perftest-'' @ name @ ''-'' @ FormatInt index"

definition start_test_client :: "string \<Rightarrow> int \<Rightarrow> TestClient" where
  "start_test_client name index = sendInit (TestNewClient (test_devid name index))"

subsection \<open>The program\<close>

record TestConfig =
  tf_Server :: string
  tf_Name :: string
  tf_HeartBeat :: int
  tf_ReadTimeout :: int
  tf_AppIds :: "string list option"
  tf_Interval :: int

definition zero_TestConfig :: TestConfig where
  "zero_TestConfig = \<lparr>tf_Server = [], tf_Name = [], tf_HeartBeat = 0, tf_ReadTimeout = 0, tf_AppIds = None, tf_Interval = 0\<rparr>"

text \<open>The tag of \<open>Interval\<close> has no quotes, so the field has its own name.\<close>

definition dec_TestConfig :: "TestConfig decoder" where
  "dec_TestConfig = dec_struct
    [field ''server'' tf_Server tf_Server_update dec_string,
     field ''name'' tf_Name tf_Name_update dec_string,
     field ''heartbeat'' tf_HeartBeat tf_HeartBeat_update dec_int64,
     field ''readtimeout'' tf_ReadTimeout tf_ReadTimeout_update dec_int64,
     field ''appids'' tf_AppIds tf_AppIds_update strings_dec,
     field ''Interval'' tf_Interval tf_Interval_update dec_int64]"

text \<open>The number of the first client and of clients, from the program's arguments.\<close>

definition test_range :: "string list \<Rightarrow> int \<times> int" where
  "test_range args = (if 3 \<le> length args then (Atoi_value (args ! 1), Atoi_value (args ! 2)) else (0, 1))"

text \<open>\<open>runClient\<close> up to its loops: a client that cannot connect is not counted by the wait group.\<close>

definition runClient_start :: "bool \<Rightarrow> string \<Rightarrow> int \<Rightarrow> TestClient option" where
  "runClient_start connected name index = (if connected then Some (start_test_client name index) else None)"

text \<open>The clients that the loop of \<open>main\<close> starts; \<open>running n\<close> says whether no signal has come before client \<open>n\<close>.\<close>

definition started_clients :: "int \<Rightarrow> int \<Rightarrow> (int \<Rightarrow> bool) \<Rightarrow> int list" where
  "started_clients begin count running = takeWhile running [begin..begin + count - 1]"

text \<open>\<open>main\<close>: the configuration with its default, and the clients; \<open>None\<close> is exit with status 1. \<open>logs\<close> says whether
  the logger could be made.\<close>

definition test_main :: "string list \<Rightarrow> string result \<Rightarrow> bool \<Rightarrow> (int \<Rightarrow> bool) \<Rightarrow> (TestConfig \<times> int list) option" where
  "test_main args file logs running =
    (case file of
       Inl _ \<Rightarrow> None
     | Inr text \<Rightarrow>
         (case Decode dec_TestConfig text zero_TestConfig of
            (_, False) \<Rightarrow> None
          | (config0, True) \<Rightarrow>
              (let config = (if tf_ReadTimeout config0 \<le> 0 then config0\<lparr>tf_ReadTimeout := 20\<rparr> else config0)
               in if \<not> logs then None
                  else Some (config, started_clients (fst (test_range args)) (snd (test_range args)) running))))"

text \<open>Clients have different device ids.\<close>

lemma test_devids_distinct: "distinct (map (test_devid name) (started_clients b n running))"
proof -
  have "inj (test_devid name)" by (rule injI) (simp add: test_devid_def FormatInt_inj)
  then show ?thesis by (simp add: distinct_map started_clients_def distinct_takeWhile inj_on_def inj_def)
qed

end
