(* ===== verification/Test_Client_Spec.thy ===== *)
theory Test_Client_Spec
  imports Test_Client Comet_Spec Server_Spec Message_Store
begin

text \<open>
  The conversation of the test client with the comet server: what each side writes, the other reads. A
  pushed message comes back as the acknowledgement that the server records (\<open>push_acknowledged\<close>); the
  INIT message of a new client is what the server expects first (\<open>init_understood\<close>); a registration that
  the server confirms is the one the client then uses (\<open>register_reply_understood\<close>).
\<close>

subsection \<open>Reading one frame\<close>

lemma myRead_exact: "n \<le> length bs \<Longrightarrow> 0 < n \<Longrightarrow>
  myRead n (Bytes bs # es) = (Some (take n bs), (if n < length bs then Bytes (drop n bs) # es else es))"
proof -
  assume n: "n \<le> length bs" "0 < n"
  show ?thesis
  proof (cases "n < length bs")
    case False
    then have "n = length bs" using n by simp
    moreover have "myRead 0 es = (Some [], es)" by (simp add: myRead.simps)
    ultimately show ?thesis using n by (subst myRead.simps) simp
  qed (use n in \<open>subst myRead.simps, simp\<close>)
qed

definition client_reads :: "Header \<Rightarrow> string \<Rightarrow> TestClient \<Rightarrow> TestClient" where
  "client_reads h data t =
    (if hd_Type h = MSG_REGISTER_REPLY then on_register_reply data t
     else if hd_Type h = MSG_PUSH then on_push (hd_Seq h) data t
     else if hd_Type h = MSG_INIT_REPLY then on_init_reply data t
     else t)"

text \<open>A whole frame with a body is handled as its type says.\<close>

lemma HandleMessage_frame:
  assumes "unat (hd_Len h) = length data" "data \<noteq> []"
  shows "HandleMessage (Bytes (Serialize h @ data) # es) t = (es, client_reads h data t, True)"
proof -
  have l: "length (Serialize h) = 10" using length_Serialize[of h] by (simp add: HEADER_SIZE_def)
  have r1: "myRead 10 (Bytes (Serialize h @ data) # es) = (Some (Serialize h), Bytes data # es)"
    using myRead_exact[of 10 "Serialize h @ data" es] l assms(2) by simp
  have r2: "myRead (unat (hd_Len h)) (Bytes data # es) = (Some data, es)"
    using myRead_exact[of "length data" data es] assms by simp
  have d: "Deserialize (Serialize h) = Some h" using Deserialize_Serialize[of h "[]"] by simp
  have "\<not> hd_Len h \<le> 0" using assms by (auto simp: word_le_nat_alt)
  then show ?thesis unfolding HandleMessage_def r1 prod.case option.case d r2
    using assms(1) by (simp add: client_reads_def HEADER_SIZE_def)
qed

text \<open>Of a header that a deadline cuts in two the first part is lost, and the stream is out of step.\<close>

lemma cut_header_lost:
  "length bs < 10 \<Longrightarrow> bs \<noteq> [] \<Longrightarrow> HandleMessage (Bytes bs # Deadline # es) t = (es, t, True)"
proof -
  assume b: "length bs < 10" "bs \<noteq> []"
  have "myRead (10 - length bs) (Deadline # es) = (Some [], es)" using b(1) by (subst myRead.simps) simp
  then have "myRead 10 (Bytes bs # Deadline # es) = (Some bs, es)" using b by (subst myRead.simps) simp
  then show ?thesis using b by (simp add: HandleMessage_def)
qed

subsection \<open>Messages\<close>

lemma dec_enc_push_reply:
  assumes "int64_range (pr_MsgId m)"
  shows "Unmarshal dec_PushReplyMessage (json_text (enc_PushReplyMessage m)) zero_PushReplyMessage = (m, True)"
proof -
  have w: "wf_json (enc_PushReplyMessage m)" by (simp add: enc_PushReplyMessage_def)
  show ?thesis unfolding Unmarshal_text[OF w] using assms
    by (cases m) (simp add: dec_PushReplyMessage_def enc_PushReplyMessage_def zero_PushReplyMessage_def struct_simps)
qed

lemma dec_enc_init:
  "Unmarshal dec_InitMessage (json_text (enc_InitMessage \<lparr>im_DevId = d, im_Sync = 1, im_Apps = None\<rparr>)) zero_InitMessage =
    (\<lparr>im_DevId = d, im_Sync = 1, im_Apps = None\<rparr>, True)"
proof -
  have w: "wf_json (enc_InitMessage \<lparr>im_DevId = d, im_Sync = 1, im_Apps = None\<rparr>)"
    by (simp add: enc_InitMessage_def nil_list_def)
  show ?thesis unfolding Unmarshal_text[OF w]
    by (simp add: dec_InitMessage_def enc_InitMessage_def zero_InitMessage_def nil_list_def struct_simps int64_range_def)
qed

lemma dec_enc_register_reply:
  assumes "int64_range (rr_Result m)"
  shows "Unmarshal dec_RegisterReplyMessage (json_text (enc_RegisterReplyMessage m)) zero_RegisterReplyMessage = (m, True)"
proof -
  have w: "wf_json (enc_RegisterReplyMessage m)" by (simp add: enc_RegisterReplyMessage_def)
  show ?thesis unfolding Unmarshal_text[OF w] using assms
    by (cases m) (auto simp: dec_RegisterReplyMessage_def enc_RegisterReplyMessage_def zero_RegisterReplyMessage_def struct_simps)
qed

subsection \<open>Conversations\<close>

lemma json_text_object: "json_text (JObj ms) \<noteq> []"
  by simp

lemma push_acknowledged:
  assumes m: "int64_range (pm_MsgId m)" "int64_range (pm_Type m)" "pm_AppId m \<noteq> []"
    and h: "hd_Type h = MSG_PUSH" "unat (hd_Len h) = length (json_text (enc_PushMessage m))"
    and t: "tc_RegApps t (pm_AppId m) = Some r" "tr_RegId r \<noteq> []"
    and s: "cl_RegApps (client_heap s c) (pm_AppId m) = Some a" "ap_RegId (app_heap s a) = tr_RegId r"
      "ai_LastMsgId (app_info s a) < pm_MsgId m"
  shows "\<exists>hr body. HandleMessage (Bytes (Serialize h @ json_text (enc_PushMessage m)) # es) t =
      (es, t\<lparr>tc_outMsgs := tc_outMsgs t @ [\<lparr>mg_Header = Some hr, mg_Data = body\<rparr>]\<rparr>, True) \<and>
    hd_Type hr = MSG_PUSH_REPLY \<and> hd_Seq hr = hd_Seq h \<and> hd_Len hr = word_of_nat (length body) \<and>
    handlePushReply e c hr body s =
      Some (put_job c (UpdateJob (cl_devId (client_heap s c)) (tr_RegId r) ((app_info s a)\<lparr>ai_LastMsgId := pm_MsgId m\<rparr>))
        (set_app a (ai_LastMsgId_update (\<lambda>_. pm_MsgId m)) s), 0)"
proof -
  define q where "q = \<lparr>pr_MsgId = pm_MsgId m, pr_AppId = pm_AppId m, pr_RegId = tr_RegId r\<rparr>"
  define body where "body = json_text (enc_PushReplyMessage q)"
  define hr where "hr = \<lparr>hd_Type = MSG_PUSH_REPLY, hd_Ver = 0, hd_Seq = hd_Seq h, hd_Len = word_of_nat (length body)\<rparr>"
  have "json_text (enc_PushMessage m) \<noteq> []" by (simp add: enc_PushMessage_def)
  note hm = HandleMessage_frame[OF h(2) this, of es t]
  have "client_reads h (json_text (enc_PushMessage m)) t = on_push (hd_Seq h) (json_text (enc_PushMessage m)) t"
    using h(1) by (simp add: client_reads_def msg_type_defs)
  also have "\<dots> = t\<lparr>tc_outMsgs := tc_outMsgs t @ [\<lparr>mg_Header = Some hr, mg_Data = body\<rparr>]\<rparr>"
    using PushMessage_round_trip[OF m(1,2)] t(1) by (simp add: on_push_def TestSendMessage_def hr_def body_def q_def)
  finally have cl: "HandleMessage (Bytes (Serialize h @ json_text (enc_PushMessage m)) # es) t =
      (es, t\<lparr>tc_outMsgs := tc_outMsgs t @ [\<lparr>mg_Header = Some hr, mg_Data = body\<rparr>]\<rparr>, True)" using hm by simp
  have "ack_request body q" using dec_enc_push_reply[of q] m t(2)
    by (simp add: ack_request_def body_def q_def)
  from handlePushReply_acks[OF this, of s c a e hr] s have
    "handlePushReply e c hr body s =
      Some (put_job c (UpdateJob (cl_devId (client_heap s c)) (tr_RegId r) ((app_info s a)\<lparr>ai_LastMsgId := pm_MsgId m\<rparr>))
        (set_app a (ai_LastMsgId_update (\<lambda>_. pm_MsgId m)) s), 0)" by (simp add: q_def)
  then show ?thesis using cl by (intro exI[of _ hr], intro exI[of _ body]) (simp add: hr_def)
qed

text \<open>The first message of a client is an INIT message with its device id.\<close>

lemma init_understood:
  "\<exists>h body. tc_outMsgs (start_test_client name i) = [\<lparr>mg_Header = Some h, mg_Data = body\<rparr>] \<and> hd_Type h = MSG_INIT \<and>
    hd_Len h = word_of_nat (length body) \<and>
    Unmarshal dec_InitMessage body zero_InitMessage = (\<lparr>im_DevId = test_devid name i, im_Sync = 1, im_Apps = None\<rparr>, True)"
  by (simp add: start_test_client_def sendInit_def TestSendMessage_def TestNewClient_def dec_enc_init)

text \<open>A registration that the server confirms is recorded, unless the application was registered before.\<close>

lemma register_reply_understood:
  assumes "int64_range (rr_Result m)" "tc_RegApps t (rr_AppId m) = None"
  shows "tc_RegApps (on_register_reply (json_text (enc_RegisterReplyMessage m)) t) (rr_AppId m) =
    Some \<lparr>tr_RegId = rr_RegId m, tr_Pkg = rr_Pkg m\<rparr>"
  using dec_enc_register_reply[OF assms(1)] assms(2) by (simp add: on_register_reply_def)

end
