(* ===== verification/Config.thy ===== *)
theory Config
  imports Http
begin

text \<open>
  \<open>conf/conf.go\<close>: the settings of all the programs, one structure that \<open>LoadConfig\<close> fills from a JSON file.
  A \<open>time.Duration\<close> is its number of nanoseconds, though the files give seconds; the programs multiply it
  (\<open>seconds\<close>).
\<close>

subsection \<open>Sections\<close>

record CometConfig =
  cf_Port :: string
  cf_AcceptTimeout :: "32 word"
  cf_ReadTimeout :: "32 word"
  cf_WriteTimeout :: "32 word"
  cf_HeartbeatTimeout :: "32 word"
  cf_MaxBodyLen :: "32 word"
  cf_MaxClients :: "32 word"
  cf_WorkerCnt :: int
  cf_HeartbeatInterval :: "32 word"
  cf_ReconnTime :: "32 word"

record ControlConfig =
  ct_CommandTimeout :: int
  ct_DevCenter :: string

record RabbitConfig =
  rb_Enable :: bool
  rb_Uri :: string
  rb_Exchange :: string
  rb_ExchangeType :: string
  rb_Key :: string
  rb_Reliable :: bool
  rb_QOS :: int

record RedisConfig =
  rd_Server :: string
  rd_Pass :: string
  rd_MaxActive :: int
  rd_MaxIdle :: int
  rd_IdleTimeout :: int
  rd_Retry :: int
  rd_ConnTimeout :: int
  rd_ReadTimeout :: int
  rd_WriteTimeout :: int

record ZooKeeperConfig =
  zc_Enable :: bool
  zc_Addr :: string
  zc_Timeout :: int
  zc_Path :: string

record AuthConfig =
  au_Provider :: string
  au_LetvUrl :: string

record NotifyConfig =
  nc_Addr :: string
  nc_SubUrl :: string
  nc_PushUrl :: string
  nc_MaxNotices :: int
  nc_Timeout :: int

record SyncConfig =
  sc_Url :: string
  sc_Interval :: int

record ConfigStruct =
  cfg_Comet :: CometConfig
  cfg_Prof :: bool
  cfg_PushAPI :: string
  cfg_Web :: string
  cfg_Control :: ControlConfig
  cfg_Rabbit :: RabbitConfig
  cfg_Redis :: RedisConfig
  cfg_ZooKeeper :: ZooKeeperConfig
  cfg_Auth :: AuthConfig
  cfg_Notify :: NotifyConfig
  cfg_Sync :: SyncConfig

text \<open>The variable \<open>Config\<close> before a file is loaded.\<close>

definition Config_zero :: ConfigStruct where
  "Config_zero = \<lparr>cfg_Comet = \<lparr>cf_Port = [], cf_AcceptTimeout = 0, cf_ReadTimeout = 0, cf_WriteTimeout = 0,
       cf_HeartbeatTimeout = 0, cf_MaxBodyLen = 0, cf_MaxClients = 0, cf_WorkerCnt = 0, cf_HeartbeatInterval = 0,
       cf_ReconnTime = 0\<rparr>,
     cfg_Prof = False, cfg_PushAPI = [], cfg_Web = [], cfg_Control = \<lparr>ct_CommandTimeout = 0, ct_DevCenter = []\<rparr>,
     cfg_Rabbit = \<lparr>rb_Enable = False, rb_Uri = [], rb_Exchange = [], rb_ExchangeType = [], rb_Key = [],
       rb_Reliable = False, rb_QOS = 0\<rparr>,
     cfg_Redis = \<lparr>rd_Server = [], rd_Pass = [], rd_MaxActive = 0, rd_MaxIdle = 0, rd_IdleTimeout = 0, rd_Retry = 0,
       rd_ConnTimeout = 0, rd_ReadTimeout = 0, rd_WriteTimeout = 0\<rparr>,
     cfg_ZooKeeper = \<lparr>zc_Enable = False, zc_Addr = [], zc_Timeout = 0, zc_Path = []\<rparr>,
     cfg_Auth = \<lparr>au_Provider = [], au_LetvUrl = []\<rparr>,
     cfg_Notify = \<lparr>nc_Addr = [], nc_SubUrl = [], nc_PushUrl = [], nc_MaxNotices = 0, nc_Timeout = 0\<rparr>,
     cfg_Sync = \<lparr>sc_Url = [], sc_Interval = 0\<rparr>\<rparr>"

subsection \<open>Decoding\<close>

definition dec_CometConfig :: "CometConfig decoder" where
  "dec_CometConfig = dec_struct
    [field ''port'' cf_Port cf_Port_update dec_string,
     field ''accept_timeout'' cf_AcceptTimeout cf_AcceptTimeout_update dec_uint32,
     field ''read_timeout'' cf_ReadTimeout cf_ReadTimeout_update dec_uint32,
     field ''write_timeout'' cf_WriteTimeout cf_WriteTimeout_update dec_uint32,
     field ''heartbeat_timeout'' cf_HeartbeatTimeout cf_HeartbeatTimeout_update dec_uint32,
     field ''max_bodylen'' cf_MaxBodyLen cf_MaxBodyLen_update dec_uint32,
     field ''max_clients'' cf_MaxClients cf_MaxClients_update dec_uint32,
     field ''worker_count'' cf_WorkerCnt cf_WorkerCnt_update dec_int64,
     field ''heartbeat_interval'' cf_HeartbeatInterval cf_HeartbeatInterval_update dec_uint32,
     field ''reconn_time'' cf_ReconnTime cf_ReconnTime_update dec_uint32]"

definition dec_ControlConfig :: "ControlConfig decoder" where
  "dec_ControlConfig = dec_struct
    [field ''command_timeout'' ct_CommandTimeout ct_CommandTimeout_update dec_int64,
     field ''devcenter'' ct_DevCenter ct_DevCenter_update dec_string]"

definition dec_RabbitConfig :: "RabbitConfig decoder" where
  "dec_RabbitConfig = dec_struct
    [field ''enable'' rb_Enable rb_Enable_update dec_bool,
     field ''uri'' rb_Uri rb_Uri_update dec_string,
     field ''exchange'' rb_Exchange rb_Exchange_update dec_string,
     field ''exchange_type'' rb_ExchangeType rb_ExchangeType_update dec_string,
     field ''key'' rb_Key rb_Key_update dec_string,
     field ''reliable'' rb_Reliable rb_Reliable_update dec_bool,
     field ''qos'' rb_QOS rb_QOS_update dec_int64]"

definition dec_RedisConfig :: "RedisConfig decoder" where
  "dec_RedisConfig = dec_struct
    [field ''server'' rd_Server rd_Server_update dec_string,
     field ''pass'' rd_Pass rd_Pass_update dec_string,
     field ''maxactive'' rd_MaxActive rd_MaxActive_update dec_int64,
     field ''maxidle'' rd_MaxIdle rd_MaxIdle_update dec_int64,
     field ''idletimeout'' rd_IdleTimeout rd_IdleTimeout_update dec_int64,
     field ''retry'' rd_Retry rd_Retry_update dec_int64,
     field ''conntimeout'' rd_ConnTimeout rd_ConnTimeout_update dec_int64,
     field ''readtimeout'' rd_ReadTimeout rd_ReadTimeout_update dec_int64,
     field ''writetimeout'' rd_WriteTimeout rd_WriteTimeout_update dec_int64]"

definition dec_ZooKeeperConfig :: "ZooKeeperConfig decoder" where
  "dec_ZooKeeperConfig = dec_struct
    [field ''enable'' zc_Enable zc_Enable_update dec_bool,
     field ''addr'' zc_Addr zc_Addr_update dec_string,
     field ''timeout'' zc_Timeout zc_Timeout_update dec_int64,
     field ''path'' zc_Path zc_Path_update dec_string]"

definition dec_AuthConfig :: "AuthConfig decoder" where
  "dec_AuthConfig = dec_struct
    [field ''provider'' au_Provider au_Provider_update dec_string,
     field ''letv_url'' au_LetvUrl au_LetvUrl_update dec_string]"

definition dec_NotifyConfig :: "NotifyConfig decoder" where
  "dec_NotifyConfig = dec_struct
    [field ''addr'' nc_Addr nc_Addr_update dec_string,
     field ''sub_url'' nc_SubUrl nc_SubUrl_update dec_string,
     field ''push_url'' nc_PushUrl nc_PushUrl_update dec_string,
     field ''max_notices'' nc_MaxNotices nc_MaxNotices_update dec_int64,
     field ''timeout'' nc_Timeout nc_Timeout_update dec_int64]"

definition dec_SyncConfig :: "SyncConfig decoder" where
  "dec_SyncConfig = dec_struct
    [field ''url'' sc_Url sc_Url_update dec_string,
     field ''interval'' sc_Interval sc_Interval_update dec_int64]"

definition dec_ConfigStruct :: "ConfigStruct decoder" where
  "dec_ConfigStruct = dec_struct
    [field ''comet'' cfg_Comet cfg_Comet_update dec_CometConfig,
     field ''prof'' cfg_Prof cfg_Prof_update dec_bool,
     field ''pushapi'' cfg_PushAPI cfg_PushAPI_update dec_string,
     field ''web'' cfg_Web cfg_Web_update dec_string,
     field ''control'' cfg_Control cfg_Control_update dec_ControlConfig,
     field ''rabbit'' cfg_Rabbit cfg_Rabbit_update dec_RabbitConfig,
     field ''redis'' cfg_Redis cfg_Redis_update dec_RedisConfig,
     field ''zookeeper'' cfg_ZooKeeper cfg_ZooKeeper_update dec_ZooKeeperConfig,
     field ''auth'' cfg_Auth cfg_Auth_update dec_AuthConfig,
     field ''notify'' cfg_Notify cfg_Notify_update dec_NotifyConfig,
     field ''sync'' cfg_Sync cfg_Sync_update dec_SyncConfig]"

text \<open>\<open>file\<close> is the text of the file, or the error of opening it. The flag says whether the error is nil; what
  was decoded before an error stays.\<close>

definition LoadConfig :: "string result \<Rightarrow> ConfigStruct \<Rightarrow> ConfigStruct \<times> bool" where
  "LoadConfig file cfg = (case file of Inl _ \<Rightarrow> (cfg, False) | Inr text \<Rightarrow> Decode dec_ConfigStruct text cfg)"

text \<open>\<open>t * time.Second\<close>, which wraps.\<close>

definition seconds :: "int \<Rightarrow> int" where
  "seconds t = wrap64 (t * 1000000000)"

subsection \<open>Loading a file\<close>

text \<open>What loading a file does: a section that the file does not name stays as it was, and the name of a setting
  that no field has is passed over without a word.\<close>

lemma seconds_small:
  assumes "0 \<le> t" "t \<le> 9223372036"
  shows "seconds t = t * 1000000000"
  using assms by (simp add: seconds_def wrap64_def)

text \<open>A time of more than 292 years wraps, and may come out as less than a second.\<close>

lemma seconds_wraps: "seconds 18446744074 < 1000000000"
  by (simp add: seconds_def wrap64_def)

lemma dec_uint32_jint: "0 \<le> i \<Longrightarrow> i < 2 ^ 32 \<Longrightarrow> dec_uint32 (jint i) x = (word_of_int i, True)"
proof -
  assume i: "0 \<le> i" "i < 2 ^ 32"
  then have "int64_range i" by (simp add: int64_range_def)
  moreover have "FormatInt i \<noteq> [] \<and> hd (FormatInt i) \<noteq> CHR ''-''"
    using i format_nat_hd[of "nat i"] not_digit_sign by (cases "format_nat (nat i)") (auto simp: FormatInt_def)
  ultimately show ?thesis using i by (simp add: dec_uint32_def jint_def ParseInt_FormatInt)
qed

text \<open>The members of a document, one after the other.\<close>

lemma LoadConfig_text:
  "wf_json (JObj ms) \<Longrightarrow> LoadConfig (Inr (json_text (JObj ms))) cfg = dec_ConfigStruct (JObj ms) cfg"
  unfolding LoadConfig_def by (simp only: sum.case Decode_text)

lemma ZooKeeper_section:
  assumes "int64_range t"
  shows "LoadConfig (Inr (json_text (JObj [(''zookeeper'', JObj [(''enable'', JBool True), (''addr'', JStr a),
      (''timeout'', jint t), (''path'', JStr p)])]))) cfg =
    (cfg\<lparr>cfg_ZooKeeper := \<lparr>zc_Enable = True, zc_Addr = a, zc_Timeout = t, zc_Path = p\<rparr>\<rparr>, True)"
  by (rule trans[OF LoadConfig_text])
    (use assms in \<open>simp_all add: dec_ConfigStruct_def dec_ZooKeeperConfig_def dec_struct_def find_field_def field_def\<close>)

text \<open>The setting \<open>poolsize\<close> that the file of the push API gives to Redis is no field: its pool has no limits.\<close>

lemma dec_RedisConfig_poolsize: "dec_RedisConfig (JObj [(''poolsize'', j)]) x = (x, True)"
  by (simp add: dec_RedisConfig_def dec_struct_def find_field_def field_def byte_val_def)

lemma poolsize_ignored:
  "LoadConfig (Inr (json_text (JObj [(''redis'', JObj [(''poolsize'', jint n)])]))) Config_zero = (Config_zero, True)"
  by (rule trans[OF LoadConfig_text])
    (simp_all add: dec_ConfigStruct_def dec_struct_def[of "_ # _"] find_field_def field_def dec_RedisConfig_poolsize Config_zero_def)

text \<open>A value that does not fit leaves its field alone, and the rest of the file is still loaded.\<close>

lemma misfit_skipped:
  "LoadConfig (Inr (json_text (JObj [(''prof'', JStr []), (''web'', JStr a)]))) cfg = (cfg\<lparr>cfg_Web := a\<rparr>, False)"
  by (rule trans[OF LoadConfig_text])
    (simp_all add: dec_ConfigStruct_def dec_struct_def find_field_def field_def dec_bool_def)

end
