(* ===== verification/Broker.thy ===== *)
theory Broker
  imports Prelude
begin

text \<open>
  The set-up and shut-down of AMQP connections: \<open>mq/producer.go\<close>, and in \<open>mq/consumer.go\<close>, \<open>mq/rpc_server.go\<close>
  and \<open>mq/rpc_client.go\<close> the functions that open a connection, declare what they use and close it. The AMQP
  library and the broker behind it are one parameter: what a call answers after the calls that the process
  has made on its connection before. A successful answer of \<open>QueueDeclare\<close> is the name of the queue, which
  the broker chooses when the name asked for is empty; those of other calls carry nothing. The log of calls
  and answers is the state of a connection, and \<open>routes\<close> says to which queues the broker hands a message
  after the logged calls.
\<close>

record Publishing =
  pb_ReplyTo :: string
  pb_CorrelationId :: string
  pb_Body :: string

datatype amqp_call =
    Dial string
  | OpenChannel
  | ExchangeDeclare string string bool bool bool bool
  | QueueDeclare string bool bool bool bool
  | QueueBind string string string bool
  | Qos int int bool
  | Consume string string bool bool bool bool
  | Publish string string bool bool Publishing
  | Cancel string bool
  | CloseChannel
  | CloseConn

type_synonym amqp_log = "(amqp_call \<times> string result) list"
type_synonym broker = "amqp_log \<Rightarrow> amqp_call \<Rightarrow> string result"

definition ask :: "broker \<Rightarrow> amqp_call \<Rightarrow> amqp_log \<Rightarrow> amqp_log \<times> string result" where
  "ask br c h = (h @ [(c, br h c)], br h c)"

text \<open>\<open>fmt.Errorf("...: %s", err)\<close>, and seelog's \<open>Errorf\<close>, which returns what it logs as an error.\<close>

definition wrapped :: "string \<Rightarrow> go_error \<Rightarrow> go_error" where
  "wrapped what err = GoErr (what @ '': '' @ error_text err)"

subsection \<open>Consumer\<close>

text \<open>\<open>co_handling\<close>: the goroutine \<open>handle\<close> has been started; it sends on \<open>done\<close> when its deliveries end.\<close>

record Consumer =
  co_queue :: string
  co_tag :: string
  co_handling :: bool

definition NewConsumer :: "broker \<Rightarrow> string \<Rightarrow> string \<Rightarrow> string \<Rightarrow> int \<Rightarrow> amqp_log \<Rightarrow> amqp_log \<times> Consumer result" where
  "NewConsumer br ip amqpURI exchange qos h =
    (let queueName = ip; ctag = queueName @ ''_tag''
     in case ask br (Dial amqpURI) h of
          (h1, Inl err) \<Rightarrow> (h1, Inl (wrapped ''Dial'' err))
        | (h1, Inr _) \<Rightarrow>
     case ask br OpenChannel h1 of
          (h2, Inl err) \<Rightarrow> (h2, Inl (wrapped ''Channel'' err))
        | (h2, Inr _) \<Rightarrow>
     case ask br (QueueDeclare queueName True False False False) h2 of
          (h3, Inl err) \<Rightarrow> (h3, Inl (wrapped ''Queue Declare'' err))
        | (h3, Inr queue) \<Rightarrow>
     case ask br (QueueBind queue [] exchange False) h3 of
          (h4, Inl err) \<Rightarrow> (h4, Inl (wrapped ''Queue Bind'' err))
        | (h4, Inr _) \<Rightarrow>
            (fst (ask br (Qos qos 0 False) h4), Inr \<lparr>co_queue = queueName, co_tag = ctag, co_handling = False\<rparr>))"

definition Consumer_Consume :: "broker \<Rightarrow> Consumer \<Rightarrow> amqp_log \<Rightarrow> amqp_log \<times> Consumer \<times> go_error option" where
  "Consumer_Consume br c h =
    (case ask br (Consume (co_queue c) (co_tag c) False False False False) h of
       (h1, Inl err) \<Rightarrow> (h1, c, Some (wrapped ''Queue Consume'' err))
     | (h1, Inr _) \<Rightarrow> (h1, c\<lparr>co_handling := True\<rparr>, None))"

text \<open>\<open>Cancel\<close> closes the channel of deliveries, so a running \<open>handle\<close> ends and sends nil. \<open>None\<close>: nobody sends
  on \<open>done\<close>, and \<open>Shutdown\<close> waits for ever.\<close>

definition Consumer_Shutdown :: "broker \<Rightarrow> Consumer \<Rightarrow> amqp_log \<Rightarrow> amqp_log \<times> go_error option option" where
  "Consumer_Shutdown br c h =
    (case ask br (Cancel (co_tag c) True) h of
       (h1, Inl err) \<Rightarrow> (h1, Some (Some (GoErr (''Consumer cancel failed: '' @ error_text err))))
     | (h1, Inr _) \<Rightarrow>
         (case ask br CloseConn h1 of
            (h2, Inl err) \<Rightarrow> (h2, Some (Some (GoErr (''AMQP connection close error: '' @ error_text err))))
          | (h2, Inr _) \<Rightarrow> (h2, if co_handling c then Some None else None)))"

subsection \<open>Producer\<close>

record Producer =
  po_exchangeName :: string
  po_routingKey :: string

definition NewProducer :: "broker \<Rightarrow> string \<Rightarrow> string \<Rightarrow> string \<Rightarrow> string \<Rightarrow> bool \<Rightarrow> amqp_log \<Rightarrow> amqp_log \<times> Producer result" where
  "NewProducer br amqpURI exchangeName exchangeType routingKey reliable h =
    (case ask br (Dial amqpURI) h of
       (h1, Inl err) \<Rightarrow> (h1, Inl (wrapped ''failed to dial mq'' err))
     | (h1, Inr _) \<Rightarrow>
     case ask br OpenChannel h1 of
       (h2, Inl err) \<Rightarrow> (h2, Inl (wrapped ''failed to get channel'' err))
     | (h2, Inr _) \<Rightarrow>
     case ask br (ExchangeDeclare exchangeName exchangeType True False False False) h2 of
       (h3, Inl err) \<Rightarrow> (h3, Inl (wrapped ''failed to declare exchange'' err))
     | (h3, Inr _) \<Rightarrow> (h3, Inr \<lparr>po_exchangeName = exchangeName, po_routingKey = routingKey\<rparr>))"

definition Producer_Publish :: "broker \<Rightarrow> Producer \<Rightarrow> string \<Rightarrow> amqp_log \<Rightarrow> amqp_log \<times> go_error option" where
  "Producer_Publish br p data h =
    (case ask br (Publish (po_exchangeName p) (po_routingKey p) False False
            \<lparr>pb_ReplyTo = [], pb_CorrelationId = [], pb_Body = data\<rparr>) h of
       (h1, Inl err) \<Rightarrow> (h1, Some (wrapped ''Exchange Publish'' err))
     | (h1, Inr _) \<Rightarrow> (h1, None))"

definition Producer_Shutdown :: "broker \<Rightarrow> amqp_log \<Rightarrow> amqp_log" where
  "Producer_Shutdown br h = fst (ask br CloseConn (fst (ask br CloseChannel h)))"

subsection \<open>Remote calls\<close>

definition rpcExchangeType :: string where "rpcExchangeType = ''direct''"

text \<open>What both ends open first: connection, channel, exchange, and a queue of their own with a name that
  the broker chooses.\<close>

definition open_rpc :: "broker \<Rightarrow> string \<Rightarrow> string \<Rightarrow> amqp_log \<Rightarrow> amqp_log \<times> string result" where
  "open_rpc br amqpURI exchange h =
    (case ask br (Dial amqpURI) h of
       (h1, Inl err) \<Rightarrow> (h1, Inl err)
     | (h1, Inr _) \<Rightarrow>
     case ask br OpenChannel h1 of
       (h2, Inl err) \<Rightarrow> (h2, Inl err)
     | (h2, Inr _) \<Rightarrow>
     case ask br (ExchangeDeclare exchange rpcExchangeType True False False False) h2 of
       (h3, Inl err) \<Rightarrow> (h3, Inl err)
     | (h3, Inr _) \<Rightarrow> ask br (QueueDeclare [] False True True False) h3)"

record RpcServer =
  rv_exchange :: string
  rv_queue :: string

definition NewRpcServer :: "broker \<Rightarrow> string \<Rightarrow> string \<Rightarrow> string \<Rightarrow> amqp_log \<Rightarrow> amqp_log \<times> RpcServer result" where
  "NewRpcServer br amqpURI exchange bindingKey h =
    (case open_rpc br amqpURI exchange h of
       (h1, Inl err) \<Rightarrow> (h1, Inl err)
     | (h1, Inr rpcQueue) \<Rightarrow>
     case ask br (QueueBind rpcQueue bindingKey exchange False) h1 of
       (h2, Inl err) \<Rightarrow> (h2, Inl err)
     | (h2, Inr _) \<Rightarrow>
     case ask br (Consume rpcQueue [] False False False False) h2 of
       (h3, Inl err) \<Rightarrow> (h3, Inl err)
     | (h3, Inr _) \<Rightarrow> (h3, Inr \<lparr>rv_exchange = exchange, rv_queue = rpcQueue\<rparr>))"

definition RpcServer_Stop :: "broker \<Rightarrow> amqp_log \<Rightarrow> amqp_log" where
  "RpcServer_Stop br h = fst (ask br CloseConn h)"

text \<open>The publication of a response; its error is only logged.\<close>

definition publish_response :: "broker \<Rightarrow> string \<Rightarrow> string \<Rightarrow> string \<Rightarrow> amqp_log \<Rightarrow> amqp_log" where
  "publish_response br callbackQueue correlationId data h =
    fst (ask br (Publish [] callbackQueue False False
      \<lparr>pb_ReplyTo = [], pb_CorrelationId = correlationId, pb_Body = data\<rparr>) h)"

text \<open>\<open>rc_loop\<close> is the queue that the response loop ranges over, once it has started; \<open>Some None\<close> is the nil
  channel of a failed \<open>Consume\<close>, on which it waits for ever.\<close>

record RpcClient =
  rc_exchange :: string
  rc_callbackQueue :: string
  rc_loop :: "string option option"

definition AmqpRpcClient :: "broker \<Rightarrow> string \<Rightarrow> string \<Rightarrow> amqp_log \<Rightarrow> amqp_log \<times> RpcClient result" where
  "AmqpRpcClient br amqpURI exchange h =
    (case open_rpc br amqpURI exchange h of
       (h1, Inl err) \<Rightarrow> (h1, Inl err)
     | (h1, Inr callbackQueue) \<Rightarrow>
         (h1, Inr \<lparr>rc_exchange = exchange, rc_callbackQueue = callbackQueue, rc_loop = None\<rparr>))"

definition start_responses :: "broker \<Rightarrow> RpcClient \<Rightarrow> amqp_log \<Rightarrow> amqp_log \<times> RpcClient" where
  "start_responses br c h =
    (case ask br (Consume (rc_callbackQueue c) [] False False False False) h of
       (h1, Inl _) \<Rightarrow> (h1, c\<lparr>rc_loop := Some None\<rparr>)
     | (h1, Inr _) \<Rightarrow> (h1, c\<lparr>rc_loop := Some (Some (rc_callbackQueue c))\<rparr>))"

definition publish_command :: "broker \<Rightarrow> RpcClient \<Rightarrow> string \<Rightarrow> string \<Rightarrow> string \<Rightarrow> amqp_log \<Rightarrow> amqp_log \<times> go_error option" where
  "publish_command br c routingKey correlationId msgData h =
    (case ask br (Publish (rc_exchange c) routingKey False False
            \<lparr>pb_ReplyTo = rc_callbackQueue c, pb_CorrelationId = correlationId, pb_Body = msgData\<rparr>) h of
       (h1, Inl err) \<Rightarrow> (h1, Some err)
     | (h1, Inr _) \<Rightarrow> (h1, None))"

definition RpcClient_Close :: "broker \<Rightarrow> amqp_log \<Rightarrow> amqp_log" where
  "RpcClient_Close br h = fst (ask br CloseConn h)"

end
