(* ===== verification/Sync_Api.thy ===== *)
theory Sync_Api
  imports Push_Api
begin

text \<open>
  \<open>syncapi/syncapi.go\<close>: messages that tell a user's devices to synchronise. The HTTP handler queues them on
  \<open>msgBox\<close>; a goroutine keeps one message for each key and, when nothing has come for a whole interval,
  posts a push message for each to the push API. The responses are built as in the push API. \<open>do_req\<close>
  is \<open>client.Do\<close>: whether a response came; without one \<open>resp.Body.Close\<close> dereferences nil.
\<close>

record SyncMsg =
  sy_AppId :: string
  sy_UserId :: string
  sy_SendId :: string
  sy_RegId :: string

definition zero_SyncMsg :: SyncMsg where
  "zero_SyncMsg = \<lparr>sy_AppId = [], sy_UserId = [], sy_SendId = [], sy_RegId = []\<rparr>"

definition dec_SyncMsg :: "SyncMsg decoder" where
  "dec_SyncMsg = dec_struct
    [field ''appid'' sy_AppId sy_AppId_update dec_string,
     field ''uid'' sy_UserId sy_UserId_update dec_string,
     field ''sendid'' sy_SendId sy_SendId_update dec_string,
     field ''regid'' sy_RegId sy_RegId_update dec_string]"

record PushMsg =
  pg_AppId :: string
  pg_MsgType :: int
  pg_PushType :: int
  pg_UserId :: "string list"
  pg_Content :: string
  pg_TTL :: int
  pg_SendId :: string

definition enc_PushMsg :: "PushMsg \<Rightarrow> json" where
  "enc_PushMsg m = JObj
    (member ''appid'' (JStr (pg_AppId m)) @
     member ''msg_type'' (jint (pg_MsgType m)) @
     member ''push_type'' (jint (pg_PushType m)) @
     member ''push_params'' (JObj (omitempty (pg_UserId m = []) ''userid'' (jstrings (Some (pg_UserId m))))) @
     omitempty (pg_Content m = []) ''content'' (JStr (pg_Content m)) @
     member ''options'' (JObj (omitempty (pg_TTL m = 0) ''ttl'' (jint (pg_TTL m)))) @
     omitempty (pg_SendId m = []) ''sendid'' (JStr (pg_SendId m)))"

record 'w sync =
  sy_world :: 'w
  sy_msgBox :: "SyncMsg list"
  waitingMsgs :: "string \<Rightarrow> SyncMsg option"

record post =
  po_Url :: string
  po_Authorization :: string
  po_Body :: string

subsection \<open>Pushing\<close>

definition sync_content :: "string \<Rightarrow> string" where
  "sync_content sendid =
    CHR ''{'' # CHR 0x22 # ''sendid'' @ CHR 0x22 # '' : '' @ CHR 0x22 # sendid @ [CHR 0x22, CHR ''}'']"

definition pushmsg :: "SyncMsg \<Rightarrow> PushMsg" where
  "pushmsg m = \<lparr>pg_AppId = sy_AppId m, pg_MsgType = 2, pg_PushType = 3, pg_UserId = [''letv_'' @ sy_UserId m],
     pg_Content = sync_content (sy_SendId m), pg_TTL = 60, pg_SendId = sy_SendId m\<rparr>"

definition sync_post :: "SyncMsg \<Rightarrow> post" where
  "sync_post m = \<lparr>po_Url = ''http://push.scloud.letv.com/api/v1/message'',
     po_Authorization = ''LETV '' @ sy_AppId m @ '' pushtest'', po_Body = json_text (enc_PushMsg (pushmsg m))\<rparr>"

definition push :: "('w \<Rightarrow> post \<Rightarrow> 'w \<times> bool) \<Rightarrow> SyncMsg \<Rightarrow> 'w \<Rightarrow> 'w option" where
  "push do_req m w = (case do_req w (sync_post m) of (w1, resp) \<Rightarrow> if resp then Some w1 else None)"

subsection \<open>The HTTP handler\<close>

definition sync_addMessage :: "request \<Rightarrow> 'w sync \<Rightarrow> 'w sync \<times> response" where
  "sync_addMessage rq s =
    (case Unmarshal dec_SyncMsg (rq_Body rq) zero_SyncMsg of
       (_, False) \<Rightarrow> (s, errResponse ERR_BAD_REQUEST ''json decode body failed'' 400)
     | (msg, True) \<Rightarrow> (s\<lparr>sy_msgBox := sy_msgBox s @ [msg]\<rparr>, ok_response None))"

definition sync_messageHandler :: "request \<Rightarrow> 'w sync \<Rightarrow> 'w sync \<times> response" where
  "sync_messageHandler rq s = (if rq_Method rq = ''POST'' then sync_addMessage rq s else (s, method_not_allowed))"

subsection \<open>The goroutine\<close>

definition sync_key :: "SyncMsg \<Rightarrow> string" where
  "sync_key m = sy_AppId m @ ''_'' @ sy_UserId m @ ''_'' @ sy_SendId m @ ''_'' @ sy_RegId m"

definition sync_receive :: "'w sync \<Rightarrow> 'w sync" where
  "sync_receive s =
    (case sy_msgBox s of
       [] \<Rightarrow> s
     | msg # ms \<Rightarrow>
         s\<lparr>sy_msgBox := ms,
           waitingMsgs := (if waitingMsgs s (sync_key msg) = None then (waitingMsgs s)(sync_key msg \<mapsto> msg)
                           else waitingMsgs s)\<rparr>)"

fun push_all_waiting :: "('w \<Rightarrow> post \<Rightarrow> 'w \<times> bool) \<Rightarrow> SyncMsg list \<Rightarrow> 'w \<Rightarrow> 'w option" where
  "push_all_waiting do_req [] w = Some w"
| "push_all_waiting do_req (m # ms) w =
    (case push do_req m w of None \<Rightarrow> None | Some w1 \<Rightarrow> push_all_waiting do_req ms w1)"

text \<open>The timer's turn; \<open>ks\<close> is the order in which the map is visited. \<open>None\<close> is a panic.\<close>

definition sync_flush :: "('w \<Rightarrow> post \<Rightarrow> 'w \<times> bool) \<Rightarrow> string list \<Rightarrow> 'w sync \<Rightarrow> 'w sync option" where
  "sync_flush do_req ks s =
    (case push_all_waiting do_req (range_values (waitingMsgs s) ks) (sy_world s) of
       None \<Rightarrow> None
     | Some w \<Rightarrow> Some (s\<lparr>sy_world := w, waitingMsgs := Map.empty\<rparr>))"

text \<open>The loop in time: a message that is received at \<open>t\<close> starts the timer anew, and the timer runs out when
  \<open>interval\<close> has passed since. \<open>visit\<close> gives an order for a map.\<close>

fun sync_loop :: "('w \<Rightarrow> post \<Rightarrow> 'w \<times> bool) \<Rightarrow> ((string \<Rightarrow> SyncMsg option) \<Rightarrow> string list) \<Rightarrow> int \<Rightarrow> int \<Rightarrow> (int \<times> SyncMsg) list
    \<Rightarrow> 'w sync \<Rightarrow> 'w sync option" where
  "sync_loop do_req visit interval start [] s = Some s"
| "sync_loop do_req visit interval start ((t, msg) # ms) s =
    (if t < start + interval
     then sync_loop do_req visit interval t ms (sync_receive (s\<lparr>sy_msgBox := sy_msgBox s @ [msg]\<rparr>))
     else (case sync_flush do_req (visit (waitingMsgs s)) s of
             None \<Rightarrow> None
           | Some s1 \<Rightarrow> sync_loop do_req visit interval t ms (sync_receive (s1\<lparr>sy_msgBox := sy_msgBox s1 @ [msg]\<rparr>))))"

text \<open>One turn of the goroutine's \<open>select\<close>: the channel \<open>ctrl\<close> is closed, a message is there, or the timer has run
  out; and whether it goes on.\<close>

datatype sync_event = SyncQuit | SyncReceive | SyncTimer "string list"

definition sync_turn :: "('w \<Rightarrow> post \<Rightarrow> 'w \<times> bool) \<Rightarrow> sync_event \<Rightarrow> 'w sync \<Rightarrow> ('w sync \<times> bool) option" where
  "sync_turn do_req ev s =
    (case ev of
       SyncQuit \<Rightarrow> Some (s, False)
     | SyncReceive \<Rightarrow> Some (sync_receive s, True)
     | SyncTimer ks \<Rightarrow> map_option (\<lambda>s1. (s1, True)) (sync_flush do_req ks s))"

text \<open>When the process is told to end, the messages that wait for the timer or in \<open>msgBox\<close> are never posted.\<close>

lemma quit_drops_waiting:
  assumes "sync_turn do_req SyncQuit s = Some (s', b)"
  shows "\<not> b \<and> sy_world s' = sy_world s \<and> waitingMsgs s' = waitingMsgs s"
  using assms by (simp add: sync_turn_def)

end
