(* ===== verification/Startup.thy ===== *)
theory Startup
  imports Comet_Push Config Broker Zk_Register Sync_Api
begin

text \<open>
  How the programs start: \<open>main\<close> of \<open>pushd/pushd.go\<close> and of \<open>pushapi/main.go\<close> up to the loops that they then
  run, and what their signal handlers close. A stage that fails ends the process with status 1. The flags
  say whether the logger is set up and the listener opens; every AMQP connection has a broker of its own
  as its parameter. \<open>Lifecycle\<close> has what \<open>Server.Stop\<close> ends. The daemon replaces settings that are absent from the
  configuration by defaults, and two HTTP handlers of it show the devices and registrations of its comet
  server.
\<close>

datatype goroutine = SignalHandler | CometRun | MqConsume | WebServer | ProfServer | MessageLoop

text \<open>The goroutines are those that run when the process ends or \<open>main\<close> comes to its last wait.\<close>

datatype 'a start_outcome = Exit1 "goroutine list" | Started 'a "goroutine list"

definition rpc_exchange :: string where "rpc_exchange = ''gibbon_rpc_exchange''"

subsection \<open>The daemon of a comet server\<close>

definition setting :: "32 word \<Rightarrow> 32 word \<Rightarrow> 32 word" where
  "setting deflt x = (if 0 < x then x else deflt)"

text \<open>The server that \<open>main\<close> creates. \<open>ip\<close> is what \<open>utils.GetLocalIP\<close> returns.\<close>

definition configured_server :: "string \<Rightarrow> CometConfig \<Rightarrow> Server" where
  "configured_server ip cf =
    (let worker = (if 0 < cf_WorkerCnt cf then nat (cf_WorkerCnt cf) else 100);
         srv = NewServer ip (setting 240 (cf_HeartbeatTimeout cf)) (setting 2048 (cf_MaxBodyLen cf))
                 (setting 10000 (cf_MaxClients cf)) worker;
         srv1 = (if 0 < cf_HeartbeatInterval cf then srv\<lparr>sv_HbInterval := cf_HeartbeatInterval cf\<rparr> else srv)
     in if 0 < cf_ReconnTime cf then srv1\<lparr>sv_ReconnTime := cf_ReconnTime cf\<rparr> else srv1)"

text \<open>The configured server has workers and admits bodies, whatever the configuration says.\<close>

lemma configured_server_usable:
  "0 < sv_workerCount (configured_server ip cf) \<and> 0 < sv_maxBodyLen (configured_server ip cf) \<and>
   0 < sv_hbTimeout (configured_server ip cf) \<and> 0 < sv_HbInterval (configured_server ip cf) \<and> 0 < sv_ReconnTime (configured_server ip cf)"
  by (simp add: configured_server_def setting_def NewServer_def Let_def) (simp add: word_less_def)

record ('w, 'z) daemon =
  da_config :: ConfigStruct
  da_server :: Server
  da_comet :: "'w comet"
  da_zk :: 'z
  da_consumer :: "Consumer option"
  da_clog :: amqp_log
  da_rpc :: RpcServer
  da_rlog :: amqp_log

definition start_consumer :: "broker \<Rightarrow> string \<Rightarrow> RabbitConfig \<Rightarrow> amqp_log \<times> Consumer option result" where
  "start_consumer br ip rb =
    (if rb_Enable rb then
       (case NewConsumer br ip (rb_Uri rb) (rb_Exchange rb) (rb_QOS rb) [] of
          (h, Inl err) \<Rightarrow> (h, Inl err) | (h, Inr c) \<Rightarrow> (h, Inr (Some c)))
     else ([], Inr None))"

definition start_zk :: "'z zk_conn \<Rightarrow> string \<Rightarrow> ConfigStruct \<Rightarrow> 'z \<Rightarrow> 'z \<times> zk_error option" where
  "start_zk z ip cfg w = (if zc_Enable (cfg_ZooKeeper cfg) then InitZk z ip cfg w else (w, None))"

definition pushd_goroutines :: "ConfigStruct \<Rightarrow> goroutine list" where
  "pushd_goroutines cfg = [SignalHandler, CometRun] @ (if rb_Enable (cfg_Rabbit cfg) then [MqConsume] else []) @
    [WebServer] @ (if cfg_Prof cfg then [ProfServer] else [])"

definition pushd_main :: "'w env \<Rightarrow> broker \<Rightarrow> broker \<Rightarrow> 'z zk_conn \<Rightarrow> string \<Rightarrow> string result \<Rightarrow> bool \<Rightarrow> bool
    \<Rightarrow> 'w comet \<Rightarrow> 'z \<Rightarrow> ('w, 'z) daemon start_outcome" where
  "pushd_main e brc brr z ip file logs listens s w =
    (case LoadConfig file Config_zero of
       (_, False) \<Rightarrow> Exit1 []
     | (cfg, True) \<Rightarrow>
         if \<not> logs \<or> \<not> listens then Exit1 []
         else
    (case Server_Init e (configured_server ip (cfg_Comet cfg)) s of
       (_, Inl _) \<Rightarrow> Exit1 []
     | (s1, Inr srv) \<Rightarrow>
    (case start_consumer brc ip (cfg_Rabbit cfg) of
       (_, Inl _) \<Rightarrow> Exit1 []
     | (hc, Inr c) \<Rightarrow>
    (case start_zk z ip cfg w of
       (_, Some _) \<Rightarrow> Exit1 []
     | (w1, None) \<Rightarrow>
    (case NewRpcServer brr (rb_Uri (cfg_Rabbit cfg)) rpc_exchange (sv_Name srv) [] of
       (_, Inl _) \<Rightarrow> Exit1 (pushd_goroutines cfg)
     | (hr, Inr rpc) \<Rightarrow>
         Started \<lparr>da_config = cfg, da_server = srv, da_comet = s1, da_zk = w1, da_consumer = c, da_clog = hc,
           da_rpc = rpc, da_rlog = hr\<rparr> (pushd_goroutines cfg))))))"

text \<open>What the signal handler does with the consumer; \<open>None\<close> is that it waits for ever.\<close>

definition pushd_shutdown :: "broker \<Rightarrow> Consumer option \<Rightarrow> amqp_log \<Rightarrow> amqp_log \<times> go_error option option" where
  "pushd_shutdown brc c h =
    (case c of Some c \<Rightarrow> Consumer_Shutdown brc c h | None \<Rightarrow> (h, Some None))"

subsection \<open>The status of a daemon\<close>

definition nl :: string where "nl = [CHR 0x0A]"

definition regapp_lines :: "RegApp \<Rightarrow> string" where
  "regapp_lines a =
    ''regid: '' @ ap_RegId a @ nl @ ''appid: '' @ ai_AppId (ap_AppInfo a) @ nl @
    ''userid: '' @ ai_UserId (ap_AppInfo a) @ nl @ ''last_msgid: '' @ FormatInt (ai_LastMsgId (ap_AppInfo a)) @ nl"

text \<open>The answer is a status and a body; \<open>devid\<close> is the form's value.\<close>

definition deviceHandler :: "'w env \<Rightarrow> string \<Rightarrow> 'w comet \<Rightarrow> int \<times> string" where
  "deviceHandler e devid s =
    (case Get (DevicesMap s) devid of
       None \<Rightarrow> (404, ''offline'' @ nl)
     | Some c \<Rightarrow>
         (let regapps = cl_RegApps (client_heap s c)
          in (200, ''devid: '' @ devid @ nl @
                concat (map (\<lambda>a. regapp_lines (app_heap s a)) (range_values regapps (iter e (world s) regapps))))))"

definition statusHandler :: "'w comet \<Rightarrow> string" where
  "statusHandler s =
    json_text (JObj (member ''devcnt'' (jint (int (Size (DevicesMap s)))) @ member ''regappcnt'' (jint (int (GetCount s)))))"

subsection \<open>The push API\<close>

record ('w, 'z) api_server =
  as_config :: ConfigStruct
  as_api :: "'w api"
  as_zk :: 'z
  as_producer :: Producer
  as_plog :: amqp_log
  as_events :: "CometNodeEvent list"
  as_rpc :: RpcClient
  as_rlog :: amqp_log

text \<open>\<open>None\<close>: the start of the watcher blocks for ever. The errors of \<open>setMsgID\<close> and \<open>setPappID\<close> are dropped.\<close>

definition pushapi_main :: "'w api_env \<Rightarrow> broker \<Rightarrow> broker \<Rightarrow> 'z zk_conn \<Rightarrow> string result \<Rightarrow> bool
    \<Rightarrow> 'w api \<Rightarrow> 'z \<Rightarrow> ('w, 'z) api_server start_outcome option" where
  "pushapi_main e brp brr z file logs s w =
    (case LoadConfig file Config_zero of
       (_, False) \<Rightarrow> Some (Exit1 [])
     | (cfg, True) \<Rightarrow>
         if \<not> logs then Some (Exit1 [])
         else
    (let s2 = fst (setPappID e (fst (setMsgID e s))); rb = cfg_Rabbit cfg; zc = cfg_ZooKeeper cfg
     in case NewProducer brp (rb_Uri rb) (rb_Exchange rb) (rb_ExchangeType rb) (rb_Key rb) False [] of
       (_, Inl _) \<Rightarrow> Some (Exit1 [])
     | (hp, Inr p) \<Rightarrow>
    (case InitWatcher z (zc_Addr zc) (seconds (zc_Timeout zc)) (zc_Path zc) (cometNodeInfoMap s2) w of
       None \<Rightarrow> None
     | Some (_, Inl _) \<Rightarrow> Some (Exit1 [])
     | Some (w1, Inr evs) \<Rightarrow>
    (case AmqpRpcClient brr (rb_Uri rb) rpc_exchange [] of
       (_, Inl _) \<Rightarrow> Some (Exit1 [])
     | (hr, Inr c) \<Rightarrow>
         Some (Started \<lparr>as_config = cfg, as_api = s2, as_zk = w1, as_producer = p, as_plog = hp, as_events = evs,
           as_rpc = c, as_rlog = hr\<rparr> [SignalHandler, WebServer])))))"

definition pushapi_shutdown :: "broker \<Rightarrow> broker \<Rightarrow> amqp_log \<Rightarrow> amqp_log \<Rightarrow> amqp_log \<times> amqp_log" where
  "pushapi_shutdown brp brr hp hr = (Producer_Shutdown brp hp, RpcClient_Close brr hr)"

subsection \<open>The notify API and the sync API\<close>

text \<open>\<open>main\<close> of \<open>notifyapi/notify.go\<close> serves one path at the configured address, and exits when it cannot listen.\<close>

definition notify_main :: "bool \<Rightarrow> string result \<Rightarrow> bool \<Rightarrow> ConfigStruct start_outcome" where
  "notify_main logs file listens =
    (if \<not> logs then Exit1 []
     else case LoadConfig file Config_zero of
       (_, False) \<Rightarrow> Exit1 []
     | (cfg, True) \<Rightarrow> if listens then Started cfg [] else Exit1 [])"

text \<open>\<open>main\<close> of \<open>syncapi/syncapi.go\<close>: the configuration, and the state that its goroutines share.\<close>

definition sync_main :: "string result \<Rightarrow> bool \<Rightarrow> 'w \<Rightarrow> (ConfigStruct \<times> 'w sync) start_outcome" where
  "sync_main file logs w =
    (case LoadConfig file Config_zero of
       (_, False) \<Rightarrow> Exit1 []
     | (cfg, True) \<Rightarrow>
         if \<not> logs then Exit1 []
         else Started (cfg, \<lparr>sy_world = w, sy_msgBox = [], waitingMsgs = Map.empty\<rparr>) [SignalHandler, WebServer, MessageLoop])"

text \<open>The handler that \<open>startHttp\<close> of the sync API installs; another path is not found.\<close>

definition sync_startHttp :: "request \<Rightarrow> 'w sync \<Rightarrow> ('w sync \<times> response) option" where
  "sync_startHttp rq s = (if rq_Path rq = ''/sync/message'' then Some (sync_messageHandler rq s) else None)"

lemma sync_main_started:
  "sync_main file logs w = Started (cfg, s) gs \<Longrightarrow> LoadConfig file Config_zero = (cfg, True) \<and> waitingMsgs s = Map.empty"
  by (auto simp: sync_main_def split: prod.splits bool.splits if_splits)

end
