(* ===== verification/Conversation_Properties.thy ===== *)
theory Conversation_Properties
  imports Comet_Progress Test_Client_Spec Comet_Example Startup Comet_Steps
begin

text \<open>
  Properties that span the comet server and its peers: a worker does every queued job
  (\<open>queued_job_done\<close>); a pushed message is acknowledged by the test client and the server records it
  (\<open>push_conversation\<close>); the daemon's status counts the clients that are connected (\<open>status_counts_clients\<close>).
\<close>

subsection \<open>The status of a daemon\<close>

text \<open>What the daemon's status shows of a comet server in a reachable state.\<close>

lemma devices_are_open_clients:
  assumes "wf_comet s"
  shows "bij_betw (\<lambda>d. the (Get (DevicesMap s) d)) (dom (Get (DevicesMap s))) {c. open_client s c}"
proof -
  have w: "one_client_per_device s" using assms by (simp add: wf_comet_def)
  show ?thesis
  proof (rule bij_betw_imageI)
    show "inj_on (\<lambda>d. the (Get (DevicesMap s) d)) (dom (Get (DevicesMap s)))"
      using w unfolding inj_on_def one_client_per_device_def by (auto, metis)
    show "(\<lambda>d. the (Get (DevicesMap s) d)) ` dom (Get (DevicesMap s)) = {c. open_client s c}"
      using w by (force simp: one_client_per_device_def open_client_def image_iff)
  qed
qed

lemma Size_open_clients: "wf_comet s \<Longrightarrow> Size (DevicesMap s) = card {c. open_client s c}"
proof -
  assume "wf_comet s"
  then have "card (dom (Get (DevicesMap s))) = card {c. open_client s c}"
    using bij_betw_same_card[OF devices_are_open_clients] by blast
  moreover have "dom (Get (DevicesMap s)) = dom (mp (DevicesMap s))" by (auto simp: Get_def split: option.splits)
  ultimately show ?thesis by (simp add: Size_def)
qed

text \<open>C5: A queued job is done: as long as worker \<open>n\<close> has taken no more turns than there were jobs before it, the job
  waits with the same jobs after the rest of those before it, and the worker can take a turn; after that, it
  was done in the turn of its place, whatever the other steps between the turns were.\<close>

theorem queued_job_done:
  assumes "run e n k s t" "worker_jobs s n = pre @ j # post"
  shows "if k \<le> length pre
    then (\<exists>js. worker_jobs t n = drop k pre @ j # js) \<and> Worker_turn e n t \<noteq> None
    else job_done e n (length pre) j k s t"
proof (cases "k \<le> length pre")
  case True
  then obtain js where q: "worker_jobs t n = drop k pre @ j # js" using run_queue[OF assms] by auto
  then have "Worker_turn e n t \<noteq> None" by (cases "drop k pre") (simp_all add: Worker_turn_def)
  then show ?thesis using True q by simp
qed (use run_queue[OF assms] in simp)

definition ex_queue :: "mem comet" where
  "ex_queue = fst (SendMessage 0 MSG_PUSH 3 (Some ''c'') None (fst (SendMessage 0 MSG_PUSH 2 (Some ''ab'') None ex_comet)))"

lemma ex_queue_jobs: "worker_jobs ex_queue 0 = [reply_job 0 MSG_PUSH 2 ''ab''] @ reply_job 0 MSG_PUSH 3 ''c'' # []"
  by (simp add: ex_queue_def SendMessage_no_reply Let_def ex_simps)

theorem queued_job_done_witness:
  "\<exists>s1 s2. Worker_turn mem_env 0 ex_queue = Some s1 \<and> Worker_turn mem_env 0 (s1\<lparr>world := mem_empty\<rparr>) = Some s2 \<and>
    job_done mem_env 0 1 (reply_job 0 MSG_PUSH 3 ''c'') 2 ex_queue s2"
proof -
  obtain s1 where s1: "Worker_turn mem_env 0 ex_queue = Some s1" by (simp add: Worker_turn_def ex_queue_jobs)
  have r1: "run mem_env 0 1 ex_queue (s1\<lparr>world := mem_empty\<rparr>)"
    using run_other[OF run_turn[OF run_start s1] other_tick] by simp
  obtain s2 where s2: "Worker_turn mem_env 0 (s1\<lparr>world := mem_empty\<rparr>) = Some s2"
    using queued_job_done[OF r1 ex_queue_jobs] by auto
  have "run mem_env 0 2 ex_queue s2" using run_turn[OF r1 s2] by (simp add: numeral_2_eq_2)
  from queued_job_done[OF this ex_queue_jobs] show ?thesis using s1 s2 by simp
qed

subsection \<open>A push and its acknowledgement\<close>

text \<open>A read loop between two messages gets a whole frame in one turn.\<close>

definition between :: "conn_st \<Rightarrow> bool" where
  "between st \<longleftrightarrow> readStep st = 0 \<and> nRead st = 0 \<and> length (headBuf st) = HEADER_SIZE"

lemma between_start: "between conn_st0"
  by (simp add: between_def conn_st0_def zero_bytes_def)

lemma read_turn_frame:
  assumes st: "between st" and h: "hd_Type h \<noteq> 0" "unat (hd_Len h) = length body" "body \<noteq> []" "hd_Len h \<le> mx"
  obtains st' where "read_turn mx t st (Bytes (Serialize h @ body) # es) = (Frame h body, st', es)" "between st'"
proof -
  obtain b r where b: "Serialize h = b # r" "length r = 9" using length_Serialize[of h]
    by (cases "Serialize h") (auto simp: HEADER_SIZE_def)
  have hb: "length (headBuf st) = 10" using st by (simp add: between_def HEADER_SIZE_def)
  have b0: "b \<noteq> CHR 0x00" using b(1) h(1) by (auto simp: Serialize_def to_byte_of_ucast byte_val_def)
  have r1: "myRead 1 (Bytes (b # r @ body) # es) = (Some [b], Bytes (r @ body) # es)"
    using myRead_exact[of 1 "b # r @ body" es] h(3) by simp
  have r2: "myRead 9 (Bytes (r @ body) # es) = (Some r, Bytes body # es)"
    using myRead_exact[of 9 "r @ body" es] h(3) b(2) by simp
  have r3: "myRead (length body) (Bytes body # es) = (Some body, es)"
    using myRead_exact[of "length body" body es] h(3) by simp
  have buf: "put_at (put_at (headBuf st) 0 [b]) (Suc 0) r = b # r"
    using hb b(2) by (simp add: put_at_def)
  have len: "length (put_at (headBuf st) 0 [b]) = 10" using hb by (simp add: put_at_def)
  have d: "Deserialize (b # r) = Some h" using Deserialize_Serialize[of h "[]"] b(1) by simp
  have pos: "0 < hd_Len h" using h(2,3) by (cases "hd_Len h = 0") (auto simp: word_neq_0_conv)
  have mx: "\<not> mx < hd_Len h" using h(4) by (simp add: not_less)
  have body: "put_at (zero_bytes (length body)) 0 body = body" by (simp add: put_at_def zero_bytes_def)
  have ne: "r \<noteq> []" using b(2) by auto
  show ?thesis
  proof (rule that)
    show "read_turn mx t st (Bytes (Serialize h @ body) # es) = (Frame h body,
      st\<lparr>headBuf := b # r, hdr := h, dataBuf := body, readStep := 0, nRead := 0, startTime := t\<rparr>, es)"
      using st b0 r1 r2 r3 buf len d pos mx body ne b h
      by (simp add: between_def read_turn_def read_header_def read_body_def Let_def HEADER_SIZE_def zero_bytes_def)
  qed (use b in \<open>simp add: between_def HEADER_SIZE_def\<close>)
qed

definition ack_text :: "string \<Rightarrow> int \<Rightarrow> string \<Rightarrow> string" where
  "ack_text appid msgid regid = json_text (enc_PushReplyMessage \<lparr>pr_MsgId = msgid, pr_AppId = appid, pr_RegId = regid\<rparr>)"

definition ack_frame :: "32 word \<Rightarrow> string \<Rightarrow> string" where
  "ack_frame seq body = Serialize \<lparr>hd_Type = MSG_PUSH_REPLY, hd_Ver = 0, hd_Seq = seq, hd_Len = word_of_nat (length body)\<rparr> @ body"

lemma client_acknowledges:
  assumes "int64_range (pm_MsgId m)" "int64_range (pm_Type m)"
    and "hd_Type h = MSG_PUSH" "unat (hd_Len h) = length (json_text (enc_PushMessage m))"
    and "tc_RegApps t (pm_AppId m) = Some r" "tc_outMsgs t = []"
  obtains t' where "HandleMessage (Bytes (Serialize h @ json_text (enc_PushMessage m)) # es) t = (es, t', True)"
    "output_turn None None t' = (t, ack_frame (hd_Seq h) (ack_text (pm_AppId m) (pm_MsgId m) (tr_RegId r)))"
proof -
  have "json_text (enc_PushMessage m) \<noteq> []" by (simp add: enc_PushMessage_def)
  note hm = HandleMessage_frame[OF assms(4) this, of es t]
  have "client_reads h (json_text (enc_PushMessage m)) t =
      TestSendMessage MSG_PUSH_REPLY (hd_Seq h) (ack_text (pm_AppId m) (pm_MsgId m) (tr_RegId r)) t"
    using PushMessage_round_trip[OF assms(1,2)] assms(3,5)
    by (simp add: client_reads_def msg_type_defs on_push_def ack_text_def)
  then show ?thesis using hm assms(6)
    by (intro that[of "TestSendMessage MSG_PUSH_REPLY (hd_Seq h) (ack_text (pm_AppId m) (pm_MsgId m) (tr_RegId r)) t"])
      (simp_all add: TestSendMessage_def output_turn_def ack_frame_def)
qed

text \<open>C11: A pushed message is acknowledged. The bytes that the worker writes for a push job make the test client
  write an acknowledgement with the job's sequence number; these bytes, in one turn of the read loop of a
  connection that is between two messages, record the message as the last of the registration and queue
  its storing, when it is newer than the last one.\<close>

theorem push_conversation:
  fixes e :: "'w env" and s :: "'w comet"
  assumes m: "int64_range (rm_MsgId m)" "int64_range (rm_MsgType m)" "appId \<noteq> []" "length (push_body appId m) < 2 ^ 32"
    and t: "tc_RegApps t appId = Some r" "tr_RegId r \<noteq> []" "tc_outMsgs t = []"
    and s: "cl_RegApps (client_heap s c) appId = Some a" "ap_RegId (app_heap s a) = tr_RegId r"
      "ai_LastMsgId (app_info s a) < rm_MsgId m"
    and c: "\<not> cl_closed (client_heap s c)" "now e (world s) \<le> cl_lastActive (client_heap s c) + sv_hbTimeout srv * second"
    and st: "between st"
    and l: "length (ack_text appId (rm_MsgId m) (tr_RegId r)) \<le> unat (sv_maxBodyLen srv)"
  shows "\<exists>t' bytes st'.
    HandleMessage (Bytes (job_bytes (SendJob c (makeHeader MSG_PUSH 0 (word_of_nat (length (push_body appId m))))
      (Some (push_body appId m)) seq None)) # es) t = (es, t', True) \<and>
    output_turn None None t' = (t, bytes) \<and>
    conn_turn e srv c st (Bytes bytes # fs) s =
      Some (put_job c (UpdateJob (cl_devId (client_heap s c)) (tr_RegId r) ((app_info s a)\<lparr>ai_LastMsgId := rm_MsgId m\<rparr>))
        (set_app a (ai_LastMsgId_update (\<lambda>_. rm_MsgId m)) (upd_client c (cl_lastActive_update (\<lambda>_. now e (world s))) s)),
        Some (st', fs)) \<and>
    between st'"
proof -
  define pm where "pm = \<lparr>pm_MsgId = rm_MsgId m, pm_AppId = appId, pm_Type = rm_MsgType m,
     pm_Content = (if rm_MsgType m = MSG_TYPE_MESSAGE then rm_Content m else json_text (enc_Notification (rm_Notification m)))\<rparr>"
  have pb: "push_body appId m = json_text (enc_PushMessage pm)" by (simp add: push_body_def pm_def)
  define h where "h = \<lparr>hd_Type = MSG_PUSH, hd_Ver = 0, hd_Seq = seq, hd_Len = word_of_nat (length (push_body appId m))\<rparr>"
  have jb: "job_bytes (SendJob c (makeHeader MSG_PUSH 0 (word_of_nat (length (push_body appId m)))) (Some (push_body appId m)) seq None)
      = Serialize h @ json_text (enc_PushMessage pm)"
    by (simp add: job_bytes_def frame_bytes_def makeHeader_def h_def pb)
  have hl: "hd_Type h = MSG_PUSH" "unat (hd_Len h) = length (json_text (enc_PushMessage pm))"
    using m(4) by (simp_all add: h_def pb unat_of_nat take_bit_nat_eq_self)
  let ?a = "ack_text appId (rm_MsgId m) (tr_RegId r)"
  obtain t' where t': "HandleMessage (Bytes (Serialize h @ json_text (enc_PushMessage pm)) # es) t = (es, t', True)"
      "output_turn None None t' = (t, ack_frame seq ?a)"
  proof (rule client_acknowledges[OF _ _ hl, of t r es])
    fix t' assume "HandleMessage (Bytes (Serialize h @ json_text (enc_PushMessage pm)) # es) t = (es, t', True)"
      "output_turn None None t' = (t, ack_frame (hd_Seq h) (ack_text (pm_AppId pm) (pm_MsgId pm) (tr_RegId r)))"
    then show thesis by (intro that[of t']) (simp_all add: pm_def h_def)
  qed (use m(1,2) t(1,3) in \<open>simp_all add: pm_def\<close>)
  define ha where "ha = \<lparr>hd_Type = MSG_PUSH_REPLY, hd_Ver = 0, hd_Seq = seq, hd_Len = word_of_nat (length ?a)\<rparr>"
  have ne: "?a \<noteq> []" by (simp add: ack_text_def enc_PushReplyMessage_def)
  have "unat (sv_maxBodyLen srv) < 2 ^ LENGTH(32)" by (rule unsigned_less)
  then have "length ?a < 2 ^ 32" using l by simp
  then have la: "unat (hd_Len ha) = length ?a" by (simp add: ha_def unat_of_nat take_bit_nat_eq_self)
  have ty: "hd_Type ha \<noteq> 0" by (simp add: ha_def msg_type_defs)
  have mx: "hd_Len ha \<le> sv_maxBodyLen srv" using la l by (simp add: word_le_nat_alt)
  obtain st' where st': "read_turn (sv_maxBodyLen srv) (now e (world s)) st (Bytes (Serialize ha @ ?a) # fs) = (Frame ha ?a, st', fs)" "between st'"
    by (rule read_turn_frame[OF st ty la ne mx])
  have f: "(funcMap (hd_Type ha) :: 'w handler option) = Some handlePushReply"
    by (simp add: ha_def funcMap_def msg_type_defs)
  have rq: "ack_request ?a \<lparr>pr_MsgId = rm_MsgId m, pr_AppId = appId, pr_RegId = tr_RegId r\<rparr>"
    using m(1,3) t(2) by (simp add: ack_request_def ack_text_def dec_enc_push_reply)
  let ?s = "upd_client c (cl_lastActive_update (\<lambda>_. now e (world s))) s"
  have hp: "handlePushReply e c ha ?a ?s =
      Some (put_job c (UpdateJob (cl_devId (client_heap s c)) (tr_RegId r) ((app_info s a)\<lparr>ai_LastMsgId := rm_MsgId m\<rparr>))
        (set_app a (ai_LastMsgId_update (\<lambda>_. rm_MsgId m)) ?s), 0)"
    using handlePushReply_acks[OF rq, of ?s c a e ha] s by simp
  have "conn_turn e srv c st (Bytes (ack_frame seq ?a) # fs) s =
      Some (put_job c (UpdateJob (cl_devId (client_heap s c)) (tr_RegId r) ((app_info s a)\<lparr>ai_LastMsgId := rm_MsgId m\<rparr>))
        (set_app a (ai_LastMsgId_update (\<lambda>_. rm_MsgId m)) ?s), Some (st', fs))"
    using c st'(1) f hp by (simp add: conn_turn_def Let_def ack_frame_def ha_def[symmetric])
  then show ?thesis unfolding jb using t' st'(2) by blast
qed

definition ex_push :: RawMessage where
  "ex_push = zero_RawMessage\<lparr>rm_MsgId := 9, rm_MsgType := 2, rm_Content := ''hi''\<rparr>"

definition ex_phone :: TestClient where
  "ex_phone = (TestNewClient ''d0'')\<lparr>tc_RegApps := [''a'' \<mapsto> \<lparr>tr_RegId = ''r0'', tr_Pkg = ''p''\<rparr>]\<rparr>"

lemma ex_push_lengths: "length (push_body ''a'' ex_push) = 47" "length (ack_text ''a'' 9 ''r0'') = 36"
  by code_simp+

theorem push_conversation_witness:
  "\<exists>bytes s' st'. (\<exists>t'. output_turn None None t' = (ex_phone, bytes)) \<and>
    conn_turn mem_env ex_server 0 conn_st0 [Bytes bytes] ex_comet = Some (s', Some (st', [])) \<and>
    ai_LastMsgId (app_info s' 0) = 9"
proof -
  have m: "rm_MsgId ex_push = 9" "rm_MsgType ex_push = 2" by (simp_all add: ex_push_def)
  from push_conversation[of ex_push "''a''" ex_phone "\<lparr>tr_RegId = ''r0'', tr_Pkg = ''p''\<rparr>" ex_comet 0 0 mem_env ex_server conn_st0 2 "[]" "[]"]
  obtain bytes t' st' where "output_turn None None t' = (ex_phone, bytes)"
    "conn_turn mem_env ex_server 0 conn_st0 [Bytes bytes] ex_comet =
      Some (put_job 0 (UpdateJob (cl_devId (client_heap ex_comet 0)) ''r0'' ((app_info ex_comet 0)\<lparr>ai_LastMsgId := 9\<rparr>))
        (set_app 0 (ai_LastMsgId_update (\<lambda>_. 9)) (upd_client 0 (cl_lastActive_update (\<lambda>_. now mem_env (world ex_comet))) ex_comet)),
        Some (st', []))"
    unfolding m using ex_push_lengths between_start
    by (auto simp: int64_range_def ex_phone_def TestNewClient_def ex_simps mem_empty_def ex_server_def NewServer_def second_def)
  then show ?thesis by fastforce
qed

text \<open>The daemon's status page counts the clients whose connection is open and the registrations in memory.\<close>

theorem status_counts_clients:
  assumes "iter_ok e" "reachable e w s"
  shows "statusHandler s = json_text (JObj [(''devcnt'', jint (int (card {c. open_client s c}))),
      (''regappcnt'', jint (int (card (dom (regappMap s)))))])"
  using Size_open_clients[OF reachable_wf[OF assms]] by (simp add: statusHandler_def GetCount_def member_def)

theorem status_counts_clients_witness:
  "statusHandler (comet_init mem_empty) = json_text (JObj [(''devcnt'', jint 0), (''regappcnt'', jint 0)])"
proof -
  have "reachable mem_env mem_empty (comet_init mem_empty)" by (simp add: reachable_def)
  from status_counts_clients[OF mem_env_iter_ok this] show ?thesis by (simp add: open_client_def comet_init_def)
qed

end
