(* ===== verification/Notify_Api.thy ===== *)
theory Notify_Api
  imports Http
begin

text \<open>
  \<open>notifyapi/notify.go\<close>: a request with notices, for each of which a goroutine asks the subscription
  service for the users of its tags and posts a push message for them to the push API. Goroutine \<open>i\<close> is
  that of the \<open>i\<close>-th notice of the request, and \<open>http i\<close> what its calls are answered. \<open>late i\<close> says that its
  result is not there when the handler stops waiting for it. The channels have no buffer: a result that
  nobody receives blocks its goroutine for ever. The visiting order of a map is \<open>iter\<close>.
\<close>

record Notice =
  nc_Id :: int
  nc_AppId :: string
  nc_AppSec :: string
  nc_Tags :: string
  nc_PushMsg :: RawMessage

definition zero_Notice :: Notice where
  "zero_Notice = \<lparr>nc_Id = 0, nc_AppId = [], nc_AppSec = [], nc_Tags = [], nc_PushMsg = zero_RawMessage\<rparr>"

definition dec_Notice :: "Notice decoder" where
  "dec_Notice = dec_struct
    [field ''id'' nc_Id nc_Id_update dec_int64,
     field ''appid'' nc_AppId nc_AppId_update dec_string,
     field ''appsec'' nc_AppSec nc_AppSec_update dec_string,
     field ''tags'' nc_Tags nc_Tags_update dec_string,
     field ''push_msg'' nc_PushMsg nc_PushMsg_update dec_RawMessage]"

text \<open>\<open>PostNotifyData\<close> has one field.\<close>

definition dec_PostNotifyData :: "Notice list option decoder" where
  "dec_PostNotifyData = dec_struct [field ''notices'' id id (dec_slice dec_Notice zero_Notice)]"

record ThirdPartyResponse =
  tp_ErrNo :: int
  tp_ErrMsg :: string
  tp_Data :: "json option"

text \<open>\<open>interface{}\<close> takes every value; \<open>null\<close> is nil.\<close>

definition dec_interface :: "json option decoder" where
  "dec_interface j x = (case j of JNull \<Rightarrow> (None, True) | _ \<Rightarrow> (Some j, True))"

definition dec_ThirdPartyResponse :: "ThirdPartyResponse decoder" where
  "dec_ThirdPartyResponse = dec_struct
    [field ''errno'' tp_ErrNo tp_ErrNo_update dec_int64,
     field ''errmsg'' tp_ErrMsg tp_ErrMsg_update dec_string,
     field ''data'' tp_Data tp_Data_update dec_interface]"

record http_call =
  hc_Method :: string
  hc_Url :: string
  hc_Body :: string
  hc_Header :: "(string \<times> string) list"

record notify_env =
  ne_http :: "nat \<Rightarrow> http_call \<Rightarrow> string result"
  ne_late :: "nat \<Rightarrow> bool"
  ne_date :: "nat \<Rightarrow> string"
  ne_jerr :: "string \<Rightarrow> string"
  ne_hmac :: "string \<Rightarrow> string \<Rightarrow> string"
  ne_md5 :: "string \<Rightarrow> string"
  ne_num :: "string \<Rightarrow> string"
  ne_iter :: "(string \<times> json) list \<Rightarrow> (string \<times> json) list"
  ne_ids :: "int list \<Rightarrow> int list"
  ne_MaxNotices :: int
  ne_SubUrl :: string
  ne_PushUrl :: string

definition PUSH_WITH_UID :: int where "PUSH_WITH_UID = 3"

subsection \<open>The subscription service\<close>

definition callThirdPartyIf :: "notify_env \<Rightarrow> nat \<Rightarrow> http_call \<Rightarrow> json option result" where
  "callThirdPartyIf e i c =
    (case ne_http e i c of
       Inl err \<Rightarrow> Inl err
     | Inr body \<Rightarrow>
         (case Decode dec_ThirdPartyResponse body \<lparr>tp_ErrNo = 0, tp_ErrMsg = [], tp_Data = None\<rparr> of
            (_, False) \<Rightarrow> Inl (GoErr (ne_jerr e body))
          | (r, True) \<Rightarrow>
              if tp_ErrMsg r \<noteq> [] then Inl (GoErr (''failed to get response data ['' @ tp_ErrMsg r @ '']''))
              else Inr (tp_Data r)))"

text \<open>A decoded object is a map, in which a repeated key has its last value.\<close>

definition object_map :: "(string \<times> json) list \<Rightarrow> (string \<times> json) list" where
  "object_map ms = map (\<lambda>k. (k, the (map_of (rev ms) k))) (remdups (map fst ms))"

text \<open>What \<open>Marshal\<close> writes for a value that was decoded into an \<open>interface{}\<close>: maps have their keys sorted, and
  \<open>num\<close> is the text of the \<open>float64\<close> that a number became.\<close>

fun remarshal :: "(string \<Rightarrow> string) \<Rightarrow> json \<Rightarrow> json" where
  "remarshal num (JNum n) = JNum (num n)"
| "remarshal num (JArr js) = JArr (map (remarshal num) js)"
| "remarshal num (JObj ms) = JObj (sort_key fst (object_map (map (\<lambda>(k, v). (k, remarshal num v)) ms)))"
| "remarshal num j = j"

text \<open>The type assertions of \<open>getUids\<close> panic on any other type: \<open>None\<close>. The users found are those of the
  list, which starts empty.\<close>

fun add_uids :: "json list \<Rightarrow> string list \<Rightarrow> string list option" where
  "add_uids [] uids = Some uids"
| "add_uids (j # js) uids =
    (case j of
       JStr uid \<Rightarrow> add_uids js (if uid \<in> set uids then uids else uids @ [uid])
     | _ \<Rightarrow> None)"

fun uids_of_members :: "(string \<times> json) list \<Rightarrow> string list \<Rightarrow> string list option" where
  "uids_of_members [] uids = Some uids"
| "uids_of_members ((key, val) # ms) uids =
    (if key = ''uids''
     then (case val of
             JArr js \<Rightarrow> (case add_uids js uids of None \<Rightarrow> None | Some uids' \<Rightarrow> uids_of_members ms uids')
           | _ \<Rightarrow> None)
     else uids_of_members ms uids)"

fun uids_of_data :: "((string \<times> json) list \<Rightarrow> (string \<times> json) list) \<Rightarrow> (string \<times> json) list \<Rightarrow> string list \<Rightarrow> string list option" where
  "uids_of_data iter [] uids = Some uids"
| "uids_of_data iter ((_, vdata) # ms) uids =
    (case vdata of
       JObj m \<Rightarrow> (case uids_of_members (iter (object_map m)) uids of None \<Rightarrow> None | Some uids' \<Rightarrow> uids_of_data iter ms uids')
     | _ \<Rightarrow> None)"

definition getUids :: "((string \<times> json) list \<Rightarrow> (string \<times> json) list) \<Rightarrow> json option \<Rightarrow> string list option" where
  "getUids iter resp =
    (case resp of
       Some (JObj data) \<Rightarrow> uids_of_data iter (iter (object_map data)) []
     | _ \<Rightarrow> None)"

subsection \<open>One notice\<close>

definition checkNotice :: "Notice \<Rightarrow> bool" where
  "checkNotice n \<longleftrightarrow> \<not> (nc_AppId n = [] \<or> nc_AppSec n = [] \<or> nc_Tags n = [])"

definition subscription_call :: "notify_env \<Rightarrow> Notice \<Rightarrow> http_call" where
  "subscription_call e n = \<lparr>hc_Method = ''GET'', hc_Url = ne_SubUrl e @ nc_Tags n, hc_Body = [], hc_Header = []\<rparr>"

text \<open>The message for the users, a nil slice when there are none, and the call that posts it. The path is
  what follows the third slash of the configured address, \<open>None\<close> where \<open>path[3]\<close> is out of range.\<close>

definition notice_message :: "Notice \<Rightarrow> string list \<Rightarrow> RawMessage" where
  "notice_message n uids =
    (nc_PushMsg n)\<lparr>rm_PushType := PUSH_WITH_UID, rm_AppId := nc_AppId n,
      rm_PushParams := (rm_PushParams (nc_PushMsg n))\<lparr>pp_UserId := (if uids = [] then None else Some uids)\<rparr>\<rparr>"

definition push_path :: "notify_env \<Rightarrow> string option" where
  "push_path e =
    (let path = SplitN (CHR ''/'') 4 (ne_PushUrl e)
     in if length path < 4 then None else Some (''/'' @ path ! 3))"

definition push_call :: "notify_env \<Rightarrow> nat \<Rightarrow> Notice \<Rightarrow> string list \<Rightarrow> http_call option" where
  "push_call e i n uids =
    (let data = json_text (enc_RawMessage (notice_message n uids))
     in case push_path e of
          None \<Rightarrow> None
        | Some path \<Rightarrow>
            (let sign = Sign (ne_hmac e) (ne_md5 e) (nc_AppSec n) ''POST'' path data (ne_date e i) []
             in Some \<lparr>hc_Method = ''POST'', hc_Url = ne_PushUrl e, hc_Body = data,
                      hc_Header = [(''Content-Type'', ''application/json''), (''Date'', ne_date e i),
                        (''Authorization'', ''LETV '' @ nc_AppId n @ '' '' @ sign)]\<rparr>))"

text \<open>What the goroutine sends on its channel, \<open>None\<close> when it panics.\<close>

definition send_notice :: "notify_env \<Rightarrow> nat \<Rightarrow> Notice \<Rightarrow> json option result option" where
  "send_notice e i n =
    (if \<not> checkNotice n then Some (Inl (GoErr (''invalid notice, please check notice'' @ CHR 0x27 # ''s items with wiki'')))
     else (case callThirdPartyIf e i (subscription_call e n) of
             Inl err \<Rightarrow> Some (Inl err)
           | Inr resp \<Rightarrow>
               (case getUids (ne_iter e) resp of
                  None \<Rightarrow> None
                | Some uids \<Rightarrow> map_option (callThirdPartyIf e i) (push_call e i n uids))))"

subsection \<open>The handler\<close>

record ResponseItem =
  ri_Id :: int
  ri_Data :: json

record NotifyResponse =
  nr_ErrNo :: int
  nr_ErrMsg :: string
  nr_Sent :: "ResponseItem list"
  nr_UnSent :: "ResponseItem list"

definition enc_ResponseItem :: "ResponseItem \<Rightarrow> json" where
  "enc_ResponseItem r = JObj (member ''id'' (jint (ri_Id r)) @ member ''data'' (ri_Data r))"

definition enc_NotifyResponse :: "NotifyResponse \<Rightarrow> json" where
  "enc_NotifyResponse r = JObj
    (member ''errno'' (jint (nr_ErrNo r)) @
     omitempty (nr_ErrMsg r = []) ''errmsg'' (JStr (nr_ErrMsg r)) @
     member ''data'' (JObj
       (omitempty (nr_Sent r = []) ''sent'' (JArr (map enc_ResponseItem (nr_Sent r))) @
        omitempty (nr_UnSent r = []) ''unsent'' (JArr (map enc_ResponseItem (nr_UnSent r))))))"

definition notify_error :: "int \<Rightarrow> string \<Rightarrow> response" where
  "notify_error no msg = http_Fprintf (json_text (enc_NotifyResponse \<lparr>nr_ErrNo = no, nr_ErrMsg = msg, nr_Sent = [], nr_UnSent = []\<rparr>))"

definition err_text :: "go_error \<Rightarrow> string" where
  "err_text err = (case err of ErrNil \<Rightarrow> ''redigo: nil returned'' | GoErr s \<Rightarrow> s)"

text \<open>The goroutines that are started, and the map of channels: an id leads to the last notice that has it.\<close>

definition started :: "Notice list \<Rightarrow> (nat \<times> Notice) list" where
  "started ns = filter (\<lambda>(i, n). nc_Id n \<noteq> 0) (List.enumerate 0 ns)"

definition channels :: "Notice list \<Rightarrow> int \<Rightarrow> (nat \<times> Notice) option" where
  "channels ns = fold (\<lambda>(i, n) m. m(nc_Id n \<mapsto> (i, n))) (started ns) Map.empty"

definition collect_one :: "notify_env \<Rightarrow> Notice list \<Rightarrow> int \<Rightarrow> NotifyResponse \<Rightarrow> NotifyResponse" where
  "collect_one e ns nid r =
    (case channels ns nid of
       None \<Rightarrow> r
     | Some (i, n) \<Rightarrow>
         if ne_late e i then r\<lparr>nr_UnSent := nr_UnSent r @ [\<lparr>ri_Id = nid, ri_Data = JStr ''notify timeout''\<rparr>]\<rparr>
         else (case send_notice e i n of
                 None \<Rightarrow> r
               | Some (Inl err) \<Rightarrow> r\<lparr>nr_UnSent := nr_UnSent r @ [\<lparr>ri_Id = nid, ri_Data = JStr (err_text err)\<rparr>]\<rparr>
               | Some (Inr d) \<Rightarrow>
                   r\<lparr>nr_Sent := nr_Sent r @ [\<lparr>ri_Id = nid, ri_Data = (case d of None \<Rightarrow> JNull | Some j \<Rightarrow> remarshal (ne_num e) j)\<rparr>]\<rparr>))"

text \<open>The goroutines whose result nobody receives: late ones, and those whose id came again.\<close>

definition blocked_senders :: "notify_env \<Rightarrow> Notice list \<Rightarrow> nat set" where
  "blocked_senders e ns = {i. \<exists>n. (i, n) \<in> set (started ns) \<and> (ne_late e i \<or> channels ns (nc_Id n) \<noteq> Some (i, n))}"

text \<open>\<open>None\<close>: a goroutine panics, and with it the process. The set is that of the blocked goroutines.\<close>

definition postNotify :: "notify_env \<Rightarrow> request \<Rightarrow> (response \<times> nat set) option" where
  "postNotify e rq =
    (if rq_Method rq \<noteq> ''POST'' then Some (http_Error ''Method not allowed'' 405, {})
     else (case Decode dec_PostNotifyData (rq_Body rq) None of
             (_, False) \<Rightarrow> Some (notify_error 10001 (''invalid notification data, '' @ ne_jerr e (rq_Body rq)), {})
           | (d, True) \<Rightarrow>
               (let ns = (case d of None \<Rightarrow> [] | Some ns \<Rightarrow> ns) in
                if ne_MaxNotices e < int (length ns) then Some (notify_error 10002 ''notification msgs over limit'', {})
                else if \<exists>(i, n) \<in> set (started ns). send_notice e i n = None then None
                else Some (http_Fprintf (json_text (enc_NotifyResponse
                  (fold (collect_one e ns) (ne_ids e (remdups (map (\<lambda>(i, n). nc_Id n) (started ns))))
                    \<lparr>nr_ErrNo = 10000, nr_ErrMsg = [], nr_Sent = [], nr_UnSent = []\<rparr>))),
                  blocked_senders e ns))))"

end
