(* ===== verification/Notify_Spec.thy ===== *)
theory Notify_Spec
  imports Notify_Api Push_Api_Spec "HOL-Library.Multiset"
begin

text \<open>
  What the notify API does: the users of a notice are those that the subscription service names, each once;
  the request it posts carries the signature the push API asks for (\<open>notice_posted\<close>); every id of a
  request is answered once (\<open>collect_answers\<close>); an answer of the subscription service without data ends
  the process (\<open>no_data_panics\<close>).
\<close>

subsection \<open>The users of a notice\<close>

lemma add_uids_set: "add_uids js us = Some vs \<Longrightarrow> set vs = set us \<union> {u. JStr u \<in> set js} \<and> (distinct us \<longrightarrow> distinct vs)"
proof (induction js us rule: add_uids.induct)
  case (2 j js uids)
  then show ?case by (cases j) (auto split: if_splits)
qed auto

lemma uids_of_members_set: "uids_of_members ms us = Some vs \<Longrightarrow>
  set vs = set us \<union> {u. \<exists>js. (''uids'', JArr js) \<in> set ms \<and> JStr u \<in> set js} \<and> (distinct us \<longrightarrow> distinct vs)"
proof (induction ms us rule: uids_of_members.induct)
  case (2 k v ms us)
  show ?case
  proof (cases "k = ''uids''")
    case True
    then obtain js w where v: "v = JArr js" "add_uids js us = Some w" "uids_of_members ms w = Some vs"
      using 2(3) by (auto split: json.splits option.splits)
    then show ?thesis using 2(1)[OF True v(1,2,3)] add_uids_set[OF v(2)] True by auto
  next
    case False
    then have "uids_of_members ms us = Some vs" using 2(3) by simp
    then show ?thesis using 2(2)[OF False] False by auto
  qed
qed auto

definition visits_all :: "((string \<times> json) list \<Rightarrow> (string \<times> json) list) \<Rightarrow> bool" where
  "visits_all iter \<longleftrightarrow> (\<forall>ms. set (iter ms) = set ms)"

lemma uids_of_data_set: "visits_all iter \<Longrightarrow> uids_of_data iter ms us = Some vs \<Longrightarrow>
  set vs = set us \<union> {u. \<exists>k m js. (k, JObj m) \<in> set ms \<and> (''uids'', JArr js) \<in> set (object_map m) \<and> JStr u \<in> set js} \<and>
  (distinct us \<longrightarrow> distinct vs)"
proof (induction iter ms us rule: uids_of_data.induct)
  case (2 iter k v ms us)
  then obtain m w where v: "v = JObj m" "uids_of_members (iter (object_map m)) us = Some w" "uids_of_data iter ms w = Some vs"
    by (auto split: json.splits option.splits)
  then show ?case using 2(1)[OF v(1,2) 2(2) v(3)] uids_of_members_set[OF v(2)] 2(2) by (auto simp: visits_all_def)
qed auto

lemma getUids_users:
  assumes "visits_all iter" "getUids iter resp = Some us"
  shows "distinct us \<and> (\<exists>data. resp = Some (JObj data) \<and>
    set us = {u. \<exists>k m js. (k, JObj m) \<in> set (object_map data) \<and> (''uids'', JArr js) \<in> set (object_map m) \<and> JStr u \<in> set js})"
proof -
  obtain data where d: "resp = Some (JObj data)" "uids_of_data iter (iter (object_map data)) [] = Some us"
    using assms(2) by (auto simp: getUids_def split: option.splits json.splits)
  show ?thesis using uids_of_data_set[OF assms(1) d(2)] d(1) assms(1) by (auto simp: visits_all_def)
qed

lemma no_data_panics:
  assumes "checkNotice n" "callThirdPartyIf e i (subscription_call e n) = Inr None"
  shows "send_notice e i n = None"
  using assms by (simp add: send_notice_def getUids_def)

subsection \<open>The posted message\<close>

lemma fields_acc_word: "\<not> (\<exists>c \<in> set p. is_space c) \<Longrightarrow> fields_acc w (p @ s) = fields_acc (rev p @ w) s"
  by (induction p arbitrary: w) auto

lemma Fields_three:
  assumes "a \<noteq> []" "b \<noteq> []" "c \<noteq> []" "\<forall>x \<in> set a \<union> set b \<union> set c. \<not> is_space x"
  shows "Fields (a @ '' '' @ b @ '' '' @ c) = [a, b, c]"
proof -
  have "is_space (CHR '' '')" by (simp add: is_space_def byte_val_def)
  then show ?thesis using assms fields_acc_word[of c _ "[]"] by (simp add: Fields_def fields_acc_word)
qed

lemma hex_no_space: "x \<in> set (EncodeToString s) \<Longrightarrow> \<not> is_space x"
proof -
  have "\<not> is_space (hex_digit n)" if "n < 16" for n
    using that by (auto simp: hex_digit_def is_space_def)
  moreover have "byte_val y div 16 < 16" for y using byte_val_less[of y] by (simp add: less_mult_imp_div_less)
  ultimately show "x \<in> set (EncodeToString s) \<Longrightarrow> ?thesis" by (auto simp: EncodeToString_def)
qed

text \<open>The request as the push API receives it. The address is a scheme, a host and a path.\<close>

definition plain_url :: "string \<Rightarrow> string \<Rightarrow> bool" where
  "plain_url url path \<longleftrightarrow> (\<exists>scheme host. url = scheme @ ''://'' @ host @ ''/'' @ path \<and>
    CHR ''/'' \<notin> set scheme \<and> CHR ''/'' \<notin> set host \<and> set path \<inter> set ''?#%'' = {})"

definition received :: "http_call \<Rightarrow> string \<Rightarrow> request" where
  "received c path = \<lparr>rq_Method = hc_Method c, rq_Path = ''/'' @ path,
     rq_header = (\<lambda>k. case map_of (hc_Header c) k of None \<Rightarrow> [] | Some v \<Rightarrow> v),
     rq_Form = [], rq_Body = hc_Body c, rq_Body_ok = True\<rparr>"

lemma push_path_plain:
  assumes "plain_url (ne_PushUrl e) path"
  shows "push_path e = Some (''/'' @ path)"
proof -
  obtain scheme host where u: "ne_PushUrl e = scheme @ ''://'' @ host @ ''/'' @ path"
      "CHR ''/'' \<notin> set scheme" "CHR ''/'' \<notin> set host" using assms by (auto simp: plain_url_def)
  have "SplitN (CHR ''/'') (Suc (Suc 2)) ((scheme @ '':'') @ CHR ''/'' # [] @ CHR ''/'' # host @ CHR ''/'' # path) =
    (scheme @ '':'') # SplitN (CHR ''/'') (Suc 2) ([] @ CHR ''/'' # host @ CHR ''/'' # path)"
    using u(2) by (intro SplitN_append_sep) simp
  also have "SplitN (CHR ''/'') (Suc 2) ([] @ CHR ''/'' # host @ CHR ''/'' # path) = [] # SplitN (CHR ''/'') (Suc (Suc 0)) (host @ CHR ''/'' # path)"
    unfolding numeral_2_eq_2 by (intro SplitN_append_sep) simp
  also have "SplitN (CHR ''/'') (Suc (Suc 0)) (host @ CHR ''/'' # path) = host # SplitN (CHR ''/'') (Suc 0) path"
    by (intro SplitN_append_sep) (rule u(3))
  finally have "SplitN (CHR ''/'') 4 (ne_PushUrl e) = [scheme @ '':'', [], host, path]" by (simp add: u(1) numeral_eq_Suc)
  then show ?thesis by (simp add: push_path_def)
qed

text \<open>A notice of a registered application passes the push API's check of its signature.\<close>

lemma notice_posted:
  assumes k: "hmac ae = ne_hmac e" "md5sum ae = ne_md5 e" "\<And>x y. ne_hmac e x y \<noteq> []"
    and u: "plain_url (ne_PushUrl e) path" and c: "push_call e i n uids = Some c"
    and a: "nc_AppId n \<noteq> []" "\<forall>x \<in> set (nc_AppId n). \<not> is_space x"
    and h: "HashGet (astore ae) (aworld s) ''db_apps'' (nc_AppId n) = (w, Inr (Some b))"
    and sec: "ra_AppSec (fst (Unmarshal dec_RawApp b zero_RawApp)) = nc_AppSec n"
  shows "addMessage ae (received c path) s =
    Some (accept_message ae (nc_AppId n) (json_text (enc_RawMessage (notice_message n uids))) (s\<lparr>aworld := w\<rparr>))"
proof -
  define data where "data = json_text (enc_RawMessage (notice_message n uids))"
  define sign where "sign = Sign (ne_hmac e) (ne_md5 e) (nc_AppSec n) ''POST'' (''/'' @ path) data (ne_date e i) []"
  have c': "c = \<lparr>hc_Method = ''POST'', hc_Url = ne_PushUrl e, hc_Body = data,
      hc_Header = [(''Content-Type'', ''application/json''), (''Date'', ne_date e i),
        (''Authorization'', ''LETV '' @ nc_AppId n @ '' '' @ sign)]\<rparr>"
    using c by (simp add: push_call_def sign_def data_def push_path_plain[OF u] Let_def)
  have s: "sign \<noteq> []" "\<forall>x \<in> set sign. \<not> is_space x"
    using k(3) hex_no_space by (auto simp: sign_def Sign_def Let_def EncodeToString_def)
  have "\<forall>x \<in> set ''LETV''. \<not> is_space x" by (simp add: is_space_def byte_val_def)
  then have f: "Fields (''LETV '' @ nc_AppId n @ '' '' @ sign) = [''LETV'', nc_AppId n, sign]"
    using Fields_three[of "''LETV''" "nc_AppId n" sign] s a by auto
  have r: "rq_header (received c path) ''Authorization'' = ''LETV '' @ nc_AppId n @ '' '' @ sign"
    "rq_header (received c path) ''Date'' = ne_date e i" "rq_Body_ok (received c path) = True"
    "rq_Method (received c path) = ''POST''" "rq_Path (received c path) = ''/'' @ path"
    "rq_Body (received c path) = data" "rq_Form (received c path) = []"
    by (simp_all add: received_def c')
  have "sign_ok ae (fst (Unmarshal dec_RawApp b zero_RawApp)) (received c path) sign"
    unfolding sign_ok_def r k(1,2) sec sign_def by simp
  then show ?thesis unfolding addMessage_def r f using h
    by (simp add: acall_def data_def)
qed

text \<open>Its message is queued for the users when the push API has a number for it.\<close>

lemma notice_accepted:
  assumes m: "raw_ranges (nc_PushMsg n)" "valid_message (notice_message n uids)"
    and i: "IncrBy (astore ae) (aworld s) MsgID 1 = (w, Inr j)" "j \<noteq> 0"
  shows "\<exists>s' m. accept_message ae (nc_AppId n) (json_text (enc_RawMessage (notice_message n uids))) s =
      (s', ok_response (Some (JObj [(''msgid'', jint j)]))) \<and> msgBox s' = msgBox s @ [m] \<and> rm_AppId m = nc_AppId n \<and>
    rm_PushType m = PUSH_WITH_UID \<and> elems (pp_UserId (rm_PushParams m)) = uids \<and> rm_MsgId m = j"
proof -
  let ?m = "notice_message n uids"
  have r: "raw_ranges ?m" using m(1) by (simp add: raw_ranges_def notice_message_def PUSH_WITH_UID_def int64_range_def)
  have d: "Unmarshal dec_RawMessage (json_text (enc_RawMessage ?m)) zero_RawMessage = (raw_norm ?m, True)"
    using dec_enc_message[OF r] by (simp add: Unmarshal_text)
  have "valid_message ((raw_norm ?m)\<lparr>rm_AppId := nc_AppId n\<rparr>)"
    using m(2) by (simp add: valid_message_def addressed_def raw_norm_def norm_params_def Let_def notice_message_def)
  then have v: "fst (checkMessage ((raw_norm ?m)\<lparr>rm_AppId := nc_AppId n\<rparr>))" by (simp add: checkMessage_iff)
  obtain desc where c: "checkMessage ((raw_norm ?m)\<lparr>rm_AppId := nc_AppId n\<rparr>) = (True, desc)" using v by (cases "checkMessage ((raw_norm ?m)\<lparr>rm_AppId := nc_AppId n\<rparr>)") auto
  have g: "getMsgID ae s = (s\<lparr>aworld := w\<rparr>, j)" using i(1) by (simp add: getMsgID_def acall_def)
  have u: "elems (if uids = [] then None else Some uids) = uids" by (simp add: elems_def)
  show ?thesis unfolding accept_message_def d prod.case Let_def c g using i(2) u
    by (simp add: acall_def set_ttl_def raw_norm_def norm_params_def notice_message_def split: prod.split)
qed

subsection \<open>The answer of the handler\<close>

definition response_ids :: "NotifyResponse \<Rightarrow> int list" where
  "response_ids r = map ri_Id (nr_Sent r) @ map ri_Id (nr_UnSent r)"

lemma channels_None_iff: "channels ns j = None \<longleftrightarrow> j \<notin> (\<lambda>(i, n). nc_Id n) ` set (started ns)"
proof -
  have "fold (\<lambda>(i, n) m. m(nc_Id n \<mapsto> (i, n))) xs m j = None \<longleftrightarrow> m j = None \<and> j \<notin> (\<lambda>(i, n). nc_Id n) ` set xs" for xs :: "(nat \<times> Notice) list" and m
    by (induction xs arbitrary: m) (auto split: if_splits)
  then show ?thesis by (simp add: channels_def)
qed

lemma channels_Some: "channels ns j = Some (i, n) \<Longrightarrow> (i, n) \<in> set (started ns) \<and> nc_Id n = j"
proof -
  have "fold (\<lambda>(i, n) m. m(nc_Id n \<mapsto> (i, n))) xs m j = Some (i, n) \<Longrightarrow> m j = Some (i, n) \<or> (i, n) \<in> set xs \<and> nc_Id n = j"
    for xs :: "(nat \<times> Notice) list" and m
  proof (induction xs arbitrary: m)
    case (Cons x xs)
    obtain a b where x: "x = (a, b)" by (cases x)
    have "(m(nc_Id b \<mapsto> (a, b))) j = Some (i, n) \<or> (i, n) \<in> set xs \<and> nc_Id n = j"
      by (rule Cons.IH) (use Cons.prems x in simp)
    then show ?case using x by (auto split: if_splits)
  qed simp
  then show "channels ns j = Some (i, n) \<Longrightarrow> ?thesis" by (force simp: channels_def)
qed

lemma collect_one_ids:
  assumes "channels ns j \<noteq> None" "\<forall>(i, n) \<in> set (started ns). send_notice e i n \<noteq> None"
  shows "mset (response_ids (collect_one e ns j r)) = mset (response_ids r) + {#j#}"
proof -
  obtain i n where c: "channels ns j = Some (i, n)" using assms(1) by auto
  then have "send_notice e i n \<noteq> None" using assms(2) channels_Some[OF c] by auto
  then show ?thesis using c by (auto simp: collect_one_def response_ids_def split: sum.split)
qed

text \<open>Every id of the request is answered exactly once, in whatever order the map is visited.\<close>

lemma collect_answers:
  assumes "\<forall>(i, n) \<in> set (started ns). send_notice e i n \<noteq> None" "mset (ne_ids e ids) = mset ids"
    and "ids = remdups (map (\<lambda>(i, n). nc_Id n) (started ns))"
  shows "mset (response_ids (fold (collect_one e ns) (ne_ids e ids) \<lparr>nr_ErrNo = 10000, nr_ErrMsg = [], nr_Sent = [], nr_UnSent = []\<rparr>)) = mset ids"
proof -
  have "set js \<subseteq> set ids \<Longrightarrow> mset (response_ids (fold (collect_one e ns) js r)) = mset (response_ids r) + mset js" for js r
  proof (induction js arbitrary: r)
    case (Cons j js)
    then have "channels ns j \<noteq> None" using channels_None_iff[of ns j] assms(3) by auto
    then show ?case using Cons collect_one_ids[OF _ assms(1)] by simp
  qed simp
  moreover have "set (ne_ids e ids) \<subseteq> set ids" using assms(2) by (metis mset_eq_setD subset_refl)
  ultimately show ?thesis using assms(2) by (simp add: response_ids_def)
qed

text \<open>Of two notices with the same id the first is never answered for, and its goroutine waits for ever.\<close>

lemma repeated_id_blocks:
  assumes "(i, n) \<in> set (started ns)" "(k, m) \<in> set (started ns)" "nc_Id n = nc_Id m" "i \<noteq> k"
  shows "i \<in> blocked_senders e ns \<or> k \<in> blocked_senders e ns"
  using assms unfolding blocked_senders_def by (cases "channels ns (nc_Id m) = Some (k, m)") auto

end
