(* ===== verification/Sync_Spec.thy ===== *)
theory Sync_Spec
  imports Sync_Api Notify_Spec
begin

text \<open>
  What the sync API does: a flush posts one message for each key that came since the last one, and the push
  API queues it for the user; while messages keep coming faster than the interval nothing is posted.
\<close>

subsection \<open>Waiting messages\<close>

text \<open>The keys of a list of messages, each with the first message that has it.\<close>

definition first_of :: "SyncMsg list \<Rightarrow> string \<Rightarrow> SyncMsg option" where
  "first_of ms k = find (\<lambda>m. sync_key m = k) ms"

lemma sync_receive_first:
  assumes "sy_msgBox s = []" "waitingMsgs s = first_of ms"
  shows "sync_receive (s\<lparr>sy_msgBox := sy_msgBox s @ [m]\<rparr>) = s\<lparr>waitingMsgs := first_of (ms @ [m])\<rparr>"
proof -
  have f: "first_of (ms @ [m]) k = (case first_of ms k of Some x \<Rightarrow> Some x | None \<Rightarrow> if sync_key m = k then Some m else None)" for k
    by (induction ms) (auto simp: first_of_def)
  have "first_of (ms @ [m]) = (if first_of ms (sync_key m) = None then (first_of ms)(sync_key m \<mapsto> m) else first_of ms)"
    by (rule ext) (auto simp: f split: option.split)
  then show ?thesis using assms by (cases s) (simp add: sync_receive_def)
qed

text \<open>Messages that follow each other within the interval are only collected.\<close>

fun dense :: "int \<Rightarrow> int \<Rightarrow> (int \<times> SyncMsg) list \<Rightarrow> bool" where
  "dense interval start [] \<longleftrightarrow> True"
| "dense interval start ((t, m) # ms) \<longleftrightarrow> t < start + interval \<and> dense interval t ms"

lemma sync_loop_dense:
  assumes "dense interval start ms" "sy_msgBox s = []" "waitingMsgs s = first_of old"
  shows "sync_loop do_req visit interval start ms s = Some (s\<lparr>waitingMsgs := first_of (old @ map snd ms)\<rparr>)"
  using assms
proof (induction ms arbitrary: s start old)
  case Nil
  then show ?case by (cases s) simp
next
  case (Cons tm ms)
  obtain t m where tm: "tm = (t, m)" by (cases tm)
  let ?s = "s\<lparr>waitingMsgs := first_of (old @ [m])\<rparr>"
  have "sync_loop do_req visit interval start (tm # ms) s = sync_loop do_req visit interval t ms ?s"
    using Cons.prems sync_receive_first[OF Cons.prems(2,3)] tm by simp
  also have "\<dots> = Some (?s\<lparr>waitingMsgs := first_of ((old @ [m]) @ map snd ms)\<rparr>)"
    using Cons.prems tm by (intro Cons.IH) simp_all
  finally show ?case using tm by simp
qed

text \<open>What a flush posts when every request is answered.\<close>

definition logging :: "post list \<Rightarrow> post \<Rightarrow> post list \<times> bool" where
  "logging w p = (w @ [p], True)"

lemma push_all_logging: "push_all_waiting logging ms w = Some (w @ map sync_post ms)"
  by (induction ms arbitrary: w) (simp_all add: push_def logging_def)

lemma sync_flush_posts:
  "sync_flush logging ks s = Some (s\<lparr>sy_world := sy_world s @ map sync_post (range_values (waitingMsgs s) ks), waitingMsgs := Map.empty\<rparr>)"
  by (simp add: sync_flush_def push_all_logging)

text \<open>A flush posts each of the waiting messages once.\<close>

lemma flush_once:
  assumes "map_order (first_of ms) ks" "waitingMsgs s = first_of ms"
  shows "\<exists>s'. sync_flush logging ks s = Some s' \<and> waitingMsgs s' = Map.empty \<and>
    length (sy_world s') = length (sy_world s) + card (sync_key ` set ms) \<and>
    (\<forall>m \<in> set ms. \<exists>x. first_of ms (sync_key m) = Some x \<and> sync_key x = sync_key m \<and> sync_post x \<in> set (sy_world s'))"
proof -
  have f: "first_of ms k \<noteq> None \<longleftrightarrow> k \<in> sync_key ` set ms" for k
    by (induction ms) (auto simp: first_of_def)
  have dom: "dom (first_of ms) = sync_key ` set ms" using f by (auto simp: dom_def)
  have len: "length (range_values (first_of ms) ks) = card (sync_key ` set ms)"
  proof -
    have "set ks \<subseteq> dom (first_of ms)" using assms(1) by (auto simp: map_order_mem)
    then have "length (range_values (first_of ms) ks) = length ks"
      by (induction ks) (auto simp: range_values_def)
    then show ?thesis using map_order_length[OF assms(1)] dom by simp
  qed
  have "\<exists>x. first_of ms (sync_key m) = Some x \<and> sync_key x = sync_key m \<and> x \<in> set (range_values (first_of ms) ks)" if mm: "m \<in> set ms" for m
  proof -
    obtain x where x: "first_of ms (sync_key m) = Some x" using f[of "sync_key m"] mm by auto
    then have "sync_key x = sync_key m" by (auto simp: first_of_def find_Some_iff)
    moreover have "x \<in> set (range_values (first_of ms) ks)" using x set_range_values_order[OF assms(1)] by (auto simp: ran_def)
    ultimately show ?thesis using x by blast
  qed
  then show ?thesis unfolding sync_flush_posts assms(2) using len by fastforce
qed

text \<open>Keys do not tell every two messages apart: an underscore can stand in any of the fields.\<close>

lemma keys_collide:
  "\<exists>m n. m \<noteq> n \<and> sy_UserId m \<noteq> sy_UserId n \<and> sync_key m = sync_key n"
proof -
  let ?m = "\<lparr>sy_AppId = ''a'', sy_UserId = ''b_c'', sy_SendId = ''d'', sy_RegId = ''r''\<rparr>"
  let ?n = "\<lparr>sy_AppId = ''a'', sy_UserId = ''b'', sy_SendId = ''c_d'', sy_RegId = ''r''\<rparr>"
  show ?thesis by (rule exI[of _ ?m], rule exI[of _ ?n]) (simp add: sync_key_def)
qed

subsection \<open>At the push API\<close>

definition sync_request :: "SyncMsg \<Rightarrow> request" where
  "sync_request m = \<lparr>rq_Method = ''POST'', rq_Path = ''/api/v1/message'',
     rq_header = (\<lambda>k. if k = ''Authorization'' then po_Authorization (sync_post m) else []),
     rq_Form = [], rq_Body = po_Body (sync_post m), rq_Body_ok = True\<rparr>"

definition sync_raw :: "SyncMsg \<Rightarrow> RawMessage" where
  "sync_raw m = zero_RawMessage\<lparr>rm_AppId := sy_AppId m, rm_MsgType := 2, rm_PushType := 3,
     rm_PushParams := zero_PushParams\<lparr>pp_UserId := Some [''letv_'' @ sy_UserId m]\<rparr>,
     rm_Content := sync_content (sy_SendId m), rm_Options := \<lparr>op_TTL = 60, op_TTS = 0\<rparr>, rm_SendId := sy_SendId m\<rparr>"

lemma sync_decodes: "Unmarshal dec_RawMessage (po_Body (sync_post m)) zero_RawMessage = (sync_raw m, True)"
proof -
  have "wf_json (enc_PushMsg (pushmsg m))"
    by (simp add: enc_PushMsg_def member_def omitempty_def)
  moreover have "dec_RawMessage (enc_PushMsg (pushmsg m)) zero_RawMessage = (sync_raw m, True)"
    by (cases "sy_SendId m = []") (simp_all add: enc_PushMsg_def pushmsg_def dec_RawMessage_def dec_PushParams_def dec_Options_def struct_simps
        sync_raw_def zero_RawMessage_def zero_PushParams_def sync_content_def strings_dec_def int64_range_def)
  ultimately show ?thesis by (simp add: sync_post_def Unmarshal_text)
qed

lemma sync_accepted:
  assumes a: "sy_AppId m \<noteq> []" "\<forall>x \<in> set (sy_AppId m). \<not> is_space x"
    and h: "HashGet (astore ae) (aworld s) ''db_apps'' (sy_AppId m) = (w, Inr (Some b))"
    and i: "IncrBy (astore ae) w MsgID 1 = (w1, Inr j)" "j \<noteq> 0"
  shows "\<exists>s' x. addMessage ae (sync_request m) s = Some (s', ok_response (Some (JObj [(''msgid'', jint j)]))) \<and>
    msgBox s' = msgBox s @ [x] \<and> rm_AppId x = sy_AppId m \<and> rm_PushType x = 3 \<and> rm_SendId x = sy_SendId m \<and>
    elems (pp_UserId (rm_PushParams x)) = [''letv_'' @ sy_UserId m] \<and> rm_MsgId x = j \<and> op_TTL (rm_Options x) = 60"
proof -
  have "\<forall>x \<in> set ''LETV'' \<union> set ''pushtest''. \<not> is_space x" by (simp add: is_space_def byte_val_def)
  then have f: "Fields (rq_header (sync_request m) ''Authorization'') = [''LETV'', sy_AppId m, ''pushtest'']"
    using Fields_three[of "''LETV''" "sy_AppId m" "''pushtest''"] a by (auto simp: sync_request_def sync_post_def)
  have sg: "sign_ok ae x rq ''pushtest''" for x rq by (simp add: sign_ok_def ADMIN_SIGN_def)
  have ad: "addMessage ae (sync_request m) s = Some (accept_message ae (sy_AppId m) (po_Body (sync_post m)) (s\<lparr>aworld := w\<rparr>))"
    unfolding addMessage_def f using h sg by (simp add: acall_def) (simp add: sync_request_def)
  have "valid_message (sync_raw m)"
    using a(1) by (simp add: valid_message_def addressed_def sync_raw_def zero_RawMessage_def zero_PushParams_def Let_def sync_content_def)
  then have "fst (checkMessage (sync_raw m))" by (simp add: checkMessage_iff)
  then obtain desc where c: "checkMessage (sync_raw m) = (True, desc)" by (cases "checkMessage (sync_raw m)") auto
  have n: "(sync_raw m)\<lparr>rm_AppId := sy_AppId m\<rparr> = sync_raw m" by (simp add: sync_raw_def)
  have g: "getMsgID ae (s\<lparr>aworld := w\<rparr>) = (s\<lparr>aworld := w1\<rparr>, j)" using i(1) by (simp add: getMsgID_def acall_def)
  show ?thesis unfolding ad accept_message_def sync_decodes prod.case Let_def n c g using i(2)
    by (simp add: acall_def set_ttl_def sync_raw_def split: prod.split)
qed

end
