(* ===== verification/Service_Properties.thy ===== *)
theory Service_Properties
  imports Api_Properties Notify_Spec Sync_Spec Push_Api_Spec Message_Store
begin

text \<open>
  Properties of the services around the push API: what waits in its \<open>msgBox\<close> is well typed, and the requests
  that the notify API and the sync API post are accepted and queue the message that was meant.
\<close>

subsection \<open>Numbers of a width\<close>

text \<open>
  The numbers of a Go struct have a width. What \<open>json.Unmarshal\<close> leaves in a struct keeps to it
  (\<open>keeps_type\<close>, for every decoder that is built from those of the fields), so the messages that wait in the push
  API's \<open>msgBox\<close> have numbers that are read back from their JSON text.
\<close>

definition keeps_type :: "('a \<Rightarrow> bool) \<Rightarrow> 'a decoder \<Rightarrow> bool" where
  "keeps_type P d \<longleftrightarrow> (\<forall>j x. P x \<longrightarrow> P (fst (d j x)))"

lemma keeps_typeD: "keeps_type P d \<Longrightarrow> P x \<Longrightarrow> P (fst (d j x))"
  by (simp add: keeps_type_def)

lemma find_field_member: "find_field fs k = Some d \<Longrightarrow> \<exists>n. (n, d) \<in> set fs"
  by (auto simp: find_field_def find_Some_iff split: option.splits dest!: map_of_SomeD intro: nth_mem) (metis nth_mem)

lemma dec_members_keeps:
  "\<forall>d \<in> snd ` set fs. keeps_type P d \<Longrightarrow> P x \<Longrightarrow> P (fst (dec_members fs ms x))"
proof (induction fs ms x rule: dec_members.induct)
  case (2 fs k j ms x)
  show ?case
  proof (cases "find_field fs k")
    case (Some d)
    then have "keeps_type P d" using "2.prems"(1) find_field_member by force
    then have "P (fst (d j x))" using "2.prems"(2) by (rule keeps_typeD)
    then have "P (fst (dec_members fs ms (fst (d j x))))" using "2.IH"(2)[OF Some _ refl] "2.prems"(1) by (cases "d j x") simp
    then show ?thesis using Some by (cases "d j x", cases "dec_members fs ms (fst (d j x))") (simp add: Let_def)
  qed (use 2 in simp)
qed simp

lemma dec_struct_keeps: "\<forall>d \<in> snd ` set fs. keeps_type P d \<Longrightarrow> keeps_type P (dec_struct fs)"
proof -
  assume fs: "\<forall>d \<in> snd ` set fs. keeps_type P d"
  have "P (fst (dec_struct fs j x))" if x: "P x" for j x
    using dec_members_keeps[OF fs x] x by (cases j) (simp_all add: dec_struct_def)
  then show ?thesis by (simp add: keeps_type_def)
qed

lemma field_keeps:
  assumes "keeps_type Q d" "\<And>x. P x \<Longrightarrow> Q (sel x)" "\<And>x v. P x \<Longrightarrow> Q v \<Longrightarrow> P (upd (\<lambda>_. v) x)"
  shows "keeps_type P (snd (field n sel upd d))"
proof -
  have "P (fst (snd (field n sel upd d) j x))" if x: "P x" for j x
    using assms(3)[OF x keeps_typeD[OF assms(1) assms(2)[OF x], of j]] by (cases "d j (sel x)") (simp add: field_def)
  then show ?thesis by (simp add: keeps_type_def)
qed

lemma string_field_keeps: "(\<And>x v. P x \<Longrightarrow> P (upd (\<lambda>_. v) x)) \<Longrightarrow> keeps_type P (snd (field n sel upd dec_string))"
  by (simp add: keeps_type_def field_def split: prod.splits)

lemma dec_int64_keeps: "keeps_type int64_range dec_int64"
  by (auto simp: keeps_type_def dec_int64_def split: json.splits option.splits dest: ParseInt_range)

subsection \<open>Messages\<close>

definition note_ok :: "Notification \<Rightarrow> bool" where
  "note_ok n \<longleftrightarrow> int64_range (nt_Type n) \<and> int64_range (nt_Action n)"

definition options_ok :: "Options \<Rightarrow> bool" where
  "options_ok x \<longleftrightarrow> int64_range (op_TTL x) \<and> int64_range (op_TTS x)"

lemma raw_ranges_parts: "raw_ranges m \<longleftrightarrow> list_all int64_range [rm_MsgId m, rm_CTime m, rm_MsgType m, rm_PushType m] \<and>
    note_ok (rm_Notification m) \<and> options_ok (rm_Options m)"
  by (auto simp: raw_ranges_def note_ok_def options_ok_def)

lemma dec_Notification_keeps: "keeps_type note_ok dec_Notification"
  unfolding dec_Notification_def
  by (rule dec_struct_keeps) (auto simp: note_ok_def intro!: string_field_keeps field_keeps[OF dec_int64_keeps])

lemma dec_Options_keeps: "keeps_type options_ok dec_Options"
  unfolding dec_Options_def
  by (rule dec_struct_keeps) (auto simp: options_ok_def intro!: field_keeps[OF dec_int64_keeps])

lemma dec_PushParams_keeps: "keeps_type (\<lambda>_. True) dec_PushParams"
  by (simp add: keeps_type_def)

lemma dec_RawMessage_keeps: "keeps_type raw_ranges dec_RawMessage"
  unfolding dec_RawMessage_def
  by (rule dec_struct_keeps)
    (auto simp: raw_ranges_parts intro!: field_keeps[OF dec_int64_keeps] field_keeps[OF dec_Notification_keeps]
      field_keeps[OF dec_Options_keeps] field_keeps[OF dec_PushParams_keeps] string_field_keeps)

lemma Unmarshal_RawMessage_ranges: "raw_ranges (fst (Unmarshal dec_RawMessage b zero_RawMessage))"
  using keeps_typeD[OF dec_RawMessage_keeps, of zero_RawMessage]
  by (simp add: Unmarshal_def raw_ranges_def zero_RawMessage_def zero_Notification_def int64_range_def split: option.splits)

subsection \<open>The push API\<close>

text \<open>The storage counts in \<open>int64\<close> (Redis refuses to go beyond it), and the clock is in range.\<close>

definition counts_int64 :: "'w api_env \<Rightarrow> bool" where
  "counts_int64 e \<longleftrightarrow> (\<forall>w w' k i. IncrBy (astore e) w k 1 = (w', Inr i) \<longrightarrow> int64_range i) \<and>
     (\<forall>w. int64_range (unix_time (anow e w)))"

definition typed_box :: "'w api \<Rightarrow> bool" where
  "typed_box s \<longleftrightarrow> (\<forall>m \<in> set (msgBox s). raw_ranges m)"

lemma typed_box_world [simp]: "typed_box (s\<lparr>aworld := w\<rparr>) = typed_box s"
  by (simp add: typed_box_def)

lemma set_ttl_ranges: "raw_ranges m \<Longrightarrow> raw_ranges (set_ttl m)"
  by (simp add: raw_ranges_def set_ttl_def int64_range_def)

lemma acall_box: "acall f s = (s', r) \<Longrightarrow> msgBox s' = msgBox s"
  by (auto simp: acall_def split: prod.splits)

lemma accept_message_box:
  assumes "counts_int64 e" "typed_box s" "accept_message e appid body s = (s', r)"
  shows "typed_box s'"
proof -
  obtain m0 ok where u: "Unmarshal dec_RawMessage body zero_RawMessage = (m0, ok)" by fastforce
  have m0: "raw_ranges m0" using Unmarshal_RawMessage_ranges[of body] u by simp
  obtain w i where g: "getMsgID e s = (s\<lparr>aworld := w\<rparr>, i)" "int64_range i"
  proof -
    obtain w r where "IncrBy (astore e) (aworld s) MsgID 1 = (w, r)" by fastforce
    then show ?thesis using assms(1) that[of w "value_or 0 r"]
      by (cases r) (auto simp: getMsgID_def acall_def counts_int64_def value_or_def int64_range_def)
  qed
  have "raw_ranges ((set_ttl (m0\<lparr>rm_AppId := appid\<rparr>\<lparr>rm_MsgId := i\<rparr>))\<lparr>rm_CTime := unix_time (anow e w')\<rparr>)" for w'
  proof -
    have "raw_ranges (set_ttl (m0\<lparr>rm_AppId := appid\<rparr>\<lparr>rm_MsgId := i\<rparr>))"
      using m0 g(2) by (intro set_ttl_ranges) (simp add: raw_ranges_def)
    then show ?thesis using assms(1) by (simp add: raw_ranges_def counts_int64_def)
  qed
  then show ?thesis using assms(2,3) u g(1)
    by (auto simp: accept_message_def Let_def typed_box_def acall_def split: bool.splits prod.splits if_splits)
qed

lemma new_app_box: "new_app e a b c mk pkg s = Some (s', r) \<Longrightarrow> msgBox s' = msgBox s"
proof -
  have letters: "msgBox u = msgBox t" if "random_letters e n t = Some (u, x)" for n t u x
    using that by (auto simp: random_letters_def split: option.splits prod.splits outcome.splits)
  have st: "msgBox u = msgBox t" if "store_app e appId raw t = Some (u, x)" for appId raw t u x
    using that by (auto simp: store_app_def split: prod.splits sum.splits dest!: acall_box)
  show "new_app e a b c mk pkg s = Some (s', r) \<Longrightarrow> msgBox s' = msgBox s"
    by (auto simp: new_app_def getPappID_def Let_def split: prod.splits sum.splits option.splits if_splits
        dest!: acall_box letters st)
qed

lemma other_requests_box:
  assumes "h \<in> {appHandler, app2Handler, serverHandler, testHandler}" "h e rq s = Some (s', r)"
  shows "msgBox s' = msgBox s"
proof -
  have "addApp e rq s = Some (s', r) \<Longrightarrow> ?thesis"
    by (auto simp: addApp_def Let_def split: prod.splits bool.splits option.splits if_splits dest!: new_app_box)
  moreover have "addApp2 e rq s = Some (s', r) \<Longrightarrow> ?thesis"
    by (auto simp: addApp2_def split: prod.splits bool.splits option.splits dest!: new_app_box)
  moreover have "delApp e rq s = Some (s', r) \<Longrightarrow> ?thesis"
    by (auto simp: delApp_def Let_def split: prod.splits sum.splits option.splits if_splits dest!: acall_box)
  moreover have "getApp e rq s = Some (s', r) \<Longrightarrow> ?thesis"
    by (auto simp: getApp_def Let_def split: prod.splits sum.splits option.splits if_splits dest!: acall_box)
  ultimately show ?thesis using assms
    by (auto simp: appHandler_def app2Handler_def serverHandler_def testHandler_def Let_def split: if_splits)
qed

lemma messageHandler_box:
  assumes "counts_int64 e" "typed_box s" "messageHandler e rq s = Some (s', r)"
  shows "typed_box s'"
proof (cases "rq_Method rq = ''POST''")
  case True
  have t: "typed_box u" if "acall f s = (u, x)" for f and x :: "'b result" and u
    using assms(2) acall_box[OF that] by (simp add: typed_box_def)
  have "addMessage e rq s = Some (s', r)" using assms(3) True by (simp add: messageHandler_def)
  then consider "s' = s" | u and x :: "string option result" and f where "acall f s = (u, x)" "s' = u"
    | u appid and x :: "string option result" and f where "acall f s = (u, x)" "accept_message e appid (rq_Body rq) u = (s', r)"
    unfolding addMessage_def Let_def by (auto split: prod.splits sum.splits option.splits if_splits)
  then show ?thesis using assms(2) t accept_message_box[OF assms(1) t] by cases auto
next
  case False
  then have "msgBox s' = msgBox s" using assms(3)
    by (auto simp: messageHandler_def getMessage_def Let_def split: prod.splits sum.splits option.splits if_splits dest!: acall_box)
  then show ?thesis using assms(2) by (simp add: typed_box_def)
qed

text \<open>C34: Whatever is posted, a message that waits for its dispatch has all its numbers in the range of Go's \<open>int64\<close>, so
  the JSON text that the dispatch stores is read back as the message (empty lists as nil).\<close>

theorem waiting_messages_readable:
  assumes "counts_int64 e" "api_run e (\<lambda>_. 0) s0 ids s" "msgBox s0 = []" "m \<in> set (msgBox s)"
  shows "raw_ranges m \<and> Unmarshal dec_RawMessage (json_text (enc_RawMessage m)) zero_RawMessage = (raw_norm m, True)"
proof -
  have "typed_box s" using assms(2)
  proof induction
    case start
    then show ?case using assms(3) by (simp add: typed_box_def)
  next
    case (request ids s h rq s' r ms)
    then show ?case using messageHandler_box[OF assms(1)] other_requests_box[of h e rq s s' r]
      by (cases "h = messageHandler") (auto simp: typed_box_def)
  next
    case (dispatched ids s s' p)
    then show ?case by (auto simp: dispatch_turn_def typed_box_def split: list.splits prod.splits)
  qed simp
  then show ?thesis using assms(4) dec_enc_message by (auto simp: typed_box_def Unmarshal_text)
qed

definition ex_slow_env :: "mem api_env" where
  "ex_slow_env = ex_api_env\<lparr>astore := mem_store\<lparr>IncrBy := (\<lambda>w k n. (w, Inr 7))\<rparr>, anow := (\<lambda>w. 0)\<rparr>"

theorem waiting_messages_readable_witness:
  "\<exists>s r m. addMessage ex_slow_env ex_post ex_api = Some (s, r) \<and> msgBox s = [m] \<and> rm_MsgId m = 7 \<and> raw_ranges m"
proof -
  have c: "counts_int64 ex_slow_env"
    by (simp add: counts_int64_def ex_slow_env_def int64_range_def unix_time_def)
  have f: "Fields ''LETV id1 pushtest'' = [''LETV'', ''id1'', ''pushtest'']" by code_simp
  have v: "valid_message ((raw_norm ex_msg)\<lparr>rm_AppId := ''id1''\<rparr>)"
    by (simp add: valid_message_def addressed_def raw_norm_def ex_msg_def zero_RawMessage_def zero_Notification_def Let_def
        norm_params_def zero_PushParams_def)
  then obtain d where d: "checkMessage ((raw_norm ex_msg)\<lparr>rm_AppId := ''id1''\<rparr>) = (True, d)"
    using checkMessage_iff[of "(raw_norm ex_msg)\<lparr>rm_AppId := ''id1''\<rparr>"] by (cases "checkMessage ((raw_norm ex_msg)\<lparr>rm_AppId := ''id1''\<rparr>)") auto
  obtain b where b: "mem_hview (aworld ex_api) ''db_apps'' ''id1'' = Some b" using ex_api_simps(2) by blast
  have h: "acall (\<lambda>w. HashGet mem_store w ''db_apps'' ''id1'') ex_api = (ex_api, Inr (Some b))"
    using b ex_api_simps(1) by (simp add: acall_def mem_store_calls)
  have so: "sign_ok ex_slow_env x ex_post ''pushtest''" for x by (simp add: sign_ok_def ADMIN_SIGN_def)
  have st: "HashGet (astore ex_slow_env) = HashGet mem_store" "IncrBy (astore ex_slow_env) w k n = (w, Inr 7)" for w k n
    by (simp_all add: ex_slow_env_def)
  define m where "m = (set_ttl ((raw_norm ex_msg)\<lparr>rm_AppId := ''id1'', rm_MsgId := 7\<rparr>))\<lparr>rm_CTime := unix_time (anow ex_slow_env (aworld ex_api))\<rparr>"
  have g: "getMsgID ex_slow_env ex_api = (ex_api, 7)" by (simp add: getMsgID_def acall_def st)
  have hd: "rq_header ex_post ''Authorization'' = ''LETV id1 pushtest''" "rq_Body_ok ex_post" by (simp_all add: ex_post_def)
  have ac: "\<exists>s' r. accept_message ex_slow_env ''id1'' (rq_Body ex_post) ex_api = (s', r) \<and> msgBox s' = [m]"
    unfolding accept_message_def ex_post_body prod.case Let_def d g by (simp add: m_def[symmetric] acall_def ex_api_simps(3) split: prod.split)
  have "addMessage ex_slow_env ex_post ex_api = Some (accept_message ex_slow_env ''id1'' (rq_Body ex_post) ex_api)"
    using f h so hd by (simp add: addMessage_def Let_def st)
  then obtain s' r where a: "addMessage ex_slow_env ex_post ex_api = Some (s', r)" "msgBox s' = [m]" using ac by auto
  have m7: "rm_MsgId m = 7" by (simp add: m_def set_ttl_def)
  have hm: "messageHandler ex_slow_env ex_post ex_api = Some (s', r)" using a(1) by (simp add: messageHandler_def ex_post_def)
  have "api_run ex_slow_env (\<lambda>_. 0) ex_api ([] @ map rm_MsgId [m]) s'"
    by (rule api_run.request[where h = messageHandler and ms = "[m]", OF api_run.start _ hm]) (simp_all add: a(2) ex_api_simps(3))
  from waiting_messages_readable[OF c this ex_api_simps(3), of m] a m7 show ?thesis by auto
qed

text \<open>C37: A notice reaches the users of its tags. When the subscription service answers with users, the notify API posts
  one request; the push API takes its signature for that of the application, whose secret the notice has,
  and queues the message of the notice for exactly these users, each once.\<close>

theorem notice_reaches_users:
  assumes k: "hmac ae = ne_hmac e" "md5sum ae = ne_md5 e" "\<And>x y. ne_hmac e x y \<noteq> []"
    and u: "plain_url (ne_PushUrl e) path" "visits_all (ne_iter e)"
    and n: "checkNotice n" "\<forall>x \<in> set (nc_AppId n). \<not> is_space x" "raw_ranges (nc_PushMsg n)" "valid_message (notice_message n uids)"
    and r: "callThirdPartyIf e i (subscription_call e n) = Inr resp" "getUids (ne_iter e) resp = Some uids"
    and h: "HashGet (astore ae) (aworld s) ''db_apps'' (nc_AppId n) = (w, Inr (Some b))"
      "ra_AppSec (fst (Unmarshal dec_RawApp b zero_RawApp)) = nc_AppSec n"
    and j: "IncrBy (astore ae) w MsgID 1 = (w1, Inr j)" "j \<noteq> 0"
  shows "\<exists>c s' m data. send_notice e i n = Some (callThirdPartyIf e i c) \<and>
    addMessage ae (received c path) s = Some (s', ok_response (Some (JObj [(''msgid'', jint j)]))) \<and>
    msgBox s' = msgBox s @ [m] \<and> rm_AppId m = nc_AppId n \<and> rm_PushType m = PUSH_WITH_UID \<and> rm_MsgId m = j \<and>
    elems (pp_UserId (rm_PushParams m)) = uids \<and> distinct uids \<and> resp = Some (JObj data) \<and>
    set uids = {u. \<exists>k m js. (k, JObj m) \<in> set (object_map data) \<and> (''uids'', JArr js) \<in> set (object_map m) \<and> JStr u \<in> set js}"
proof -
  obtain c where c: "push_call e i n uids = Some c" using push_path_plain[OF u(1)] by (simp add: push_call_def Let_def)
  have a: "nc_AppId n \<noteq> []" using n(1) by (simp add: checkNotice_def)
  have "send_notice e i n = Some (callThirdPartyIf e i c)" using n(1) r c by (simp add: send_notice_def)
  moreover note notice_posted[OF k u(1) c a n(2) h]
  moreover from notice_accepted[OF n(3,4), of ae "s\<lparr>aworld := w\<rparr>" w1 j] j
  obtain s' m where "accept_message ae (nc_AppId n) (json_text (enc_RawMessage (notice_message n uids))) (s\<lparr>aworld := w\<rparr>) =
      (s', ok_response (Some (JObj [(''msgid'', jint j)])))" "msgBox s' = msgBox s @ [m]" "rm_AppId m = nc_AppId n"
    "rm_PushType m = PUSH_WITH_UID" "elems (pp_UserId (rm_PushParams m)) = uids" "rm_MsgId m = j" by auto
  ultimately show ?thesis using getUids_users[OF u(2) r(2)] by fastforce
qed

lemma ex_api_app: "\<exists>b. HashGet mem_store (aworld ex_api) ''db_apps'' ''id1'' = (aworld ex_api, Inr (Some b)) \<and>
    ra_AppSec (fst (Unmarshal dec_RawApp b zero_RawApp)) = ''s''"
proof -
  have "mem_hview (aworld ex_api) ''db_apps'' ''id1'' = Some (json_text (enc_RawApp ex_rawapp))" by (simp add: ex_api_def)
  moreover have "ra_AppSec (fst (Unmarshal dec_RawApp (json_text (enc_RawApp ex_rawapp)) zero_RawApp)) = ''s''" by code_simp
  ultimately show ?thesis using ex_api_simps(1) by (auto simp: mem_store_calls)
qed

lemma ex_counter: "IncrBy mem_store (aworld ex_api) MsgID 1 = (mem_inc MsgID 1 (aworld ex_api), Inr 1)"
  using ex_api_simps(1,4) by (simp add: mem_store_calls count_of_def)

lemma ex_app_word: "\<forall>x \<in> set ''id1''. \<not> is_space x"
  by (simp add: is_space_def byte_val_def)

definition ex_users :: string where
  "ex_users = json_text (JObj [(''errno'', jint 0), (''data'', JObj [(''x'', JObj [(''uids'', JArr [JStr ''u1''])])])])"

definition ex_notify_env :: notify_env where
  "ex_notify_env = \<lparr>ne_http = (\<lambda>i c. Inr ex_users), ne_late = (\<lambda>i. False), ne_date = (\<lambda>i. ''d''), ne_jerr = (\<lambda>s. s),
     ne_hmac = (\<lambda>k d. ''x''), ne_md5 = (\<lambda>s. s), ne_num = (\<lambda>s. s), ne_iter = (\<lambda>ms. ms), ne_ids = (\<lambda>is. is), ne_MaxNotices = 5,
     ne_SubUrl = ''http://s/'', ne_PushUrl = ''http://h/p''\<rparr>"

definition ex_notice :: Notice where
  "ex_notice = \<lparr>nc_Id = 1, nc_AppId = ''id1'', nc_AppSec = ''s'', nc_Tags = ''t'',
     nc_PushMsg = zero_RawMessage\<lparr>rm_MsgType := 2, rm_Content := ''hi''\<rparr>\<rparr>"

lemma ex_users_found: "callThirdPartyIf ex_notify_env i (subscription_call ex_notify_env ex_notice) =
    Inr (Some (JObj [(''x'', JObj [(''uids'', JArr [JStr ''u1''])])]))"
  by code_simp

theorem notice_reaches_users_witness:
  "\<exists>c s' m. send_notice ex_notify_env 0 ex_notice = Some (callThirdPartyIf ex_notify_env 0 c) \<and>
    addMessage (ex_api_env\<lparr>hmac := (\<lambda>k d. ''x''), md5sum := (\<lambda>s. s)\<rparr>) (received c ''p'') ex_api =
      Some (s', ok_response (Some (JObj [(''msgid'', jint 1)]))) \<and>
    msgBox s' = [m] \<and> elems (pp_UserId (rm_PushParams m)) = [''u1'']"
proof -
  let ?ae = "ex_api_env\<lparr>hmac := (\<lambda>k d. ''x''), md5sum := (\<lambda>s. s)\<rparr>"
  have k: "hmac ?ae = ne_hmac ex_notify_env" "md5sum ?ae = ne_md5 ex_notify_env" "ne_hmac ex_notify_env x y \<noteq> []" for x y
    by (simp_all add: ex_notify_env_def)
  have u: "plain_url (ne_PushUrl ex_notify_env) ''p''" unfolding plain_url_def
    by (rule exI[of _ "''http''"], rule exI[of _ "''h''"]) (simp add: ex_notify_env_def)
  have v: "visits_all (ne_iter ex_notify_env)" by (simp add: visits_all_def ex_notify_env_def)
  have n: "checkNotice ex_notice" "\<forall>x \<in> set (nc_AppId ex_notice). \<not> is_space x" "raw_ranges (nc_PushMsg ex_notice)"
    using ex_app_word by (simp_all add: ex_notice_def checkNotice_def raw_ranges_def zero_RawMessage_def zero_Notification_def int64_range_def)
  have m: "valid_message (notice_message ex_notice [''u1''])"
    by (simp add: valid_message_def addressed_def notice_message_def ex_notice_def zero_RawMessage_def zero_PushParams_def PUSH_WITH_UID_def Let_def)
  have g: "getUids (ne_iter ex_notify_env) (Some (JObj [(''x'', JObj [(''uids'', JArr [JStr ''u1''])])])) = Some [''u1'']"
    by (simp add: getUids_def object_map_def ex_notify_env_def)
  obtain b where b: "HashGet (astore ?ae) (aworld ex_api) ''db_apps'' (nc_AppId ex_notice) = (aworld ex_api, Inr (Some b))"
    "ra_AppSec (fst (Unmarshal dec_RawApp b zero_RawApp)) = nc_AppSec ex_notice" using ex_api_app by (auto simp: ex_notice_def)
  have j: "IncrBy (astore ?ae) (aworld ex_api) MsgID 1 = (mem_inc MsgID 1 (aworld ex_api), Inr 1)" "(1::int) \<noteq> 0"
    using ex_counter by simp_all
  from notice_reaches_users[OF k u v n m ex_users_found[of 0] g b j] show ?thesis using ex_api_simps(3) by fastforce
qed

text \<open>C38: A message that the sync API posts for a user is accepted by the push API when the application is registered, and
  queued for this user alone, with the sender id of the original and a life time of a minute.\<close>

theorem sync_message_queued:
  assumes "sy_AppId m \<noteq> []" "\<forall>x \<in> set (sy_AppId m). \<not> is_space x"
    and "HashGet (astore ae) (aworld s) ''db_apps'' (sy_AppId m) = (w, Inr (Some b))"
    and "IncrBy (astore ae) w MsgID 1 = (w1, Inr j)" "j \<noteq> 0"
  shows "\<exists>s' x. addMessage ae (sync_request m) s = Some (s', ok_response (Some (JObj [(''msgid'', jint j)]))) \<and>
    msgBox s' = msgBox s @ [x] \<and> rm_AppId x = sy_AppId m \<and> rm_PushType x = 3 \<and> rm_SendId x = sy_SendId m \<and>
    elems (pp_UserId (rm_PushParams x)) = [''letv_'' @ sy_UserId m] \<and> rm_MsgId x = j \<and> op_TTL (rm_Options x) = 60"
  by (rule sync_accepted[OF assms])

theorem sync_message_queued_witness:
  "\<exists>s' x. addMessage ex_api_env (sync_request \<lparr>sy_AppId = ''id1'', sy_UserId = ''7'', sy_SendId = ''s'', sy_RegId = []\<rparr>) ex_api =
      Some (s', ok_response (Some (JObj [(''msgid'', jint 1)]))) \<and>
    msgBox s' = [x] \<and> elems (pp_UserId (rm_PushParams x)) = [''letv_7'']"
proof -
  obtain b where b: "HashGet mem_store (aworld ex_api) ''db_apps'' ''id1'' = (aworld ex_api, Inr (Some b))" using ex_api_app by blast
  show ?thesis
    using sync_message_queued[of "\<lparr>sy_AppId = ''id1'', sy_UserId = ''7'', sy_SendId = ''s'', sy_RegId = []\<rparr>" ex_api_env ex_api] b ex_counter ex_app_word ex_api_simps(3)
    by fastforce
qed

end
