(* ===== verification/Broker_Spec.thy ===== *)
theory Broker_Spec
  imports Broker
begin

text \<open>
  What the set-up of AMQP connections promises: a message published by one end reaches the queue that the
  other end consumes (\<open>consumer_gets_published\<close>, \<open>commands_routed\<close>), and what a failed set-up leaves behind.
\<close>

subsection \<open>The broker's side of a log\<close>

definition conn_step :: "bool \<Rightarrow> amqp_call \<times> string result \<Rightarrow> bool" where
  "conn_step b cr =
    (case cr of
       (Dial _, r) \<Rightarrow> b \<or> ok_result r
     | (CloseConn, _) \<Rightarrow> False
     | _ \<Rightarrow> b)"

text \<open>The log leaves the connection open.\<close>

definition conn_open :: "amqp_log \<Rightarrow> bool" where
  "conn_open h = foldl conn_step False h"

text \<open>Queues by the names that the broker gave them, and their bindings to an exchange.\<close>

definition declared_queues :: "amqp_log \<Rightarrow> string list" where
  "declared_queues h = concat (map (\<lambda>cr. case cr of (QueueDeclare _ _ _ _ _, Inr q) \<Rightarrow> [q] | _ \<Rightarrow> []) h)"

definition bindings :: "amqp_log \<Rightarrow> string \<Rightarrow> (string \<times> string) list" where
  "bindings h x = concat (map (\<lambda>cr. case cr of (QueueBind q k y _, Inr _) \<Rightarrow> if y = x then [(q, k)] else [] | _ \<Rightarrow> []) h)"

definition exchange_types :: "amqp_log \<Rightarrow> string \<Rightarrow> string list" where
  "exchange_types h x = concat (map (\<lambda>cr. case cr of (ExchangeDeclare y t _ _ _ _, Inr _) \<Rightarrow> if y = x then [t] else [] | _ \<Rightarrow> []) h)"

text \<open>The queues that get a message published on an exchange with a key. \<open>matches\<close> says of a type of exchange,
  a binding key and a routing key whether they match; the exchange without a name routes to the queue with
  the name of the key.\<close>

definition routes :: "(string \<Rightarrow> string \<Rightarrow> string \<Rightarrow> bool) \<Rightarrow> amqp_log \<Rightarrow> string \<Rightarrow> string \<Rightarrow> string list" where
  "routes matches h x key =
    (if x = [] then filter (\<lambda>q. q = key) (declared_queues h)
     else case exchange_types h x of
            [] \<Rightarrow> []
          | t # _ \<Rightarrow> map fst (filter (\<lambda>(q, k). matches t k key) (bindings h x)))"

text \<open>What the library promises of the two types of exchange that are used.\<close>

locale amqp_exchange =
  fixes matches :: "string \<Rightarrow> string \<Rightarrow> string \<Rightarrow> bool"
  assumes fanout: "matches ''fanout'' k key"
    and direct: "matches ''direct'' k key \<longleftrightarrow> k = key"

lemma log_views_append [simp]:
  "conn_open (h @ h') = foldl conn_step (conn_open h) h'"
  "declared_queues (h @ h') = declared_queues h @ declared_queues h'"
  "bindings (h @ h') x = bindings h x @ bindings h' x"
  "exchange_types (h @ h') x = exchange_types h x @ exchange_types h' x"
  by (simp_all add: conn_open_def declared_queues_def bindings_def exchange_types_def)

lemma log_views_Nil [simp]:
  "\<not> conn_open []" "declared_queues [] = []" "bindings [] x = []" "exchange_types [] x = []"
  by (simp_all add: conn_open_def declared_queues_def bindings_def exchange_types_def)

lemma log_views_Cons [simp]:
  "declared_queues ((c, r) # h) = (case (c, r) of (QueueDeclare _ _ _ _ _, Inr q) \<Rightarrow> [q] | _ \<Rightarrow> []) @ declared_queues h"
  "bindings ((c, r) # h) x = (case (c, r) of (QueueBind q k y _, Inr _) \<Rightarrow> if y = x then [(q, k)] else [] | _ \<Rightarrow> []) @ bindings h x"
  "exchange_types ((c, r) # h) x =
    (case (c, r) of (ExchangeDeclare y t _ _ _ _, Inr _) \<Rightarrow> if y = x then [t] else [] | _ \<Rightarrow> []) @ exchange_types h x"
  by (simp_all add: declared_queues_def bindings_def exchange_types_def)

lemma log_views_concat:
  "declared_queues (concat hs) = concat (map declared_queues hs)"
  "bindings (concat hs) x = concat (map (\<lambda>h. bindings h x) hs)"
  "exchange_types (concat hs) x = concat (map (\<lambda>h. exchange_types h x) hs)"
  by (induction hs) simp_all

subsection \<open>Successful set-ups\<close>

lemma NewConsumer_ok:
  assumes "NewConsumer br ip uri x qos [] = (h, Inr c)"
  obtains q r1 r2 r3 r4 where
    "h = [(Dial uri, Inr r1), (OpenChannel, Inr r2), (QueueDeclare ip True False False False, Inr q),
      (QueueBind q [] x False, Inr r3), (Qos qos 0 False, r4)]"
    "c = \<lparr>co_queue = ip, co_tag = ip @ ''_tag'', co_handling = False\<rparr>"
  using assms by (auto simp: NewConsumer_def ask_def Let_def split: prod.splits sum.splits)

lemma NewProducer_ok:
  assumes "NewProducer br uri x t key rel [] = (h, Inr p)"
  obtains r1 r2 r3 where
    "h = [(Dial uri, Inr r1), (OpenChannel, Inr r2), (ExchangeDeclare x t True False False False, Inr r3)]"
    "p = \<lparr>po_exchangeName = x, po_routingKey = key\<rparr>"
  using assms by (auto simp: NewProducer_def ask_def split: prod.splits sum.splits)

lemma open_rpc_ok:
  assumes "open_rpc br uri x [] = (h, Inr q)"
  obtains r1 r2 r3 where
    "h = [(Dial uri, Inr r1), (OpenChannel, Inr r2), (ExchangeDeclare x rpcExchangeType True False False False, Inr r3),
      (QueueDeclare [] False True True False, Inr q)]"
  using assms by (auto simp: open_rpc_def ask_def split: prod.splits sum.splits)

lemma NewRpcServer_ok:
  assumes "NewRpcServer br uri x name [] = (h, Inr sv)"
  obtains h0 r4 r5 where "open_rpc br uri x [] = (h0, Inr (rv_queue sv))"
    "h = h0 @ [(QueueBind (rv_queue sv) name x False, Inr r4), (Consume (rv_queue sv) [] False False False False, Inr r5)]"
proof -
  obtain h0 r where o: "open_rpc br uri x [] = (h0, r)" by fastforce
  from assms o obtain q where "r = Inr q" by (cases r) (simp_all add: NewRpcServer_def)
  with assms o that show thesis by (auto simp: NewRpcServer_def ask_def split: sum.splits)
qed

lemma AmqpRpcClient_ok:
  assumes "AmqpRpcClient br uri x [] = (h, Inr cl)"
  shows "open_rpc br uri x [] = (h, Inr (rc_callbackQueue cl))"
proof -
  obtain h0 r where o: "open_rpc br uri x [] = (h0, r)" by fastforce
  with assms show ?thesis by (cases r) (auto simp: AmqpRpcClient_def)
qed

lemma open_rpc_views:
  assumes "open_rpc br uri x [] = (h, Inr q)"
  shows "declared_queues h = [q]" "bindings h y = []" "exchange_types h y = (if y = x then [''direct''] else [])"
  by (rule open_rpc_ok[OF assms], simp add: rpcExchangeType_def)+

lemma NewRpcServer_views:
  assumes "NewRpcServer br uri x name [] = (h, Inr sv)"
  shows "declared_queues h = [rv_queue sv]" "bindings h x = [(rv_queue sv, name)]" "exchange_types h x = [''direct'']"
  by (rule NewRpcServer_ok[OF assms], simp add: open_rpc_views)+

subsection \<open>Commands, responses and messages\<close>

text \<open>A server that has been set up for remote calls: its name, the log of its connection and the result.\<close>

definition rpc_started :: "string \<Rightarrow> string \<times> amqp_log \<times> RpcServer \<Rightarrow> bool" where
  "rpc_started x s \<longleftrightarrow> (case s of (name, h, sv) \<Rightarrow> \<exists>br uri. NewRpcServer br uri x name [] = (h, Inr sv))"

lemma rpc_started_views:
  assumes "\<forall>s\<in>set servers. rpc_started x s"
  shows "concat (map (\<lambda>s. declared_queues (fst (snd s))) servers) = map (\<lambda>(name, h, sv). rv_queue sv) servers"
    "concat (map (\<lambda>s. bindings (fst (snd s)) x) servers) = map (\<lambda>(name, h, sv). (rv_queue sv, name)) servers"
  using assms by (induction servers) (auto simp: rpc_started_def NewRpcServer_views)

lemma filter_names:
  "map fst (filter (\<lambda>(q, k). k = key) (map (\<lambda>(name, h, sv). (rv_queue sv, name)) servers)) =
   map (\<lambda>(name, h, sv). rv_queue sv) (filter (\<lambda>s. fst s = key) servers)"
  by (induction servers) auto

lemma filter_other: "q \<notin> set qs \<Longrightarrow> filter (\<lambda>r. r = q) qs = []"
  by (induction qs) auto

context amqp_exchange
begin

text \<open>A command that the RPC client publishes with the name of a server as its key reaches the queues of
  exactly the servers of that name, and a response that is published to the client's callback queue reaches
  this queue alone.\<close>

lemma commands_routed:
  assumes "x \<noteq> []" "AmqpRpcClient brc uri x [] = (hc, Inr cl)"
    and "\<forall>s\<in>set servers. rpc_started x s"
    and "publish_command brc cl key cid data hc = (hc', None)"
    and "rc_callbackQueue cl \<notin> (\<lambda>(name, h, sv). rv_queue sv) ` set servers"
  shows "routes matches (hc' @ concat (map (\<lambda>s. fst (snd s)) servers)) (rc_exchange cl) key =
      map (\<lambda>(name, h, sv). rv_queue sv) (filter (\<lambda>s. fst s = key) servers) \<and>
    routes matches (hc' @ concat (map (\<lambda>s. fst (snd s)) servers)) [] (rc_callbackQueue cl) = [rc_callbackQueue cl]"
proof -
  note c = open_rpc_views[OF AmqpRpcClient_ok[OF assms(2)]]
  obtain r where h: "hc' = hc @ [(Publish (rc_exchange cl) key False False
      \<lparr>pb_ReplyTo = rc_callbackQueue cl, pb_CorrelationId = cid, pb_Body = data\<rparr>, Inr r)]"
    using assms(4) by (auto simp: publish_command_def ask_def split: sum.splits)
  have x: "rc_exchange cl = x" using assms(2) by (auto simp: AmqpRpcClient_def split: prod.splits sum.splits)
  note v = log_views_concat[of "map (\<lambda>s. fst (snd s)) servers", unfolded map_map comp_def]
  show ?thesis using assms(1,5)
    by (simp add: routes_def h x c v rpc_started_views[OF assms(3)] direct filter_names
        filter_other image_def)
qed

text \<open>What a producer publishes on a fanout exchange reaches the queue of every consumer that has been set
  up on the exchange, whatever the key.\<close>

lemma consumer_gets_published:
  assumes "x \<noteq> []" "NewProducer brp uri x ''fanout'' key rel [] = (hp, Inr p)"
    and "Producer_Publish brp p data hp = (hp', None)"
    and "NewConsumer brc ip uri' x qos [] = (hc, Inr c)" "brc (take 2 hc) (QueueDeclare ip True False False False) = Inr ip"
    and "hc \<in> set logs"
  shows "co_queue c \<in> set (routes matches (hp' @ concat logs) (po_exchangeName p) (po_routingKey p))"
proof -
  obtain r1 r2 r3 where p: "hp = [(Dial uri, Inr r1), (OpenChannel, Inr r2), (ExchangeDeclare x ''fanout'' True False False False, Inr r3)]"
    "p = \<lparr>po_exchangeName = x, po_routingKey = key\<rparr>" using NewProducer_ok[OF assms(2)] by blast
  have q: "(ip, []) \<in> set (bindings hc x) \<and> co_queue c = ip"
    using assms(4,5) by (auto simp: NewConsumer_def ask_def Let_def split: prod.splits sum.splits)
  have t: "exchange_types hp' x = [''fanout'']" "bindings hp' x = []" using assms(3) p
    by (auto simp: Producer_Publish_def ask_def split: sum.splits)
  have "(ip, []) \<in> set (bindings (concat logs) x)" using q assms(6) by (auto simp: log_views_concat)
  then show ?thesis using assms(1) p t q by (force simp: routes_def fanout)
qed

end

subsection \<open>Failed set-ups and shut-downs\<close>

text \<open>A set-up that fails after it has dialled returns its error and leaves the connection open: nothing
  refers to it any more.\<close>

lemma failed_consumer_leaks:
  "NewConsumer br ip uri x qos [] = (h, Inl e) \<Longrightarrow> conn_open h \<longleftrightarrow> ok_result (br [] (Dial uri))"
  by (auto simp: NewConsumer_def ask_def Let_def conn_open_def conn_step_def split: sum.splits)

lemma failed_producer_leaks:
  "NewProducer br uri x t key rel [] = (h, Inl e) \<Longrightarrow> conn_open h \<longleftrightarrow> ok_result (br [] (Dial uri))"
  by (auto simp: NewProducer_def ask_def conn_open_def conn_step_def split: sum.splits)

lemma failed_rpc_leaks:
  "open_rpc br uri x [] = (h, Inl e) \<Longrightarrow> conn_open h \<longleftrightarrow> ok_result (br [] (Dial uri))"
  by (auto simp: open_rpc_def ask_def conn_open_def conn_step_def split: sum.splits)

lemma Producer_Shutdown_closes: "\<not> conn_open (Producer_Shutdown br h)"
  by (simp add: Producer_Shutdown_def ask_def conn_open_def conn_step_def)

text \<open>A shut-down that returns nil has closed the connection; one that cannot cancel the consumer leaves it open,
  and one before \<open>Consume\<close> never returns when its calls succeed.\<close>

lemma Consumer_Shutdown_cases:
  assumes "Consumer_Shutdown br c h = (h', r)" "conn_open h"
  shows "r = Some None \<Longrightarrow> \<not> conn_open h' \<and> co_handling c"
    and "br h (Cancel (co_tag c) True) = Inl e \<Longrightarrow> conn_open h' \<and> r \<noteq> Some None \<and> r \<noteq> None"
    and "\<not> co_handling c \<Longrightarrow> r \<noteq> Some None"
  using assms by (auto simp: Consumer_Shutdown_def ask_def conn_step_def split: sum.splits if_splits)

text \<open>The error of \<open>Qos\<close> is dropped: the consumer is set up all the same.\<close>

lemma Qos_error_dropped:
  "ok_result (snd (NewConsumer br ip uri x qos h)) =
   ok_result (snd (NewConsumer (\<lambda>h c. case c of Qos _ _ _ \<Rightarrow> Inl (GoErr []) | _ \<Rightarrow> br h c) ip uri x qos h))"
  by (simp add: NewConsumer_def ask_def Let_def split: sum.splits)

text \<open>When the response loop of an RPC client cannot start to consume, it waits for ever on a nil channel, and
  the client is used without responses.\<close>

lemma responses_not_started:
  "br h (Consume (rc_callbackQueue cl) [] False False False False) = Inl e \<Longrightarrow>
   rc_loop (snd (start_responses br cl h)) = Some None"
  by (simp add: start_responses_def ask_def)

subsection \<open>A broker\<close>

text \<open>A broker that accepts every call and gives \<open>q\<close> to a queue without a name, and the matching of the two types
  of exchange that are used.\<close>

definition obliging :: "string \<Rightarrow> broker" where
  "obliging q h c = (case c of QueueDeclare n _ _ _ _ \<Rightarrow> Inr (if n = [] then q else n) | _ \<Rightarrow> Inr [])"

definition type_match :: "string \<Rightarrow> string \<Rightarrow> string \<Rightarrow> bool" where
  "type_match t k key \<longleftrightarrow> t = ''fanout'' \<or> (t = ''direct'' \<and> k = key)"

interpretation documented: amqp_exchange type_match
  by unfold_locales (auto simp: type_match_def)

lemma commands_routed_example:
  "\<exists>hc cl hs sv hc'. AmqpRpcClient (obliging ''cb'') ''u'' ''x'' [] = (hc, Inr cl) \<and>
     NewRpcServer (obliging ''q1'') ''u'' ''x'' ''s1'' [] = (hs, Inr sv) \<and>
     publish_command (obliging ''cb'') cl ''s1'' ''1'' ''m'' hc = (hc', None) \<and>
     routes type_match (hc' @ hs) (rc_exchange cl) ''s1'' = [''q1''] \<and> routes type_match (hc' @ hs) [] ''cb'' = [''cb'']"
proof -
  obtain hc cl where c: "AmqpRpcClient (obliging ''cb'') ''u'' ''x'' [] = (hc, Inr cl)" "rc_callbackQueue cl = ''cb''"
    by (simp add: AmqpRpcClient_def open_rpc_def ask_def obliging_def)
  obtain hs sv where v: "NewRpcServer (obliging ''q1'') ''u'' ''x'' ''s1'' [] = (hs, Inr sv)" "rv_queue sv = ''q1''"
    by (simp add: NewRpcServer_def open_rpc_def ask_def obliging_def)
  obtain hc' where p: "publish_command (obliging ''cb'') cl ''s1'' ''1'' ''m'' hc = (hc', None)"
    by (simp add: publish_command_def ask_def obliging_def)
  have "\<forall>s\<in>set [(''s1'', hs, sv)]. rpc_started ''x'' s" using v by (auto simp: rpc_started_def)
  from documented.commands_routed[OF _ c(1) this p] v c p show ?thesis by auto
qed

lemma consumer_gets_published_example:
  "\<exists>hp p hp' hc c. NewProducer (obliging []) ''u'' ''x'' ''fanout'' ''k'' False [] = (hp, Inr p) \<and>
     Producer_Publish (obliging []) p ''m'' hp = (hp', None) \<and>
     NewConsumer (obliging []) ''10.0.0.1'' ''u'' ''x'' 1 [] = (hc, Inr c) \<and>
     ''10.0.0.1'' \<in> set (routes type_match (hp' @ hc) (po_exchangeName p) (po_routingKey p))"
proof -
  obtain hp p where p: "NewProducer (obliging []) ''u'' ''x'' ''fanout'' ''k'' False [] = (hp, Inr p)"
    by (simp add: NewProducer_def ask_def obliging_def)
  obtain hp' where q: "Producer_Publish (obliging []) p ''m'' hp = (hp', None)"
    by (simp add: Producer_Publish_def ask_def obliging_def)
  obtain hc c where c: "NewConsumer (obliging []) ''10.0.0.1'' ''u'' ''x'' 1 [] = (hc, Inr c)" "co_queue c = ''10.0.0.1''"
    by (simp add: NewConsumer_def ask_def Let_def obliging_def)
  have "hc \<in> set [hc]" "obliging [] (take 2 hc) (QueueDeclare ''10.0.0.1'' True False False False) = Inr ''10.0.0.1''"
    by (simp_all add: obliging_def)
  from documented.consumer_gets_published[OF _ p q c(1) this(2,1)] c p q show ?thesis by auto
qed

end
