(* ===== verification/Lifecycle.thy ===== *)
theory Lifecycle
  imports Comet_Progress
begin

text \<open>
  The goroutines that a comet server runs for itself, and how they end (\<open>Server.Run\<close>, \<open>startWorkers\<close>,
  \<open>startRefreshRoutine\<close>, \<open>Server.Stop\<close> of \<open>comet/server.go\<close>; \<open>Worker.Run\<close> and \<open>Worker.Stop\<close> of
  \<open>comet/job.go\<close>): the accept loop, the refresh routine and the workers. A step of \<open>life_step\<close> is a turn
  of one of them, a call of \<open>Stop\<close>, or a step of the comet server in which only running workers take
  turns. The goroutines of connections are those of \<open>comet_step\<close>: nothing here ends them.
\<close>

subsection \<open>State and operations\<close>

text \<open>What \<open>listener.AcceptTCP\<close> returns.\<close>

datatype accepted = AcceptConn nat | AcceptTimeout | AcceptError

datatype run_phase = NotRun | Accepting | Returned

text \<open>\<open>lf_ctrl\<close>: the channel \<open>Server.ctrl\<close> is closed; \<open>lf_wg\<close>: the counter of the wait group; \<open>lf_phase\<close>: where
  \<open>Run\<close> is; \<open>lf_quit\<close>: the workers whose channel \<open>ctrl\<close> is closed.\<close>

record 'w server_life =
  lf_comet :: "'w comet"
  lf_ctrl :: bool
  lf_wg :: int
  lf_phase :: run_phase
  lf_listening :: bool
  lf_refreshing :: bool
  lf_running :: "nat set"
  lf_quit :: "nat set"

text \<open>After \<open>NewServer\<close> and \<open>Init\<close>.\<close>

definition life_init :: "'w comet \<Rightarrow> 'w server_life" where
  "life_init s = \<lparr>lf_comet = s, lf_ctrl = False, lf_wg = 0, lf_phase = NotRun, lf_listening = True, lf_refreshing = False,
     lf_running = {}, lf_quit = {}\<rparr>"

text \<open>\<open>Run\<close> up to its loop.\<close>

definition Run_begin :: "'w env \<Rightarrow> Server \<Rightarrow> 'w server_life \<Rightarrow> 'w server_life" where
  "Run_begin e srv l = l\<lparr>lf_comet := Run_start e srv (lf_comet l), lf_refreshing := True,
     lf_running := lf_running l \<union> {..<sv_workerCount srv}, lf_phase := Accepting\<rparr>"

text \<open>\<open>None\<close> is the panic on closing a channel twice.\<close>

definition Worker_Stop :: "nat \<Rightarrow> 'w server_life \<Rightarrow> 'w server_life option" where
  "Worker_Stop n l = (if n \<in> lf_quit l then None else Some (l\<lparr>lf_quit := insert n (lf_quit l)\<rparr>))"

fun stopWorkers :: "nat list \<Rightarrow> 'w server_life \<Rightarrow> 'w server_life option" where
  "stopWorkers [] l = Some l"
| "stopWorkers (n # ns) l = Option.bind (Worker_Stop n l) (stopWorkers ns)"

text \<open>One turn of the loop of \<open>Run\<close>, with the connection for which it starts a goroutine. The order of the range
  over the map of workers does not matter.\<close>

definition accept_turn :: "Server \<Rightarrow> accepted \<Rightarrow> 'w server_life \<Rightarrow> ('w server_life \<times> nat option) option" where
  "accept_turn srv r l =
    (if lf_ctrl l then
       map_option (\<lambda>l1. (l1\<lparr>lf_phase := Returned, lf_listening := False\<rparr>, None)) (stopWorkers [0..<sv_workerCount srv] l)
     else case r of
         AcceptTimeout \<Rightarrow> Some (l, None)
       | AcceptError \<Rightarrow> Some (l, None)
       | AcceptConn conn \<Rightarrow> Some (l, Some conn))"

text \<open>\<open>Stop\<close>, and whether \<open>wg.Wait\<close> returns at once.\<close>

definition Server_Stop :: "'w server_life \<Rightarrow> ('w server_life \<times> bool) option" where
  "Server_Stop l = (if lf_ctrl l then None else Some (l\<lparr>lf_ctrl := True\<rparr>, lf_wg l = 0))"

text \<open>A turn of the refresh routine: the channel \<open>ctrl\<close> or the timer is ready.\<close>

definition refresh_quit :: "'w server_life \<Rightarrow> 'w server_life option" where
  "refresh_quit l = (if lf_refreshing l \<and> lf_ctrl l then Some (l\<lparr>lf_refreshing := False\<rparr>) else None)"

definition refresh_timer :: "'w env \<Rightarrow> Server \<Rightarrow> 'w server_life \<Rightarrow> 'w server_life option" where
  "refresh_timer e srv l = (if lf_refreshing l then Some (l\<lparr>lf_comet := refresh_tick e srv (lf_comet l)\<rparr>) else None)"

text \<open>The other case of the loop of a worker.\<close>

definition worker_quit :: "nat \<Rightarrow> 'w server_life \<Rightarrow> 'w server_life option" where
  "worker_quit n l = (if n \<in> lf_running l \<and> n \<in> lf_quit l then Some (l\<lparr>lf_running := lf_running l - {n}\<rparr>) else None)"

inductive life_step :: "'w env \<Rightarrow> Server \<Rightarrow> 'w server_life \<Rightarrow> 'w server_life \<Rightarrow> bool" for e srv where
  life_run: "lf_phase l = NotRun \<Longrightarrow> life_step e srv l (Run_begin e srv l)"
| life_accept: "lf_phase l = Accepting \<Longrightarrow> accept_turn srv r l = Some (l', c) \<Longrightarrow> life_step e srv l l'"
| life_stop: "Server_Stop l = Some (l', b) \<Longrightarrow> life_step e srv l l'"
| life_refresh_quit: "refresh_quit l = Some l' \<Longrightarrow> life_step e srv l l'"
| life_refresh: "refresh_timer e srv l = Some l' \<Longrightarrow> life_step e srv l l'"
| life_worker_quit: "worker_quit n l = Some l' \<Longrightarrow> life_step e srv l l'"
| life_comet: "other_step e (- lf_running l) (lf_comet l) s' \<Longrightarrow> life_step e srv l (l\<lparr>lf_comet := s'\<rparr>)"

inductive_cases life_stepE: "life_step e srv l l'"

lemmas life_defs = Run_begin_def accept_turn_def Server_Stop_def refresh_quit_def refresh_timer_def worker_quit_def Worker_Stop_def

subsection \<open>The invariant\<close>

text \<open>Until \<open>Stop\<close> is called everything runs; \<open>Run\<close> tells all the workers to quit, once, and only after \<open>Stop\<close>;
  nothing is ever added to the wait group.\<close>

definition life_ok :: "Server \<Rightarrow> 'w server_life \<Rightarrow> bool" where
  "life_ok srv l \<longleftrightarrow> lf_wg l = 0 \<and>
    (case lf_phase l of
       NotRun \<Rightarrow> lf_running l = {} \<and> lf_quit l = {} \<and> \<not> lf_refreshing l \<and> lf_listening l
     | Accepting \<Rightarrow> lf_running l = {..<sv_workerCount srv} \<and> lf_quit l = {} \<and> lf_listening l \<and> (lf_ctrl l \<or> lf_refreshing l)
     | Returned \<Rightarrow> lf_running l \<subseteq> {..<sv_workerCount srv} \<and> lf_quit l = {..<sv_workerCount srv} \<and> lf_ctrl l \<and> \<not> lf_listening l)"

lemma life_ok_init: "life_ok srv (life_init s)"
  by (simp add: life_ok_def life_init_def)

lemma stopWorkers_ok: "distinct ns \<Longrightarrow> set ns \<inter> lf_quit l = {} \<Longrightarrow> stopWorkers ns l = Some (l\<lparr>lf_quit := lf_quit l \<union> set ns\<rparr>)"
  by (induction ns arbitrary: l) (auto simp: Worker_Stop_def)

lemma stopWorkers_all: "lf_quit l = {} \<Longrightarrow> stopWorkers [0..<k] l = Some (l\<lparr>lf_quit := {..<k}\<rparr>)"
  by (simp add: stopWorkers_ok lessThan_atLeast0)

lemma life_ok_step: "life_step e srv l l' \<Longrightarrow> life_ok srv l \<Longrightarrow> life_ok srv l'"
  by (induction rule: life_step.induct)
    (auto simp: life_ok_def life_defs stopWorkers_all split: run_phase.splits if_splits accepted.splits)

lemma life_ok_steps: "(life_step e srv)\<^sup>*\<^sup>* l l' \<Longrightarrow> life_ok srv l \<Longrightarrow> life_ok srv l'"
  by (induction rule: rtranclp_induct) (auto dest: life_ok_step)

subsection \<open>Ending\<close>

definition settled :: "'w server_life \<Rightarrow> bool" where
  "settled l \<longleftrightarrow> lf_phase l = Returned \<and> \<not> lf_listening l \<and> \<not> lf_refreshing l \<and> lf_running l = {}"

text \<open>The loop ends at its next turn, whatever is accepted in it.\<close>

lemma accept_turn_ends:
  assumes "life_ok srv l" "lf_phase l = Accepting" "lf_ctrl l"
  shows "accept_turn srv r l = Some (l\<lparr>lf_quit := {..<sv_workerCount srv}, lf_phase := Returned, lf_listening := False\<rparr>, None)"
  using assms by (simp add: accept_turn_def life_ok_def stopWorkers_all)

lemma workers_end:
  "finite A \<Longrightarrow> lf_running l = A \<Longrightarrow> A \<subseteq> lf_quit l \<Longrightarrow> (life_step e srv)\<^sup>*\<^sup>* l (l\<lparr>lf_running := {}\<rparr>)"
proof (induction A arbitrary: l rule: finite_induct)
  case (insert n A)
  let ?l = "l\<lparr>lf_running := A\<rparr>"
  have "life_step e srv l ?l" by (rule life_worker_quit[of n]) (use insert in \<open>auto simp: worker_quit_def\<close>)
  moreover have "(life_step e srv)\<^sup>*\<^sup>* ?l (?l\<lparr>lf_running := {}\<rparr>)" by (rule insert.IH) (use insert.prems in auto)
  ultimately show ?case by (simp add: converse_rtranclp_into_rtranclp)
next
  case empty
  then have "l\<lparr>lf_running := {}\<rparr> = l" by simp
  then show ?case by simp
qed

lemma refresh_ends: "lf_ctrl l \<Longrightarrow> (life_step e srv)\<^sup>*\<^sup>* l (l\<lparr>lf_refreshing := False\<rparr>)"
proof (cases "lf_refreshing l")
  case True
  assume "lf_ctrl l"
  then have "life_step e srv l (l\<lparr>lf_refreshing := False\<rparr>)" using True by (intro life_refresh_quit) (simp add: refresh_quit_def)
  then show ?thesis by blast
next
  case False
  then have "l\<lparr>lf_refreshing := False\<rparr> = l" by simp
  then show ?thesis by simp
qed

lemma life_settles:
  assumes ok: "life_ok srv l" and c: "lf_ctrl l" "lf_phase l \<noteq> NotRun"
  obtains l' where "(life_step e srv)\<^sup>*\<^sup>* l l'" "settled l'" "lf_comet l' = lf_comet l"
proof -
  obtain l1 where l1: "(life_step e srv)\<^sup>*\<^sup>* l l1" "life_ok srv l1" "lf_phase l1 = Returned" "lf_ctrl l1" "lf_comet l1 = lf_comet l"
  proof (cases "lf_phase l")
    case Accepting
    let ?m = "l\<lparr>lf_quit := {..<sv_workerCount srv}, lf_phase := Returned, lf_listening := False\<rparr>"
    have "life_step e srv l ?m" by (rule life_accept[OF Accepting accept_turn_ends[OF ok Accepting c(1)]])
    then show ?thesis using that[of ?m] life_ok_step ok c(1) by auto
  qed (use that c ok in auto)
  let ?m = "l1\<lparr>lf_refreshing := False\<rparr>"
  have m: "(life_step e srv)\<^sup>*\<^sup>* l1 ?m" by (rule refresh_ends[OF l1(4)])
  have "lf_running l1 \<subseteq> {..<sv_workerCount srv}" "lf_quit l1 = {..<sv_workerCount srv}" "\<not> lf_listening l1"
    using l1(2,3) by (simp_all add: life_ok_def)
  then have "(life_step e srv)\<^sup>*\<^sup>* ?m (?m\<lparr>lf_running := {}\<rparr>)" and s: "settled (?m\<lparr>lf_running := {}\<rparr>)"
    using l1(3) by (auto intro!: workers_end[OF _ refl] finite_subset[OF _ finite_lessThan] simp: settled_def)
  then show ?thesis using that[of "?m\<lparr>lf_running := {}\<rparr>"] l1(1,5) m by (auto intro: rtranclp_trans)
qed

text \<open>A settled server stays settled; its connections go on, but nothing is written to them any more, and what is
  queued stays queued.\<close>

lemma settled_step:
  assumes "settled l" "life_step e srv l l'"
  shows "settled l' \<and> idles UNIV (lf_comet l) (lf_comet l')"
  using assms(2,1)
proof (induction rule: life_step.induct)
  case (life_comet l s')
  then show ?case using other_step_queue by (fastforce simp: settled_def)
qed (auto simp: settled_def life_defs refresh_tick_def split: if_splits)

lemma settled_steps: "(life_step e srv)\<^sup>*\<^sup>* l l' \<Longrightarrow> settled l \<Longrightarrow> settled l' \<and> idles UNIV (lf_comet l) (lf_comet l')"
  by (induction rule: rtranclp_induct) (auto dest: settled_step intro: idles_trans)

text \<open>Nobody waits for a connection or a worker: the wait group is empty.\<close>

lemma stop_returns_at_once: "life_ok srv l \<Longrightarrow> \<not> lf_ctrl l \<Longrightarrow> Server_Stop l = Some (l\<lparr>lf_ctrl := True\<rparr>, True)"
  by (simp add: Server_Stop_def life_ok_def)

text \<open>Stopping twice panics.\<close>

lemma stop_twice_panics: "Server_Stop l = Some (l', b) \<Longrightarrow> Server_Stop l' = None"
  by (auto simp: Server_Stop_def split: if_splits)

end
