(* ===== verification/Dependency_Graph.thy ===== *)
theory Dependency_Graph
  imports Prelude
begin

text \<open>
  The dependency graph of \<open>utils/utils.go\<close>. A node is identified by its id, which \<open>addNode\<close> keeps unique, so the
  graph is a map from ids to the ids of the dependencies. \<open>GenerateTraversalMap\<close> orders the nodes in
  rounds; \<open>ord n\<close> is the order in which Go visits the nodes in round \<open>n\<close>. It ends for every graph, with an
  order exactly when the graph has no cycle (\<open>traversal_correct\<close>).
\<close>

type_synonym graph = "string \<Rightarrow> string set option"

definition NewDependencyGraph :: graph where
  "NewDependencyGraph = Map.empty"

text \<open>\<open>addNode\<close> keeps a node that has the id already.\<close>

definition addNode :: "string \<Rightarrow> string set \<Rightarrow> graph \<Rightarrow> graph" where
  "addNode i deps g = (if g i = None then g(i \<mapsto> deps) else g)"

definition NewNode :: "string \<Rightarrow> graph \<Rightarrow> graph" where
  "NewNode i g = (if g i \<noteq> None then g else addNode i {} g)"

definition addDependency :: "string \<Rightarrow> string set \<Rightarrow> string set" where
  "addDependency to deps = insert to deps"

definition AddDependency :: "string \<Rightarrow> string \<Rightarrow> graph \<Rightarrow> graph result" where
  "AddDependency node to g =
    (case g node of
       None \<Rightarrow> Inl (GoErr (''Node '' @ node @ '' does not belong to this graph''))
     | Some deps \<Rightarrow>
         if g to = None then Inl (GoErr (''Node '' @ to @ '' does not belong to this graph''))
         else if node = to then Inl (GoErr ''Dependency loops are forbidden!'')
         else Inr (g(node \<mapsto> addDependency to deps)))"

lemmas graph_defs = NewNode_def addNode_def AddDependency_def addDependency_def

text \<open>A node joins a round when it is not processed yet and all its dependencies are.\<close>

definition available :: "graph \<Rightarrow> string set \<Rightarrow> string \<Rightarrow> bool" where
  "available g processed i \<longleftrightarrow>
    (case g i of
       None \<Rightarrow> False
     | Some deps \<Rightarrow> \<not> card processed < card deps \<and> i \<notin> processed \<and> (card deps = 0 \<or> deps \<subseteq> processed))"

definition processed :: "string list list \<Rightarrow> string set" where
  "processed rs = set (concat rs)"

lemma processed_simps [simp]: "processed [] = {}" "processed (rs @ [r]) = processed rs \<union> set r" "finite (processed rs)"
  by (auto simp: processed_def)

function traversal :: "graph \<Rightarrow> (nat \<Rightarrow> string list) \<Rightarrow> string list list \<Rightarrow> string list list result" where
  "traversal g ord result =
    (if card (processed result) < card (dom g) then
       let r = filter (available g (processed result)) (ord (length result)) in
       if r = [] then Inl (GoErr ''Could not find a solution to this dependency graph'')
       else traversal g ord (result @ [r])
     else Inr result)"
  by pat_completeness auto
termination
proof (relation "measure (\<lambda>(g, ord, result). card (dom g) - card (processed result))", goal_cases)
  case (2 g ord result r)
  have "r \<noteq> []" using 2(3) .
  then have "hd r \<in> set r" by simp
  then obtain x where "x \<in> set r" "available g (processed result) x" using 2(2) by auto
  then have "processed result \<subset> processed (result @ [r])" by (auto simp: available_def split: option.splits)
  then have "card (processed result) < card (processed (result @ [r]))" by (intro psubset_card_mono) simp_all
  then show ?case using 2(1) by simp
qed simp

declare traversal.simps [simp del]

definition GenerateTraversalMap :: "graph \<Rightarrow> (nat \<Rightarrow> string list) \<Rightarrow> string list list result" where
  "GenerateTraversalMap g ord = traversal g ord []"

subsection \<open>Well-formed graphs\<close>

text \<open>Finitely many nodes, and dependencies are other nodes of the graph.\<close>

definition graph_ok :: "graph \<Rightarrow> bool" where
  "graph_ok g \<longleftrightarrow> finite (dom g) \<and> (\<forall>i deps. g i = Some deps \<longrightarrow> deps \<subseteq> dom g - {i})"

lemma graph_ok_new: "graph_ok NewDependencyGraph"
  by (simp add: graph_ok_def NewDependencyGraph_def)

lemma graph_ok_NewNode: "graph_ok g \<Longrightarrow> graph_ok (NewNode i g)"
  by (force simp: graph_ok_def graph_defs split: if_splits)

lemma graph_ok_AddDependency:
  assumes "graph_ok g" "AddDependency node to g = Inr g'"
  shows "graph_ok g' \<and> dom g' = dom g"
proof -
  obtain deps where d: "g node = Some deps" "g to \<noteq> None" "node \<noteq> to" "g' = g(node \<mapsto> insert to deps)"
    using assms(2) by (auto simp: graph_defs split: option.splits if_splits)
  then have dom: "dom g' = dom g" by auto
  have "ds \<subseteq> dom g - {i}" if "g' i = Some ds" for i ds
  proof (cases "i = node")
    case True
    have "deps \<subseteq> dom g - {node}" using assms(1) d(1) by (simp add: graph_ok_def)
    then show ?thesis using that True d by auto
  next
    case False
    then show ?thesis using that d(4) assms(1) by (simp add: graph_ok_def)
  qed
  then show ?thesis using assms(1) dom by (simp add: graph_ok_def)
qed

text \<open>A cycle, as a set of nodes each of which depends on one of the set.\<close>

definition cyclic :: "graph \<Rightarrow> bool" where
  "cyclic g \<longleftrightarrow> (\<exists>S. S \<noteq> {} \<and> S \<subseteq> dom g \<and> (\<forall>i \<in> S. the (g i) \<inter> S \<noteq> {}))"

text \<open>Rounds in which every node comes once, after its dependencies.\<close>

definition in_order :: "graph \<Rightarrow> string list list \<Rightarrow> bool" where
  "in_order g rs \<longleftrightarrow> distinct (concat rs) \<and> processed rs \<subseteq> dom g \<and>
    (\<forall>n < length rs. \<forall>i \<in> set (rs ! n). the (g i) \<subseteq> processed (take n rs))"

lemma in_order_snoc:
  assumes "in_order g rs" "graph_ok g" "distinct ks"
  shows "in_order g (rs @ [filter (available g (processed rs)) ks])"
proof -
  let ?P = "processed rs"
  have a: "i \<in> dom g \<and> i \<notin> ?P \<and> the (g i) \<subseteq> ?P" if av: "available g ?P i" for i
  proof -
    obtain deps where d: "g i = Some deps" "i \<notin> ?P" "card deps = 0 \<or> deps \<subseteq> ?P"
      using av by (auto simp: available_def split: option.splits)
    have "finite deps" using assms(2) d(1) by (auto simp: graph_ok_def intro: finite_subset)
    then show ?thesis using d by auto
  qed
  have "set (concat rs) \<inter> set (filter (available g ?P) ks) = {}" using a unfolding processed_def[symmetric] by auto
  then have "distinct (concat (rs @ [filter (available g ?P) ks]))"
    using assms(1,3) by (simp only: in_order_def concat_append concat.simps append_Nil2 distinct_append distinct_filter)
  moreover have "processed (rs @ [filter (available g ?P) ks]) \<subseteq> dom g" using assms(1) a by (auto simp: in_order_def)
  moreover have "the (g i) \<subseteq> processed (take n (rs @ [filter (available g ?P) ks]))"
    if "n < length (rs @ [filter (available g ?P) ks])" "i \<in> set ((rs @ [filter (available g ?P) ks]) ! n)" for n i
  proof (cases "n < length rs")
    case True
    then show ?thesis using assms(1) that by (simp add: in_order_def nth_append)
  next
    case False
    then have "n = length rs" using that(1) by simp
    then show ?thesis using a that(2) by simp
  qed
  ultimately show ?thesis unfolding in_order_def by blast
qed

text \<open>When no node is available before all are processed, the rest is a cycle.\<close>

lemma stuck_cyclic:
  assumes "graph_ok g" "P \<subseteq> dom g" "card P < card (dom g)" "\<forall>i \<in> dom g. \<not> available g P i"
  shows "cyclic g"
proof -
  have fin: "finite (dom g)" "finite P" using assms(1,2) by (auto simp: graph_ok_def intro: finite_subset)
  have ne: "dom g - P \<noteq> {}" using assms(2,3) fin by (metis Diff_eq_empty_iff card_mono not_less)
  have "the (g i) \<inter> (dom g - P) \<noteq> {}" if i: "i \<in> dom g - P" for i
  proof -
    obtain deps where d: "g i = Some deps" using i by auto
    have "deps \<subseteq> dom g" using assms(1) d by (auto simp: graph_ok_def)
    moreover have "\<not> deps \<subseteq> P"
    proof
      assume s: "deps \<subseteq> P"
      then have "card deps \<le> card P" using fin(2) by (rule card_mono[rotated])
      then have "available g P i" using d i s by (simp add: available_def)
      then show False using assms(4) i by blast
    qed
    ultimately show ?thesis using d by auto
  qed
  then show ?thesis unfolding cyclic_def using ne by (intro exI[of _ "dom g - P"]) auto
qed

lemma ordered_not_cyclic:
  assumes "in_order g rs" "processed rs = dom g"
  shows "\<not> cyclic g"
proof
  assume "cyclic g"
  then obtain S where S: "S \<noteq> {}" "S \<subseteq> dom g" "\<forall>i \<in> S. the (g i) \<inter> S \<noteq> {}" unfolding cyclic_def by blast
  have none: "processed (take n rs) \<inter> S = {}" if "n \<le> length rs" for n
    using that
  proof (induction n)
    case (Suc n)
    then have n: "n < length rs" "processed (take n rs) \<inter> S = {}" by simp_all
    have "i \<notin> S" if "i \<in> set (rs ! n)" for i
    proof
      assume "i \<in> S"
      moreover have "the (g i) \<subseteq> processed (take n rs)" using assms(1) n(1) that by (simp add: in_order_def)
      ultimately show False using S(3) n(2) by blast
    qed
    then show ?case using n by (simp add: take_Suc_conv_app_nth) blast
  qed simp
  have "dom g \<inter> S = {}" using none[of "length rs"] assms(2) by simp
  then show False using S(1,2) by blast
qed

subsection \<open>Correctness\<close>

lemma traversal_ends:
  assumes "graph_ok g" "\<forall>n. map_order g (ord n)" "in_order g rs"
  shows "case traversal g ord rs of Inr out \<Rightarrow> in_order g out \<and> processed out = dom g | Inl _ \<Rightarrow> cyclic g"
  using assms
proof (induction g ord rs rule: traversal.induct)
  case (1 g ord rs)
  let ?P = "processed rs"
  let ?r = "filter (available g ?P) (ord (length rs))"
  note ks = 1(3)[rule_format, of "length rs"]
  have sub: "?P \<subseteq> dom g" using 1(4) by (simp add: in_order_def)
  show ?case
  proof (cases "card ?P < card (dom g)")
    case False
    then have "?P = dom g" using sub 1(2) by (metis card_seteq graph_ok_def not_less)
    then show ?thesis using 1(4) False by (subst traversal.simps) simp
  next
    case more: True
    show ?thesis
    proof (cases "?r = []")
      case True
      have "\<forall>i \<in> dom g. \<not> available g ?P i" using True ks by (auto simp: filter_empty_conv map_order_def)
      then have "cyclic g" using stuck_cyclic[OF 1(2) sub more] by blast
      then show ?thesis using more True by (subst traversal.simps) (simp add: Let_def)
    next
      case False
      have "in_order g (rs @ [?r])" by (rule in_order_snoc[OF 1(4,2)]) (use ks in \<open>simp add: map_order_def\<close>)
      then have "case traversal g ord (rs @ [?r]) of Inr out \<Rightarrow> in_order g out \<and> processed out = dom g | Inl _ \<Rightarrow> cyclic g"
        using 1(1)[OF more refl False 1(2,3)] by blast
      then show ?thesis using more False by (subst traversal.simps) (simp add: Let_def)
    qed
  qed
qed

lemma traversal_correct:
  assumes "graph_ok g" "\<forall>n. map_order g (ord n)"
  shows "(case GenerateTraversalMap g ord of
      Inr rs \<Rightarrow> in_order g rs \<and> processed rs = dom g \<and> \<not> cyclic g
    | Inl _ \<Rightarrow> cyclic g)"
proof -
  have "in_order g []" by (simp add: in_order_def)
  from traversal_ends[OF assms this] show ?thesis
    unfolding GenerateTraversalMap_def by (cases "traversal g ord []") (auto dest: ordered_not_cyclic)
qed

end
