(* ===== verification/Trunc_Index.thy ===== *)
theory Trunc_Index
  imports Prelude Go_Strings "HOL-Library.Sublist"
begin

text \<open>
  \<open>TruncIndex\<close> of \<open>utils/utils.go\<close>: identifiers that can be found by any unique prefix. The identifiers stand in
  one byte string, each between spaces, and a lookup asks the suffix array of the library for a space and
  the prefix. \<open>Lookup\<close> is what \<open>suffixarray\<close> documents: the places where a string occurs. After any
  history of \<open>Add\<close> and \<open>Delete\<close> the index answers like the set of its identifiers (\<open>Get_unique\<close>).
\<close>

definition Lookup :: "string \<Rightarrow> string \<Rightarrow> nat list" where
  "Lookup pat bs = filter (\<lambda>i. prefix pat (drop i bs)) [0..<length bs]"

record TruncIndex =
  ti_ids :: "string set"
  ti_bytes :: string

definition NewTruncIndex :: TruncIndex where
  "NewTruncIndex = \<lparr>ti_ids = {}, ti_bytes = [CHR '' '']\<rparr>"

definition TruncIndex_Add :: "string \<Rightarrow> TruncIndex \<Rightarrow> TruncIndex result" where
  "TruncIndex_Add i idx =
    (if CHR '' '' \<in> set i then Inl (GoErr (''Illegal character: '' @ [CHR 0x27, CHR '' '', CHR 0x27]))
     else if i \<in> ti_ids idx then Inl (GoErr (''Id already exists: '' @ i))
     else Inr \<lparr>ti_ids = insert i (ti_ids idx), ti_bytes = ti_bytes idx @ i @ '' ''\<rparr>)"

text \<open>The offsets of an identifier; the bytes always end with a space, so one follows.\<close>

definition lookup :: "string \<Rightarrow> TruncIndex \<Rightarrow> (nat \<times> nat) result" where
  "lookup s idx =
    (case Lookup (CHR '' '' # s) (ti_bytes idx) of
       [i] \<Rightarrow> (let before = i + 1
               in Inr (before, before + length (takeWhile (\<lambda>c. c \<noteq> CHR '' '') (drop before (ti_bytes idx)))))
     | _ \<Rightarrow> Inl (GoErr (''No such id: '' @ s)))"

definition TruncIndex_Get :: "string \<Rightarrow> TruncIndex \<Rightarrow> string result" where
  "TruncIndex_Get s idx =
    (case lookup s idx of
       Inl err \<Rightarrow> Inl err
     | Inr (before, after) \<Rightarrow> Inr (take (after - before) (drop before (ti_bytes idx))))"

definition TruncIndex_Delete :: "string \<Rightarrow> TruncIndex \<Rightarrow> TruncIndex result" where
  "TruncIndex_Delete i idx =
    (if i \<notin> ti_ids idx then Inl (GoErr (''No such id: '' @ i))
     else case lookup i idx of
       Inl err \<Rightarrow> Inl err
     | Inr (before, after) \<Rightarrow>
         Inr \<lparr>ti_ids = ti_ids idx - {i}, ti_bytes = take before (ti_bytes idx) @ drop after (ti_bytes idx)\<rparr>)"

definition TruncateID :: "string \<Rightarrow> string" where
  "TruncateID i = take (min 12 (length i)) i"

subsection \<open>Words of the byte string\<close>

definition words :: "string \<Rightarrow> string list" where
  "words bs = tl (Split (CHR '' '') bs)"

lemma Split_head: "Split sep s = takeWhile (\<lambda>c. c \<noteq> sep) s # tl (Split sep s)"
  by (induction s) (auto split: list.splits)

lemma Split_append: "Split sep (u @ sep # v) = Split sep u @ Split sep v"
proof (induction u)
  case (Cons c u)
  then show ?case by (cases "Split sep u") (auto split: list.splits)
qed simp

lemma Lookup_Cons: "Lookup pat (c # cs) = (if prefix pat (c # cs) then [0] else []) @ map Suc (Lookup pat cs)"
proof -
  have "[0..<length (c # cs)] = 0 # map Suc [0..<length cs]" by (simp add: upt_conv_Cons map_Suc_upt del: upt_Suc)
  then show ?thesis by (simp add: Lookup_def filter_map o_def)
qed

lemma prefix_takeWhile: "x \<notin> set s \<Longrightarrow> prefix s (takeWhile (\<lambda>c. c \<noteq> x) t) = prefix s t"
proof (induction s arbitrary: t)
  case (Cons a s)
  then show ?case by (cases t) auto
qed simp

text \<open>The places of a space and a prefix are those of the words with the prefix.\<close>

lemma Lookup_words:
  assumes "CHR '' '' \<notin> set s"
  shows "map (\<lambda>i. takeWhile (\<lambda>c. c \<noteq> CHR '' '') (drop (Suc i) bs)) (Lookup (CHR '' '' # s) bs) = filter (prefix s) (words bs)"
proof (induction bs)
  case Nil
  then show ?case by (simp add: Lookup_def words_def)
next
  case (Cons c cs)
  let ?p = "takeWhile (\<lambda>c. c \<noteq> CHR '' '') cs"
  show ?case
  proof (cases "c = CHR '' ''")
    case True
    then have "words (c # cs) = ?p # words cs" using Split_head[of "CHR '' ''" cs] by (simp add: words_def)
    then show ?thesis using True Cons.IH prefix_takeWhile[OF assms, of cs] by (auto simp: Lookup_Cons o_def)
  next
    case False
    then have "words (c # cs) = words cs" by (simp add: words_def split: list.split)
    then show ?thesis using False Cons.IH by (simp add: Lookup_Cons o_def)
  qed
qed

lemma Get_words:
  assumes "CHR '' '' \<notin> set s"
  shows "TruncIndex_Get s idx =
    (case filter (prefix s) (words (ti_bytes idx)) of [w] \<Rightarrow> Inr w | _ \<Rightarrow> Inl (GoErr (''No such id: '' @ s)))"
proof -
  let ?l = "Lookup (CHR '' '' # s) (ti_bytes idx)"
  note m = Lookup_words[OF assms, of "ti_bytes idx", symmetric]
  consider "?l = []" | i where "?l = [i]" | i j k where "?l = i # j # k" by (metis list.exhaust)
  then show ?thesis
  proof cases
    case 2
    then show ?thesis unfolding m by (simp add: TruncIndex_Get_def lookup_def Let_def takeWhile_eq_take[symmetric])
  qed (simp_all add: m TruncIndex_Get_def lookup_def)
qed

subsection \<open>The invariant\<close>

text \<open>The bytes start with a space and end with one, and the words that are not empty are the identifiers,
  each once.\<close>

definition ti_ok :: "TruncIndex \<Rightarrow> bool" where
  "ti_ok idx \<longleftrightarrow> (\<exists>r. ti_bytes idx = CHR '' '' # r) \<and> last (ti_bytes idx) = CHR '' '' \<and>
    distinct (filter (\<lambda>w. w \<noteq> []) (words (ti_bytes idx))) \<and>
    set (filter (\<lambda>w. w \<noteq> []) (words (ti_bytes idx))) = ti_ids idx"

lemma ti_ok_new: "ti_ok NewTruncIndex"
  by (simp add: ti_ok_def NewTruncIndex_def words_def)

lemma words_middle: "words (CHR '' '' # u @ CHR '' '' # v) = Split (CHR '' '') u @ Split (CHR '' '') v"
  by (simp add: words_def Split_append)

lemma words_add:
  assumes "bs = CHR '' '' # r" "last bs = CHR '' ''" "CHR '' '' \<notin> set i"
  shows "filter (\<lambda>w. w \<noteq> []) (words (bs @ i @ '' '')) = filter (\<lambda>w. w \<noteq> []) (words bs) @ (if i = [] then [] else [i])"
proof -
  obtain q where q: "bs = q @ '' ''" using assms(1,2) by (metis append_butlast_last_id list.discI)
  have i: "Split (CHR '' '') (i @ '' '') = [i, []]" using Split_append_sep[OF assms(3), of "[]"] by simp
  show ?thesis
  proof (cases q)
    case Nil
    then show ?thesis using q i by (simp add: words_def)
  next
    case (Cons c q')
    then have "c = CHR '' ''" using assms(1) q by simp
    then show ?thesis using q Cons i words_middle[of q' "i @ '' ''"] words_middle[of q' "[]"] by simp
  qed
qed

lemma ti_ok_Add:
  assumes "ti_ok idx" "i \<noteq> []" "TruncIndex_Add i idx = Inr idx'"
  shows "ti_ok idx' \<and> ti_ids idx' = insert i (ti_ids idx)"
proof -
  have i: "CHR '' '' \<notin> set i" "i \<notin> ti_ids idx" "idx' = \<lparr>ti_ids = insert i (ti_ids idx), ti_bytes = ti_bytes idx @ i @ '' ''\<rparr>"
    using assms(3) by (auto simp: TruncIndex_Add_def split: if_splits)
  obtain r where r: "ti_bytes idx = CHR '' '' # r" using assms(1) by (auto simp: ti_ok_def)
  have "filter (\<lambda>w. w \<noteq> []) (words (ti_bytes idx @ i @ '' '')) = filter (\<lambda>w. w \<noteq> []) (words (ti_bytes idx)) @ [i]"
    using words_add[OF r _ i(1)] assms(1,2) by (simp add: ti_ok_def)
  then show ?thesis using assms(1) i(2,3) r by (auto simp: ti_ok_def)
qed

text \<open>What a successful lookup of an identifier finds.\<close>

lemma lookup_found:
  assumes "lookup s idx = Inr (b, a)" "CHR '' '' \<notin> set s"
  shows "\<exists>u p v. ti_bytes idx = u @ CHR '' '' # p @ v \<and> b = Suc (length u) \<and> a = b + length p \<and> CHR '' '' \<notin> set p \<and>
    (v = [] \<or> (\<exists>v'. v = CHR '' '' # v')) \<and> filter (prefix s) (words (ti_bytes idx)) = [p]"
proof -
  let ?bs = "ti_bytes idx"
  obtain i where i: "Lookup (CHR '' '' # s) ?bs = [i]" "b = Suc i"
    "a = b + length (takeWhile (\<lambda>c. c \<noteq> CHR '' '') (drop b ?bs))"
    using assms(1) by (auto simp: lookup_def Let_def split: list.splits)
  have "i \<in> set (Lookup (CHR '' '' # s) ?bs)" unfolding i(1) by simp
  then have p: "prefix (CHR '' '' # s) (drop i ?bs)" "i < length ?bs" by (simp_all add: Lookup_def)
  then obtain r where r: "drop i ?bs = CHR '' '' # r" "prefix s r" by (cases "drop i ?bs") auto
  have d: "drop b ?bs = r" using r(1) i(2) by (metis drop_Suc list.sel(3) tl_drop)
  let ?p = "takeWhile (\<lambda>c. c \<noteq> CHR '' '') r" and ?v = "dropWhile (\<lambda>c. c \<noteq> CHR '' '') r"
  have "?bs = take i ?bs @ CHR '' '' # ?p @ ?v" using r(1) by (metis append_take_drop_id takeWhile_dropWhile_id)
  moreover have "CHR '' '' \<notin> set ?p" by (auto dest: set_takeWhileD)
  moreover have "?v = [] \<or> (\<exists>v'. ?v = CHR '' '' # v')" by (cases ?v) (auto simp: dropWhile_eq_Cons_conv)
  moreover have "b = Suc (length (take i ?bs))" using i(2) p(2) by simp
  moreover have "a = b + length ?p" using i(3) d by simp
  moreover have "filter (prefix s) (words ?bs) = [?p]"
    using Lookup_words[OF assms(2), of ?bs, symmetric] d i(1,2) by simp
  ultimately show ?thesis by (intro exI[of _ "take i ?bs"] exI[of _ ?p] exI[of _ ?v]) simp
qed

lemma words_cut:
  assumes "bs = u @ CHR '' '' # p @ CHR '' '' # v" "CHR '' '' \<notin> set p" "bs = CHR '' '' # r"
  obtains A where "words bs = A @ p # Split (CHR '' '') v"
    "words (u @ CHR '' '' # CHR '' '' # v) = A @ [] # Split (CHR '' '') v"
proof (cases u)
  case Nil
  then show ?thesis using that[of "[]"] assms(1,2) Split_append_sep[OF assms(2), of v] by (simp add: words_def)
next
  case (Cons c u')
  then have "c = CHR '' ''" using assms(1,3) by simp
  then show ?thesis using that[of "Split (CHR '' '') u'"] assms(1) Cons Split_append_sep[OF assms(2), of v]
      words_middle[of u' "p @ CHR '' '' # v"] words_middle[of u' "CHR '' '' # v"] by simp
qed

lemma ti_ok_Delete:
  assumes "ti_ok idx" "i \<noteq> []" "CHR '' '' \<notin> set i" "TruncIndex_Delete i idx = Inr idx'"
  shows "ti_ok idx' \<and> ti_ids idx' = ti_ids idx - {i}"
proof -
  let ?ne = "\<lambda>w. w \<noteq> []" and ?bs = "ti_bytes idx"
  obtain b a where l: "i \<in> ti_ids idx" "lookup i idx = Inr (b, a)"
    and idx': "idx' = \<lparr>ti_ids = ti_ids idx - {i}, ti_bytes = take b ?bs @ drop a ?bs\<rparr>"
    using assms(4) by (auto simp: TruncIndex_Delete_def split: if_splits sum.splits)
  obtain u p v where f: "?bs = u @ CHR '' '' # p @ v" "b = Suc (length u)" "a = b + length p" "CHR '' '' \<notin> set p"
    "v = [] \<or> (\<exists>v'. v = CHR '' '' # v')" "filter (prefix i) (words ?bs) = [p]"
    using lookup_found[OF l(2) assms(3)] by blast
  have "i \<in> set (words ?bs)" using assms(1) l(1) by (auto simp: ti_ok_def)
  then have "i \<in> set (filter (prefix i) (words ?bs))" by simp
  then have p: "p = i" unfolding f(6) by simp
  have "v \<noteq> []"
  proof
    assume "v = []"
    then have "last ?bs = last p" using f(1) p assms(2) by simp
    then show False using assms(1,2) f(4) p by (metis last_in_set ti_ok_def)
  qed
  then obtain v' where v: "v = CHR '' '' # v'" using f(5) by blast
  obtain r where r: "?bs = CHR '' '' # r" using assms(1) by (auto simp: ti_ok_def)
  have bs': "ti_bytes idx' = u @ CHR '' '' # CHR '' '' # v'" using idx' f(1-3) v by simp
  obtain A where A: "words ?bs = A @ p # Split (CHR '' '') v'" "words (ti_bytes idx') = A @ [] # Split (CHR '' '') v'"
    unfolding bs' by (rule words_cut[OF f(1)[unfolded v] f(4) r])
  have "distinct (filter ?ne (words (ti_bytes idx')))" "set (filter ?ne (words (ti_bytes idx'))) = ti_ids idx - {i}"
    using assms(1,2) A p by (auto simp: ti_ok_def)
  moreover have "last (ti_bytes idx') = CHR '' ''" using assms(1) f(1) v unfolding bs' by (simp add: ti_ok_def)
  moreover have "\<exists>r. ti_bytes idx' = CHR '' '' # r" using r f(1) unfolding bs' by (cases u) auto
  ultimately show ?thesis using idx' by (simp add: ti_ok_def)
qed

subsection \<open>The index is a set of identifiers\<close>

text \<open>The histories of an index, with the identifiers that have been added and not deleted since.\<close>

inductive ti_history :: "TruncIndex \<Rightarrow> bool" where
  new: "ti_history NewTruncIndex"
| add: "ti_history idx \<Longrightarrow> i \<noteq> [] \<Longrightarrow> TruncIndex_Add i idx = Inr idx' \<Longrightarrow> ti_history idx'"
| delete: "ti_history idx \<Longrightarrow> i \<noteq> [] \<Longrightarrow> CHR '' '' \<notin> set i \<Longrightarrow> TruncIndex_Delete i idx = Inr idx' \<Longrightarrow> ti_history idx'"

lemma ti_history_ok: "ti_history idx \<Longrightarrow> ti_ok idx"
  by (induction rule: ti_history.induct) (auto intro: ti_ok_new dest: ti_ok_Add ti_ok_Delete)

lemma filter_singleton_set:
  assumes "distinct (filter Q xs)" "\<And>x. P x \<Longrightarrow> Q x"
  shows "filter P xs = [w] \<longleftrightarrow> {x \<in> set xs. P x} = {w}"
proof -
  have "filter P xs = filter P (filter Q xs)" using assms(2) by (auto simp: intro: filter_cong)
  then have d: "distinct (filter P xs)" using assms(1) by (metis distinct_filter)
  have "filter P xs = [w]" if "{x \<in> set xs. P x} = {w}"
  proof -
    have s: "set (filter P xs) = {w}" using that by simp
    then have "card {w} = length (filter P xs)" using distinct_card[OF d] by simp
    then have "length (filter P xs) = 1" by simp
    then obtain y where "filter P xs = [y]" by (auto simp: length_Suc_conv)
    then show ?thesis using s by simp
  qed
  moreover have "{x \<in> set xs. P x} = {w}" if "filter P xs = [w]"
  proof -
    have "set (filter P xs) = {w}" using that by simp
    then show ?thesis by simp
  qed
  ultimately show ?thesis by blast
qed

lemma Get_unique:
  assumes "ti_history idx" "s \<noteq> []" "CHR '' '' \<notin> set s"
  shows "TruncIndex_Get s idx = Inr w \<longleftrightarrow> {i \<in> ti_ids idx. prefix s i} = {w}"
proof -
  have ok: "ti_ok idx" by (rule ti_history_ok[OF assms(1)])
  let ?ws = "words (ti_bytes idx)"
  have ne: "prefix s x \<Longrightarrow> x \<noteq> []" for x using assms(2) by auto
  have "TruncIndex_Get s idx = Inr w \<longleftrightarrow> filter (prefix s) ?ws = [w]"
    unfolding Get_words[OF assms(3)] by (auto split: list.splits)
  also have "\<dots> \<longleftrightarrow> {x \<in> set ?ws. prefix s x} = {w}"
    by (rule filter_singleton_set[where Q = "\<lambda>w. w \<noteq> []"]) (use ok ne in \<open>simp_all add: ti_ok_def\<close>)
  also have "{x \<in> set ?ws. prefix s x} = {i \<in> ti_ids idx. prefix s i}" using ok ne by (auto simp: ti_ok_def)
  finally show ?thesis .
qed

text \<open>An identifier that is a prefix of another one cannot be deleted.\<close>

lemma Delete_refused:
  assumes "ti_history idx" "i \<in> ti_ids idx" "j \<in> ti_ids idx" "strict_prefix i j" "i \<noteq> []" "CHR '' '' \<notin> set i"
  shows "TruncIndex_Delete i idx = Inl (GoErr (''No such id: '' @ i))"
proof -
  have "TruncIndex_Get i idx \<noteq> Inr w" for w
  proof
    assume "TruncIndex_Get i idx = Inr w"
    then have "{k \<in> ti_ids idx. prefix i k} = {w}" using Get_unique[OF assms(1,5,6)] by simp
    then have "i = w \<and> j = w" using assms(2-4) by (auto simp: strict_prefix_def)
    then show False using assms(4) by simp
  qed
  then obtain err where "lookup i idx = Inl err" by (cases "lookup i idx") (auto simp: TruncIndex_Get_def)
  moreover from this have "err = GoErr (''No such id: '' @ i)" by (auto simp: lookup_def Let_def split: list.splits)
  ultimately show ?thesis using assms(2) by (simp add: TruncIndex_Delete_def)
qed

end
