(* ===== verification/Utils_Text.thy ===== *)
theory Utils_Text
  imports Prelude Go_Strings "HOL-Library.Word"
begin

text \<open>
  The small text helpers of \<open>utils/utils.go\<close>: sizes of memory, repository names, host addresses, the user
  file, comments and name servers, templates. A file that a function reads is an argument.
\<close>

subsection \<open>Prefixes, sizes\<close>

definition IsURL :: "string \<Rightarrow> bool" where
  "IsURL str \<longleftrightarrow> HasPrefix str ''http://'' \<or> HasPrefix str ''https://''"

definition IsGIT :: "string \<Rightarrow> bool" where
  "IsGIT str \<longleftrightarrow> HasPrefix str ''git://'' \<or> HasPrefix str ''github.com/''"

definition HasSuffix :: "string \<Rightarrow> string \<Rightarrow> bool" where
  "HasSuffix s p \<longleftrightarrow> HasPrefix (rev s) (rev p)"

definition IsClosedError :: "string \<Rightarrow> bool" where
  "IsClosedError err = HasSuffix err ''use of closed network connection''"

text \<open>\<open>s[:maxlen]\<close> panics for a negative length: \<open>None\<close>.\<close>

definition Trunc :: "string \<Rightarrow> int \<Rightarrow> string option" where
  "Trunc s maxlen =
    (if int (length s) \<le> maxlen then Some s
     else if maxlen < 0 then None else Some (take (nat maxlen) s))"

definition is_unit :: "char \<Rightarrow> bool" where
  "is_unit c \<longleftrightarrow> c \<in> set ''kKmMgG''"

definition is_byte_mark :: "char \<Rightarrow> bool" where
  "is_byte_mark c \<longleftrightarrow> c \<in> set ''bB''"

text \<open>The regular expression \<open>^(\d+)([kKmMgG])?[bB]?$\<close>: the digits and the unit.\<close>

definition size_match :: "string \<Rightarrow> (string \<times> char option) option" where
  "size_match sz =
    (let ds = takeWhile is_digit sz;
         r = dropWhile is_digit sz;
         (unit, r1) = (case r of
            c # cs \<Rightarrow> if is_unit c then (Some c, cs) else (None, r)
          | [] \<Rightarrow> (None, []));
         r2 = (case r1 of c # cs \<Rightarrow> if is_byte_mark c then cs else r1 | [] \<Rightarrow> [])
     in if ds \<noteq> [] \<and> r2 = [] then Some (ds, unit) else None)"

definition unit_factor :: "char option \<Rightarrow> 64 word" where
  "unit_factor u =
    (case u of
       None \<Rightarrow> 1
     | Some c \<Rightarrow> if c \<in> set ''kK'' then 1024 else if c \<in> set ''mM'' then 1024 * 1024 else 1024 * 1024 * 1024)"

text \<open>The product is an \<open>int64\<close>, which wraps.\<close>

definition RAMInBytes :: "string \<Rightarrow> 64 word result" where
  "RAMInBytes sz =
    (case size_match sz of
       None \<Rightarrow> Inl (GoErr (''Invalid size: '' @ CHR 0x27 # sz @ [CHR 0x27]))
     | Some (ds, u) \<Rightarrow>
         (case ParseInt ds of
            None \<Rightarrow> Inl (GoErr ''ParseInt'')
          | Some memLimit \<Rightarrow> Inr (word_of_int memLimit * unit_factor u)))"

subsection \<open>Repository names\<close>

text \<open>\<open>strings.LastIndex(s, c)\<close> for one character; \<open>None\<close> is -1.\<close>

fun LastIndex :: "string \<Rightarrow> char \<Rightarrow> nat option" where
  "LastIndex [] x = None"
| "LastIndex (c # cs) x =
    (case LastIndex cs x of Some n \<Rightarrow> Some (Suc n) | None \<Rightarrow> if c = x then Some 0 else None)"

definition ParseRepositoryTag :: "string \<Rightarrow> string \<times> string" where
  "ParseRepositoryTag repos =
    (case LastIndex repos (CHR '':'') of
       None \<Rightarrow> (repos, [])
     | Some n \<Rightarrow>
         (let tag = drop (n + 1) repos
          in if CHR ''/'' \<notin> set tag then (take n repos, tag) else (repos, [])))"

subsection \<open>Lines\<close>

text \<open>\<open>bytes.Index(line, marker)\<close> with a marker that is not empty.\<close>

fun Index :: "string \<Rightarrow> string \<Rightarrow> nat option" where
  "Index [] p = (if p = [] then Some 0 else None)"
| "Index (c # cs) p = (if HasPrefix (c # cs) p then Some 0 else map_option Suc (Index cs p))"

definition StripComments :: "string \<Rightarrow> string \<Rightarrow> string" where
  "StripComments input commentMarker =
    concat (map (\<lambda>currentLine.
      (case Index currentLine commentMarker of
         None \<Rightarrow> currentLine
       | Some commentIndex \<Rightarrow> take commentIndex currentLine) @ [CHR 0x0A]) (Split (CHR 0x0A) input))"

definition CheckLocalDns :: "string \<Rightarrow> bool" where
  "CheckLocalDns resolvConf =
    (let parsedResolvConf = StripComments resolvConf ''#''
     in if \<not> Contains parsedResolvConf ''nameserver'' then True
        else (\<exists>ip \<in> set [''127.0.0.1'', ''127.0.1.1'']. Contains parsedResolvConf ip))"

text \<open>\<open>UserLookup\<close>: \<open>passwd\<close> is what reading \<open>/etc/passwd\<close> returns.\<close>

record User =
  us_Uid :: string
  us_Gid :: string
  us_Username :: string
  us_Name :: string
  us_HomeDir :: string

definition user_line :: "string \<Rightarrow> string \<Rightarrow> User option" where
  "user_line uid line =
    (let data = Split (CHR '':'') line
     in if 5 < length data \<and> (data ! 0 = uid \<or> data ! 2 = uid)
        then Some \<lparr>us_Uid = data ! 2, us_Gid = data ! 3, us_Username = data ! 0, us_Name = data ! 4,
                   us_HomeDir = data ! 5\<rparr>
        else None)"

fun find_user :: "string \<Rightarrow> string list \<Rightarrow> User result" where
  "find_user uid [] = Inl (GoErr ''User not found in /etc/passwd'')"
| "find_user uid (line # lines) =
    (case user_line uid line of Some u \<Rightarrow> Inr u | None \<Rightarrow> find_user uid lines)"

definition UserLookup :: "string result \<Rightarrow> string \<Rightarrow> User result" where
  "UserLookup passwd uid =
    (case passwd of Inl err \<Rightarrow> Inl err | Inr file \<Rightarrow> find_user uid (Split (CHR 0x0A) file))"

subsection \<open>Templates\<close>

text \<open>The test \<open>len(parts) > i\<close> in the loop always holds: the lengths were compared before.\<close>

definition PartParser :: "string \<Rightarrow> string \<Rightarrow> (string \<Rightarrow> string option) result" where
  "PartParser template data =
    (let templateParts = Split (CHR '':'') template;
         parts = Split (CHR '':'') data
     in if length parts \<noteq> length templateParts
        then Inl (GoErr (''Invalid format to parse.  '' @ data @ '' should match template '' @ template))
        else Inr (fold (\<lambda>i out. out(templateParts ! i \<mapsto> (if i < length parts then parts ! i else [])))
                   [0..<length templateParts] Map.empty))"

definition StatusError_Error :: "string \<Rightarrow> int \<Rightarrow> string" where
  "StatusError_Error status code = ''Status: '' @ status @ '', Code: '' @ FormatInt code"

subsection \<open>Host addresses\<close>

text \<open>\<open>strings.TrimSpace\<close>: the white space of Unicode, in UTF-8.\<close>

definition white_space :: "string list" where
  "white_space =
    map (\<lambda>n. [byte_chr n]) [9, 10, 11, 12, 13, 32]
    @ map (map byte_chr) ([[0xC2, 0x85], [0xC2, 0xA0], [0xE1, 0x9A, 0x80]]
        @ map (\<lambda>n. [0xE2, 0x80, n]) ([0x80..<0x8B] @ [0xA8, 0xA9, 0xAF])
        @ [[0xE2, 0x81, 0x9F], [0xE3, 0x80, 0x80]])"

function trim_left :: "string list \<Rightarrow> string \<Rightarrow> string" where
  "trim_left ws s =
    (case List.find (\<lambda>w. w \<noteq> [] \<and> HasPrefix s w) ws of
       None \<Rightarrow> s
     | Some w \<Rightarrow> trim_left ws (drop (length w) s))"
  by pat_completeness auto
termination
proof (relation "measure (\<lambda>(ws, s). length s)", goal_cases)
  case (2 ws s w)
  then have "w \<noteq> []" "HasPrefix s w" by (auto simp: find_Some_iff)
  then have "length w \<le> length s" "0 < length w" by (auto simp: HasPrefix_def) (metis length_take min.cobounded1)
  then have "length s - length w < length s" by linarith
  then show ?case by simp
qed simp

declare trim_left.simps [simp del]

definition TrimSpace :: "string \<Rightarrow> string" where
  "TrimSpace s = rev (trim_left (map rev white_space) (rev (trim_left white_space s)))"

text \<open>The protocol and the rest of the address.\<close>

definition split_proto :: "string \<Rightarrow> string \<Rightarrow> (string \<times> string) result" where
  "split_proto defaultUnix addr =
    (if HasPrefix addr ''unix://'' then
       (let a = TrimPrefix addr ''unix://'' in Inr (''unix'', if a = [] then defaultUnix else a))
     else if HasPrefix addr ''tcp://'' then Inr (''tcp'', TrimPrefix addr ''tcp://'')
     else if addr = [] then Inr (''unix'', defaultUnix)
     else if Contains addr ''://'' then Inl (GoErr (''Invalid bind address protocol: '' @ addr))
     else Inr (''tcp'', addr))"

definition host_port :: "string \<Rightarrow> int \<Rightarrow> string \<Rightarrow> (string \<times> int) result" where
  "host_port defaultHost defaultPort addr =
    (let hostParts = Split (CHR '':'') addr
     in if length hostParts \<noteq> 2 then Inl (GoErr (''Invalid bind address format: '' @ addr))
        else Inr (if hostParts ! 0 \<noteq> [] then hostParts ! 0 else defaultHost,
                  case ParseInt (hostParts ! 1) of
                    Some p \<Rightarrow> if p \<noteq> 0 then p else defaultPort
                  | None \<Rightarrow> defaultPort))"

definition ParseHost :: "string \<Rightarrow> int \<Rightarrow> string \<Rightarrow> string \<Rightarrow> string result" where
  "ParseHost defaultHost defaultPort defaultUnix addr0 =
    (case split_proto defaultUnix (TrimSpace addr0) of
       Inl err \<Rightarrow> Inl err
     | Inr (proto, addr) \<Rightarrow>
         (case (if proto \<noteq> ''unix'' \<and> CHR '':'' \<in> set addr then host_port defaultHost defaultPort addr
                else Inr (addr, defaultPort)) of
            Inl err \<Rightarrow> Inl err
          | Inr (host, port) \<Rightarrow>
              if proto = ''unix'' then Inr (proto @ ''://'' @ host)
              else Inr (proto @ ''://'' @ host @ '':'' @ FormatInt port)))"

end
