(* ===== verification/Utils_Text_Spec.thy ===== *)
theory Utils_Text_Spec
  imports Utils_Text
begin

text \<open>
  What the text helpers compute: repository names and templates are read back, sizes are exact below the
  width of \<open>int64\<close> and wrap above it, comments are gone after stripping, and an address that \<open>ParseHost\<close>
  has completed stays as it is.
\<close>

subsection \<open>Repository names\<close>

lemma LastIndex_None: "LastIndex s x = None \<longleftrightarrow> x \<notin> set s"
  by (induction s) (auto split: option.splits)

lemma LastIndex_append: "x \<notin> set t \<Longrightarrow> LastIndex (r @ x # t) x = Some (length r)"
proof (induction r)
  case Nil
  then show ?case using LastIndex_None[of t x] by simp
qed simp

text \<open>The tag is what follows the last colon, unless that is part of a host with a port.\<close>

theorem ParseRepositoryTag_pieces:
  assumes "CHR '':'' \<notin> set t"
  shows "ParseRepositoryTag (r @ '':'' @ t) = (if CHR ''/'' \<in> set t then (r @ '':'' @ t, []) else (r, t))"
  using LastIndex_append[OF assms, of r] by (simp add: ParseRepositoryTag_def)

lemma ParseRepositoryTag_plain: "CHR '':'' \<notin> set r \<Longrightarrow> ParseRepositoryTag r = (r, [])"
  using LastIndex_None[of r "CHR '':''"] by (simp add: ParseRepositoryTag_def)

subsection \<open>Sizes\<close>

text \<open>The suffixes with their units.\<close>

inductive unit_ok :: "string \<Rightarrow> char option \<Rightarrow> bool" where
  "unit_ok [] None"
| "is_byte_mark b \<Longrightarrow> unit_ok [b] None"
| "is_unit c \<Longrightarrow> unit_ok [c] (Some c)"
| "is_unit c \<Longrightarrow> is_byte_mark b \<Longrightarrow> unit_ok [c, b] (Some c)"

lemma unit_chars:
  "is_unit c \<Longrightarrow> \<not> is_digit c" "is_byte_mark c \<Longrightarrow> \<not> is_digit c" "is_byte_mark c \<Longrightarrow> \<not> is_unit c"
  by (auto simp: is_unit_def is_byte_mark_def is_digit_def byte_val_def)

lemma size_match_digits:
  assumes "list_all is_digit ds" "ds \<noteq> []" "unit_ok suffix u"
  shows "size_match (ds @ suffix) = Some (ds, u)"
proof -
  have "suffix = [] \<or> \<not> is_digit (hd suffix)"
    using assms(3) by cases (simp_all add: unit_chars)
  then have "takeWhile is_digit suffix = [] \<and> dropWhile is_digit suffix = suffix" by (cases suffix) auto
  then have d: "takeWhile is_digit (ds @ suffix) = ds" "dropWhile is_digit (ds @ suffix) = suffix"
    using assms(1) by (simp_all add: list_all_iff)
  show ?thesis
    unfolding size_match_def d Let_def using assms(3,2) by cases (simp_all add: unit_chars)
qed

lemma sint_below: "0 \<le> k \<Longrightarrow> k < 2 ^ 63 \<Longrightarrow> sint (word_of_int k :: 64 word) = k"
  by (simp add: signed_of_int signed_take_bit_int_eq_self)

lemma ParseInt_digits: "int n < 2 ^ 63 \<Longrightarrow> ParseInt (format_nat n) = Some (int n)"
  using ParseInt_FormatInt[of "int n"] by (simp add: FormatInt_def int64_range_def)

text \<open>The result for a number with a unit, modulo \<open>2 ^ 64\<close>.\<close>

lemma RAMInBytes_value:
  assumes "int n < 2 ^ 63" "unit_ok suffix u"
  shows "RAMInBytes (format_nat n @ suffix) = Inr (word_of_nat n * unit_factor u)"
  using size_match_digits[OF format_nat_digits format_nat_nonempty assms(2), of n] ParseInt_digits[OF assms(1)]
  by (simp add: RAMInBytes_def)

theorem RAMInBytes_exact:
  assumes "int n * uint (unit_factor u) < 2 ^ 63" "unit_ok suffix u"
  shows "\<exists>b. RAMInBytes (format_nat n @ suffix) = Inr b \<and> sint b = int n * uint (unit_factor u)"
proof -
  have "1 \<le> uint (unit_factor u)" by (auto simp: unit_factor_def split: option.splits)
  then have "int n * 1 \<le> int n * uint (unit_factor u)" by (rule mult_left_mono) simp
  then have "int n < 2 ^ 63" using assms(1) by simp
  moreover have "sint (word_of_nat n * unit_factor u) = int n * uint (unit_factor u)"
    using sint_below[OF _ assms(1)] by simp
  ultimately show ?thesis using RAMInBytes_value[OF _ assms(2), of n] by blast
qed

text \<open>Above the width the product wraps: a large size is parsed as a negative one.\<close>

theorem RAMInBytes_wraps: "\<exists>b. RAMInBytes ''8589934592g'' = Inr b \<and> sint b < 0"
proof -
  have "size_match ''8589934592g'' = Some (''8589934592'', Some (CHR ''g''))"
    by (simp add: size_match_def is_digit_def byte_val_def is_unit_def)
  then have "RAMInBytes ''8589934592g'' = Inr (8589934592 * unit_factor (Some (CHR ''g'')))"
    by (simp add: RAMInBytes_def ParseInt_def is_digit_def byte_val_def digits_num_def digit_num_def int64_range_def)
  then show ?thesis by (simp add: unit_factor_def)
qed

subsection \<open>Comments\<close>

lemma Index_char: "Index s [x] = (if x \<in> set s then Some (length (takeWhile (\<lambda>c. c \<noteq> x) s)) else None)"
  by (induction s) (auto simp: HasPrefix_def)

text \<open>Stripping keeps of every line what stands before the marker.\<close>

theorem StripComments_lines:
  "StripComments input [x] = concat (map (\<lambda>l. takeWhile (\<lambda>c. c \<noteq> x) l @ [CHR 0x0A]) (Split (CHR 0x0A) input))"
proof -
  have "(case Index l [x] of None \<Rightarrow> l | Some i \<Rightarrow> take i l) = takeWhile (\<lambda>c. c \<noteq> x) l" for l
    by (auto simp: Index_char takeWhile_eq_take[symmetric] intro: takeWhile_eq_all_conv[THEN iffD2, symmetric])
  then show ?thesis by (simp add: StripComments_def)
qed

subsection \<open>Templates\<close>

text \<open>Every part is found under its name, the last one of a repeated name.\<close>

theorem PartParser_parts:
  assumes "PartParser template data = Inr out" "distinct (Split (CHR '':'') template)"
    "i < length (Split (CHR '':'') template)"
  shows "out (Split (CHR '':'') template ! i) = Some (Split (CHR '':'') data ! i)"
proof -
  define T P where "T = Split (CHR '':'') template" and "P = Split (CHR '':'') data"
  have l: "length P = length T" and out: "out = fold (\<lambda>i out. out(T ! i \<mapsto> (if i < length P then P ! i else []))) [0..<length T] Map.empty"
    using assms(1) by (simp_all add: PartParser_def T_def[symmetric] P_def[symmetric] Let_def split: if_splits)
  have "i < n \<Longrightarrow> fold (\<lambda>i out. out(T ! i \<mapsto> (if i < length P then P ! i else []))) [0..<n] Map.empty (T ! i) = Some (P ! i)"
    if "n \<le> length T" for n
    using that
  proof (induction n)
    case (Suc n)
    show ?case
    proof (cases "i = n")
      case True
      then show ?thesis using Suc l by simp
    next
      case False
      then have "T ! n \<noteq> T ! i" using Suc assms(2,3) by (simp add: T_def nth_eq_iff_index_eq)
      then show ?thesis using Suc False by simp
    qed
  qed simp
  then show ?thesis using assms(3) out by (simp add: T_def[symmetric] P_def[symmetric])
qed

subsection \<open>The user file\<close>

theorem UserLookup_first:
  assumes "Split (CHR 0x0A) file = ls @ l # rs" "\<forall>x \<in> set ls. user_line uid x = None"
    and "user_line uid l = Some u"
  shows "UserLookup (Inr file) uid = Inr u"
proof -
  have "find_user uid (ls @ l # rs) = Inr u" using assms(2,3) by (induction ls) simp_all
  then show ?thesis using assms(1) by (simp add: UserLookup_def)
qed

lemma UserLookup_fails:
  "\<forall>x \<in> set (Split (CHR 0x0A) file). user_line uid x = None \<Longrightarrow>
    UserLookup (Inr file) uid = Inl (GoErr ''User not found in /etc/passwd'')"
proof -
  have "\<forall>x \<in> set lines. user_line uid x = None \<Longrightarrow> find_user uid lines = Inl (GoErr ''User not found in /etc/passwd'')" for lines
    by (induction lines) simp_all
  then show "\<forall>x \<in> set (Split (CHR 0x0A) file). user_line uid x = None \<Longrightarrow> ?thesis" by (simp add: UserLookup_def)
qed

subsection \<open>White space\<close>

definition no_prefix :: "string list \<Rightarrow> string \<Rightarrow> bool" where
  "no_prefix ws s \<longleftrightarrow> (\<forall>w \<in> set ws. w \<noteq> [] \<longrightarrow> \<not> HasPrefix s w)"

lemma trim_left_same: "no_prefix ws s \<Longrightarrow> trim_left ws s = s"
proof -
  assume "no_prefix ws s"
  then have "List.find (\<lambda>w. w \<noteq> [] \<and> HasPrefix s w) ws = None" by (auto simp: no_prefix_def find_None_iff)
  then show ?thesis by (simp add: trim_left.simps)
qed

lemma trim_left_no_prefix: "no_prefix ws (trim_left ws s)"
proof (induction ws s rule: trim_left.induct)
  case (1 ws s)
  show ?case
  proof (cases "List.find (\<lambda>w. w \<noteq> [] \<and> HasPrefix s w) ws")
    case None
    then have "no_prefix ws s" by (auto simp: no_prefix_def find_None_iff)
    then show ?thesis by (simp add: trim_left_same)
  next
    case (Some w)
    then show ?thesis using 1 by (subst trim_left.simps) simp
  qed
qed

lemma trim_left_suffix: "\<exists>p. s = p @ trim_left ws s"
proof (induction ws s rule: trim_left.induct)
  case (1 ws s)
  show ?case
  proof (cases "List.find (\<lambda>w. w \<noteq> [] \<and> HasPrefix s w) ws")
    case None
    then show ?thesis by (subst trim_left.simps) simp
  next
    case (Some w)
    then have "trim_left ws s = trim_left ws (drop (length w) s)" by (subst trim_left.simps) simp
    then obtain p where "drop (length w) s = p @ trim_left ws s" using 1 Some by auto
    then have "s = (take (length w) s @ p) @ trim_left ws s" by (metis append.assoc append_take_drop_id)
    then show ?thesis by blast
  qed
qed

lemma no_prefix_append: "no_prefix ws (s @ t) \<Longrightarrow> no_prefix ws s"
  unfolding no_prefix_def HasPrefix_def by (auto simp: take_append)

lemma TrimSpace_same: "no_prefix white_space s \<Longrightarrow> no_prefix (map rev white_space) (rev s) \<Longrightarrow> TrimSpace s = s"
  by (simp add: TrimSpace_def trim_left_same)

lemma TrimSpace_trimmed:
  "no_prefix white_space (TrimSpace s)" "no_prefix (map rev white_space) (rev (TrimSpace s))"
proof -
  obtain p where "rev (trim_left white_space s) = p @ trim_left (map rev white_space) (rev (trim_left white_space s))"
    using trim_left_suffix by blast
  then have "trim_left white_space s = TrimSpace s @ rev p" unfolding TrimSpace_def by (metis rev_append rev_rev_ident)
  then show "no_prefix white_space (TrimSpace s)" using trim_left_no_prefix no_prefix_append by metis
  show "no_prefix (map rev white_space) (rev (TrimSpace s))" by (simp add: TrimSpace_def trim_left_no_prefix)
qed

theorem TrimSpace_idem: "TrimSpace (TrimSpace s) = TrimSpace s"
  by (rule TrimSpace_same[OF TrimSpace_trimmed])

text \<open>The first and last bytes of white space.\<close>

lemma no_prefix_first:
  assumes "\<forall>w \<in> set ws. w \<noteq> [] \<and> hd w \<noteq> c" shows "no_prefix ws (c # s)"
  unfolding no_prefix_def HasPrefix_def
proof (intro ballI impI notI)
  fix w assume w: "w \<in> set ws" "w \<noteq> []" "take (length w) (c # s) = w"
  then have "hd w = c" using hd_append2[of w "drop (length w) (c # s)"] by (metis append_take_drop_id list.sel(1))
  then show False using assms w(1) by blast
qed

lemma TrimSpace_between:
  assumes "byte_val a \<in> {33..126}" "byte_val b \<in> {33..126}"
  shows "TrimSpace (a # s @ [b]) = a # s @ [b]"
proof (rule TrimSpace_same)
  have ends: "\<forall>w \<in> set white_space. w \<noteq> [] \<and> byte_val (hd w) \<notin> {33..126} \<and> byte_val (last w) \<notin> {33..126}"
    by (simp add: white_space_def upt_rec)
  show "no_prefix white_space (a # s @ [b])" using ends assms(1) by (intro no_prefix_first) blast
  have "no_prefix (map rev white_space) (b # rev (a # s))"
    using ends assms(2) by (intro no_prefix_first) (force simp: hd_rev)
  then show "no_prefix (map rev white_space) (rev (a # s @ [b]))" by simp
qed

subsection \<open>Host addresses\<close>

lemma no_colon_FormatInt: "CHR '':'' \<notin> set (FormatInt i)"
proof -
  have "CHR '':'' \<notin> set (format_nat n)" for n
    using format_nat_digits[of n] by (auto simp: list_all_iff is_digit_def byte_val_def)
  then show ?thesis by (simp add: FormatInt_def)
qed

lemma FormatInt_last: "\<exists>s d. FormatInt i = s @ [d] \<and> is_digit d"
proof -
  have "\<exists>s d. format_nat n = s @ [d] \<and> is_digit d" for n
    using format_nat_digits[of n] format_nat_nonempty[of n] by (cases "format_nat n" rule: rev_cases) auto
  then show ?thesis unfolding FormatInt_def by (metis append_Cons)
qed

definition defaults_ok :: "string \<Rightarrow> int \<Rightarrow> string \<Rightarrow> bool" where
  "defaults_ok defaultHost defaultPort defaultUnix \<longleftrightarrow>
    defaultHost \<noteq> [] \<and> CHR '':'' \<notin> set defaultHost \<and> defaultPort \<noteq> 0 \<and> int64_range defaultPort \<and>
    defaultUnix \<noteq> [] \<and> TrimSpace (''unix://'' @ defaultUnix) = ''unix://'' @ defaultUnix"

lemma ParseHost_tcp:
  assumes "host \<noteq> []" "CHR '':'' \<notin> set host" "port \<noteq> 0" "int64_range port"
  shows "ParseHost dh dp du (''tcp://'' @ host @ '':'' @ FormatInt port) = Inr (''tcp://'' @ host @ '':'' @ FormatInt port)"
proof -
  obtain s d where d: "FormatInt port = s @ [d]" "is_digit d" using FormatInt_last by blast
  have t: "TrimSpace (''tcp://'' @ host @ '':'' @ FormatInt port) = ''tcp://'' @ host @ '':'' @ FormatInt port"
    using TrimSpace_between[of "CHR ''t''" d "''cp://'' @ host @ '':'' @ s"] d by (simp add: is_digit_def byte_val_def)
  have p: "split_proto du (''tcp://'' @ host @ '':'' @ FormatInt port) = Inr (''tcp'', host @ '':'' @ FormatInt port)"
    by (simp add: split_proto_def HasPrefix_def TrimPrefix_def)
  show ?thesis unfolding ParseHost_def t p using assms no_colon_FormatInt
    by (simp add: host_port_def Split_append_sep Split_no_sep ParseInt_FormatInt)
qed

lemma ParseHost_unix:
  assumes "path \<noteq> []" "TrimSpace (''unix://'' @ path) = ''unix://'' @ path"
  shows "ParseHost dh dp du (''unix://'' @ path) = Inr (''unix://'' @ path)"
proof -
  have "split_proto du (''unix://'' @ path) = Inr (''unix'', path)"
    using assms(1) by (simp add: split_proto_def HasPrefix_def TrimPrefix_def)
  then show ?thesis unfolding ParseHost_def assms(2) by simp
qed

lemma split_proto_cases:
  assumes "split_proto du addr = Inr (proto, a)"
  obtains "proto = ''unix''" "a \<noteq> []" "addr = ''unix://'' @ a" | "proto = ''unix''" "a = du"
    | "proto = ''tcp''" "addr = ''tcp://'' @ a" | "proto = ''tcp''" "a = addr" "addr \<noteq> []"
proof -
  have p: "HasPrefix addr q \<Longrightarrow> addr = q @ TrimPrefix addr q" for q
    unfolding HasPrefix_def TrimPrefix_def by (metis append_take_drop_id)
  show ?thesis using assms that p[of "''unix://''"] p[of "''tcp://''"]
    by (auto simp: split_proto_def Let_def split: if_splits)
qed

text \<open>An address that was completed is complete. The text \<open>tcp://\<close> alone is the exception: it gets no host.\<close>

theorem ParseHost_stable:
  assumes "ParseHost dh dp du addr = Inr r" "defaults_ok dh dp du" "TrimSpace addr \<noteq> ''tcp://''"
  shows "ParseHost dh dp du r = Inr r"
proof -
  obtain proto a where sp: "split_proto du (TrimSpace addr) = Inr (proto, a)"
    using assms(1) by (auto simp: ParseHost_def split: sum.splits)
  have unix: ?thesis if "proto = ''unix''" "a \<noteq> []" "TrimSpace (''unix://'' @ a) = ''unix://'' @ a"
  proof -
    have "r = ''unix://'' @ a" using assms(1) sp that(1) by (simp add: ParseHost_def)
    then show ?thesis using ParseHost_unix[OF that(2,3)] by simp
  qed
  have tcp: ?thesis if q: "proto = ''tcp''" "a \<noteq> []"
  proof (cases "CHR '':'' \<in> set a")
    case False
    then have "r = ''tcp://'' @ a @ '':'' @ FormatInt dp" using assms(1) sp that(1) by (simp add: ParseHost_def)
    then show ?thesis using ParseHost_tcp that(2) False assms(2) by (simp add: defaults_ok_def)
  next
    case True
    obtain host port where hp: "host_port dh dp a = Inr (host, port)" "r = ''tcp://'' @ host @ '':'' @ FormatInt port"
      using assms(1) sp q(1) True by (auto simp: ParseHost_def split: sum.splits)
    have s: "Split (CHR '':'') a ! 0 \<in> set (Split (CHR '':'') a)"
      by (rule nth_mem) (simp)
    have "host \<noteq> [] \<and> CHR '':'' \<notin> set host"
      using hp(1) assms(2) Split_pieces[OF s] by (auto simp: host_port_def Let_def defaults_ok_def split: if_splits)
    moreover have "port \<noteq> 0 \<and> int64_range port"
      using hp(1) assms(2) by (auto simp: host_port_def Let_def defaults_ok_def dest: ParseInt_range split: if_splits option.splits)
    ultimately show ?thesis using ParseHost_tcp hp(2) by simp
  qed
  show ?thesis using sp
  proof (cases rule: split_proto_cases)
    case 1
    then show ?thesis using unix TrimSpace_idem[of addr] by simp
  next
    case 2
    then show ?thesis using unix assms(2) by (simp add: defaults_ok_def)
  next
    case 3
    then show ?thesis using tcp assms(3) by auto
  next
    case 4
    then show ?thesis using tcp by simp
  qed
qed

lemma ParseHost_no_host: "ParseHost dh dp du ''tcp://'' = Inr (''tcp://:'' @ FormatInt dp)"
proof -
  have "TrimSpace ''tcp://'' = ''tcp://''"
    using TrimSpace_between[of "CHR ''t''" "CHR ''/''" "''cp:/''"] by (simp add: byte_val_def)
  then show ?thesis by (simp add: ParseHost_def split_proto_def HasPrefix_def TrimPrefix_def)
qed

end
