(* ===== verification/Utils_Properties.thy ===== *)
theory Utils_Properties
  imports Dependency_Graph Trunc_Index Utils_Text_Spec
begin

text \<open>Properties of the helpers of \<open>utils/utils.go\<close>: dependency graphs, truncated identifiers, sizes.\<close>

text \<open>The graphs that the exported operations build.\<close>

inductive built :: "graph \<Rightarrow> bool" where
  built_new: "built NewDependencyGraph"
| built_node: "built g \<Longrightarrow> built (NewNode i g)"
| built_dep: "built g \<Longrightarrow> AddDependency node to g = Inr g' \<Longrightarrow> built g'"

lemma built_ok: "built g \<Longrightarrow> graph_ok g"
  by (induction rule: built.induct) (auto intro: graph_ok_new graph_ok_NewNode dest: graph_ok_AddDependency)

text \<open>C39: \<open>GenerateTraversalMap\<close> ends on every graph that can be built. It gives rounds in which every node comes exactly
  once and after its dependencies, or fails, and it fails exactly when the graph has a cycle, whatever
  the order in which Go visits the map of nodes.\<close>

theorem dependency_order:
  assumes "built g" "\<forall>n. map_order g (ord n)"
  shows "case GenerateTraversalMap g ord of
      Inr rs \<Rightarrow> in_order g rs \<and> processed rs = dom g \<and> \<not> cyclic g
    | Inl _ \<Rightarrow> cyclic g"
  by (rule traversal_correct[OF built_ok[OF assms(1)] assms(2)])

definition ex_graph :: graph where
  "ex_graph = [''a'' \<mapsto> {''b''}, ''b'' \<mapsto> {}]"

theorem dependency_order_witness:
  "\<exists>rs. GenerateTraversalMap ex_graph (\<lambda>n. [''a'', ''b'']) = Inr rs \<and> in_order ex_graph rs \<and> processed rs = {''a'', ''b''}"
proof -
  have g: "AddDependency ''a'' ''b'' (NewNode ''b'' (NewNode ''a'' NewDependencyGraph)) = Inr ex_graph"
    by (auto simp: graph_defs NewDependencyGraph_def ex_graph_def)
  have b: "built ex_graph" by (rule built_dep[OF built_node[OF built_node[OF built_new]] g])
  have o: "\<forall>n. map_order ex_graph ((\<lambda>n. [''a'', ''b'']) n)" by (auto simp: map_order_def ex_graph_def)
  have d: "dom ex_graph = {''a'', ''b''}" by (auto simp: ex_graph_def)
  have "\<not> cyclic ex_graph"
  proof
    assume "cyclic ex_graph"
    then obtain S where S: "S \<noteq> {}" "S \<subseteq> {''a'', ''b''}" "\<forall>i \<in> S. the (ex_graph i) \<inter> S \<noteq> {}" unfolding cyclic_def d by blast
    have g: "the (ex_graph ''a'') = {''b''}" "the (ex_graph ''b'') = {}" by (simp_all add: ex_graph_def)
    have b: "''b'' \<notin> S" using bspec[OF S(3), of "''b''"] unfolding g by blast
    then have "''a'' \<notin> S" using bspec[OF S(3), of "''a''"] unfolding g by blast
    then show False using S(1,2) b by blast
  qed
  then show ?thesis using dependency_order[OF b o] d by (auto split: sum.splits)
qed

text \<open>C40: After any history of \<open>Add\<close> and \<open>Delete\<close>, \<open>Get\<close> answers a prefix with an identifier exactly when that is the only
  one with this prefix.\<close>

theorem short_ids_found:
  assumes "ti_history idx" "s \<noteq> []" "CHR '' '' \<notin> set s"
  shows "TruncIndex_Get s idx = Inr w \<longleftrightarrow> {i \<in> ti_ids idx. prefix s i} = {w}"
  by (rule Get_unique[OF assms])

theorem short_ids_found_witness:
  "\<exists>idx. TruncIndex_Add ''ab'' NewTruncIndex = Inr idx \<and> TruncIndex_Get ''a'' idx = Inr ''ab''"
proof -
  obtain idx where a: "TruncIndex_Add ''ab'' NewTruncIndex = Inr idx" "ti_ids idx = {''ab''}"
    by (simp add: TruncIndex_Add_def NewTruncIndex_def)
  have "ti_history idx" by (rule ti_history.add[OF ti_history.new _ a(1)]) simp
  from short_ids_found[OF this, of "''a''" "''ab''"]
  have "TruncIndex_Get ''a'' idx = Inr ''ab'' \<longleftrightarrow> {i \<in> {''ab''}. prefix ''a'' i} = {''ab''}" unfolding a(2) by simp
  also have "{i \<in> {''ab''}. prefix ''a'' i} = {''ab''}" by (rule set_eqI) (simp, metis append_Cons append_Nil prefixI)
  finally show ?thesis using a(1) by simp
qed

text \<open>\<open>RAMInBytes\<close> of a number that an \<open>int64\<close> holds, with an optional unit and \<open>b\<close>, is never refused, and it is the
  number of bytes exactly when that fits in an \<open>int64\<close>; beyond, the product wraps.\<close>

theorem size_exact_iff:
  assumes "int n < 2 ^ 63" "unit_ok suf u"
  shows "\<exists>b. RAMInBytes (format_nat n @ suf) = Inr b \<and>
    (sint b = int n * uint (unit_factor u) \<longleftrightarrow> int n * uint (unit_factor u) < 2 ^ 63)"
proof (cases "int n * uint (unit_factor u) < 2 ^ 63")
  case True
  then show ?thesis using RAMInBytes_exact[OF _ assms(2), of n] by blast
next
  case False
  have "sint (word_of_nat n * unit_factor u) < 2 ^ (LENGTH(64) - 1)" by (rule sint_lt)
  then show ?thesis using False RAMInBytes_value[OF assms] by auto
qed

theorem size_exact_iff_witness: "\<exists>b. RAMInBytes ''5k'' = Inr b \<and> sint b = 5120"
proof -
  have u: "unit_ok ''k'' (Some (CHR ''k''))" by (rule unit_ok.intros(3)) (simp add: is_unit_def)
  have f: "format_nat 5 = ''5''" by code_simp
  from size_exact_iff[of 5, OF _ u] show ?thesis by (auto simp: f unit_factor_def)
qed

end
