(* ===== verification/Shell_Quote.thy ===== *)
theory Shell_Quote
  imports Prelude Go_Strings
begin

text \<open>
  \<open>quote\<close> and \<open>ShellQuoteArguments\<close> of \<open>utils/utils.go\<close>, and what they are for: \<open>shell_words\<close> reads a command line the
  way the POSIX shell splits it into words (blanks, single quotes, backslashes, comments; a character with
  another meaning to the shell gives \<open>None\<close>). Quoted arguments are read back as they are, unless an
  argument that needs no other quoting starts with \<open>#\<close>: the rest of the line is then a comment
  (\<open>ShellQuoteArguments_words\<close>, \<open>hash_argument_lost\<close>).
\<close>

definition shell_special :: "char set" where
  "shell_special = set ([CHR 0x5C, CHR 0x27, CHR 0x22] @ ''`${[|&;<>()~*?! '' @ [CHR 0x09, CHR 0x0A])"

definition quote_char :: "char \<Rightarrow> string" where
  "quote_char c = (if c = CHR 0x27 then [CHR 0x27, CHR 0x5C, CHR 0x27, CHR 0x27] else [c])"

definition simple_word :: "string \<Rightarrow> bool" where
  "simple_word w \<longleftrightarrow> w \<noteq> [] \<and> set w \<inter> shell_special = {}"

definition quote :: "string \<Rightarrow> string" where
  "quote word = (if simple_word word then word else CHR 0x27 # concat (map quote_char word) @ [CHR 0x27])"

definition ShellQuoteArguments :: "string list \<Rightarrow> string" where
  "ShellQuoteArguments args = Join (map quote args) '' ''"

subsection \<open>The shell's view\<close>

text \<open>\<open>cur\<close> is the word that is being read, if one has begun.\<close>

fun word_of :: "string option \<Rightarrow> string" where
  "word_of None = []" | "word_of (Some w) = w"

fun shell_words :: "string option \<Rightarrow> string \<Rightarrow> string list option"
  and shell_quoted :: "string \<Rightarrow> string \<Rightarrow> string list option" where
  "shell_words cur [] = Some (case cur of None \<Rightarrow> [] | Some w \<Rightarrow> [w])"
| "shell_words cur (c # cs) =
    (if c = CHR '' '' then
       (case cur of None \<Rightarrow> shell_words None cs | Some w \<Rightarrow> map_option ((#) w) (shell_words None cs))
     else if c = CHR 0x27 then shell_quoted (word_of cur) cs
     else if c = CHR 0x5C then
       (case cs of [] \<Rightarrow> None | d # ds \<Rightarrow> shell_words (Some (word_of cur @ [d])) ds)
     else if c \<in> shell_special then None
     else if c = CHR ''#'' \<and> cur = None then Some []
     else shell_words (Some (word_of cur @ [c])) cs)"
| "shell_quoted w [] = None"
| "shell_quoted w (c # cs) =
    (if c = CHR 0x27 then shell_words (Some w) cs else shell_quoted (w @ [c]) cs)"

lemma special_marks: "CHR '' '' \<in> shell_special" "CHR 0x27 \<in> shell_special" "CHR 0x5C \<in> shell_special" "CHR ''#'' \<notin> shell_special"
  by (simp_all add: shell_special_def)

text \<open>Characters without a meaning continue a word; a quoted word is read back.\<close>

lemma shell_words_plain:
  "set x \<inter> shell_special = {} \<Longrightarrow> shell_words (Some w) (x @ r) = shell_words (Some (w @ x)) r"
proof (induction x arbitrary: w)
  case (Cons c x)
  then show ?case using special_marks by auto
qed simp

lemma shell_quoted_body:
  "shell_quoted w (concat (map quote_char x) @ CHR 0x27 # r) = shell_words (Some (w @ x)) r"
proof (induction x arbitrary: w)
  case (Cons c x)
  show ?case
  proof (cases "c = CHR 0x27")
    case True
    then show ?thesis using Cons[of "w @ [c]"] by (simp add: quote_char_def)
  next
    case False
    then show ?thesis using Cons[of "w @ [c]"] by (simp add: quote_char_def)
  qed
qed simp

definition hash_word :: "string \<Rightarrow> bool" where
  "hash_word w \<longleftrightarrow> simple_word w \<and> hd w = CHR ''#''"

lemma shell_words_quote:
  assumes "\<not> hash_word w"
  shows "shell_words None (quote w @ r) = shell_words (Some w) r"
proof (cases "simple_word w")
  case True
  then obtain c cs where w: "w = c # cs" "c \<notin> shell_special" "set cs \<inter> shell_special = {}" by (cases w) (auto simp: simple_word_def)
  have "c \<noteq> CHR ''#''" using assms True w(1) by (simp add: hash_word_def)
  then have "shell_words None (w @ r) = shell_words (Some [c]) (cs @ r)" using w(1,2) special_marks by auto
  then show ?thesis using True w(1) shell_words_plain[OF w(3), of "[c]" r] by (simp add: quote_def)
next
  case False
  then show ?thesis using shell_quoted_body[of "[]" w r] by (simp add: quote_def)
qed

lemma ShellQuoteArguments_words:
  assumes "\<forall>w \<in> set args. \<not> hash_word w"
  shows "shell_words None (ShellQuoteArguments args) = Some args"
  unfolding ShellQuoteArguments_def using assms
proof (induction args)
  case (Cons w ws)
  show ?case
  proof (cases ws)
    case Nil
    then show ?thesis using shell_words_quote[of w "[]"] Cons.prems by simp
  next
    case (Cons v vs)
    then show ?thesis using shell_words_quote[of w "'' '' @ Join (map quote ws) '' ''"] Cons.IH Cons.prems by simp
  qed
qed simp

lemma hash_argument_lost: "shell_words None (ShellQuoteArguments [''a'', ''#b'', ''c'']) = Some [''a'']"
  by code_simp

end
