(* ===== verification/Kernel_Version.thy ===== *)
theory Kernel_Version
  imports Prelude Go_Strings
begin

text \<open>
  Kernel versions in \<open>utils/utils.go\<close>: \<open>KernelVersionInfo\<close>, its \<open>String\<close>, \<open>ParseRelease\<close> and
  \<open>CompareKernelVersion\<close>. A version is read back from its text (\<open>ParseRelease_String\<close>), and comparing is the
  lexicographic order of the three numbers (\<open>CompareKernelVersion_lex\<close>). Go's \<open>int\<close> is 64 bits wide.
\<close>

record KernelVersionInfo =
  kv_Kernel :: int
  kv_Major :: int
  kv_Minor :: int
  kv_Flavor :: string

definition KernelVersionInfo_String :: "KernelVersionInfo \<Rightarrow> string" where
  "KernelVersionInfo_String k =
    (let flavor = (if 0 < length (kv_Flavor k) then CHR ''-'' # kv_Flavor k else [])
     in FormatInt (kv_Kernel k) @ ''.'' @ FormatInt (kv_Major k) @ ''.'' @ FormatInt (kv_Minor k) @ flavor)"

definition CompareKernelVersion :: "KernelVersionInfo \<Rightarrow> KernelVersionInfo \<Rightarrow> int" where
  "CompareKernelVersion a b =
    (if kv_Kernel a < kv_Kernel b then -1
     else if kv_Kernel a > kv_Kernel b then 1
     else if kv_Major a < kv_Major b then -1
     else if kv_Major a > kv_Major b then 1
     else if kv_Minor a < kv_Minor b then -1
     else if kv_Minor a > kv_Minor b then 1
     else 0)"

text \<open>\<open>strings.Trim(s, c)\<close> for a single character.\<close>

definition Trim :: "string \<Rightarrow> char \<Rightarrow> string" where
  "Trim s x = rev (dropWhile (\<lambda>c. c = x) (rev (dropWhile (\<lambda>c. c = x) s)))"

text \<open>\<open>strconv.Atoi\<close> on the piece of number \<open>i\<close>, 0 when there is none.\<close>

definition release_number :: "string list \<Rightarrow> nat \<Rightarrow> (string \<Rightarrow> string) \<Rightarrow> int result" where
  "release_number tmp2 i clean =
    (if i < length tmp2
     then (case ParseInt (clean (tmp2 ! i)) of None \<Rightarrow> Inl (GoErr ''Atoi'') | Some n \<Rightarrow> Inr n)
     else Inr 0)"

definition ParseRelease :: "string \<Rightarrow> KernelVersionInfo result" where
  "ParseRelease release =
    (let tmp = SplitN (CHR ''-'') 2 release;
         tmp2 = Split (CHR ''.'') (tmp ! 0)
     in case release_number tmp2 0 id of
          Inl err \<Rightarrow> Inl err
        | Inr kern \<Rightarrow>
      (case release_number tmp2 1 id of
          Inl err \<Rightarrow> Inl err
        | Inr major \<Rightarrow>
      (case release_number tmp2 2 (\<lambda>s. Trim s (CHR ''+'')) of
          Inl err \<Rightarrow> Inl err
        | Inr minor \<Rightarrow>
            Inr \<lparr>kv_Kernel = kern, kv_Major = major, kv_Minor = minor,
                 kv_Flavor = (if length tmp = 2 then tmp ! 1 else [])\<rparr>)))"

subsection \<open>Reading back\<close>

lemma FormatInt_digits: "0 \<le> i \<Longrightarrow> list_all is_digit (FormatInt i)"
  by (simp add: FormatInt_def format_nat_digits)

lemma not_in_digits: "list_all is_digit ds \<Longrightarrow> \<not> is_digit c \<Longrightarrow> c \<notin> set ds"
  by (auto simp: list_all_iff)

lemma version_marks: "\<not> is_digit (CHR ''.'')" "\<not> is_digit (CHR ''-'')" "\<not> is_digit (CHR ''+'')"
  by (simp_all add: is_digit_def byte_val_def)

lemma Trim_not_in: "x \<notin> set s \<Longrightarrow> Trim s x = s"
proof -
  assume x: "x \<notin> set s"
  then have "dropWhile (\<lambda>c. c = x) s = s" by (cases s) auto
  moreover have "dropWhile (\<lambda>c. c = x) (rev s) = rev s" using x by (cases s rule: rev_cases) auto
  ultimately show ?thesis by (simp add: Trim_def)
qed

definition version_ok :: "KernelVersionInfo \<Rightarrow> bool" where
  "version_ok k \<longleftrightarrow> (\<forall>n \<in> {kv_Kernel k, kv_Major k, kv_Minor k}. 0 \<le> n \<and> n < 2 ^ 63)"

theorem ParseRelease_String:
  assumes "version_ok k"
  shows "ParseRelease (KernelVersionInfo_String k) = Inr k"
proof -
  let ?a = "FormatInt (kv_Kernel k)" and ?b = "FormatInt (kv_Major k)" and ?c = "FormatInt (kv_Minor k)"
  have r: "int64_range (kv_Kernel k)" "int64_range (kv_Major k)" "int64_range (kv_Minor k)"
    using assms by (simp_all add: version_ok_def int64_range_def)
  have d: "list_all is_digit ?a" "list_all is_digit ?b" "list_all is_digit ?c"
    using assms by (simp_all add: version_ok_def FormatInt_digits)
  note marks = not_in_digits[OF d(1)] not_in_digits[OF d(2)] not_in_digits[OF d(3)]
  define n where "n = ?a @ ''.'' @ ?b @ ''.'' @ ?c"
  have hyphen: "CHR ''-'' \<notin> set n" using marks version_marks by (simp add: n_def)
  have pieces: "Split (CHR ''.'') n = [?a, ?b, ?c]"
    using marks version_marks by (simp add: n_def Split_append_sep Split_no_sep)
  have tmp: "SplitN (CHR ''-'') 2 (KernelVersionInfo_String k) = (if kv_Flavor k = [] then [n] else [n, kv_Flavor k])"
  proof (cases "kv_Flavor k = []")
    case True
    then have "KernelVersionInfo_String k = n" by (simp add: KernelVersionInfo_String_def n_def)
    then show ?thesis using True SplitN_no_sep[OF hyphen, of 1] by (simp only: numeral_2_eq_2 One_nat_def if_True refl)
  next
    case False
    then have "KernelVersionInfo_String k = n @ CHR ''-'' # kv_Flavor k" by (simp add: KernelVersionInfo_String_def n_def)
    then show ?thesis using False SplitN_append_sep[OF hyphen, of 0 "kv_Flavor k"]
      by (simp only: numeral_2_eq_2 One_nat_def if_False SplitN.simps)
  qed
  have trim: "Trim ?c (CHR ''+'') = ?c" using marks(3) version_marks by (simp add: Trim_not_in)
  show ?thesis
    unfolding ParseRelease_def tmp Let_def using r
    by (simp add: pieces release_number_def ParseInt_FormatInt trim)
qed

subsection \<open>The order of versions\<close>

definition version_less :: "KernelVersionInfo \<Rightarrow> KernelVersionInfo \<Rightarrow> bool" where
  "version_less a b \<longleftrightarrow>
    ((kv_Kernel a, kv_Major a, kv_Minor a), (kv_Kernel b, kv_Major b, kv_Minor b))
      \<in> {(x, y). x < y} <*lex*> {(x, y). x < y} <*lex*> {(x, y). x < y}"

theorem CompareKernelVersion_lex:
  "CompareKernelVersion a b = (if version_less a b then -1 else if version_less b a then 1 else 0)"
  by (auto simp: CompareKernelVersion_def version_less_def)

lemma CompareKernelVersion_antisym: "CompareKernelVersion a b = - CompareKernelVersion b a"
  by (auto simp: CompareKernelVersion_def)

lemma CompareKernelVersion_trans:
  "CompareKernelVersion a b \<le> 0 \<Longrightarrow> CompareKernelVersion b c \<le> 0 \<Longrightarrow> CompareKernelVersion a c \<le> 0"
  by (auto simp: CompareKernelVersion_def split: if_splits)

end
