(* ===== verification/Io_Streams.thy ===== *)
theory Io_Streams
  imports Prelude Json
begin

text \<open>
  The readers and writers of \<open>utils/utils.go\<close>: \<open>CopyEscapable\<close>, \<open>bufReader\<close>, \<open>WriteBroadcaster\<close> and
  \<open>WriteFlusher\<close>. What a source delivers is the list of the results of its \<open>Read\<close> calls; a destination
  is a function on its state that says how many bytes it took. A method that holds the mutex is one step.
\<close>

datatype read_end = Eof | ReadErr go_error

type_synonym read_result = "string \<times> read_end option"

type_synonym 'w sink = "'w \<Rightarrow> string \<Rightarrow> 'w \<times> nat \<times> go_error option"

text \<open>A sink that takes everything, with the bytes it took as its state.\<close>

definition whole_sink :: "string sink" where
  "whole_sink w b = (w @ b, length b, None)"

subsection \<open>Copying with an escape sequence\<close>

text \<open>\<open>Blocked\<close>: the source has delivered nothing more yet.\<close>

datatype copied = Blocked | Copied nat "go_error option"

definition ctrl_p :: string where "ctrl_p = [CHR 0x10]"
definition ctrl_q :: string where "ctrl_q = [CHR 0x11]"

definition ErrShortWrite :: go_error where "ErrShortWrite = GoErr ''short write''"

text \<open>The writing half of a turn: \<open>Inl\<close> when the loop is left with an error.\<close>

definition copy_write :: "'w sink \<Rightarrow> string \<Rightarrow> 'w \<Rightarrow> nat \<Rightarrow> 'w \<times> nat \<times> go_error option" where
  "copy_write sink buf w written =
    (let (w1, nw, ew) = sink w buf
     in (w1, written + nw,
         if ew \<noteq> None then ew else if length buf \<noteq> nw then Some ErrShortWrite else None))"

text \<open>\<open>closing\<close> is what \<open>src.Close\<close> returns.\<close>

fun CopyEscapable :: "'w sink \<Rightarrow> go_error option \<Rightarrow> read_result list \<Rightarrow> 'w \<Rightarrow> nat \<Rightarrow> 'w \<times> copied" where
  "CopyEscapable sink closing [] w written = (w, Blocked)"
| "CopyEscapable sink closing ((buf, er) # rs) w written =
    (if buf = ctrl_p then
       (case rs of
          [] \<Rightarrow> (w, Blocked)
        | (buf2, er2) # rs2 \<Rightarrow>
            if buf2 = ctrl_q then (w, Copied 0 closing)
            else (let (w1, n, ew) = copy_write sink buf2 w written
                  in if ew \<noteq> None then (w1, Copied n ew)
                     else (case er2 of
                             Some Eof \<Rightarrow> (w1, Copied n None)
                           | Some (ReadErr e) \<Rightarrow> (w1, Copied n (Some e))
                           | None \<Rightarrow> CopyEscapable sink closing rs2 w1 n)))
     else
       (let (w1, n, ew) = (if buf = [] then (w, written, None) else copy_write sink buf w written)
        in if ew \<noteq> None then (w1, Copied n ew)
           else (case er of
                   Some Eof \<Rightarrow> (w1, Copied n None)
                 | Some (ReadErr e) \<Rightarrow> (w1, Copied n (Some e))
                 | None \<Rightarrow> CopyEscapable sink closing rs w1 n)))"

lemma ctrl_distinct [simp]: "ctrl_p \<noteq> ctrl_q" "ctrl_p \<noteq> []" "ctrl_q \<noteq> []" "[] \<noteq> ctrl_p"
  by (simp_all add: ctrl_p_def ctrl_q_def)

lemma copy_write_whole [simp]: "copy_write whole_sink b w n = (w @ b, n + length b, None)"
  by (simp add: copy_write_def whole_sink_def)

text \<open>Chunks that hold no escape are copied one after the other.\<close>

lemma CopyEscapable_chunks:
  assumes "ctrl_p \<notin> set cs"
  shows "CopyEscapable whole_sink closing (map (\<lambda>c. (c, None)) cs @ rs) w n =
    CopyEscapable whole_sink closing rs (w @ concat cs) (n + length (concat cs))"
  using assms
proof (induction cs arbitrary: w n)
  case (Cons c cs)
  then show ?case by (cases "c = []") (auto simp: add.assoc)
qed simp

theorem CopyEscapable_copies:
  assumes "ctrl_p \<notin> set cs"
  shows "CopyEscapable whole_sink closing (map (\<lambda>c. (c, None)) cs @ ([], Some Eof) # rs) [] 0 =
    (concat cs, Copied (length (concat cs)) None)"
  unfolding CopyEscapable_chunks[OF assms] by simp

lemma CopyEscapable_detaches:
  assumes "ctrl_p \<notin> set cs"
  shows "CopyEscapable whole_sink closing (map (\<lambda>c. (c, None)) cs @ (ctrl_p, None) # (ctrl_q, None) # rs) [] 0 =
    (concat cs, Copied 0 closing)"
  unfolding CopyEscapable_chunks[OF assms] by simp

text \<open>A single \<open>C-p\<close> that no \<open>C-q\<close> follows is not copied, and of two the second is data.\<close>

lemma lone_ctrl_p_lost:
  "CopyEscapable whole_sink closing ((ctrl_p, None) # (''x'', None) # ([], Some Eof) # rs) [] 0 = (''x'', Copied 1 None)"
  by (simp add: ctrl_p_def ctrl_q_def)

lemma repeated_ctrl_p_no_escape:
  "CopyEscapable whole_sink closing ((ctrl_p, None) # (ctrl_p, None) # (ctrl_q, None) # ([], Some Eof) # rs) [] 0 =
    (ctrl_p @ ctrl_q, Copied 2 None)"
  by (simp add: ctrl_p_def ctrl_q_def)

subsection \<open>The buffered reader\<close>

record bufReader =
  br_buf :: string
  br_err :: "read_end option"

definition NewBufReader :: bufReader where
  "NewBufReader = \<lparr>br_buf = [], br_err = None\<rparr>"

text \<open>One turn of \<open>drain\<close>, which ends after an error.\<close>

definition drain_turn :: "read_result \<Rightarrow> bufReader \<Rightarrow> bufReader" where
  "drain_turn r b =
    (let (buf, err) = r
     in if err \<noteq> None then b\<lparr>br_err := err\<rparr> else b\<lparr>br_buf := br_buf b @ buf\<rparr>)"

text \<open>\<open>Read\<close> into a slice of \<open>len\<close> bytes; \<open>None\<close> is waiting for \<open>drain\<close>.\<close>

definition bufReader_Read :: "nat \<Rightarrow> bufReader \<Rightarrow> (read_result \<times> bufReader) option" where
  "bufReader_Read len b =
    (if 0 < len \<and> br_buf b \<noteq> []
     then Some ((take len (br_buf b), None), b\<lparr>br_buf := drop len (br_buf b)\<rparr>)
     else (case br_err b of Some e \<Rightarrow> Some (([], Some e), b) | None \<Rightarrow> None))"

text \<open>\<open>Close\<close> closes a source that can be closed; \<open>closer\<close> is the result of that.\<close>

definition bufReader_Close :: "go_error option option \<Rightarrow> go_error option" where
  "bufReader_Close closer = (case closer of None \<Rightarrow> None | Some r \<Rightarrow> r)"

text \<open>Runs of the two goroutines: what \<open>drain\<close> has read so far, what \<open>Read\<close> has returned, the state.\<close>

inductive br_run :: "read_result list \<Rightarrow> string \<Rightarrow> bufReader \<Rightarrow> bool" where
  br_start: "br_run [] [] NewBufReader"
| br_drain: "br_run rs out b \<Longrightarrow> br_err b = None \<Longrightarrow> br_run (rs @ [r]) out (drain_turn r b)"
| br_read: "br_run rs out b \<Longrightarrow> bufReader_Read len b = Some ((x, e), b') \<Longrightarrow> br_run rs (out @ x) b'"

definition clean_bytes :: "read_result list \<Rightarrow> string" where
  "clean_bytes rs = concat (map fst (filter (\<lambda>r. snd r = None) rs))"

text \<open>Nothing that came without an error is lost or reordered, however the goroutines interleave.\<close>

theorem bufReader_fifo:
  "br_run rs out b \<Longrightarrow> out @ br_buf b = clean_bytes rs \<and> (br_err b = None \<longleftrightarrow> list_all (\<lambda>r. snd r = None) rs)"
proof (induction rule: br_run.induct)
  case br_start
  then show ?case by (simp add: NewBufReader_def clean_bytes_def)
next
  case (br_drain rs out b r)
  then show ?case by (cases r) (auto simp: drain_turn_def clean_bytes_def)
next
  case (br_read rs out b len x e b')
  then have "(x @ br_buf b', br_err b') = (br_buf b, br_err b)"
    by (auto simp: bufReader_Read_def split: if_splits option.splits)
  then show ?case using br_read.IH by auto
qed

text \<open>Bytes that a source returns together with its error never come out.\<close>

lemma bytes_with_error_lost:
  "br_buf b = [] \<Longrightarrow> bufReader_Read len (drain_turn (x, Some e) b) = Some (([], Some e), drain_turn (x, Some e) b)"
  by (simp add: drain_turn_def bufReader_Read_def)

subsection \<open>Broadcasting\<close>

text \<open>A stream writer is an underlying writer with a stream name; the broadcaster's map of writers is a
  set. Broadcast to a writer with a stream, the buffered text goes out as one JSON object for each whole
  line. \<open>clock k\<close> is the JSON text of the time that is read for line \<open>k\<close> of the call.\<close>

record StreamWriter =
  sw_wc :: nat
  sw_stream :: string

record WriteBroadcaster =
  wb_buf :: string
  wb_writers :: "StreamWriter set"

definition NewWriteBroadcaster :: WriteBroadcaster where
  "NewWriteBroadcaster = \<lparr>wb_buf = [], wb_writers = {}\<rparr>"

definition AddWriter :: "nat \<Rightarrow> string \<Rightarrow> WriteBroadcaster \<Rightarrow> WriteBroadcaster" where
  "AddWriter wc stream w = w\<lparr>wb_writers := insert \<lparr>sw_wc = wc, sw_stream = stream\<rparr> (wb_writers w)\<rparr>"

definition JSONLog_text :: "string \<Rightarrow> string \<Rightarrow> string \<Rightarrow> string" where
  "JSONLog_text log stream time =
    json_text (JObj (omitempty (log = []) ''log'' (JStr log) @ omitempty (stream = []) ''stream'' (JStr stream)
      @ member ''time'' (JStr time)))"

text \<open>\<open>ReadString\<close> up to the end of the buffer: the whole lines, and the rest that is written back.\<close>

fun whole_lines :: "string \<Rightarrow> string list \<times> string" where
  "whole_lines [] = ([], [])"
| "whole_lines (c # cs) =
    (if c = CHR 0x0A then ([c] # fst (whole_lines cs), snd (whole_lines cs))
     else (case whole_lines cs of
             ([], r) \<Rightarrow> ([], c # r)
           | (l # ls, r) \<Rightarrow> ((c # l) # ls, r)))"

definition log_text :: "string \<Rightarrow> (nat \<Rightarrow> string) \<Rightarrow> nat \<Rightarrow> string list \<Rightarrow> string" where
  "log_text stream clock k ls =
    concat (map (\<lambda>(i, l). JSONLog_text l stream (clock i) @ [CHR 0x0A]) (List.enumerate k ls))"

text \<open>One turn of the loop over the writers; a writer that fails or takes too little is evicted. The sinks'
  state is \<open>'w\<close>, \<open>k\<close> the number of times the clock was read.\<close>

definition broadcast_turn :: "(nat \<Rightarrow> 'w sink) \<Rightarrow> (nat \<Rightarrow> string) \<Rightarrow> string \<Rightarrow> StreamWriter
    \<Rightarrow> 'w \<times> WriteBroadcaster \<times> nat \<Rightarrow> 'w \<times> WriteBroadcaster \<times> nat" where
  "broadcast_turn sinks clock p sw = (\<lambda>(s, w, k).
    (let (ls, rest) = (if sw_stream sw = [] then ([], wb_buf w) else whole_lines (wb_buf w));
         lp = (if sw_stream sw = [] then p else log_text (sw_stream sw) clock k ls);
         (s1, n, err) = sinks (sw_wc sw) s lp
     in (s1,
         \<lparr>wb_buf = rest,
          wb_writers = (if err \<noteq> None \<or> n \<noteq> length lp then wb_writers w - {sw} else wb_writers w)\<rparr>,
         k + length ls)))"

text \<open>\<open>order\<close> is the order in which Go visits the writers.\<close>

definition WriteBroadcaster_Write :: "(nat \<Rightarrow> 'w sink) \<Rightarrow> (nat \<Rightarrow> string) \<Rightarrow> StreamWriter list \<Rightarrow> string
    \<Rightarrow> 'w \<Rightarrow> WriteBroadcaster \<Rightarrow> 'w \<times> WriteBroadcaster \<times> nat" where
  "WriteBroadcaster_Write sinks clock order p s w =
    (let (s1, w1, k) = fold (broadcast_turn sinks clock p) order (s, w\<lparr>wb_buf := wb_buf w @ p\<rparr>, 0)
     in (s1, w1, length p))"

definition CloseWriters :: "WriteBroadcaster \<Rightarrow> WriteBroadcaster" where
  "CloseWriters w = w\<lparr>wb_writers := {}\<rparr>"

lemma whole_lines_append: "whole_lines (a @ b) =
    (let (ls, r) = whole_lines a; (ms, t) = whole_lines (r @ b) in (ls @ ms, t))"
proof (induction a)
  case (Cons c cs)
  then show ?case by (auto split: prod.splits list.splits)
qed simp

lemma whole_lines_rest: "CHR 0x0A \<notin> set r \<Longrightarrow> whole_lines r = ([], r)"
  by (induction r) auto

lemma whole_lines_snd: "CHR 0x0A \<notin> set (snd (whole_lines s))"
  by (induction s) (auto split: prod.splits list.splits)

text \<open>The sinks of a run in which no writer fails: what each has received.\<close>

definition recording :: "nat \<Rightarrow> (nat \<Rightarrow> string) sink" where
  "recording wc s b = (s(wc := s wc @ b), length b, None)"

lemma log_text_append: "log_text st (\<lambda>_. t) k (ls @ ms) = log_text st (\<lambda>_. t) k ls @ log_text st (\<lambda>_. t) k' ms"
proof -
  have "log_text st (\<lambda>_. t) k ls = concat (map (\<lambda>l. JSONLog_text l st t @ [CHR 0x0A]) ls)" for k ls
    by (induction ls arbitrary: k) (simp_all add: log_text_def)
  then show ?thesis by simp
qed

definition broadcast_all :: "string \<Rightarrow> StreamWriter list \<Rightarrow> string list \<Rightarrow> (nat \<Rightarrow> string) \<times> WriteBroadcaster
    \<Rightarrow> (nat \<Rightarrow> string) \<times> WriteBroadcaster" where
  "broadcast_all t order ps sw =
    fold (\<lambda>p (s, w). (let (s1, w1, n) = WriteBroadcaster_Write recording (\<lambda>_. t) order p s w in (s1, w1))) ps sw"

text \<open>However the text is cut into writes, one stream writer receives every whole line once, and in order.\<close>

theorem broadcast_whole_lines:
  assumes "sw_stream sw \<noteq> []"
  shows "broadcast_all t [sw] ps (\<lambda>_. [], \<lparr>wb_buf = [], wb_writers = {sw}\<rparr>) =
    ((\<lambda>_. [])(sw_wc sw := log_text (sw_stream sw) (\<lambda>_. t) 0 (fst (whole_lines (concat ps)))),
     \<lparr>wb_buf = snd (whole_lines (concat ps)), wb_writers = {sw}\<rparr>)"
proof (induction ps rule: rev_induct)
  case Nil
  show ?case by (auto simp: broadcast_all_def log_text_def)
next
  case (snoc p ps)
  obtain ls r where l: "whole_lines (concat ps) = (ls, r)" by fastforce
  obtain ms u where m: "whole_lines (r @ p) = (ms, u)" by fastforce
  have step: "broadcast_all t [sw] (ps @ [p]) x =
    (let (s, w) = broadcast_all t [sw] ps x; (s1, w1, n) = WriteBroadcaster_Write recording (\<lambda>_. t) [sw] p s w in (s1, w1))" for x
    by (simp add: broadcast_all_def split_def Let_def)
  show ?case unfolding step snoc using assms
    by (auto simp: fun_upd_def l m whole_lines_append[of "concat ps"] WriteBroadcaster_Write_def broadcast_turn_def recording_def
        log_text_append[where k' = 0])
qed

text \<open>With two streams the one that comes first in a call takes the lines, and the other gets nothing.\<close>

theorem second_stream_starves:
  assumes "sw_stream a \<noteq> []" "sw_stream b \<noteq> []" "sw_wc a \<noteq> sw_wc b"
  shows "fst (WriteBroadcaster_Write recording clock [a, b] p s w) (sw_wc b) = s (sw_wc b)"
proof -
  obtain ls r where l: "whole_lines (wb_buf w @ p) = (ls, r)" by fastforce
  then have "whole_lines r = ([], r)" using whole_lines_rest whole_lines_snd[of "wb_buf w @ p"] by simp
  then show ?thesis using assms l
    by (simp add: WriteBroadcaster_Write_def broadcast_turn_def recording_def log_text_def)
qed

subsection \<open>Flushing\<close>

text \<open>\<open>WriteFlusher.Write\<close> flushes after every write, failed or not.\<close>

definition WriteFlusher_Write :: "'w sink \<Rightarrow> ('w \<Rightarrow> 'w) \<Rightarrow> string \<Rightarrow> 'w \<Rightarrow> 'w \<times> nat \<times> go_error option" where
  "WriteFlusher_Write sink flush b w = (let (w1, n, err) = sink w b in (flush w1, n, err))"

definition WriteFlusher_Flush :: "('w \<Rightarrow> 'w) \<Rightarrow> 'w \<Rightarrow> 'w" where
  "WriteFlusher_Flush flush w = flush w"

definition NopFlusher_Flush :: "'w \<Rightarrow> 'w" where
  "NopFlusher_Flush w = w"

text \<open>The flusher of a new \<open>WriteFlusher\<close>: the writer's own, when it has one.\<close>

definition NewWriteFlusher :: "('w \<Rightarrow> 'w) option \<Rightarrow> 'w \<Rightarrow> 'w" where
  "NewWriteFlusher own = (case own of Some flush \<Rightarrow> flush | None \<Rightarrow> NopFlusher_Flush)"

definition NopWriter_Write :: "'w sink" where
  "NopWriter_Write w buf = (w, length buf, None)"

end
