(* ===== verification/Stats_Api.thy ===== *)
theory Stats_Api
  imports Control_Api Push_Api
begin

text \<open>
  The statistics handlers of \<open>pushapi/pushapi.go\<close>. Times are nanoseconds; \<open>xnow\<close> is \<open>time.Now\<close>, which is read
  once for each date that the request leaves out, and \<open>parse_date\<close> is \<open>time.Parse("20060102", _)\<close>. The
  report has one entry for each day of the period (\<open>getAppStats_days\<close>).
\<close>

record 'w stats_env =
  xstore :: "'w storage"
  xnow :: "'w \<Rightarrow> 'w \<times> int"
  parse_date :: "string \<Rightarrow> int option"

definition enc_AppStats :: "AppStats \<Rightarrow> json" where
  "enc_AppStats a = JObj
    (member ''date'' (JStr (as_Date a)) @ member ''pushapi'' (jint (as_PushApi a)) @ member ''send'' (jint (as_Send a)) @
     member ''received'' (jint (as_Received a)) @ member ''click'' (jint (as_Click a)))"

definition stats_date :: "'w stats_env \<Rightarrow> string \<Rightarrow> 'w \<Rightarrow> 'w \<times> int option" where
  "stats_date e s w =
    (if s = [] then (let (w1, t) = xnow e w in (w1, Some t)) else (w, parse_date e s))"

definition stats_period :: "'w stats_env \<Rightarrow> request \<Rightarrow> 'w \<Rightarrow> 'w \<times> (rest_response + int \<times> int)" where
  "stats_period e rq w =
    (case stats_date e (FormValue rq ''start_date'') w of
       (w1, None) \<Rightarrow> (w1, Inl (RestError ''invalid date format'' 400))
     | (w1, Some start) \<Rightarrow>
         (case stats_date e (FormValue rq ''end_date'') w1 of
            (w2, None) \<Rightarrow> (w2, Inl (RestError ''invalid date format'' 400))
          | (w2, Some stop) \<Rightarrow>
              (w2, if stop < start then Inl (RestError ''start date greater than end date'' 400) else Inr (start, stop))))"

definition stats_answer :: "'w \<times> AppStats list result \<Rightarrow> 'w \<times> rest_response" where
  "stats_answer r =
    (case r of
       (w, Inl _) \<Rightarrow> (w, RestError ''storage I/O failed'' 500)
     | (w, Inr xs) \<Rightarrow>
         (w, RestJson (enc_Response \<lparr>rp_ErrNo = 0, rp_ErrMsg = [], rp_Data = Some (JArr (map enc_AppStats xs))\<rparr>)))"

definition getAppStats :: "'w stats_env \<Rightarrow> request \<Rightarrow> 'w \<Rightarrow> 'w \<times> rest_response" where
  "getAppStats e rq w =
    (let appId = FormValue rq ''appid'' in
     if appId = [] then (w, RestError (''missing '' @ qu ''appid'') 400)
     else (case stats_period e rq w of
             (w1, Inl r) \<Rightarrow> (w1, r)
           | (w1, Inr (start, stop)) \<Rightarrow> stats_answer (GetAppStats (xstore e) w1 appId start stop)))"

definition getSysStats :: "'w stats_env \<Rightarrow> request \<Rightarrow> 'w \<Rightarrow> 'w \<times> rest_response" where
  "getSysStats e rq w =
    (case stats_period e rq w of
       (w1, Inl r) \<Rightarrow> (w1, r)
     | (w1, Inr (start, stop)) \<Rightarrow> stats_answer (GetSysStats (xstore e) w1 start stop))"

subsection \<open>The days of a report\<close>

text \<open>The times from \<open>start\<close> in steps of a day up to \<open>stop\<close>.\<close>

definition period :: "int \<Rightarrow> int \<Rightarrow> int list" where
  "period start stop = map (\<lambda>i. start + int i * day_ns) [0..<nat ((stop - start) div day_ns + 1)]"

lemma period_rec: "period start stop = (if stop < start then [] else start # period (start + day_ns) stop)"
proof (cases "stop < start")
  case True
  then have "(stop - start) div day_ns < 0" by (simp add: day_ns_def)
  then show ?thesis using True by (simp add: period_def)
next
  case False
  define n where "n = nat ((stop - start) div day_ns)"
  have p: "0 \<le> (stop - start) div day_ns" using False by (simp add: day_ns_def)
  have "stop - (start + day_ns) = (stop - start) + (-1) * day_ns" by simp
  then have "(stop - (start + day_ns)) div day_ns = (stop - start) div day_ns - 1"
    using div_mult_self1[of day_ns "stop - start" "-1"] by (simp add: day_ns_def)
  then have "nat ((stop - (start + day_ns)) div day_ns + 1) = n" "nat ((stop - start) div day_ns + 1) = Suc n"
    using p by (simp_all add: n_def)
  moreover have "[0..<Suc n] = 0 # map Suc [0..<n]" by (simp add: upt_conv_Cons map_Suc_upt del: upt_Suc)
  ultimately show ?thesis using False by (simp add: period_def comp_def algebra_simps del: upt_Suc)
qed

lemma stats_loop_days:
  "stats_loop r get start stop acc w = (w', Inr xs) \<Longrightarrow>
    map as_Date xs = map as_Date acc @ map (date_format (pool r)) (period start stop)"
proof (induction r get start stop acc w arbitrary: w' xs rule: stats_loop.induct)
  case (1 r get start stop acc w)
  show ?case
  proof (cases "stop < start")
    case True
    then show ?thesis using 1(2) by (simp add: stats_loop.simps[of r get start] period_rec[of start])
  next
    case False
    obtain w1 st where d: "day_stats r get start w = (w1, Inr st)"
        "stats_loop r get (start + day_ns) stop (acc @ [st]) w1 = (w', Inr xs)"
      using 1(2) False by (auto simp: stats_loop.simps[of r get start] split: prod.splits sum.splits)
    have "as_Date st = date_format (pool r) start" using d(1) by (auto simp: day_stats_def split: prod.splits sum.splits)
    then show ?thesis using 1(1)[OF False d(1)[symmetric] refl d(2)] False by (simp add: period_rec[of start])
  qed
qed

text \<open>Only an end is given, and it is the day's own date: the start is the present time, which is later.\<close>

lemma end_date_of_today_refused:
  assumes "FormValue rq ''start_date'' = []" "FormValue rq ''end_date'' \<noteq> []" "FormValue rq ''appid'' \<noteq> []"
    and "xnow e w = (w1, t)" "parse_date e (FormValue rq ''end_date'') = Some midnight" "midnight < t"
  shows "getAppStats e rq w = (w1, RestError ''start date greater than end date'' 400)"
  using assms by (simp add: getAppStats_def stats_period_def stats_date_def)

end
