(* ===== verification/Redis_Pool.thy ===== *)
theory Redis_Pool
  imports Config Redis_Storage
begin

text \<open>
  The pool of Redis connections that \<open>storage/redis.go\<close> sets up: its limits, how it makes a connection and how it
  tests one that it lends again. The redigo package is a parameter: \<open>rp_dial\<close> connects with three times, and
  \<open>rp_do\<close> sends a command on a connection.
\<close>

record ('w, 'c) redis_net =
  rp_dial :: "'w \<Rightarrow> string \<Rightarrow> int \<Rightarrow> int \<Rightarrow> int \<Rightarrow> 'w \<times> 'c result"
  rp_do :: "'w \<Rightarrow> 'c \<Rightarrow> string \<Rightarrow> redis_arg list \<Rightarrow> 'w \<times> go_error option"

record pool_settings =
  pl_Server :: string
  pl_Pass :: string
  pl_MaxActive :: int
  pl_MaxIdle :: int
  pl_IdleTimeout :: int
  pl_Connect :: int
  pl_Read :: int
  pl_Write :: int
  pl_retry :: int

definition newRedisStorage :: "RedisConfig \<Rightarrow> pool_settings" where
  "newRedisStorage c =
    \<lparr>pl_Server = rd_Server c, pl_Pass = rd_Pass c, pl_MaxActive = rd_MaxActive c, pl_MaxIdle = rd_MaxIdle c,
     pl_IdleTimeout = seconds (rd_IdleTimeout c), pl_Connect = seconds (rd_ConnTimeout c),
     pl_Read = seconds (rd_ReadTimeout c), pl_Write = seconds (rd_WriteTimeout c), pl_retry = rd_Retry c\<rparr>"

definition NewRedisStorage :: "ConfigStruct \<Rightarrow> pool_settings" where
  "NewRedisStorage cfg = newRedisStorage (cfg_Redis cfg)"

text \<open>The function \<open>Dial\<close> of the pool.\<close>

definition pool_dial :: "('w, 'c) redis_net \<Rightarrow> pool_settings \<Rightarrow> 'w \<Rightarrow> 'w \<times> 'c result" where
  "pool_dial n p w =
    (case rp_dial n w (pl_Server p) (pl_Connect p) (pl_Read p) (pl_Write p) of
       (w1, Inl err) \<Rightarrow> (w1, Inl err)
     | (w1, Inr c) \<Rightarrow>
         if pl_Pass p = [] then (w1, Inr c)
         else case rp_do n w1 c ''AUTH'' [AStr (pl_Pass p)] of
                (w2, Some err) \<Rightarrow> (w2, Inl err)
              | (w2, None) \<Rightarrow> (w2, Inr c))"

definition TestOnBorrow :: "('w, 'c) redis_net \<Rightarrow> 'c \<Rightarrow> 'w \<Rightarrow> 'w \<times> go_error option" where
  "TestOnBorrow n c w = rp_do n w c ''PING'' []"

text \<open>A connection is lent only when the password was accepted, or there is none.\<close>

lemma pool_dial_authenticated:
  assumes "pool_dial n p w = (w', Inr c)"
  shows "\<exists>w1. rp_dial n w (pl_Server p) (pl_Connect p) (pl_Read p) (pl_Write p) = (w1, Inr c) \<and>
    (pl_Pass p = [] \<and> w' = w1 \<or> rp_do n w1 c ''AUTH'' [AStr (pl_Pass p)] = (w', None))"
  using assms by (auto simp: pool_dial_def split: prod.splits sum.splits if_splits option.splits)

text \<open>A refused password leaves a connection that was opened and that nobody has: the pool gets an error. So a
  server with a wrong password opens one connection for every command that it tries.\<close>

lemma refused_connection_lost:
  assumes "rp_dial n w (pl_Server p) (pl_Connect p) (pl_Read p) (pl_Write p) = (w1, Inr c)" "pl_Pass p \<noteq> []"
    and "rp_do n w1 c ''AUTH'' [AStr (pl_Pass p)] = (w2, Some err)"
  shows "pool_dial n p w = (w2, Inl err)"
  using assms by (simp add: pool_dial_def)

end
