(* ===== verification/Routes.thy ===== *)
theory Routes
  imports Go_Strings
begin

text \<open>
  Which handler of the push API serves a request: \<open>startHttp\<close> of \<open>pushapi/main.go\<close>. The standard library's
  \<open>ServeMux\<close> takes the longest pattern that the path matches, one with a slash at its end matching every path
  that it begins; paths are those that the library has cleaned. Below it two applications of the REST package
  have routes of their own; how the package matches a pattern with parameters is the parameter \<open>fits\<close>, and it
  takes methods as upper case. An application may have a middleware before its routes.
\<close>

datatype rest_handler =
    H_getDeviceList | H_getDevice | H_controlDevice | H_getStats | H_deleteStats | H_getAppStats | H_getSysStats
  | H_getRouterList | H_postRouterCommand | H_GetStatus | AuthMiddleware rest_handler

definition control_routes :: "(string \<times> string \<times> rest_handler) list" where
  "control_routes =
    [(''GET'', ''/devices'', H_getDeviceList),
     (''GET'', ''/devices/:devid'', H_getDevice),
     (''POST'', ''/devices/:devid'', AuthMiddleware H_controlDevice),
     (''GET'', ''/stats/control'', H_getStats),
     (''DELETE'', ''/stats/control'', H_deleteStats),
     (''GET'', ''/stats/app'', H_getAppStats),
     (''GET'', ''/stats/sys'', H_getSysStats),
     (''GET'', ''/.status'', H_GetStatus)]"

definition router_routes :: "(string \<times> string \<times> rest_handler) list" where
  "router_routes =
    [(''GET'', ''/list'', H_getRouterList),
     (''POST'', ''/command'', H_postRouterCommand),
     (''GET'', ''/.status'', H_GetStatus)]"

datatype mux_entry =
    ControlApp | SignedRouterApp
  | M_messageHandler | M_serverHandler | M_appHandler | M_app2Handler | M_testHandler

definition mux_patterns :: "(string \<times> mux_entry) list" where
  "mux_patterns =
    [(''/api/v1/'', ControlApp),
     (''/router/'', SignedRouterApp),
     (''/api/v1/message'', M_messageHandler),
     (''/api/v1/server'', M_serverHandler),
     (''/api/v1/app'', M_appHandler),
     (''/api/v1/app2'', M_app2Handler),
     (''/test/message/confirm'', M_testHandler)]"

definition path_match :: "string \<Rightarrow> string \<Rightarrow> bool" where
  "path_match pattern path \<longleftrightarrow>
    (if pattern \<noteq> [] \<and> last pattern = CHR ''/'' then HasPrefix path pattern else path = pattern)"

text \<open>The longest of the patterns that match; two of them never have the same length, both beginning the path.\<close>

definition mux_find :: "(string \<times> 'h) list \<Rightarrow> string \<Rightarrow> (string \<times> 'h) option" where
  "mux_find ps path =
    foldl (\<lambda>best p. if path_match (fst p) path \<and> (case best of None \<Rightarrow> True | Some b \<Rightarrow> length (fst b) < length (fst p))
                    then Some p else best) None ps"

datatype served = NotFound | Handler mux_entry | Rest rest_handler | SignedRest rest_handler

definition rest_find :: "(string \<Rightarrow> string \<Rightarrow> bool) \<Rightarrow> (string \<times> string \<times> rest_handler) list \<Rightarrow> string \<Rightarrow> string \<Rightarrow> rest_handler option" where
  "rest_find fits rs method path =
    map_option (\<lambda>(m, p, h). h) (find (\<lambda>(m, p, h). m = method \<and> fits p path) rs)"

text \<open>\<open>SignedRest\<close> is behind the middleware that checks the sign of a request before it is routed.\<close>

definition serve :: "(string \<Rightarrow> string \<Rightarrow> bool) \<Rightarrow> string \<Rightarrow> string \<Rightarrow> served" where
  "serve fits method path =
    (case mux_find mux_patterns path of
       None \<Rightarrow> NotFound
     | Some (_, ControlApp) \<Rightarrow>
         (case rest_find fits control_routes method (TrimPrefix path ''/api/v1'') of None \<Rightarrow> NotFound | Some h \<Rightarrow> Rest h)
     | Some (_, SignedRouterApp) \<Rightarrow>
         (case rest_find fits router_routes method (TrimPrefix path ''/router'') of None \<Rightarrow> NotFound | Some h \<Rightarrow> SignedRest h)
     | Some (_, h) \<Rightarrow> Handler h)"

subsection \<open>What is guarded\<close>

lemma rest_find_in: "rest_find fits rs method path = Some h \<Longrightarrow> \<exists>p. (method, p, h) \<in> set rs \<and> fits p path"
  by (auto simp: rest_find_def find_Some_iff) (metis nth_mem)

text \<open>No request reaches \<open>controlDevice\<close> but through the check of its signature, or \<open>postRouterCommand\<close> but through
  the check of its sign.\<close>

lemma control_is_guarded:
  "serve fits method path \<noteq> Rest H_controlDevice \<and> serve fits method path \<noteq> Rest H_postRouterCommand"
proof -
  have "h \<noteq> H_controlDevice \<and> h \<noteq> H_postRouterCommand" if "rest_find fits control_routes method p = Some h" for h p
    using rest_find_in[OF that] by (auto simp: control_routes_def)
  then show ?thesis by (auto simp: serve_def split: option.splits mux_entry.splits)
qed

lemma router_is_signed:
  assumes "mux_find mux_patterns path = Some (p, SignedRouterApp)"
  shows "serve fits method path \<in> insert NotFound (SignedRest ` {H_getRouterList, H_postRouterCommand, H_GetStatus})"
proof (cases "rest_find fits router_routes method (TrimPrefix path ''/router'')")
  case (Some h)
  then have "h \<in> {H_getRouterList, H_postRouterCommand, H_GetStatus}"
    using rest_find_in[OF Some] by (auto simp: router_routes_def)
  then show ?thesis using assms Some by (auto simp: serve_def)
qed (simp add: serve_def assms)

text \<open>The paths of the push API are its own, though they begin like those of the control API.\<close>

lemma push_paths:
  "serve fits method ''/api/v1/message'' = Handler M_messageHandler"
  "serve fits method ''/api/v1/app'' = Handler M_appHandler"
  "serve fits method ''/api/v1/app2'' = Handler M_app2Handler"
  "serve fits method ''/api/v1/server'' = Handler M_serverHandler"
  by (simp_all add: serve_def mux_find_def mux_patterns_def path_match_def HasPrefix_def)

end
