(* ===== verification/Go_Format.thy ===== *)
theory Go_Format
  imports Go_Float "HOL-Library.Word"
begin

text \<open>
  Formatting of numbers and times in \<open>utils/utils.go\<close> and \<open>utils/jsonmessage.go\<close>: \<open>float64\<close> arithmetic on
  non-negative numbers as exact fractions that are rounded after every operation, the verb \<open>%.4g\<close>, \<open>HumanSize\<close>,
  and times of whole seconds as text. \<open>human_size_bounded\<close> says that every size finds its unit.
\<close>

text \<open>Division of integers, which truncates towards zero.\<close>

definition quot :: "int \<Rightarrow> int \<Rightarrow> int" where
  "quot a b = sgn a * sgn b * (\<bar>a\<bar> div \<bar>b\<bar>)"

text \<open>\<open>strings.Repeat\<close> panics on a negative count; \<open>%8v\<close> fills up on the left.\<close>

definition Repeat :: "string \<Rightarrow> int \<Rightarrow> string option" where
  "Repeat s n = (if n < 0 then None else Some (concat (replicate (nat n) s)))"

definition pad8 :: "string \<Rightarrow> string" where
  "pad8 s = replicate (8 - length s) (CHR '' '') @ s"

subsection \<open>Arithmetic\<close>

type_synonym float64 = "bool \<times> nat \<times> int"

text \<open>A float as a fraction, and the float nearest to a fraction; the numbers here are far from the largest.\<close>

definition fraction :: "nat \<times> int \<Rightarrow> nat \<times> nat" where
  "fraction f = scaled 2 (fst f) 1 (snd f)"

definition round_to_float :: "nat \<Rightarrow> nat \<Rightarrow> nat \<times> int" where
  "round_to_float a b = (case nearest_float a b of Some f \<Rightarrow> f | None \<Rightarrow> (2 ^ 53, 971))"

definition float_of_int :: "int \<Rightarrow> float64" where
  "float_of_int i = (i < 0, round_to_float (nat \<bar>i\<bar>) 1)"

definition fdiv :: "float64 \<Rightarrow> float64 \<Rightarrow> float64" where
  "fdiv x y =
    (let (a, b) = fraction (snd x); (c, d) = fraction (snd y)
     in (fst x \<noteq> fst y, round_to_float (a * d) (b * c)))"

definition fmul :: "float64 \<Rightarrow> float64 \<Rightarrow> float64" where
  "fmul x y =
    (let (a, b) = fraction (snd x); (c, d) = fraction (snd y)
     in (fst x \<noteq> fst y, round_to_float (a * c) (b * d)))"

subsection \<open>The verb \<open>%.4g\<close>\<close>

definition strip_zeros :: "string \<Rightarrow> string" where
  "strip_zeros s = rev (dropWhile (\<lambda>c. c = CHR ''0'') (rev s))"

text \<open>Four significant digits of a fraction of at least 1, and its decimal exponent.\<close>

definition digits4 :: "nat \<Rightarrow> nat \<Rightarrow> nat \<times> nat" where
  "digits4 a b =
    (let e = length (format_nat (a div b)) - 1; d = round_even (a * 1000) (b * 10 ^ e)
     in if d = 10000 then (1000, e + 1) else (d, e))"

text \<open>Trailing zeros are dropped; the exponent is shown when it is not below the number of digits, which is 4
  unless fewer digits say it all.\<close>

definition format_4g :: "float64 \<Rightarrow> string" where
  "format_4g x =
    (let (a, b) = fraction (snd x)
     in if a = 0 then ''0''
        else let (d, e) = digits4 a b; ds = strip_zeros (format_nat d);
                 limit = (if length ds < 4 \<and> e < length ds then length ds else 4);
                 point = (\<lambda>f. if f = [] then [] else CHR ''.'' # f)
             in (if fst x then ''-'' else []) @
                (if limit \<le> e
                 then take 1 ds @ point (drop 1 ds) @ ''e+'' @ (if e < 10 then ''0'' else []) @ format_nat e
                 else take (e + 1) (ds @ replicate 4 (CHR ''0'')) @ point (drop (e + 1) ds)))"

subsection \<open>HumanSize\<close>

text \<open>\<open>None\<close>: the index is out of the range of the units.\<close>

fun human_loop :: "string list \<Rightarrow> float64 \<Rightarrow> (float64 \<times> string) option" where
  "human_loop [] f = None"
| "human_loop (u # us) f =
    (let (a, b) = fraction (snd f)
     in if \<not> fst f \<and> 1000 * b \<le> a then human_loop us (fdiv f (float_of_int 1000)) else Some (f, u))"

definition size_units :: "string list" where
  "size_units = [''B'', ''kB'', ''MB'', ''GB'', ''TB'', ''PB'', ''EB'', ''ZB'', ''YB'']"

definition HumanSize :: "int \<Rightarrow> string option" where
  "HumanSize n = map_option (\<lambda>(f, u). format_4g f @ '' '' @ u) (human_loop size_units (float_of_int n))"

subsection \<open>Whole seconds\<close>

text \<open>\<open>Duration.String\<close> of \<open>n\<close> whole seconds.\<close>

definition seconds_text :: "int \<Rightarrow> string" where
  "seconds_text n =
    (let s = nat \<bar>n\<bar>; sec = format_nat (s mod 60) @ ''s''; min = format_nat (s div 60 mod 60) @ ''m'';
         hour = format_nat (s div 3600) @ ''h''
     in (if n < 0 then ''-'' else []) @
        (if s < 60 then sec else if s < 3600 then min @ sec else hour @ min @ sec))"

subsection \<open>Durations\<close>

text \<open>The sum of two floats that are not negative, and the verb \<open>%f\<close> for such a float.\<close>

definition fadd_pos :: "float64 \<Rightarrow> float64 \<Rightarrow> float64" where
  "fadd_pos x y =
    (let (a, b) = fraction (snd x); (c, d) = fraction (snd y) in (False, round_to_float (a * d + c * b) (b * d)))"

definition format_6f :: "float64 \<Rightarrow> string" where
  "format_6f x =
    (let (a, b) = fraction (snd x); q = round_even (a * 1000000) b; r = format_nat (q mod 1000000)
     in (if fst x then ''-'' else []) @ format_nat (q div 1000000) @ ''.'' @ replicate (6 - length r) (CHR ''0'') @ r)"

text \<open>\<open>Duration.Seconds\<close>, \<open>Minutes\<close> and \<open>Hours\<close> of \<open>d\<close> nanoseconds, \<open>d\<close> not negative: the whole units and the rest
  as a fraction of the unit.\<close>

definition in_units :: "int \<Rightarrow> int \<Rightarrow> float64" where
  "in_units unit d = fadd_pos (float_of_int (d div unit)) (fdiv (float_of_int (d mod unit)) (float_of_int unit))"

definition HumanDuration :: "int \<Rightarrow> string" where
  "HumanDuration d =
    (let seconds = (if d < 0 then 0 else float_int64 (in_units 1000000000 d));
         minutes = float_int64 (in_units 60000000000 d);
         hours = float_int64 (in_units 3600000000000 d)
     in if seconds < 1 then ''Less than a second''
        else if seconds < 60 then FormatInt seconds @ '' seconds''
        else if minutes = 1 then ''About a minute''
        else if minutes < 60 then FormatInt minutes @ '' minutes''
        else if hours = 1 then ''About an hour''
        else if hours < 48 then FormatInt hours @ '' hours''
        else if hours < 24 * 7 * 2 then FormatInt (hours div 24) @ '' days''
        else if hours < 24 * 30 * 3 then FormatInt (hours div 24 div 7) @ '' weeks''
        else if hours < 24 * 365 * 2 then FormatInt (hours div 24 div 30) @ '' months''
        else format_6f (fdiv (fdiv (in_units 3600000000000 d) (float_of_int 24)) (float_of_int 365)) @ '' years'')"

lemma HumanDuration_negative: "d < 0 \<Longrightarrow> HumanDuration d = ''Less than a second''"
  by (simp add: HumanDuration_def Let_def)

subsection \<open>Sizes have units\<close>

lemma round_even_bound: "b * round_even a b \<le> 2 * a"
proof -
  have d: "b * (a div b) + a mod b = a" by simp
  have "b * round_even a b \<le> b * (a div b) + 2 * (a mod b)"
    by (simp add: round_even_def Let_def algebra_simps)
  then show ?thesis using d by linarith
qed

text \<open>A float is at most \<open>x / y\<close>.\<close>

definition below :: "nat \<times> int \<Rightarrow> nat \<Rightarrow> nat \<Rightarrow> bool" where
  "below f x y \<longleftrightarrow> fst (fraction f) * y \<le> x * snd (fraction f)"

lemma fraction_pos: "0 < snd (fraction f)"
  by (simp add: fraction_def scaled_def)

lemma nearest_float_below: "nearest_float a b = Some f \<Longrightarrow> below f (2 * a) b"
  using round_even_bound[of b "a * 2 ^ nat (- last_bit a b)"] round_even_bound[of "b * 2 ^ nat (last_bit a b)" a]
  by (cases "last_bit a b = 0")
    (auto simp: nearest_float_def below_def fraction_def scaled_def Let_def ac_simps split: if_splits)

lemma nearest_float_None:
  assumes "nearest_float a b = None"
  shows "2 ^ 1024 * b \<le> 2 * a"
proof -
  let ?e = "last_bit a b"
  have e: "0 \<le> ?e" using assms by (auto simp: nearest_float_def Let_def split: prod.splits if_splits)
  then have s: "scaled 2 a b (- ?e) = (a, b * 2 ^ nat ?e)" by (auto simp: scaled_def)
  with assms have "2 ^ 1024 \<le> round_even a (b * 2 ^ nat ?e) * 2 ^ nat ?e"
    by (simp add: nearest_float_def Let_def split: if_splits)
  then have "2 ^ 1024 * b \<le> b * 2 ^ nat ?e * round_even a (b * 2 ^ nat ?e)" by (metis mult.commute mult.left_commute mult_le_mono2)
  then show ?thesis using round_even_bound[of "b * 2 ^ nat ?e" a] by linarith
qed

lemma round_to_float_below:
  assumes "2 * a < 2 ^ 1024 * b"
  shows "below (round_to_float a b) (2 * a) b"
  using assms nearest_float_None[of a b] nearest_float_below[of a b] by (cases "nearest_float a b") (auto simp: round_to_float_def)

lemma float_1000: "\<exists>n. fraction (snd (float_of_int 1000)) = (1000 * 2 ^ n, 2 ^ n)"
proof -
  obtain e where "nearest_float 1000 1 = Some (1000 * 2 ^ nat (- e), e)" "e \<le> 0" by (rule nearest_float_nat[of 1000]) auto
  then show ?thesis by (intro exI[of _ "nat (- e)"]) (auto simp: float_of_int_def round_to_float_def fraction_def scaled_def)
qed

lemma fdiv_1000_below:
  assumes "below (snd f) x y" "x < 2 ^ 1000 * y" "0 < y"
  shows "below (snd (fdiv f (float_of_int 1000))) x (500 * y)"
proof -
  obtain a b where ab: "fraction (snd f) = (a, b)" "0 < b" using fraction_pos[of "snd f"] by (cases "fraction (snd f)") auto
  obtain n where n: "fraction (snd (float_of_int 1000)) = (1000 * 2 ^ n, 2 ^ n)" using float_1000 by blast
  have l: "a * y \<le> x * b" using assms(1) ab by (simp add: below_def)
  then have "a * y < 2 ^ 1000 * b * y" using assms(2) ab(2) by (metis (no_types, lifting) le_less_trans mult.commute mult.left_commute mult_less_mono1)
  then have "a < 2 ^ 1000 * b" by simp
  then have "2 * (a * 2 ^ n) < 2 * (2 ^ 1000 * b * 2 ^ n)" by simp
  also have "\<dots> \<le> 2 ^ 1024 * (b * (1000 * 2 ^ n))" by simp
  finally have "below (round_to_float (a * 2 ^ n) (b * (1000 * 2 ^ n))) (2 * (a * 2 ^ n)) (b * (1000 * 2 ^ n))"
    by (rule round_to_float_below)
  moreover obtain A B where AB: "fraction (round_to_float (a * 2 ^ n) (b * (1000 * 2 ^ n))) = (A, B)" by fastforce
  ultimately have "2 * 2 ^ n * (A * b * 500) \<le> 2 * 2 ^ n * (a * B)" by (simp add: below_def ac_simps)
  then have "A * b * 500 \<le> a * B" by (simp only: nat_mult_le_cancel_disj) simp
  then have "A * b * 500 * y \<le> a * y * B" by (metis mult.assoc mult.commute mult_le_mono1)
  also have "\<dots> \<le> x * b * B" using l by (rule mult_le_mono1)
  finally have "b * (A * (500 * y)) \<le> b * (x * B)" by (simp add: ac_simps)
  then have "A * (500 * y) \<le> x * B" using ab(2) by simp
  then show ?thesis by (simp add: fdiv_def ab n AB below_def)
qed

lemma human_loop_ends:
  assumes "below (snd f) x y" "x < 1000 * 500 ^ length us * y" "length us \<le> 10" "0 < y"
  shows "\<exists>r. human_loop (u # us) f = Some r"
  using assms
proof (induction us arbitrary: u f y)
  case Nil
  obtain a b where ab: "fraction (snd f) = (a, b)" "0 < b" using fraction_pos[of "snd f"] by (cases "fraction (snd f)") auto
  have "a * y \<le> x * b" using Nil(1) ab by (simp add: below_def)
  also have "\<dots> < 1000 * y * b" using Nil(2) ab(2) by (intro mult_less_mono1) simp_all
  finally have "a * y < 1000 * b * y" by (simp add: ac_simps)
  then have "human_loop [u] f = Some (f, u)" using ab by simp
  then show ?case by blast
next
  case (Cons v us)
  have "x < 2 ^ 1000 * y"
  proof -
    have "(500::nat) ^ length (v # us) \<le> 500 ^ 10" using Cons.prems(3) by (intro power_increasing) auto
    then have "1000 * 500 ^ length (v # us) * y \<le> 1000 * 500 ^ 10 * y" by simp
    also have "\<dots> \<le> 2 ^ 1000 * y" by simp
    finally show ?thesis using Cons.prems(2) by linarith
  qed
  note b = fdiv_1000_below[OF Cons.prems(1) this Cons.prems(4)]
  have "x < 1000 * 500 ^ length us * (500 * y)" using Cons.prems(2) by (simp only: length_Cons power_Suc ac_simps)
  from Cons.IH[OF b this] Cons.prems(3,4) have i: "\<exists>r. human_loop (v # us) (fdiv f (float_of_int 1000)) = Some r"
    by (simp only: length_Cons)
  obtain a b where ab: "fraction (snd f) = (a, b)" by fastforce
  show ?case
  proof (cases "\<not> fst f \<and> 1000 * b \<le> a")
    case True
    then have "human_loop (u # v # us) f = human_loop (v # us) (fdiv f (float_of_int 1000))"
      by (subst human_loop.simps(2)) (simp only: ab Let_def prod.case simp_thms if_True)
    then show ?thesis using i by simp
  next
    case False
    then have "human_loop (u # v # us) f = Some (f, u)"
      by (subst human_loop.simps(2)) (simp only: ab Let_def prod.case if_False)
    then show ?thesis by blast
  qed
qed

text \<open>Every \<open>int64\<close> has a unit, so the index stays in its range.\<close>

lemma human_size_bounded:
  assumes "int64_range n"
  shows "\<exists>t. HumanSize n = Some t"
proof -
  have n: "nat \<bar>n\<bar> \<le> 2 ^ 63" using assms by (auto simp: int64_range_def nat_le_iff)
  have "below (snd (float_of_int n)) (2 * nat \<bar>n\<bar>) 1"
    unfolding float_of_int_def snd_conv by (rule round_to_float_below) (use n in \<open>simp add: le_less_trans[of _ "2 ^ 64"]\<close>)
  from human_loop_ends[OF this, of "tl size_units" "hd size_units"] n show ?thesis
    by (auto simp: HumanSize_def size_units_def)
qed

end
