(* ===== verification/Json_Messages.thy ===== *)
theory Json_Messages
  imports Go_Format Http
begin

text \<open>
  \<open>utils/jsonmessage.go\<close>: a stream of JSON messages about the progress of something is shown on a writer, which
  may be a terminal. The text written is a result; errors of the writer are dropped by the code. \<open>now\<close> is the time
  in nanoseconds, \<open>time_text\<close> how the local time of a number of seconds is printed. \<open>None\<close> is a panic.
\<close>

record JSONError =
  je_Code :: int
  je_Message :: string

record JSONProgress =
  jp_Current :: int
  jp_Total :: int
  jp_Start :: int

record JSONMessage =
  jm_Stream :: string
  jm_Status :: string
  jm_Progress :: "JSONProgress option"
  jm_ProgressMessage :: string
  jm_ID :: string
  jm_From :: string
  jm_Time :: int
  jm_Error :: "JSONError option"
  jm_ErrorMessage :: string

definition zero_JSONMessage :: JSONMessage where
  "zero_JSONMessage = \<lparr>jm_Stream = [], jm_Status = [], jm_Progress = None, jm_ProgressMessage = [], jm_ID = [],
     jm_From = [], jm_Time = 0, jm_Error = None, jm_ErrorMessage = []\<rparr>"

text \<open>A pointer to a structure: \<open>null\<close> makes it nil, another value is decoded into what it points to.\<close>

definition dec_pointer :: "'a decoder \<Rightarrow> 'a \<Rightarrow> 'a option decoder" where
  "dec_pointer d z j x =
    (case j of JNull \<Rightarrow> (None, True) | _ \<Rightarrow> (let (v, ok) = d j (case x of None \<Rightarrow> z | Some y \<Rightarrow> y) in (Some v, ok)))"

definition dec_JSONError :: "JSONError decoder" where
  "dec_JSONError = dec_struct
    [field ''code'' je_Code je_Code_update dec_int64,
     field ''message'' je_Message je_Message_update dec_string]"

definition dec_JSONProgress :: "JSONProgress decoder" where
  "dec_JSONProgress = dec_struct
    [field ''current'' jp_Current jp_Current_update dec_int64,
     field ''total'' jp_Total jp_Total_update dec_int64,
     field ''start'' jp_Start jp_Start_update dec_int64]"

definition dec_JSONMessage :: "JSONMessage decoder" where
  "dec_JSONMessage = dec_struct
    [field ''stream'' jm_Stream jm_Stream_update dec_string,
     field ''status'' jm_Status jm_Status_update dec_string,
     field ''progressDetail'' jm_Progress jm_Progress_update
       (dec_pointer dec_JSONProgress \<lparr>jp_Current = 0, jp_Total = 0, jp_Start = 0\<rparr>),
     field ''progress'' jm_ProgressMessage jm_ProgressMessage_update dec_string,
     field ''id'' jm_ID jm_ID_update dec_string,
     field ''from'' jm_From jm_From_update dec_string,
     field ''time'' jm_Time jm_Time_update dec_int64,
     field ''errorDetail'' jm_Error jm_Error_update (dec_pointer dec_JSONError \<lparr>je_Code = 0, je_Message = []\<rparr>),
     field ''error'' jm_ErrorMessage jm_ErrorMessage_update dec_string]"

definition JSONError_Error :: "JSONError \<Rightarrow> string" where
  "JSONError_Error e = je_Message e"

definition NewHTTPRequestError :: "string \<Rightarrow> int \<Rightarrow> JSONError" where
  "NewHTTPRequestError msg statusCode = \<lparr>je_Code = statusCode, je_Message = msg\<rparr>"

subsection \<open>A progress bar\<close>

text \<open>\<open>int(float64(p.Current)/float64(p.Total)*100) / 2\<close>\<close>

definition percentage :: "int \<Rightarrow> int \<Rightarrow> int" where
  "percentage cur tot =
    (let (neg, m, e) = fmul (fdiv (float_of_int cur) (float_of_int tot)) (float_of_int 100)
     in quot (float_int64 (neg, m, e)) 2)"

text \<open>\<open>time.Now().UTC().Sub(...)\<close>, which stops at the longest times that there are.\<close>

definition saturate :: "int \<Rightarrow> int" where
  "saturate i = max (- (2 ^ 63)) (min (2 ^ 63 - 1) i)"

definition time_left :: "int \<Rightarrow> JSONProgress \<Rightarrow> string option" where
  "time_left now p =
    (let fromStart = saturate (now - jp_Start p * 1000000000)
     in if jp_Current p = 0 then None
        else let perEntry = wrap64 (quot fromStart (jp_Current p));
                 left = wrap64 (wrap64 (jp_Total p - jp_Current p) * perEntry)
             in Some ('' '' @ seconds_text (quot left 1000000000)))"

definition JSONProgress_String :: "int \<Rightarrow> JSONProgress \<Rightarrow> string option" where
  "JSONProgress_String now p =
    (if jp_Current p \<le> 0 \<and> jp_Total p \<le> 0 then Some []
     else case HumanSize (jp_Current p) of
       None \<Rightarrow> None
     | Some current \<Rightarrow>
         if jp_Total p \<le> 0 then Some (pad8 current)
         else case HumanSize (jp_Total p) of
           None \<Rightarrow> None
         | Some whole \<Rightarrow>
             (let pc = percentage (jp_Current p) (jp_Total p)
              in case (Repeat ''='' pc, Repeat '' '' (50 - pc)) of
                   (Some full, Some todo) \<Rightarrow>
                     (let bar = ''['' @ full @ ''>'' @ todo @ ''] ''; numbers = pad8 current @ ''/'' @ whole
                      in if 0 < jp_Start p \<and> pc < 50
                         then map_option (\<lambda>t. bar @ numbers @ t) (time_left now p)
                         else Some (bar @ numbers))
                 | _ \<Rightarrow> None))"

subsection \<open>Messages\<close>

definition esc :: string where "esc = [CHR 0x1B]"
definition cr :: string where "cr = [CHR 0x0D]"
definition lf :: string where "lf = [CHR 0x0A]"

definition message_head :: "(int \<Rightarrow> string) \<Rightarrow> JSONMessage \<Rightarrow> string" where
  "message_head time_text jm =
    (if jm_Time jm \<noteq> 0 then ''['' @ time_text (jm_Time jm) @ ''] '' else []) @
    (if jm_ID jm \<noteq> [] then jm_ID jm @ '': '' else []) @
    (if jm_From jm \<noteq> [] then ''(from '' @ jm_From jm @ '') '' else [])"

definition message_rest :: "int \<Rightarrow> string \<Rightarrow> JSONMessage \<Rightarrow> string option" where
  "message_rest now endl jm =
    (case jm_Progress jm of
       Some p \<Rightarrow> map_option (\<lambda>b. jm_Status jm @ '' '' @ b @ endl) (JSONProgress_String now p)
     | None \<Rightarrow>
         Some (if jm_ProgressMessage jm \<noteq> [] then jm_Status jm @ '' '' @ jm_ProgressMessage jm @ endl
               else if jm_Stream jm \<noteq> [] then jm_Stream jm @ endl
               else jm_Status jm @ endl @ lf))"

text \<open>What is written, and the error. A panic leaves what was written before it, which is lost here.\<close>

definition Display :: "(int \<Rightarrow> string) \<Rightarrow> int \<Rightarrow> bool \<Rightarrow> JSONMessage \<Rightarrow> (string \<times> string option) option" where
  "Display time_text now isTerminal jm =
    (case jm_Error jm of
       Some e \<Rightarrow> Some ([], Some (if je_Code e = 401 then ''Authentication is required.'' else JSONError_Error e))
     | None \<Rightarrow>
         if \<not> isTerminal \<and> jm_Progress jm \<noteq> None then Some ([], None)
         else map_option (\<lambda>r. ((if isTerminal then esc @ ''[2K'' @ cr else []) @ message_head time_text jm @ r, None))
           (message_rest now (if isTerminal then cr else []) jm))"

subsection \<open>Streams\<close>

text \<open>The values that successive calls of \<open>Decode\<close> find; the flag says that the text ends after them. Every value
  takes a character at least, so the length of the text is fuel enough.\<close>

fun decode_values :: "nat \<Rightarrow> string \<Rightarrow> json list \<times> bool" where
  "decode_values 0 s = ([], False)"
| "decode_values (Suc k) s =
    (if skip_ws s = [] then ([], True)
     else case parse_value (Suc (length s)) s of
            None \<Rightarrow> ([], False)
          | Some (j, r) \<Rightarrow> (let (js, ok) = decode_values k r in (j # js, ok)))"

text \<open>The part of a turn before \<open>Display\<close>: text, and the lines of the identifiers with the distance \<open>diff\<close>.\<close>

definition find_line :: "bool \<Rightarrow> JSONMessage \<Rightarrow> (string \<Rightarrow> nat option) \<times> nat \<Rightarrow> string \<times> (string \<Rightarrow> nat option) \<times> nat" where
  "find_line isTerminal jm st =
    (let (ids, diff) = st
     in if jm_Progress jm \<noteq> None \<or> jm_ProgressMessage jm \<noteq> [] then
          (let (out, ids1, diff1) = (case ids (jm_ID jm) of
                  None \<Rightarrow> (lf, ids(jm_ID jm \<mapsto> card (dom ids)), 0)
                | Some line \<Rightarrow> ([], ids, card (dom ids) - line))
           in (out @ (if isTerminal then esc @ ''['' @ format_nat diff1 @ ''A'' else []), ids1, diff1))
        else ([], ids, diff))"

text \<open>The text, and how the loop ends: with the end of the stream, an error of \<open>Display\<close>, or one of the decoder.\<close>

datatype stream_end = StreamEnd | DisplayError string | DecodeError

fun display_loop :: "(int \<Rightarrow> string) \<Rightarrow> (nat \<Rightarrow> int) \<Rightarrow> bool \<Rightarrow> json list \<Rightarrow> bool \<Rightarrow> (string \<Rightarrow> nat option) \<times> nat
    \<Rightarrow> (string \<times> stream_end) option" where
  "display_loop time_text now isTerminal [] ok st = Some ([], if ok then StreamEnd else DecodeError)"
| "display_loop time_text now isTerminal (j # js) ok st =
    (case dec_JSONMessage j zero_JSONMessage of
       (_, False) \<Rightarrow> Some ([], DecodeError)
     | (jm, True) \<Rightarrow>
         (let (out1, ids, diff) = find_line isTerminal jm st;
              down = (if jm_ID jm \<noteq> [] \<and> isTerminal then esc @ ''['' @ format_nat diff @ ''B'' else [])
          in case Display time_text (now (length js)) isTerminal jm of
               None \<Rightarrow> None
             | Some (out2, Some err) \<Rightarrow> Some (out1 @ out2 @ down, DisplayError err)
             | Some (out2, None) \<Rightarrow>
                 map_option (\<lambda>(out3, fin). (out1 @ out2 @ down @ out3, fin))
                   (display_loop time_text now isTerminal js ok (ids, diff))))"

definition DisplayJSONMessagesStream :: "(int \<Rightarrow> string) \<Rightarrow> (nat \<Rightarrow> int) \<Rightarrow> bool \<Rightarrow> string \<Rightarrow> (string \<times> stream_end) option" where
  "DisplayJSONMessagesStream time_text now isTerminal input =
    (let (js, ok) = decode_values (Suc (length input)) input
     in display_loop time_text now isTerminal js ok (Map.empty, 0))"

subsection \<open>What is shown\<close>

text \<open>
  What is shown of a stream of messages: every message of a stream is read (\<open>stream_read\<close>), a writer that is no
  terminal gets the plain text of those without progress (\<open>plain_stream\<close>), and some progress that a service may
  well report makes the process panic.
\<close>

subsection \<open>Reading\<close>

text \<open>After an object anything may follow.\<close>

lemma parse_object:
  assumes "wf_json (JObj ms)"
  shows "parse_value (Suc (length (json_text (JObj ms) @ r))) (json_text (JObj ms) @ r) = Some (JObj ms, r)"
proof (cases "ms = []")
  case False
  have l: "list_all (\<lambda>(k, j). wf_json j) ms" using assms by simp
  show ?thesis
    by (rule parse_print_obj) (use parse_print_all(3)[OF l False] False in auto)
qed (simp add: parse_value.simps(2) byte_val_def)

lemma decode_objects:
  assumes "list_all (\<lambda>j. wf_json j \<and> (\<exists>ms. j = JObj ms)) js" "length (concat (map json_text js)) < k"
  shows "decode_values k (concat (map json_text js)) = (js, True)"
  using assms
proof (induction js arbitrary: k)
  case Nil
  then show ?case by (cases k) simp_all
next
  case (Cons j js)
  obtain n where k: "k = Suc n" using Cons.prems(2) by (cases k) auto
  obtain ms where j: "j = JObj ms" and w: "wf_json j" using Cons.prems(1) by auto
  let ?r = "concat (map json_text js)"
  note p = parse_object[OF w[unfolded j], of ?r]
  have "0 < length (json_text j)" by (simp add: j)
  then have "decode_values n ?r = (js, True)" using Cons k by auto
  moreover have "skip_ws (json_text j @ ?r) \<noteq> []" by (simp add: j byte_val_def)
  ultimately show ?case using p by (simp add: k j del: parse_value.simps json_text.simps)
qed

lemma stream_read:
  assumes "list_all (\<lambda>j. wf_json j \<and> (\<exists>ms. j = JObj ms)) js"
  shows "DisplayJSONMessagesStream time_text now isTerminal (concat (map json_text js)) =
    display_loop time_text now isTerminal js True (Map.empty, 0)"
  by (simp add: DisplayJSONMessagesStream_def decode_objects[OF assms] del: display_loop.simps decode_values.simps)

subsection \<open>Plain text\<close>

definition plain_text :: "(int \<Rightarrow> string) \<Rightarrow> JSONMessage \<Rightarrow> string" where
  "plain_text time_text jm =
    message_head time_text jm @ (if jm_Stream jm \<noteq> [] then jm_Stream jm else jm_Status jm @ lf)"

lemma plain_stream:
  assumes "list_all (\<lambda>j. \<exists>jm. dec_JSONMessage j zero_JSONMessage = (jm, True) \<and> jm_Error jm = None \<and>
      jm_Progress jm = None \<and> jm_ProgressMessage jm = []) js"
  shows "display_loop time_text now False js True st =
    Some (concat (map (\<lambda>j. plain_text time_text (fst (dec_JSONMessage j zero_JSONMessage))) js), StreamEnd)"
  using assms
  by (induction js arbitrary: st)
    (auto simp: find_line_def Display_def message_rest_def plain_text_def split: prod.splits)

text \<open>An error ends the stream: nothing of the later messages is shown.\<close>

lemma error_ends_stream:
  assumes "dec_JSONMessage j zero_JSONMessage = (jm, True)" "jm_Error jm = Some e" "jm_Progress jm = None" "jm_ProgressMessage jm = []"
  shows "display_loop time_text now False (j # js) ok st =
    Some ([], DisplayError (if je_Code e = 401 then ''Authentication is required.'' else je_Message e))"
  using assms by (simp add: find_line_def Display_def JSONError_Error_def split: prod.splits)

subsection \<open>Panics\<close>

lemma round_zero: "fst (round_to_float 0 b) = 0"
  by (simp add: round_to_float_def nearest_float_def round_even_def scaled_def Let_def split: prod.splits)

lemma fraction_zero: "fst f = 0 \<Longrightarrow> fst (fraction f) = 0"
  by (simp add: fraction_def scaled_def)

lemma percentage_zero: "percentage 0 n = 0"
proof -
  have z: "fst (snd (float_of_int 0)) = 0" by (simp add: float_of_int_def round_zero)
  have d: "fst (snd (fdiv x y)) = 0" and m: "fst (snd (fmul x y)) = 0" if "fst (snd x) = 0" for x y
    using fraction_zero[OF that] by (auto simp: fdiv_def fmul_def round_zero case_prod_unfold Let_def)
  obtain b e where "fmul (fdiv (float_of_int 0) (float_of_int n)) (float_of_int 100) = (b, 0, e)"
    using m[OF d[OF z], of "float_of_int n" "float_of_int 100"] by (metis prod.collapse)
  then show ?thesis by (simp add: percentage_def float_int64_def int64_range_def quot_def)
qed

text \<open>Progress that has not begun, with a start time, divides by zero.\<close>

lemma no_progress_yet_panics:
  assumes "jp_Current p = 0" "0 < jp_Total p" "0 < jp_Start p" "int64_range (jp_Total p)"
  shows "JSONProgress_String now p = None"
proof -
  obtain c where "HumanSize 0 = Some c" using human_size_bounded[of 0] by (auto simp: int64_range_def)
  moreover obtain t where "HumanSize (jp_Total p) = Some t" using human_size_bounded[OF assms(4)] by blast
  ultimately show ?thesis using assms by (simp add: JSONProgress_String_def percentage_zero Repeat_def time_left_def)
qed

text \<open>More progress than there is to do makes the count of the second \<open>Repeat\<close> negative, negative progress that
  of the first.\<close>

lemma wrong_progress_panics:
  assumes "0 < jp_Total p" "percentage (jp_Current p) (jp_Total p) < 0 \<or> 50 < percentage (jp_Current p) (jp_Total p)"
  shows "JSONProgress_String now p = None"
  using assms by (auto simp: JSONProgress_String_def Repeat_def Let_def split: option.splits)

text \<open>On a terminal a message with an identifier but no progress moves the cursor down by the distance of the
  message before it, though it has not moved up.\<close>

lemma stale_distance:
  assumes "jm_Progress jm = None" "jm_ProgressMessage jm = []" "jm_ID jm \<noteq> []" "jm_Error jm = None"
    and "dec_JSONMessage j zero_JSONMessage = (jm, True)"
  shows "\<exists>t. display_loop time_text now True [j] True (ids, diff) =
    Some (esc @ ''[2K'' @ cr @ t @ esc @ ''['' @ format_nat diff @ ''B'', StreamEnd)"
  using assms by (auto simp: find_line_def Display_def message_rest_def split: prod.splits)

end
