(* ===== verification/Funcmap.thy ===== *)
theory Funcmap
  imports Go_Strings "HOL-Library.Word"
begin

text \<open>
  \<open>utils/funcmap/funcmap.go\<close>: functions under numbers, bound and called by reflection. A value is nil, a
  function or something else; a function says which arguments it takes (their number and types) and what it
  returns. \<open>Call\<close> gives \<open>None\<close> when \<open>reflect\<close> panics on arguments that do not fit.
\<close>

record 'v callable =
  accepts :: "'v list \<Rightarrow> bool"
  invoke :: "'v list \<Rightarrow> 'v list"

datatype 'v go_value = NilValue | OtherValue 'v | FuncValue "'v callable"

type_synonym 'v FuncMap = "32 word \<Rightarrow> 'v callable option"

definition NewFuncMap :: "'v FuncMap" where
  "NewFuncMap = Map.empty"

text \<open>\<open>strconv.Itoa(int(fnid))\<close>\<close>

definition fn_error :: "32 word \<Rightarrow> string \<Rightarrow> string" where
  "fn_error fnid what = FormatInt (uint fnid) @ what"

text \<open>A value that is no function makes \<open>NumIn\<close> or \<open>Type\<close> panic, which \<open>Bind\<close> recovers from.\<close>

definition Bind :: "32 word \<Rightarrow> 'v go_value \<Rightarrow> 'v FuncMap \<Rightarrow> 'v FuncMap \<times> string option" where
  "Bind fnid fn m =
    (case fn of
       FuncValue f \<Rightarrow> (m(fnid \<mapsto> f), None)
     | _ \<Rightarrow> (m, Some (fn_error fnid '' is not callable.'')))"

definition Call :: "32 word \<Rightarrow> 'v list \<Rightarrow> 'v FuncMap \<Rightarrow> (string + 'v list) option" where
  "Call fnid params m =
    (case m fnid of
       None \<Rightarrow> Some (Inl (fn_error fnid '' does not exist.''))
     | Some f \<Rightarrow> if accepts f params then Some (Inr (invoke f params)) else None)"

definition Exist :: "32 word \<Rightarrow> 'v FuncMap \<Rightarrow> bool" where
  "Exist fnid m \<longleftrightarrow> m fnid \<noteq> None"

subsection \<open>What was bound is called\<close>

lemma Call_bound:
  "accepts f params \<Longrightarrow> Call fnid params (fst (Bind fnid (FuncValue f) m)) = Some (Inr (invoke f params))"
  by (simp add: Bind_def Call_def)

lemma Bind_other: "fnid' \<noteq> fnid \<Longrightarrow> Call fnid' params (fst (Bind fnid fn m)) = Call fnid' params m"
  by (simp add: Bind_def Call_def split: go_value.split)

lemma Bind_refused:
  assumes "Bind fnid fn m = (m', Some e)"
  shows "m' = m \<and> (\<forall>f. fn \<noteq> FuncValue f)"
  using assms by (auto simp: Bind_def split: go_value.splits)

lemma Exist_iff: "Exist fnid m \<longleftrightarrow> (\<forall>params e. Call fnid params m \<noteq> Some (Inl e))"
  by (auto simp: Exist_def Call_def split: option.splits)

text \<open>Only a call panics, and only with arguments that do not fit.\<close>

lemma Call_panics: "Call fnid params m = None \<longleftrightarrow> (\<exists>f. m fnid = Some f \<and> \<not> accepts f params)"
  by (auto simp: Call_def split: option.splits)

end
