(* ===== verification/Host.thy ===== *)
theory Host
  imports Utils_Text Convert
begin

text \<open>
  \<open>GetLocalIP\<close> of \<open>utils/utils.go\<close>: the address by which a comet server is known. It is the server's name in the
  storage, the name of its queue, the key of its commands and the address that it puts into ZooKeeper. The
  network interfaces, as the \<open>net\<close> package shows them, are the argument. The name servers of \<open>resolv.conf\<close>
  (\<open>GetNameserversAsCIDR\<close>) are here too, as are the helpers for paths, files, requests and log lines.
\<close>

text \<open>An address of an interface: an IP network with the text of its address and whether it is IPv4, or another.\<close>

datatype net_addr = IPNet string bool | OtherAddr

record interface =
  if_Name :: string
  if_Up :: bool
  if_Addrs :: "net_addr list result"

definition InterfaceByName :: "interface list \<Rightarrow> string \<Rightarrow> interface option" where
  "InterfaceByName ifs n = find (\<lambda>i. if_Name i = n) ifs"

definition last_ipv4 :: "net_addr list \<Rightarrow> string \<Rightarrow> string" where
  "last_ipv4 addrs ip = foldl (\<lambda>ip a. case a of IPNet t True \<Rightarrow> t | _ \<Rightarrow> ip) ip addrs"

definition GetLocalIP :: "interface list result \<Rightarrow> string" where
  "GetLocalIP r =
    (case r of
       Inl _ \<Rightarrow> ''0.0.0.0''
     | Inr ifs \<Rightarrow>
         (let ifnum = length (filter (\<lambda>i. if_Up i \<and> (if_Name i = ''eth0'' \<or> if_Name i = ''eth1'')) ifs);
              ifname = (if ifnum = 1 then ''eth0'' else ''eth1'')
          in case InterfaceByName ifs ifname of
               None \<Rightarrow> ''0.0.0.0''
             | Some intf \<Rightarrow>
                 (case if_Addrs intf of Inl _ \<Rightarrow> ''0.0.0.0'' | Inr addrs \<Rightarrow> last_ipv4 addrs ''0.0.0.0'')))"

subsection \<open>Which address\<close>

lemma last_ipv4_skips: "\<forall>u. IPNet u True \<notin> set bs \<Longrightarrow> last_ipv4 bs ip = ip"
  by (induction bs arbitrary: ip) (auto simp: last_ipv4_def split: net_addr.splits bool.splits)

lemma last_ipv4_append: "\<forall>u. IPNet u True \<notin> set bs \<Longrightarrow> last_ipv4 (as @ IPNet t True # bs) ip = t"
  using last_ipv4_skips by (simp add: last_ipv4_def)

text \<open>With both interfaces up it is the last IPv4 address of the second.\<close>

lemma GetLocalIP_both:
  assumes "if_Name a = ''eth0''" "if_Name b = ''eth1''" "if_Up a" "if_Up b" "if_Addrs b = Inr (as @ IPNet t True # bs)"
    and "\<forall>u. IPNet u True \<notin> set bs"
  shows "GetLocalIP (Inr [a, b]) = t"
  using assms by (simp add: GetLocalIP_def InterfaceByName_def last_ipv4_append)

text \<open>A host with only \<open>eth1\<close> up is asked for its \<open>eth0\<close>: all such hosts, and all those that name their
  interfaces otherwise, have one address.\<close>

lemma only_eth1_unknown:
  assumes "if_Name b = ''eth1''" "if_Up b"
  shows "GetLocalIP (Inr [b]) = ''0.0.0.0''"
  using assms by (simp add: GetLocalIP_def InterfaceByName_def)

lemma other_names_unknown:
  assumes "\<forall>i\<in>set ifs. if_Name i \<noteq> ''eth0'' \<and> if_Name i \<noteq> ''eth1''"
  shows "GetLocalIP (Inr ifs) = ''0.0.0.0''"
proof -
  have "InterfaceByName ifs ''eth1'' = None" using assms by (auto simp: InterfaceByName_def find_None_iff)
  moreover have "filter (\<lambda>i. if_Up i \<and> (if_Name i = ''eth0'' \<or> if_Name i = ''eth1'')) ifs = []"
    using assms by (auto simp: filter_empty_conv)
  ultimately show ?thesis by (simp add: GetLocalIP_def)
qed

subsection \<open>Name servers\<close>

text \<open>The regular expression of a line: white space, \<open>nameserver\<close>, white space, four numbers with points between
  them (the group that is taken), white space. No character can belong to two neighbouring parts, so each part
  takes all that it can.\<close>

definition re_space :: "char \<Rightarrow> bool" where
  "re_space c \<longleftrightarrow> byte_val c \<in> {9, 10, 12, 13, 32}"

fun dotted_numbers :: "nat \<Rightarrow> string \<Rightarrow> (string \<times> string) option" where
  "dotted_numbers n s =
    (let ds = takeWhile is_digit s; r = dropWhile is_digit s
     in if ds = [] then None
        else case n of
               0 \<Rightarrow> Some (ds, r)
             | Suc m \<Rightarrow> (case r of
                 c # cs \<Rightarrow> if c = CHR ''.'' then map_option (\<lambda>(t, r'). (ds @ c # t, r')) (dotted_numbers m cs) else None
               | [] \<Rightarrow> None))"

definition nameserver_line :: "string \<Rightarrow> string option" where
  "nameserver_line line =
    (let s = dropWhile re_space line
     in if \<not> HasPrefix s ''nameserver'' then None
        else case dotted_numbers 3 (dropWhile re_space (drop 10 s)) of
               Some (ip, r) \<Rightarrow> if list_all re_space r then Some ip else None
             | None \<Rightarrow> None)"

definition GetNameserversAsCIDR :: "string \<Rightarrow> string list" where
  "GetNameserversAsCIDR resolvConf =
    List.map_filter (\<lambda>line. map_option (\<lambda>ip. ip @ ''/32'') (nameserver_line line))
      (Split (CHR 0x0A) (StripComments resolvConf ''#''))"

lemma dotted_numbers_text:
  assumes "a \<noteq> []" "b \<noteq> []" "c \<noteq> []" "d \<noteq> []" "list_all is_digit (a @ b @ c @ d)" "r = [] \<or> \<not> is_digit (hd r)"
  shows "dotted_numbers 3 (a @ ''.'' @ b @ ''.'' @ c @ ''.'' @ d @ r) = Some (a @ ''.'' @ b @ ''.'' @ c @ ''.'' @ d, r)"
proof -
  have w: "takeWhile is_digit (x @ y) = x \<and> dropWhile is_digit (x @ y) = y"
    if "list_all is_digit x" "y = [] \<or> \<not> is_digit (hd y)" for x y
    using that by (induction x) (cases y; simp)+
  have "\<not> is_digit (CHR ''.'')" by (simp add: is_digit_def byte_val_def)
  then show ?thesis using assms w by (simp add: numeral_3_eq_3)
qed

text \<open>A line as such files have it is found; the numbers are not checked to be bytes.\<close>

lemma nameserver_found:
  assumes "a \<noteq> []" "b \<noteq> []" "c \<noteq> []" "d \<noteq> []" "list_all is_digit (a @ b @ c @ d)"
  shows "nameserver_line (''nameserver '' @ a @ ''.'' @ b @ ''.'' @ c @ ''.'' @ d) = Some (a @ ''.'' @ b @ ''.'' @ c @ ''.'' @ d)"
proof -
  obtain x xs where a: "a = x # xs" "is_digit x" using assms(1,5) by (cases a) auto
  then have "\<not> re_space x" by (auto simp: is_digit_def re_space_def)
  then have "dropWhile re_space (CHR '' '' # a @ t) = a @ t" for t by (simp add: a re_space_def byte_val_def)
  then show ?thesis using dotted_numbers_text[OF assms, of "[]"]
    by (simp add: nameserver_line_def HasPrefix_def re_space_def byte_val_def)
qed

subsection \<open>Other services of the system\<close>

text \<open>
  Helpers of \<open>utils/utils.go\<close> that ask the operating system or another service: where the program and its init
  program are, copying a file, and small requests. What the system answers is a parameter of each; \<open>None\<close> is
  a panic.
\<close>

subsection \<open>Paths\<close>

datatype path_error = NotExist | PathError string

record os_paths =
  look_path :: "string \<Rightarrow> path_error + string"
  abs_path :: "string \<Rightarrow> path_error + string"
  lstat :: "string \<Rightarrow> nat option"
  read_file :: "string \<Rightarrow> string option"
  os_sha1 :: "string \<Rightarrow> string"
  IAMSTATIC :: bool
  INITSHA1 :: string
  INITPATH :: string

text \<open>A path, empty when there is none; any other error panics.\<close>

definition path_or_empty :: "path_error + string \<Rightarrow> string option" where
  "path_or_empty r = (case r of Inr p \<Rightarrow> Some p | Inl NotExist \<Rightarrow> Some [] | Inl (PathError _) \<Rightarrow> None)"

definition SelfPath :: "os_paths \<Rightarrow> string \<Rightarrow> string option" where
  "SelfPath os arg0 =
    (case look_path os arg0 of
       Inr path \<Rightarrow> path_or_empty (abs_path os path)
     | Inl e \<Rightarrow> path_or_empty (Inl e))"

definition dockerInitSha1 :: "os_paths \<Rightarrow> string \<Rightarrow> string" where
  "dockerInitSha1 os target =
    (case read_file os target of None \<Rightarrow> [] | Some content \<Rightarrow> EncodeToString (os_sha1 os content))"

definition isValidDockerInitPath :: "os_paths \<Rightarrow> string \<Rightarrow> string \<Rightarrow> bool" where
  "isValidDockerInitPath os target selfPath \<longleftrightarrow>
    (if target = [] then False
     else if IAMSTATIC os then
       (if selfPath = [] then False
        else if target = selfPath then True
        else case (lstat os target, lstat os selfPath) of (Some a, Some b) \<Rightarrow> a = b | _ \<Rightarrow> False)
     else INITSHA1 os \<noteq> [] \<and> dockerInitSha1 os target = INITSHA1 os)"

fun first_init :: "os_paths \<Rightarrow> string \<Rightarrow> string list \<Rightarrow> string option" where
  "first_init os selfPath [] = Some []"
| "first_init os selfPath (p # ps) =
    (if p = [] then first_init os selfPath ps
     else case look_path os p of
       Inl _ \<Rightarrow> first_init os selfPath ps
     | Inr path \<Rightarrow>
         (case abs_path os path of
            Inl _ \<Rightarrow> None
          | Inr path' \<Rightarrow> if isValidDockerInitPath os path' selfPath then Some path' else first_init os selfPath ps))"

text \<open>\<open>dir_init\<close> is \<open>filepath.Join(filepath.Dir(selfPath), "dockerinit")\<close>.\<close>

definition DockerInitPath :: "os_paths \<Rightarrow> (string \<Rightarrow> string) \<Rightarrow> string \<Rightarrow> string \<Rightarrow> string option" where
  "DockerInitPath os dir_init arg0 localCopy =
    (case SelfPath os arg0 of
       None \<Rightarrow> None
     | Some selfPath \<Rightarrow>
         if isValidDockerInitPath os selfPath selfPath then Some selfPath
         else first_init os selfPath
           [localCopy, INITPATH os, dir_init selfPath,
            ''/usr/libexec/docker/dockerinit'', ''/usr/local/libexec/docker/dockerinit'',
            ''/usr/lib/docker/dockerinit'', ''/usr/local/lib/docker/dockerinit''])"

text \<open>What is found is valid.\<close>

lemma first_init_valid:
  "first_init os selfPath ps = Some p \<Longrightarrow> p \<noteq> [] \<Longrightarrow> isValidDockerInitPath os p selfPath"
  by (induction ps) (auto split: if_splits sum.splits)

lemma DockerInitPath_valid:
  assumes "DockerInitPath os dir_init arg0 localCopy = Some p" "p \<noteq> []"
  shows "\<exists>selfPath. SelfPath os arg0 = Some selfPath \<and> isValidDockerInitPath os p selfPath"
proof -
  obtain self where s: "SelfPath os arg0 = Some self" using assms(1) by (auto simp: DockerInitPath_def split: option.splits)
  then show ?thesis using assms first_init_valid
    by (auto simp: DockerInitPath_def simp del: first_init.simps split: if_splits)
qed

subsection \<open>Copying a file\<close>

text \<open>Files by their paths; \<open>can_open\<close>, \<open>can_remove\<close> and \<open>can_create\<close> say what is allowed, and an error is named by the
  operation that failed.\<close>

type_synonym files = "string \<Rightarrow> string option"

record permissions =
  can_open :: "string \<Rightarrow> bool"
  can_remove :: "string \<Rightarrow> bool"
  can_create :: "string \<Rightarrow> bool"

definition CopyFile :: "permissions \<Rightarrow> string \<Rightarrow> string \<Rightarrow> files \<Rightarrow> files \<times> nat \<times> string option" where
  "CopyFile perm src dst fs =
    (if src = dst then (fs, 0, None)
     else case fs src of
       None \<Rightarrow> (fs, 0, Some ''open'')
     | Some content \<Rightarrow>
         if \<not> can_open perm src then (fs, 0, Some ''open'')
         else if fs dst \<noteq> None \<and> \<not> can_remove perm dst then (fs, 0, Some ''remove'')
         else let fs1 = fs(dst := None)
              in if \<not> can_create perm dst then (fs1, 0, Some ''create'')
                 else (fs1(dst \<mapsto> content), length content, None))"

lemma CopyFile_ok:
  assumes "CopyFile perm src dst fs = (fs', n, None)" "src \<noteq> dst"
  shows "fs' = fs(dst := fs src) \<and> fs' src = fs src \<and> (\<exists>c. fs src = Some c \<and> n = length c)"
  using assms by (auto simp: CopyFile_def Let_def split: option.splits if_splits)

text \<open>The old file is removed first: when the new one cannot be created, both are missing.\<close>

lemma CopyFile_loses:
  assumes "fs src = Some c" "can_open perm src" "can_remove perm dst" "\<not> can_create perm dst" "src \<noteq> dst"
  shows "CopyFile perm src dst fs = (fs(dst := None), 0, Some ''create'')"
  using assms by (simp add: CopyFile_def)

subsection \<open>Requests\<close>

text \<open>A response is its status, the length it announces and its body, or an error of reading it.\<close>

definition Download :: "(string \<Rightarrow> (int \<times> string) result) \<Rightarrow> string \<Rightarrow> (int \<times> string) result" where
  "Download http_get url =
    (case http_get url of
       Inl err \<Rightarrow> Inl err
     | Inr (statusCode, status) \<Rightarrow>
         if 400 \<le> statusCode then Inl (GoErr (''Got HTTP status code >= 400: '' @ status)) else Inr (statusCode, status))"

definition GetReleaseVersion :: "(string \<Rightarrow> (int \<times> int \<times> string result) result) \<Rightarrow> string" where
  "GetReleaseVersion http_get =
    (case http_get ''http://get.docker.io/latest'' of
       Inl _ \<Rightarrow> []
     | Inr (statusCode, contentLength, body) \<Rightarrow>
         if 24 < contentLength \<or> statusCode \<noteq> 200 then []
         else (case body of Inl _ \<Rightarrow> [] | Inr b \<Rightarrow> TrimSpace b))"

definition HashData :: "(string \<Rightarrow> string) \<Rightarrow> string result \<Rightarrow> string result" where
  "HashData sha256 src = (case src of Inl err \<Rightarrow> Inl err | Inr b \<Rightarrow> Inr (''sha256:'' @ EncodeToString (sha256 b)))"

definition GetTotalUsedFds :: "string list result \<Rightarrow> int" where
  "GetTotalUsedFds dir = (case dir of Inl _ \<Rightarrow> -1 | Inr fds \<Rightarrow> int (length fds))"

text \<open>\<open>CopyDirectory\<close> runs \<open>cp\<close>, whose answer is its output and the error.\<close>

definition CopyDirectory :: "(string list \<Rightarrow> string \<times> go_error option) \<Rightarrow> string \<Rightarrow> string \<Rightarrow> string option" where
  "CopyDirectory run source dest =
    (case run [''cp'', ''-ra'', source, dest] of
       (output, Some err) \<Rightarrow>
         Some (''Error copy: '' @ (case err of GoErr t \<Rightarrow> t | ErrNil \<Rightarrow> ''redigo: nil returned'') @ '' ('' @ output @ '')'')
     | (_, None) \<Rightarrow> None)"

subsection \<open>Files and callers\<close>

text \<open>\<open>GetResolvConf\<close>; \<open>read\<close> is \<open>ioutil.ReadFile\<close>.\<close>

definition GetResolvConf :: "(string \<Rightarrow> string result) \<Rightarrow> string result" where
  "GetResolvConf read = read ''/etc/resolv.conf''"

text \<open>The last part of the name of the function that \<open>runtime.Caller\<close> finds at a depth.\<close>

definition GetCallerName :: "(nat \<Rightarrow> string) \<Rightarrow> nat \<Rightarrow> string" where
  "GetCallerName caller depth = last (Split (CHR ''.'') (caller (depth + 1)))"

text \<open>A directory that is made and removed again, so that \<open>cp\<close> can make it. \<open>temp_dir\<close> is \<open>ioutil.TempDir\<close>, whose error
  is overwritten by that of \<open>remove\<close>; \<open>rnd\<close> is what \<open>RandomString\<close> returns. The result is the directory, the error and
  the new \<open>globalTestID\<close>.\<close>

definition TestDirectory :: "(string \<Rightarrow> string \<times> go_error option) \<Rightarrow> (string \<Rightarrow> string option) \<Rightarrow> (string list \<Rightarrow> string \<times> go_error option)
    \<Rightarrow> (nat \<Rightarrow> string) \<Rightarrow> string \<Rightarrow> string \<Rightarrow> string \<Rightarrow> string \<times> string option \<times> string" where
  "TestDirectory temp_dir remove run caller rnd templateDir globalTestID =
    (let testID = (if globalTestID = [] then take 4 rnd else globalTestID);
         dir = fst (temp_dir (''docker-test'' @ testID @ ''-'' @ GetCallerName caller 2 @ ''-''))
     in case remove dir of
          Some err \<Rightarrow> (dir, Some err, testID)
        | None \<Rightarrow>
            if templateDir \<noteq> [] then (dir, CopyDirectory run templateDir dir, testID) else (dir, None, testID))"

lemma TestDirectory_prefix:
  assumes "\<And>p. fst (temp_dir p) = p"
  shows "\<exists>rest. fst (TestDirectory temp_dir remove run caller rnd templateDir globalTestID) = ''docker-test'' @ rest"
  using assms by (auto simp: TestDirectory_def Let_def split: option.splits)

subsection \<open>Log helpers\<close>

text \<open>What \<open>logf\<close> prints to the standard error output. The line is a format of its own: the name of the file, which is
  what \<open>runtime.Caller\<close> gives, and the level are read by \<open>fprintf\<close> like the format of the caller.\<close>

definition logf_format :: "(string \<times> int) option \<Rightarrow> string \<Rightarrow> string \<Rightarrow> string" where
  "logf_format caller level format =
    (let (file, line) = (case caller of None \<Rightarrow> (''<unknown>'', -1) | Some (f, l) \<Rightarrow> (last (Split (CHR ''/'') f), l))
     in ''['' @ level @ ''] '' @ file @ '':'' @ FormatInt line @ '' '' @ format @ [CHR 0x0A])"

definition logf :: "(string \<Rightarrow> 'a list \<Rightarrow> string) \<Rightarrow> (string \<times> int) option \<Rightarrow> string \<Rightarrow> string \<Rightarrow> 'a list \<Rightarrow> string" where
  "logf fprintf caller level format a = fprintf (logf_format caller level format) a"

definition Debugf :: "(string \<Rightarrow> 'a list \<Rightarrow> string) \<Rightarrow> (string \<Rightarrow> string) \<Rightarrow> (string \<times> int) option \<Rightarrow> string \<Rightarrow> 'a list \<Rightarrow> string" where
  "Debugf fprintf getenv caller format a = (if getenv ''DEBUG'' \<noteq> [] then logf fprintf caller ''debug'' format a else [])"

definition Errorf :: "(string \<Rightarrow> 'a list \<Rightarrow> string) \<Rightarrow> (string \<times> int) option \<Rightarrow> string \<Rightarrow> 'a list \<Rightarrow> string" where
  "Errorf fprintf caller format a = logf fprintf caller ''error'' format a"

text \<open>The milliseconds of the time of a log call, of which the nanoseconds within the second are given.\<close>

definition SeelogFormatterMs :: "nat \<Rightarrow> string" where
  "SeelogFormatterMs nanosecond = zero_pad 3 (nanosecond div 1000000)"

lemma SeelogFormatterMs_width:
  assumes "ns < 1000000000"
  shows "length (SeelogFormatterMs ns) = 3"
proof -
  have "length (format_nat n) \<le> 3" if "n < 1000" for n
    using that by (auto simp: format_nat.simps[of n] format_nat.simps[of "n div 10"] format_nat.simps[of "n div 10 div 10"])
  then have "length (format_nat (ns div 1000000)) \<le> 3" using assms by simp
  then show ?thesis by (simp add: SeelogFormatterMs_def zero_pad_def)
qed

end
